(* ===== verification/Prelude.thy ===== *)
theory Prelude
  imports Main "HOL-Library.Word"
begin

text \<open>
  Shared vocabulary of the development: Python values as HOL types, exceptions as
  values, and the byte-level building blocks that several modules of the program use
  (big-endian integers, UTF-8, hexadecimal, length-prefixed framing).

  \<^item> A Python \<open>str\<close> is a list of code points (\<open>pystr\<close>), a Python \<open>bytes\<close> a list of
    8-bit words (\<open>bytes\<close>), a Python \<open>int\<close> an \<open>int\<close>.
  \<^item> A call that may raise returns \<open>exc + 'a\<close>, with \<open>Inl\<close> for the exception.
  \<^item> The collections below gather the rewrite rules that the component
    theories hand to the simplifier.
\<close>

named_theorems frame_simps \<open>byte framing: lengths, integers, round trips\<close>
named_theorems db_simps \<open>connections and tables\<close>

section \<open>Values and exceptions\<close>

type_synonym byte = "8 word"
type_synonym bytes = "byte list"
type_synonym pystr = "nat list"

datatype exc =
    IntegrityError
  | OverflowError
  | UnicodeEncodeError
  | UnicodeDecodeError
  | ValueError
  | TypeError
  | KeyError
  | AttributeError
  | IdError
  | ClockUntrusted
  | ProviderError
  | DraftRefused string
  | GrantRejected string
  | RelayRejected string
  | TemplateRefused string
  | SchedulerError
  | OAuthError string
  | InterfaceError
  | StructError
  | InvalidTag
  | BadEnvelope
  | KeyUnavailable
  | AeadAuthFailed
  | DeviceSealError
  | KeyExists
  | KeyMissing
  | KeyStillReferenced
  | QueryTooComplex
  | ImportRefused string
  | HostileZip string
  | AmbiguousTranscript
  | OSError
  | KeyStoreError
  | DatabaseError
  | FileNotFoundError
  | ContentInLogError
  | CapabilityError
  | AuthError string
  | RuntimeError
  | BadZipFile

text \<open>A string literal of the source, as code points.\<close>

definition lit :: "string \<Rightarrow> pystr" where
  "lit s = map of_char s"

lemma lit_inject [simp]: "lit s = lit t \<longleftrightarrow> s = t"
proof
  assume "lit s = lit t"
  moreover have "inj (of_char :: char \<Rightarrow> nat)" by (rule inj_of_char)
  ultimately show "s = t" by (simp add: lit_def inj_map_eq_map)
qed simp

lemma lit_append: "lit (s @ t) = lit s @ lit t"
  by (simp add: lit_def)

lemma lit_Nil [simp]: "lit [] = []" and lit_eq_Nil [simp]: "lit s = [] \<longleftrightarrow> s = []"
  by (simp_all add: lit_def)

text \<open>Truth value of an optional string: \<open>None\<close> and the empty string are false.\<close>

definition truthy :: "'a list option \<Rightarrow> bool" where
  "truthy v = (case v of None \<Rightarrow> False | Some s \<Rightarrow> s \<noteq> [])"

lemma truthy_simps [simp]:
  "truthy None = False" "truthy (Some s) = (s \<noteq> [])"
  by (simp_all add: truthy_def)

section \<open>Big-endian integers\<close>

primrec be_bytes :: "nat \<Rightarrow> nat \<Rightarrow> bytes" where
  "be_bytes 0 n = []"
| "be_bytes (Suc k) n = be_bytes k (n div 256) @ [of_nat (n mod 256)]"

definition from_be :: "bytes \<Rightarrow> nat" where
  "from_be bs = foldl (\<lambda>a b. a * 256 + unat b) 0 bs"

text \<open>\<open>n.to_bytes(k, "big")\<close>: raises for a negative or too large value.\<close>

definition to_bytes_be :: "nat \<Rightarrow> int \<Rightarrow> exc + bytes" where
  "to_bytes_be k i = (if 0 \<le> i \<and> i < 256 ^ k then Inr (be_bytes k (nat i)) else Inl OverflowError)"

lemma length_be_bytes [simp, frame_simps]: "length (be_bytes k n) = k"
  by (induction k arbitrary: n) auto

lemma unat_of_nat_byte [simp]: "unat (of_nat (n mod 256) :: byte) = n mod 256"
  by (simp add: unat_of_nat)

lemma from_be_snoc [simp]: "from_be (bs @ [b]) = from_be bs * 256 + unat b"
  by (simp add: from_be_def)

lemma from_be_be_bytes [frame_simps]: "n < 256 ^ k \<Longrightarrow> from_be (be_bytes k n) = n"
proof (induction k arbitrary: n)
  case 0
  then show ?case by (simp add: from_be_def)
next
  case (Suc k)
  from Suc.prems have "n div 256 < 256 ^ k"
    by (simp add: less_mult_imp_div_less mult.commute)
  with Suc.IH show ?case by simp
qed

lemma be_bytes_inject:
  "a < 256 ^ k \<Longrightarrow> b < 256 ^ k \<Longrightarrow> be_bytes k a = be_bytes k b \<longleftrightarrow> a = b"
  by (metis from_be_be_bytes)

lemma to_bytes_be_Inr:
  "to_bytes_be k i = Inr b \<longleftrightarrow> 0 \<le> i \<and> i < 256 ^ k \<and> b = be_bytes k (nat i)"
  by (auto simp: to_bytes_be_def)

lemma to_bytes_be_inject:
  assumes "to_bytes_be k i = Inr b" and "to_bytes_be k j = Inr b"
  shows "i = j"
proof -
  have bound: "nat x < 256 ^ k" if "0 \<le> x" "x < 256 ^ k" for x
    using that by (simp add: nat_less_iff)
  from assms have "be_bytes k (nat i) = be_bytes k (nat j)"
    and ij: "0 \<le> i" "i < 256 ^ k" "0 \<le> j" "j < 256 ^ k"
    by (auto simp: to_bytes_be_Inr)
  then have "nat i = nat j" using bound be_bytes_inject by blast
  with ij show ?thesis by simp
qed

lemma to_bytes_be_length: "to_bytes_be k i = Inr b \<Longrightarrow> length b = k"
  by (auto simp: to_bytes_be_Inr)

section \<open>UTF-8\<close>

text \<open>
  \<open>str.encode("utf-8")\<close>: a surrogate code point raises; values at or above
  \<open>0x110000\<close> are no code points at all and are rejected with it.
\<close>

definition utf8_char :: "nat \<Rightarrow> exc + bytes" where
  "utf8_char c =
     (if c < 128 then Inr [of_nat c]
      else if c < 2048 then Inr [of_nat (192 + c div 64), of_nat (128 + c mod 64)]
      else if 55296 \<le> c \<and> c < 57344 then Inl UnicodeEncodeError
      else if c < 65536 then
        Inr [of_nat (224 + c div 4096), of_nat (128 + c div 64 mod 64), of_nat (128 + c mod 64)]
      else if c < 1114112 then
        Inr [of_nat (240 + c div 262144), of_nat (128 + c div 4096 mod 64),
             of_nat (128 + c div 64 mod 64), of_nat (128 + c mod 64)]
      else Inl UnicodeEncodeError)"

primrec utf8 :: "pystr \<Rightarrow> exc + bytes" where
  "utf8 [] = Inr []"
| "utf8 (c # cs) =
     (case utf8_char c of Inl e \<Rightarrow> Inl e
      | Inr b \<Rightarrow> (case utf8 cs of Inl e \<Rightarrow> Inl e | Inr bs \<Rightarrow> Inr (b @ bs)))"

text \<open>\<open>bytes.decode("utf-8")\<close>, strict: overlong forms and surrogates are rejected.\<close>

definition is_cont :: "byte \<Rightarrow> bool" where
  "is_cont b \<longleftrightarrow> 128 \<le> unat b \<and> unat b < 192"

definition cont_val :: "byte \<Rightarrow> nat" where
  "cont_val b = unat b - 128"

definition cons_ok :: "bool \<Rightarrow> nat \<Rightarrow> pystr option \<Rightarrow> pystr option" where
  "cons_ok g c r = (if g then map_option (Cons c) r else None)"

fun utf8_decode :: "bytes \<Rightarrow> pystr option" where
  "utf8_decode [] = Some []"
| "utf8_decode (a # bs) =
     (let x = unat a in
      if x < 128 then cons_ok True x (utf8_decode bs)
      else if 194 \<le> x \<and> x < 224 then
        (case bs of
           b # r \<Rightarrow> cons_ok (is_cont b) ((x - 192) * 64 + cont_val b) (utf8_decode r)
         | _ \<Rightarrow> None)
      else if 224 \<le> x \<and> x < 240 then
        (case bs of
           b # c # r \<Rightarrow>
             (let v = (x - 224) * 4096 + cont_val b * 64 + cont_val c in
              cons_ok (is_cont b \<and> is_cont c \<and> 2048 \<le> v \<and> \<not> (55296 \<le> v \<and> v < 57344)) v
                (utf8_decode r))
         | _ \<Rightarrow> None)
      else if 240 \<le> x \<and> x < 245 then
        (case bs of
           b # c # d # r \<Rightarrow>
             (let v = (x - 240) * 262144 + cont_val b * 4096 + cont_val c * 64 + cont_val d in
              cons_ok (is_cont b \<and> is_cont c \<and> is_cont d \<and> 65536 \<le> v \<and> v < 1114112) v
                (utf8_decode r))
         | _ \<Rightarrow> None)
      else None)"

lemma unat_of_nat_small: "n < 256 \<Longrightarrow> unat (of_nat n :: byte) = n"
  by (simp add: unat_of_nat)

lemma cont_of_nat [simp]:
  "is_cont (of_nat (128 + n mod 64))" "cont_val (of_nat (128 + n mod 64)) = n mod 64"
proof -
  have "n mod 64 < 64" by simp
  then have "unat (of_nat (128 + n mod 64) :: byte) = 128 + n mod 64"
    by (intro unat_of_nat_small) linarith
  with \<open>n mod 64 < 64\<close>
  show "is_cont (of_nat (128 + n mod 64))" "cont_val (of_nat (128 + n mod 64)) = n mod 64"
    by (simp_all add: is_cont_def cont_val_def)
qed

lemma utf8_decode_char:
  assumes "utf8_char c = Inr b"
  shows "utf8_decode (b @ r) = map_option (Cons c) (utf8_decode r)"
proof -
  consider "c < 128" | "128 \<le> c" "c < 2048" | "2048 \<le> c" "c < 65536" "\<not> (55296 \<le> c \<and> c < 57344)"
    | "65536 \<le> c" "c < 1114112"
    using assms by (fastforce simp: utf8_char_def split: if_splits)
  then show ?thesis
  proof cases
    case 1
    with assms show ?thesis
      by (auto simp: utf8_char_def unat_of_nat_small cons_ok_def)
  next
    case 2
    have "c div 64 < 32" "2 \<le> c div 64" "192 + c div 64 < 256" using 2 by simp_all
    then have "unat (of_nat (192 + c div 64) :: byte) = 192 + c div 64"
      by (intro unat_of_nat_small)
    moreover have "b = [of_nat (192 + c div 64), of_nat (128 + c mod 64)]"
      using assms 2 by (simp add: utf8_char_def)
    moreover have "c div 64 * 64 + c mod 64 = c" by simp
    ultimately show ?thesis using \<open>c div 64 < 32\<close> \<open>2 \<le> c div 64\<close>
      by (simp add: cons_ok_def Let_def del: of_nat_add)
  next
    case 3
    have q: "c div 4096 < 16" "224 + c div 4096 < 256" using 3 by simp_all
    then have "unat (of_nat (224 + c div 4096) :: byte) = 224 + c div 4096"
      by (intro unat_of_nat_small)
    moreover have "b = [of_nat (224 + c div 4096), of_nat (128 + c div 64 mod 64), of_nat (128 + c mod 64)]"
      using assms 3 by (auto simp: utf8_char_def split: if_splits)
    moreover have "c div 4096 * 4096 + c div 64 mod 64 * 64 + c mod 64 = c"
    proof -
      have "c div 64 div 64 = c div 4096" by (simp add: div_mult2_eq [symmetric])
      then have "c div 4096 * 64 + c div 64 mod 64 = c div 64"
        using div_mult_mod_eq [of "c div 64" 64] by simp
      moreover have "c div 64 * 64 + c mod 64 = c" by (rule div_mult_mod_eq)
      ultimately show ?thesis by linarith
    qed
    ultimately show ?thesis using q 3
      by (simp add: cons_ok_def Let_def del: of_nat_add)
  next
    case 4
    have q: "c div 262144 < 5" "240 + c div 262144 < 256" using 4 by simp_all
    then have "unat (of_nat (240 + c div 262144) :: byte) = 240 + c div 262144"
      by (intro unat_of_nat_small)
    moreover have "b = [of_nat (240 + c div 262144), of_nat (128 + c div 4096 mod 64),
        of_nat (128 + c div 64 mod 64), of_nat (128 + c mod 64)]"
      using assms 4 by (simp add: utf8_char_def)
    moreover have "c div 262144 * 262144 + c div 4096 mod 64 * 4096 + c div 64 mod 64 * 64 + c mod 64 = c"
    proof -
      have "c div 64 div 64 = c div 4096" "c div 4096 div 64 = c div 262144"
        by (simp_all add: div_mult2_eq [symmetric])
      then have "c div 4096 * 64 + c div 64 mod 64 = c div 64"
        "c div 262144 * 64 + c div 4096 mod 64 = c div 4096"
        using div_mult_mod_eq [of "c div 64" 64] div_mult_mod_eq [of "c div 4096" 64] by simp_all
      moreover have "c div 64 * 64 + c mod 64 = c" by (rule div_mult_mod_eq)
      ultimately show ?thesis by linarith
    qed
    ultimately show ?thesis using q 4
      by (simp add: cons_ok_def Let_def del: of_nat_add)
  qed
qed

lemma utf8_roundtrip [frame_simps]: "utf8 s = Inr b \<Longrightarrow> utf8_decode b = Some s"
  by (induction s arbitrary: b) (auto simp: utf8_decode_char split: sum.splits simp del: utf8_decode.simps(2))

lemma utf8_inject: "utf8 s = Inr b \<Longrightarrow> utf8 t = Inr b \<Longrightarrow> s = t"
  by (metis utf8_roundtrip option.inject)

lemma utf8_Nil_iff: "utf8 s = Inr [] \<longleftrightarrow> s = []"
  using utf8_inject [of s "[]" "[]"] by auto

section \<open>Length-prefixed framing\<close>

text \<open>
  \<open>len(b).to_bytes(4, "big") + b\<close>, the frame shared by the canonical encodings, the
  enrolment binding, the dedupe keys and the fingerprints. A frame of \<open>2^32\<close> bytes or
  more raises, as \<open>to_bytes\<close> does.
\<close>

definition lp :: "bytes \<Rightarrow> exc + bytes" where
  "lp b = (case to_bytes_be 4 (int (length b)) of Inl e \<Rightarrow> Inl e | Inr l \<Rightarrow> Inr (l @ b))"

primrec lp_all :: "bytes list \<Rightarrow> exc + bytes" where
  "lp_all [] = Inr []"
| "lp_all (b # bs) =
     (case lp b of Inl e \<Rightarrow> Inl e
      | Inr x \<Rightarrow> (case lp_all bs of Inl e \<Rightarrow> Inl e | Inr y \<Rightarrow> Inr (x @ y)))"

lemma lp_Inr: "lp b = Inr x \<longleftrightarrow> length b < 256 ^ 4 \<and> x = be_bytes 4 (length b) @ b"
proof -
  have "int (length b) < 256 ^ 4 \<longleftrightarrow> length b < 256 ^ 4"
    by simp
  then show ?thesis by (auto simp: lp_def to_bytes_be_def)
qed

lemma lp_not_Nil: "lp b = Inr x \<Longrightarrow> x \<noteq> []"
  by (metis append_is_Nil_conv length_0_conv length_be_bytes lp_Inr zero_neq_numeral)

text \<open>A frame followed by anything can be split in one way only.\<close>

lemma lp_append_inject:
  assumes "lp a = Inr x" "lp b = Inr y" "x @ r = y @ s"
  shows "a = b \<and> r = s"
proof -
  from assms have la: "length a < 256 ^ 4" "length b < 256 ^ 4"
    and eq: "be_bytes 4 (length a) @ a @ r = be_bytes 4 (length b) @ b @ s"
    by (auto simp: lp_Inr)
  from eq have "be_bytes 4 (length a) = be_bytes 4 (length b)" and rest: "a @ r = b @ s"
    by (simp_all add: append_eq_append_conv)
  with la have "length a = length b" using be_bytes_inject by blast
  with rest show ?thesis by simp
qed

lemma lp_all_append:
  "lp_all (xs @ ys) =
     (case lp_all xs of Inl e \<Rightarrow> Inl e
      | Inr x \<Rightarrow> (case lp_all ys of Inl e \<Rightarrow> Inl e | Inr y \<Rightarrow> Inr (x @ y)))"
  by (induction xs) (auto split: sum.splits)

text \<open>Hence a sequence of frames determines its parts, even their number.\<close>

lemma lp_all_inject:
  "lp_all xs = Inr b \<Longrightarrow> lp_all ys = Inr b \<Longrightarrow> xs = ys"
proof (induction xs arbitrary: ys b)
  case Nil
  then show ?case by (cases ys) (auto split: sum.splits dest: lp_not_Nil)
next
  case (Cons x xs)
  from Cons.prems(1) obtain u v where u: "lp x = Inr u" and v: "lp_all xs = Inr v" and b: "b = u @ v"
    by (auto split: sum.splits)
  show ?case
  proof (cases ys)
    case Nil
    with Cons.prems(2) b u show ?thesis by (auto dest: lp_not_Nil)
  next
    case (Cons y ys')
    with Cons.prems(2) obtain u' v' where u': "lp y = Inr u'" and v': "lp_all ys' = Inr v'" and b': "b = u' @ v'"
      by (auto split: sum.splits)
    from b b' have "u @ v = u' @ v'" by simp
    from lp_append_inject [OF u u' this] have "x = y" "v = v'" by auto
    with Cons.IH [OF v] v' Cons show ?thesis by simp
  qed
qed

text \<open>A prefix of parts of known number may be split off a longer sequence.\<close>

lemma lp_all_prefix_inject:
  assumes "lp_all xs = Inr x" "lp_all ys = Inr y" "length xs = length ys" "x @ r = y @ s"
  shows "xs = ys \<and> r = s"
  using assms(3,1,2,4)
proof (induction xs ys arbitrary: x y rule: list_induct2)
  case Nil
  then show ?case by simp
next
  case (Cons a xs b ys)
  from Cons.prems obtain u v where u: "lp a = Inr u" "lp_all xs = Inr v" "x = u @ v"
    by (auto split: sum.splits)
  from Cons.prems obtain u' v' where u': "lp b = Inr u'" "lp_all ys = Inr v'" "y = u' @ v'"
    by (auto split: sum.splits)
  from Cons.prems(3) u u' have "u @ (v @ r) = u' @ (v' @ s)" by simp
  from lp_append_inject [OF u(1) u'(1) this] have "a = b" "v @ r = v' @ s" by auto
  with Cons.IH [OF u(2) u'(2)] show ?case by simp
qed

section \<open>Hexadecimal\<close>

definition hex_digit :: "nat \<Rightarrow> nat option" where
  "hex_digit c =
     (if 48 \<le> c \<and> c \<le> 57 then Some (c - 48)
      else if 97 \<le> c \<and> c \<le> 102 then Some (c - 87)
      else if 65 \<le> c \<and> c \<le> 70 then Some (c - 55)
      else None)"

definition hex_char :: "nat \<Rightarrow> nat" where
  "hex_char n = (if n < 10 then 48 + n else 87 + n)"

text \<open>\<open>bytes.hex()\<close> and \<open>bytes.fromhex()\<close>, which skips ASCII white space between bytes.\<close>

definition hex_of :: "bytes \<Rightarrow> pystr" where
  "hex_of bs = concat (map (\<lambda>b. [hex_char (unat b div 16), hex_char (unat b mod 16)]) bs)"

definition ascii_space :: "nat \<Rightarrow> bool" where
  "ascii_space c \<longleftrightarrow> c = 32 \<or> (9 \<le> c \<and> c \<le> 13)"

fun fromhex :: "pystr \<Rightarrow> exc + bytes" where
  "fromhex [] = Inr []"
| "fromhex [c] = (if ascii_space c then Inr [] else Inl ValueError)"
| "fromhex (c # d # cs) =
     (if ascii_space c then fromhex (d # cs)
      else (case (hex_digit c, hex_digit d) of
              (Some h, Some l) \<Rightarrow>
                (case fromhex cs of Inl e \<Rightarrow> Inl e | Inr bs \<Rightarrow> Inr (of_nat (16 * h + l) # bs))
            | _ \<Rightarrow> Inl ValueError))"

lemma hex_digit_char: "n < 16 \<Longrightarrow> hex_digit (hex_char n) = Some n"
  by (auto simp: hex_digit_def hex_char_def)

lemma not_space_hex_char: "n < 16 \<Longrightarrow> \<not> ascii_space (hex_char n)"
  by (auto simp: ascii_space_def hex_char_def)

lemma fromhex_hex_of [frame_simps]: "fromhex (hex_of bs) = Inr bs"
proof (induction bs)
  case Nil
  then show ?case by (simp add: hex_of_def)
next
  case (Cons b bs)
  have lt: "unat b < 256" using unsigned_less [of b] by simp
  then have "unat b div 16 < 16" "unat b mod 16 < 16" by simp_all
  then show ?case using Cons
    by (simp add: hex_of_def hex_digit_char not_space_hex_char)
qed

lemma hex_of_inject: "hex_of a = hex_of b \<longleftrightarrow> a = b"
  by (metis fromhex_hex_of sum.inject(2))

lemma length_hex_of [simp]: "length (hex_of bs) = 2 * length bs"
  by (induction bs) (auto simp: hex_of_def)

end
