(* ===== verification/Store.thy ===== *)
theory Store
  imports Prelude
begin

text \<open>
  The SQLite connections as the program uses them through \<open>sqlcipher3\<close>'s DB-API.

  A connection \<open>conn\<close> has a working state, which every statement of the connection reads
  and writes, and a durable state, which is what a crash leaves behind. \<open>commit\<close> makes the
  working state durable, \<open>rollback\<close> and a crash return to the durable one. A table is the list
  of its rows in insertion order. \<open>INSERT\<close> checks the row against the table's \<open>CHECK\<close>,
  \<open>NOT NULL\<close> and foreign-key conditions and against the rows that are there, and raises
  \<open>IntegrityError\<close> with the table unchanged.

  The locale \<open>gate\<close> states the contract of a uniqueness gate (a table whose insert refuses a
  key it already holds) on which the replay protection of approvals, the dedupe ledger of
  the ingest pipeline and the single use of authorization codes rest.
\<close>

section \<open>Connections\<close>

record 'd conn =
  work :: 'd
  disk :: 'd

definition commit :: "'d conn \<Rightarrow> 'd conn" where
  "commit c = c\<lparr>disk := work c\<rparr>"

definition rollback :: "'d conn \<Rightarrow> 'd conn" where
  "rollback c = c\<lparr>work := disk c\<rparr>"

text \<open>The process dies and the database is opened again.\<close>

definition crash :: "'d conn \<Rightarrow> 'd conn" where
  "crash c = c\<lparr>work := disk c\<rparr>"

definition connect :: "'d \<Rightarrow> 'd conn" where
  "connect d = \<lparr>work = d, disk = d\<rparr>"

text \<open>No statement is pending: a connection between two calls of the program.\<close>

definition clean :: "'d conn \<Rightarrow> bool" where
  "clean c \<longleftrightarrow> work c = disk c"

lemma commit_simps [simp, db_simps]:
  "work (commit c) = work c" "disk (commit c) = work c" "clean (commit c)"
  by (simp_all add: commit_def clean_def)

lemma rollback_simps [simp, db_simps]:
  "work (rollback c) = disk c" "disk (rollback c) = disk c" "clean (rollback c)"
  by (simp_all add: rollback_def clean_def)

lemma crash_simps [simp, db_simps]:
  "work (crash c) = disk c" "disk (crash c) = disk c" "clean (crash c)"
  by (simp_all add: crash_def clean_def)

lemma connect_simps [simp, db_simps]:
  "work (connect d) = d" "disk (connect d) = d" "clean (connect d)"
  by (simp_all add: connect_def clean_def)

lemma clean_disk: "clean c \<Longrightarrow> disk c = work c"
  by (simp add: clean_def)

lemma clean_iff: "clean c \<longleftrightarrow> c = connect (work c)"
  by (cases c) (auto simp: clean_def connect_def)

section \<open>Tables\<close>

text \<open>
  \<open>ins ok clash r t\<close>: \<open>ok\<close> is the row's own condition, \<open>clash\<close> says when the new row violates
  a uniqueness condition against a row that is there.
\<close>

definition ins :: "('r \<Rightarrow> bool) \<Rightarrow> ('r \<Rightarrow> 'r \<Rightarrow> bool) \<Rightarrow> 'r \<Rightarrow> 'r list \<Rightarrow> exc + 'r list" where
  "ins ok clash r t =
     (if ok r \<and> \<not> list_ex (clash r) t then Inr (t @ [r]) else Inl IntegrityError)"

definition upd :: "('r \<Rightarrow> bool) \<Rightarrow> ('r \<Rightarrow> 'r) \<Rightarrow> 'r list \<Rightarrow> 'r list" where
  "upd p f t = map (\<lambda>r. if p r then f r else r) t"

definition rowcount :: "('r \<Rightarrow> bool) \<Rightarrow> 'r list \<Rightarrow> nat" where
  "rowcount p t = length (filter p t)"

definition del :: "('r \<Rightarrow> bool) \<Rightarrow> 'r list \<Rightarrow> 'r list" where
  "del p t = filter (\<lambda>r. \<not> p r) t"

text \<open>Uniqueness of a nullable column: SQL's \<open>NULL\<close> never equals \<open>NULL\<close>.\<close>

definition same_key :: "'k option \<Rightarrow> 'k option \<Rightarrow> bool" where
  "same_key a b \<longleftrightarrow> a \<noteq> None \<and> a = b"

lemma ins_Inr [db_simps]:
  "ins ok clash r t = Inr t' \<longleftrightarrow> ok r \<and> (\<forall>x\<in>set t. \<not> clash r x) \<and> t' = t @ [r]"
  by (auto simp: ins_def list_ex_iff)

lemma ins_Inl [db_simps]:
  "ins ok clash r t = Inl e \<longleftrightarrow> e = IntegrityError \<and> \<not> (ok r \<and> (\<forall>x\<in>set t. \<not> clash r x))"
  by (auto simp: ins_def list_ex_iff)

lemma set_upd: "set (upd p f t) = f ` {r \<in> set t. p r} \<union> {r \<in> set t. \<not> p r}"
  by (auto simp: upd_def)

lemma length_upd [simp]: "length (upd p f t) = length t"
  by (simp add: upd_def)

lemma upd_Nil [simp]: "upd p f [] = []"
  by (simp add: upd_def)

lemma map_upd_key:
  "(\<And>r. k (f r) = k r) \<Longrightarrow> map k (upd p f t) = map k t"
  by (induction t) (auto simp: upd_def)

lemma upd_idle: "(\<And>r. r \<in> set t \<Longrightarrow> \<not> p r) \<Longrightarrow> upd p f t = t"
  by (induction t) (auto simp: upd_def)

lemma filter_upd_other:
  "(\<And>r. p r \<Longrightarrow> \<not> q r) \<Longrightarrow> (\<And>r. p r \<Longrightarrow> \<not> q (f r)) \<Longrightarrow> filter q (upd p f t) = filter q t"
  by (induction t) (auto simp: upd_def)

lemma rowcount_zero: "rowcount p t = 0 \<longleftrightarrow> (\<forall>r\<in>set t. \<not> p r)"
  by (simp add: rowcount_def filter_empty_conv)

lemma rowcount_pos: "0 < rowcount p t \<longleftrightarrow> (\<exists>r\<in>set t. p r)"
  using rowcount_zero [of p t] by auto

text \<open>A key column without duplicates selects at most one row.\<close>

lemma rowcount_distinct:
  assumes "distinct (map k t)"
  shows "rowcount (\<lambda>r. k r = v) t = (if v \<in> k ` set t then 1 else 0)"
  using assms by (induction t) (auto simp: rowcount_def filter_empty_conv)

lemma find_SomeD: "List.find p t = Some r \<Longrightarrow> r \<in> set t \<and> p r"
  by (auto simp: find_Some_iff)

lemma find_None: "List.find p t = None \<longleftrightarrow> (\<forall>r\<in>set t. \<not> p r)"
  by (auto simp: find_None_iff)

lemma find_append_Some: "List.find p t = Some r \<Longrightarrow> List.find p (t @ u) = Some r"
  by (induction t) auto

lemma find_append_None: "List.find p t = None \<Longrightarrow> List.find p (t @ u) = List.find p u"
  by (induction t) auto

lemma find_distinct:
  assumes "distinct (map k t)" "r \<in> set t"
  shows "List.find (\<lambda>x. k x = k r) t = Some r"
  using assms by (induction t) auto

lemma find_upd_key:
  "(\<And>r. k (f r) = k r) \<Longrightarrow>
   List.find (\<lambda>x. k x = v) (upd p f t) = map_option (\<lambda>r. if p r then f r else r) (List.find (\<lambda>x. k x = v) t)"
  by (induction t) (auto simp: upd_def)

section \<open>Uniqueness gates\<close>

text \<open>
  \<open>keys d\<close> lists the keys a store has let through, \<open>admit k d\<close> tries to let one more through.
\<close>

locale gate =
  fixes keys :: "'d \<Rightarrow> 'k list"
    and admit :: "'k \<Rightarrow> 'd \<Rightarrow> exc + 'd"
  assumes admit_new: "admit k d = Inr d' \<Longrightarrow> keys d' = keys d @ [k]"
    and admit_fresh: "admit k d = Inr d' \<Longrightarrow> k \<notin> set (keys d)"
begin

lemma refuses_seen: "k \<in> set (keys d) \<Longrightarrow> \<exists>e. admit k d = Inl e"
  using admit_fresh by (cases "admit k d") auto

lemma seen_after: "admit k d = Inr d' \<Longrightarrow> k \<in> set (keys d')"
  by (simp add: admit_new)

lemma keeps_distinct: "distinct (keys d) \<Longrightarrow> admit k d = Inr d' \<Longrightarrow> distinct (keys d')"
  using admit_new admit_fresh by fastforce

lemma second_refused: "admit k d = Inr d' \<Longrightarrow> \<exists>e. admit k d' = Inl e"
  by (rule refuses_seen) (rule seen_after)

end

end
