(* ===== verification/Control_Db.thy ===== *)
theory Control_Db
  imports Store
begin

text \<open>
  The tables of \<open>control.db\<close> (\<open>db/migrations/control/*.sql\<close>): one record per row type, one
  insert per table with the conditions its schema declares. Columns that no module reads or
  writes and columns that only ever hold one constant (the key algorithm and encoding of a
  device) are left out; a nullable column is an option.
\<close>

section \<open>Rows\<close>

datatype status = ACTIVE | REVOKED

record device =
  dev_id :: pystr
  dev_name :: pystr
  dev_public_key :: bytes
  dev_agreement_public_key :: "bytes option"
  dev_created_at_ms :: "int option"
  dev_status :: status

datatype draft_state =
    D_DRAFT | D_PENDING_APPROVAL | D_APPROVAL_RECEIVED | D_SENDING | D_SUBMITTING | D_SUBMITTED
  | D_EXPIRED | D_REJECTED | D_CANCELLED | D_FAILED | D_INDETERMINATE | D_ABANDONED_INDETERMINATE

record draft =
  drf_id :: pystr
  drf_conversation_id :: pystr
  drf_account_id :: pystr
  drf_phone_number_id :: pystr
  drf_recipient_wa_id :: "pystr option"
  drf_body_bytes :: "bytes option"
  drf_body_sha256 :: "bytes option"
  drf_kind :: pystr
  drf_template_id :: "pystr option"
  drf_template_params_sha256 :: "bytes option"
  drf_attachments_digest :: "bytes option"
  drf_reply_to_wamid :: "pystr option"
  drf_target_message_wamid :: "pystr option"
  drf_nonce :: "bytes option"
  drf_created_at_ms :: "int option"
  drf_expires_at_ms :: "int option"
  drf_created_by :: "pystr option"
  drf_state :: draft_state

record approval =
  apv_id :: pystr
  apv_draft_id :: pystr
  apv_device_id :: pystr
  apv_decision :: pystr
  apv_signature :: "bytes option"
  apv_envelope :: bytes
  apv_nonce :: "bytes option"

record nonce_row =
  non_nonce :: bytes
  non_consumed_by :: pystr
  non_consumed_at_ms :: int

datatype attempt_state = SUBMITTING | SUBMITTED | FAILED | INDETERMINATE | ABANDONED_INDETERMINATE

record attempt =
  atm_id :: pystr
  atm_draft_id :: pystr
  atm_idempotency_key :: pystr
  atm_state :: attempt_state
  atm_wamid :: "pystr option"
  atm_error_code :: "pystr option"
  atm_created_at_ms :: int
  atm_updated_at_ms :: int

record grant =
  cap_id :: pystr
  cap_device_id :: pystr
  cap_account_id :: "pystr option"
  cap_conversation_id :: "pystr option"
  cap_action :: pystr
  cap_created_at_ms :: "int option"
  cap_expires_at_ms :: "int option"
  cap_max_actions :: "int option"
  cap_used_count :: int
  cap_nonce :: "bytes option"
  cap_signature :: bytes
  cap_status :: status

record window_row =
  win_conversation_id :: pystr
  win_last_inbound_ms :: int

record audit_row =
  aud_id :: pystr
  aud_actor :: string
  aud_tool :: string
  aud_args_hash :: pystr
  aud_outcome :: string
  aud_ts_ms :: int

text \<open>
  The \<open>schema\<close> column: SQL \<open>NULL\<close> or empty, the JSON text \<open>null\<close>, or a JSON object with its optional
  member \<open>params\<close>.
\<close>

datatype schema_json = NoSchema | JsonNull | JsonObj "int option"

record template_row =
  tpl_id :: pystr
  tpl_meta_template_id :: "pystr option"
  tpl_name :: pystr
  tpl_language :: pystr
  tpl_category :: "pystr option"
  tpl_status :: pystr
  tpl_definition_version :: int
  tpl_schema :: schema_json
  tpl_synced_at :: "int option"

record job_row =
  job_id :: pystr
  job_conversation_id :: pystr
  job_account_id :: "pystr option"
  job_timezone :: "pystr option"
  job_schedule :: "pystr option"
  job_generation_mode :: pystr
  job_conditions :: pystr
  job_enabled :: int
  job_max_lateness_ms :: "int option"
  job_last_run_ms :: "int option"
  job_next_run_ms :: "int option"
  job_created_at_ms :: "int option"

record run_row =
  run_id :: pystr
  run_job_id :: pystr
  run_fired_at_ms :: int
  run_outcome :: string
  run_draft_id :: "pystr option"

datatype candidate_state = POSSIBLE_MATCH | RESOLVED | DISMISSED

record candidate_row =
  rcn_id :: pystr
  rcn_wamid :: "pystr option"
  rcn_recipient_id :: "pystr option"
  rcn_provider_ts_ms :: "int option"
  rcn_status :: "pystr option"
  rcn_state :: candidate_state
  rcn_created_at_ms :: int
  rcn_resolution :: "pystr option"

record client_row =
  cli_id :: pystr
  cli_name :: pystr
  cli_redirect_uris :: "pystr list"
  cli_created_ms :: int

record pending_row =
  pnd_request_id :: pystr
  pnd_user_code :: pystr
  pnd_client_id :: pystr
  pnd_redirect_uri :: pystr
  pnd_state :: "pystr option"
  pnd_code_challenge :: pystr
  pnd_scope :: pystr
  pnd_created_ms :: int
  pnd_expires_ms :: int
  pnd_approved_ms :: "int option"
  pnd_collected_ms :: "int option"

record code_row =
  cod_hash :: pystr
  cod_client_id :: pystr
  cod_redirect_uri :: pystr
  cod_code_challenge :: pystr
  cod_scope :: pystr
  cod_issued_ms :: int
  cod_expires_ms :: int
  cod_consumed_ms :: "int option"

datatype token_kind = Access | Refresh

record token_row =
  tok_hash :: pystr
  tok_kind :: token_kind
  tok_client_id :: pystr
  tok_scope :: pystr
  tok_issued_ms :: int
  tok_expires_ms :: int
  tok_revoked_ms :: "int option"
  tok_grant_id :: "pystr option"

record control_db =
  approval_devices :: "device list"
  drafts :: "draft list"
  approvals :: "approval list"
  approval_nonces :: "nonce_row list"
  send_attempts :: "attempt list"
  capability_grants :: "grant list"
  conversation_windows :: "window_row list"
  audit_log :: "audit_row list"
  templates :: "template_row list"
  scheduled_jobs :: "job_row list"
  job_runs :: "run_row list"
  reconciliation_candidates :: "candidate_row list"
  oauth_clients :: "client_row list"
  oauth_pending :: "pending_row list"
  oauth_codes :: "code_row list"
  oauth_tokens :: "token_row list"

type_synonym control = "control_db conn"

definition empty_control :: control_db where
  "empty_control =
     \<lparr>approval_devices = [], drafts = [], approvals = [], approval_nonces = [],
      send_attempts = [], capability_grants = [], conversation_windows = [], audit_log = [],
      templates = [], scheduled_jobs = [], job_runs = [], reconciliation_candidates = [],
      oauth_clients = [], oauth_pending = [], oauth_codes = [], oauth_tokens = []\<rparr>"

section \<open>Inserts\<close>

definition len_or_null :: "nat \<Rightarrow> 'a list option \<Rightarrow> bool" where
  "len_or_null n v = (case v of None \<Rightarrow> True | Some b \<Rightarrow> length b = n)"

definition ins_device :: "device \<Rightarrow> control_db \<Rightarrow> exc + control_db" where
  "ins_device r d =
     (case ins (\<lambda>_. True) (\<lambda>a b. dev_id a = dev_id b) r (approval_devices d) of
        Inl e \<Rightarrow> Inl e | Inr t \<Rightarrow> Inr (d\<lparr>approval_devices := t\<rparr>))"

definition draft_ok :: "draft \<Rightarrow> bool" where
  "draft_ok r \<longleftrightarrow>
     len_or_null 32 (drf_body_sha256 r) \<and> len_or_null 32 (drf_template_params_sha256 r) \<and>
     len_or_null 32 (drf_attachments_digest r) \<and> len_or_null 32 (drf_nonce r) \<and>
     drf_kind r \<in> {lit ''text'', lit ''template'', lit ''mark_read''}"

definition ins_draft :: "draft \<Rightarrow> control_db \<Rightarrow> exc + control_db" where
  "ins_draft r d =
     (case ins draft_ok (\<lambda>a b. drf_id a = drf_id b \<or> same_key (drf_nonce a) (drf_nonce b)) r (drafts d) of
        Inl e \<Rightarrow> Inl e | Inr t \<Rightarrow> Inr (d\<lparr>drafts := t\<rparr>))"

definition has_draft :: "control_db \<Rightarrow> pystr \<Rightarrow> bool" where
  "has_draft d i \<longleftrightarrow> list_ex (\<lambda>r. drf_id r = i) (drafts d)"

definition has_device :: "control_db \<Rightarrow> pystr \<Rightarrow> bool" where
  "has_device d i \<longleftrightarrow> list_ex (\<lambda>r. dev_id r = i) (approval_devices d)"

definition approval_ok :: "control_db \<Rightarrow> approval \<Rightarrow> bool" where
  "approval_ok d r \<longleftrightarrow>
     has_draft d (apv_draft_id r) \<and> has_device d (apv_device_id r) \<and>
     apv_decision r \<in> {lit ''APPROVE'', lit ''REJECT''} \<and>
     len_or_null 64 (apv_signature r) \<and> len_or_null 32 (apv_nonce r)"

definition approval_clash :: "approval \<Rightarrow> approval \<Rightarrow> bool" where
  "approval_clash a b \<longleftrightarrow>
     apv_id a = apv_id b \<or>
     (apv_draft_id a = apv_draft_id b \<and> apv_device_id a = apv_device_id b \<and>
      apv_decision a = apv_decision b \<and> same_key (apv_nonce a) (apv_nonce b))"

definition ins_approval :: "approval \<Rightarrow> control_db \<Rightarrow> exc + control_db" where
  "ins_approval r d =
     (case ins (approval_ok d) approval_clash r (approvals d) of
        Inl e \<Rightarrow> Inl e | Inr t \<Rightarrow> Inr (d\<lparr>approvals := t\<rparr>))"

definition ins_nonce :: "nonce_row \<Rightarrow> control_db \<Rightarrow> exc + control_db" where
  "ins_nonce r d =
     (case ins (\<lambda>r. length (non_nonce r) = 32) (\<lambda>a b. non_nonce a = non_nonce b) r (approval_nonces d) of
        Inl e \<Rightarrow> Inl e | Inr t \<Rightarrow> Inr (d\<lparr>approval_nonces := t\<rparr>))"

definition ins_attempt :: "attempt \<Rightarrow> control_db \<Rightarrow> exc + control_db" where
  "ins_attempt r d =
     (case ins (\<lambda>r. has_draft d (atm_draft_id r))
             (\<lambda>a b. atm_id a = atm_id b \<or> atm_idempotency_key a = atm_idempotency_key b) r (send_attempts d) of
        Inl e \<Rightarrow> Inl e | Inr t \<Rightarrow> Inr (d\<lparr>send_attempts := t\<rparr>))"

definition grant_ok :: "control_db \<Rightarrow> grant \<Rightarrow> bool" where
  "grant_ok d r \<longleftrightarrow>
     has_device d (cap_device_id r) \<and> (case cap_max_actions r of None \<Rightarrow> True | Some m \<Rightarrow> 0 \<le> m) \<and>
     0 \<le> cap_used_count r \<and> len_or_null 32 (cap_nonce r) \<and> length (cap_signature r) = 64"

definition ins_grant :: "grant \<Rightarrow> control_db \<Rightarrow> exc + control_db" where
  "ins_grant r d =
     (case ins (grant_ok d) (\<lambda>a b. cap_id a = cap_id b) r (capability_grants d) of
        Inl e \<Rightarrow> Inl e | Inr t \<Rightarrow> Inr (d\<lparr>capability_grants := t\<rparr>))"

definition ins_audit :: "audit_row \<Rightarrow> control_db \<Rightarrow> exc + control_db" where
  "ins_audit r d =
     (case ins (\<lambda>_. True) (\<lambda>a b. aud_id a = aud_id b) r (audit_log d) of
        Inl e \<Rightarrow> Inl e | Inr t \<Rightarrow> Inr (d\<lparr>audit_log := t\<rparr>))"

definition ins_candidate :: "candidate_row \<Rightarrow> control_db \<Rightarrow> exc + control_db" where
  "ins_candidate r d =
     (case ins (\<lambda>_. True) (\<lambda>a b. rcn_id a = rcn_id b) r (reconciliation_candidates d) of
        Inl e \<Rightarrow> Inl e | Inr t \<Rightarrow> Inr (d\<lparr>reconciliation_candidates := t\<rparr>))"

definition ins_job :: "job_row \<Rightarrow> control_db \<Rightarrow> exc + control_db" where
  "ins_job r d =
     (case ins (\<lambda>r. job_generation_mode r \<in> {lit ''static'', lit ''template''} \<and> job_enabled r \<in> {0, 1})
             (\<lambda>a b. job_id a = job_id b) r (scheduled_jobs d) of
        Inl e \<Rightarrow> Inl e | Inr t \<Rightarrow> Inr (d\<lparr>scheduled_jobs := t\<rparr>))"

definition ins_run :: "run_row \<Rightarrow> control_db \<Rightarrow> exc + control_db" where
  "ins_run r d =
     (case ins (\<lambda>r. list_ex (\<lambda>j. job_id j = run_job_id r) (scheduled_jobs d))
             (\<lambda>a b. run_id a = run_id b) r (job_runs d) of
        Inl e \<Rightarrow> Inl e | Inr t \<Rightarrow> Inr (d\<lparr>job_runs := t\<rparr>))"

lemmas insert_defs =
  ins_device_def ins_draft_def ins_approval_def ins_nonce_def ins_attempt_def ins_grant_def
  ins_audit_def ins_candidate_def ins_job_def ins_run_def

text \<open>\<open>INSERT ... ON CONFLICT(conversation_id) DO UPDATE\<close> on the window projection.\<close>

definition upsert_window :: "pystr \<Rightarrow> int \<Rightarrow> control_db \<Rightarrow> exc + control_db" where
  "upsert_window cid v d =
     (if v < 0 then Inl IntegrityError
      else if list_ex (\<lambda>r. win_conversation_id r = cid) (conversation_windows d)
      then Inr (d\<lparr>conversation_windows :=
              upd (\<lambda>r. win_conversation_id r = cid) (win_last_inbound_ms_update (\<lambda>_. v)) (conversation_windows d)\<rparr>)
      else Inr (d\<lparr>conversation_windows :=
              conversation_windows d @ [\<lparr>win_conversation_id = cid, win_last_inbound_ms = v\<rparr>]\<rparr>))"

definition last_inbound :: "control_db \<Rightarrow> pystr \<Rightarrow> int" where
  "last_inbound d cid =
     (case List.find (\<lambda>r. win_conversation_id r = cid) (conversation_windows d) of
        None \<Rightarrow> 0 | Some r \<Rightarrow> win_last_inbound_ms r)"

text \<open>What a successful insert did.\<close>

lemma ins_device_Inr: "ins_device r d = Inr d' \<Longrightarrow>
    d' = d\<lparr>approval_devices := approval_devices d @ [r]\<rparr> \<and> dev_id r \<notin> dev_id ` set (approval_devices d)"
  by (auto simp: ins_device_def ins_Inr split: sum.splits)

lemma ins_draft_Inr: "ins_draft r d = Inr d' \<Longrightarrow>
    d' = d\<lparr>drafts := drafts d @ [r]\<rparr> \<and> draft_ok r \<and> drf_id r \<notin> drf_id ` set (drafts d) \<and>
    (\<forall>x\<in>set (drafts d). \<not> same_key (drf_nonce r) (drf_nonce x))"
  by (auto simp: ins_draft_def ins_Inr split: sum.splits)

lemma ins_approval_Inr: "ins_approval r d = Inr d' \<Longrightarrow>
    d' = d\<lparr>approvals := approvals d @ [r]\<rparr> \<and> approval_ok d r \<and> (\<forall>x\<in>set (approvals d). \<not> approval_clash r x)"
  by (auto simp: ins_approval_def ins_Inr split: sum.splits)

lemma ins_attempt_Inr: "ins_attempt r d = Inr d' \<Longrightarrow>
    d' = d\<lparr>send_attempts := send_attempts d @ [r]\<rparr> \<and> has_draft d (atm_draft_id r) \<and>
    atm_id r \<notin> atm_id ` set (send_attempts d) \<and>
    atm_idempotency_key r \<notin> atm_idempotency_key ` set (send_attempts d)"
  by (auto simp: ins_attempt_def ins_Inr split: sum.splits)

lemma ins_grant_Inr: "ins_grant r d = Inr d' \<Longrightarrow>
    d' = d\<lparr>capability_grants := capability_grants d @ [r]\<rparr> \<and> grant_ok d r \<and>
    cap_id r \<notin> cap_id ` set (capability_grants d)"
  by (auto simp: ins_grant_def ins_Inr split: sum.splits)

lemma ins_audit_Inr: "ins_audit r d = Inr d' \<Longrightarrow>
    d' = d\<lparr>audit_log := audit_log d @ [r]\<rparr> \<and> aud_id r \<notin> aud_id ` set (audit_log d)"
  by (auto simp: ins_audit_def ins_Inr split: sum.splits)

lemma ins_candidate_Inr: "ins_candidate r d = Inr d' \<Longrightarrow>
    d' = d\<lparr>reconciliation_candidates := reconciliation_candidates d @ [r]\<rparr>"
  by (auto simp: ins_candidate_def ins_Inr split: sum.splits)

lemma ins_job_Inr: "ins_job r d = Inr d' \<Longrightarrow>
    d' = d\<lparr>scheduled_jobs := scheduled_jobs d @ [r]\<rparr> \<and>
    job_generation_mode r \<in> {lit ''static'', lit ''template''}"
  by (auto simp: ins_job_def ins_Inr split: sum.splits)

lemma ins_run_Inr: "ins_run r d = Inr d' \<Longrightarrow> d' = d\<lparr>job_runs := job_runs d @ [r]\<rparr>"
  by (auto simp: ins_run_def ins_Inr split: sum.splits)

lemma insert_raises:
  "ins_device rd d = Inl e \<Longrightarrow> e = IntegrityError" "ins_draft rf d = Inl e \<Longrightarrow> e = IntegrityError"
  "ins_approval ra d = Inl e \<Longrightarrow> e = IntegrityError" "ins_attempt rt d = Inl e \<Longrightarrow> e = IntegrityError"
  "ins_grant rg d = Inl e \<Longrightarrow> e = IntegrityError" "ins_audit ru d = Inl e \<Longrightarrow> e = IntegrityError"
  by (auto simp: insert_defs ins_Inl split: sum.splits)

section \<open>The replay gate\<close>

text \<open>
  \<open>approval_nonces\<close> with its primary key is a uniqueness gate: the interpretation gives its
  laws as \<open>nonce_gate.\<dots>\<close>.
\<close>

definition consumed :: "control_db \<Rightarrow> bytes list" where
  "consumed d = map non_nonce (approval_nonces d)"

definition consume :: "pystr \<Rightarrow> int \<Rightarrow> bytes \<Rightarrow> control_db \<Rightarrow> exc + control_db" where
  "consume draft_id now n d =
     ins_nonce \<lparr>non_nonce = n, non_consumed_by = draft_id, non_consumed_at_ms = now\<rparr> d"

lemma consume_Inr:
  "consume i t n d = Inr d' \<longleftrightarrow>
     length n = 32 \<and> n \<notin> set (consumed d) \<and>
     d' = d\<lparr>approval_nonces := approval_nonces d @
       [\<lparr>non_nonce = n, non_consumed_by = i, non_consumed_at_ms = t\<rparr>]\<rparr>"
  by (auto simp: consume_def ins_nonce_def consumed_def ins_Inr image_iff split: sum.splits
           simp: ins_def list_ex_iff)

lemma consume_Inl: "consume i t n d = Inl e \<Longrightarrow> e = IntegrityError"
  by (auto simp: consume_def ins_nonce_def ins_Inl split: sum.splits)

interpretation nonce_gate: gate consumed "consume i t" for i t
  by unfold_locales (auto simp: consume_Inr consumed_def)

section \<open>Well-formed control databases\<close>

text \<open>Primary keys, uniqueness conditions and references the schema promises.\<close>

definition draft_nonces :: "control_db \<Rightarrow> bytes list" where
  "draft_nonces d = List.map_filter drf_nonce (drafts d)"

definition control_inv :: "control_db \<Rightarrow> bool" where
  "control_inv d \<longleftrightarrow>
     distinct (map dev_id (approval_devices d)) \<and> distinct (map drf_id (drafts d)) \<and>
     distinct (draft_nonces d) \<and> list_all draft_ok (drafts d) \<and>
     distinct (map apv_id (approvals d)) \<and> list_all (approval_ok d) (approvals d) \<and>
     distinct (consumed d) \<and> (\<forall>n\<in>set (consumed d). length n = 32) \<and>
     distinct (map atm_id (send_attempts d)) \<and> distinct (map atm_idempotency_key (send_attempts d)) \<and>
     list_all (\<lambda>a. has_draft d (atm_draft_id a)) (send_attempts d) \<and>
     distinct (map cap_id (capability_grants d)) \<and> list_all (grant_ok d) (capability_grants d)"

lemma control_inv_empty: "control_inv empty_control"
  by (simp add: control_inv_def empty_control_def consumed_def draft_nonces_def)

lemma has_draft_iff: "has_draft d i \<longleftrightarrow> i \<in> drf_id ` set (drafts d)"
  by (auto simp: has_draft_def list_ex_iff)

lemma has_device_iff: "has_device d i \<longleftrightarrow> i \<in> dev_id ` set (approval_devices d)"
  by (auto simp: has_device_def list_ex_iff)

lemma approval_ok_mono:
  "approval_ok d r \<Longrightarrow> drf_id ` set (drafts d) \<subseteq> drf_id ` set (drafts d') \<Longrightarrow>
   dev_id ` set (approval_devices d) \<subseteq> dev_id ` set (approval_devices d') \<Longrightarrow> approval_ok d' r"
  by (auto simp: approval_ok_def has_draft_iff has_device_iff)

lemma grant_ok_mono:
  "grant_ok d r \<Longrightarrow> dev_id ` set (approval_devices d) \<subseteq> dev_id ` set (approval_devices d') \<Longrightarrow> grant_ok d' r"
  by (auto simp: grant_ok_def has_device_iff)

text \<open>
  The frame rule of the invariant: a change of tables it does not mention keeps it.
\<close>

lemma control_inv_cong:
  assumes "approval_devices d' = approval_devices d" "drafts d' = drafts d" "approvals d' = approvals d"
    "approval_nonces d' = approval_nonces d" "send_attempts d' = send_attempts d"
    "capability_grants d' = capability_grants d"
  shows "control_inv d' = control_inv d"
proof -
  have "has_draft d' = has_draft d" "has_device d' = has_device d"
    using assms by (auto simp: has_draft_def has_device_def fun_eq_iff)
  then have "approval_ok d' = approval_ok d" "grant_ok d' = grant_ok d"
    by (auto simp: approval_ok_def grant_ok_def fun_eq_iff)
  with assms \<open>has_draft d' = has_draft d\<close> show ?thesis
    by (simp add: control_inv_def consumed_def draft_nonces_def)
qed

lemma ins_device_inv:
  assumes "control_inv d" "ins_device r d = Inr d'" shows "control_inv d'"
proof -
  from assms(2) have d': "d' = d\<lparr>approval_devices := approval_devices d @ [r]\<rparr>"
    and n: "dev_id r \<notin> dev_id ` set (approval_devices d)"
    by (auto simp: ins_device_def ins_Inr split: sum.splits)
  have "approval_ok d x \<Longrightarrow> approval_ok d' x" "grant_ok d y \<Longrightarrow> grant_ok d' y" for x y
    by (auto simp: d' elim!: approval_ok_mono grant_ok_mono)
  moreover have "has_draft d' = has_draft d" by (simp add: d' has_draft_def fun_eq_iff)
  ultimately show ?thesis using assms(1) n
    by (simp add: control_inv_def list_all_iff consumed_def draft_nonces_def d')
qed

lemma ins_draft_inv:
  assumes "control_inv d" "ins_draft r d = Inr d'" shows "control_inv d'"
proof -
  from assms(2) have d': "d' = d\<lparr>drafts := drafts d @ [r]\<rparr>" and ok: "draft_ok r"
    and n: "\<forall>x\<in>set (drafts d). drf_id r \<noteq> drf_id x \<and> \<not> same_key (drf_nonce r) (drf_nonce x)"
    by (auto simp: ins_draft_def ins_Inr split: sum.splits)
  have mono: "approval_ok d x \<Longrightarrow> approval_ok d' x" "has_draft d i \<Longrightarrow> has_draft d' i" for x i
    by (auto simp: d' has_draft_iff elim!: approval_ok_mono)
  have "distinct (draft_nonces d')"
  proof (cases "drf_nonce r")
    case None
    with assms(1) show ?thesis
      by (simp add: control_inv_def draft_nonces_def d' List.map_filter_def)
  next
    case (Some v)
    with n have "v \<notin> set (draft_nonces d)"
      by (auto simp: draft_nonces_def List.map_filter_def same_key_def)
    with assms(1) Some show ?thesis
      by (simp add: control_inv_def draft_nonces_def d' List.map_filter_def)
  qed
  moreover have "grant_ok d' = grant_ok d" by (simp add: d' grant_ok_def has_device_def fun_eq_iff)
  moreover have "drf_id r \<notin> drf_id ` set (drafts d)" using n by force
  ultimately show ?thesis using assms(1) ok mono
    by (simp add: control_inv_def list_all_iff consumed_def) (simp add: d')
qed

lemma ins_approval_inv:
  assumes "control_inv d" "ins_approval r d = Inr d'" shows "control_inv d'"
proof -
  from assms(2) have d': "d' = d\<lparr>approvals := approvals d @ [r]\<rparr>" and ok: "approval_ok d r"
    and n: "apv_id r \<notin> apv_id ` set (approvals d)"
    by (auto simp: ins_approval_def ins_Inr approval_clash_def split: sum.splits)
  have "approval_ok d' = approval_ok d" "grant_ok d' = grant_ok d" "has_draft d' = has_draft d"
    by (simp_all add: d' approval_ok_def grant_ok_def has_draft_def has_device_def fun_eq_iff)
  with assms(1) ok n show ?thesis
    by (simp add: control_inv_def list_all_iff consumed_def draft_nonces_def d')
qed

lemma consume_inv:
  assumes "control_inv d" "consume i t n d = Inr d'" shows "control_inv d'"
proof -
  let ?r = "\<lparr>non_nonce = n, non_consumed_by = i, non_consumed_at_ms = t\<rparr>"
  from assms(2) have d': "d' = d\<lparr>approval_nonces := approval_nonces d @ [?r]\<rparr>"
    and ok: "length n = 32" "n \<notin> set (consumed d)"
    by (auto simp: consume_Inr)
  have "approval_ok d' = approval_ok d" "grant_ok d' = grant_ok d" "has_draft d' = has_draft d"
    by (simp_all add: d' approval_ok_def grant_ok_def has_draft_def has_device_def fun_eq_iff)
  moreover have "consumed d' = consumed d @ [n]" by (simp add: d' consumed_def)
  ultimately show ?thesis using assms(1) ok
    by (simp add: control_inv_def draft_nonces_def d')
qed

lemma ins_attempt_inv:
  assumes "control_inv d" "ins_attempt r d = Inr d'" shows "control_inv d'"
proof -
  from assms(2) have d': "d' = d\<lparr>send_attempts := send_attempts d @ [r]\<rparr>"
    and ok: "has_draft d (atm_draft_id r)"
    and n: "atm_id r \<notin> atm_id ` set (send_attempts d)"
      "atm_idempotency_key r \<notin> atm_idempotency_key ` set (send_attempts d)"
    by (auto simp: ins_attempt_def ins_Inr split: sum.splits)
  have "approval_ok d' = approval_ok d" "grant_ok d' = grant_ok d" "has_draft d' = has_draft d"
    by (simp_all add: d' approval_ok_def grant_ok_def has_draft_def has_device_def fun_eq_iff)
  with assms(1) ok n show ?thesis
    by (simp add: control_inv_def list_all_iff consumed_def draft_nonces_def d')
qed

lemma ins_grant_inv:
  assumes "control_inv d" "ins_grant r d = Inr d'" shows "control_inv d'"
proof -
  from assms(2) have d': "d' = d\<lparr>capability_grants := capability_grants d @ [r]\<rparr>" and ok: "grant_ok d r"
    and n: "cap_id r \<notin> cap_id ` set (capability_grants d)"
    by (auto simp: ins_grant_def ins_Inr split: sum.splits)
  have "approval_ok d' = approval_ok d" "grant_ok d' = grant_ok d" "has_draft d' = has_draft d"
    by (simp_all add: d' approval_ok_def grant_ok_def has_draft_def has_device_def fun_eq_iff)
  with assms(1) ok n show ?thesis
    by (simp add: control_inv_def list_all_iff consumed_def draft_nonces_def d')
qed

text \<open>Updates in place: of a device's status, of an attempt, of a grant's counter.\<close>

lemma upd_devices_inv:
  assumes "control_inv d" "\<And>r. dev_id (f r) = dev_id r"
  shows "control_inv (d\<lparr>approval_devices := upd p f (approval_devices d)\<rparr>)" (is "control_inv ?d")
proof -
  have ids: "map dev_id (approval_devices ?d) = map dev_id (approval_devices d)"
    by (simp add: map_upd_key assms(2))
  then have "has_device ?d = has_device d"
    by (auto simp: has_device_iff fun_eq_iff simp flip: set_map)
  then have "approval_ok ?d = approval_ok d" "grant_ok ?d = grant_ok d"
    by (simp_all add: approval_ok_def grant_ok_def has_draft_def fun_eq_iff)
  moreover have "has_draft ?d = has_draft d" by (simp add: has_draft_def fun_eq_iff)
  ultimately show ?thesis using assms(1) ids
    by (simp add: control_inv_def consumed_def draft_nonces_def)
qed

lemma upd_attempts_inv:
  assumes "control_inv d" "\<And>r. atm_id (f r) = atm_id r"
    "\<And>r. atm_idempotency_key (f r) = atm_idempotency_key r" "\<And>r. atm_draft_id (f r) = atm_draft_id r"
  shows "control_inv (d\<lparr>send_attempts := upd p f (send_attempts d)\<rparr>)" (is "control_inv ?d")
proof -
  have "approval_ok ?d = approval_ok d" "grant_ok ?d = grant_ok d" "has_draft ?d = has_draft d"
    by (simp_all add: approval_ok_def grant_ok_def has_draft_def has_device_def fun_eq_iff)
  moreover have "\<forall>a\<in>set (upd p f (send_attempts d)). has_draft d (atm_draft_id a)"
    using assms(1,4) by (auto simp: control_inv_def list_all_iff set_upd)
  ultimately show ?thesis using assms
    by (simp add: control_inv_def consumed_def draft_nonces_def map_upd_key list_all_iff)
qed

lemma upd_grants_inv:
  assumes "control_inv d" "\<And>r. cap_id (f r) = cap_id r" "\<And>r. grant_ok d r \<Longrightarrow> grant_ok d (f r)"
  shows "control_inv (d\<lparr>capability_grants := upd p f (capability_grants d)\<rparr>)" (is "control_inv ?d")
proof -
  have "approval_ok ?d = approval_ok d" "grant_ok ?d = grant_ok d" "has_draft ?d = has_draft d"
    by (simp_all add: approval_ok_def grant_ok_def has_draft_def has_device_def fun_eq_iff)
  moreover have "\<forall>a\<in>set (upd p f (capability_grants d)). grant_ok d a"
    using assms(1,3) by (auto simp: control_inv_def list_all_iff set_upd)
  ultimately show ?thesis using assms(1,2)
    by (simp add: control_inv_def consumed_def draft_nonces_def map_upd_key list_all_iff)
qed

end
