(* ===== verification/Canonical.thy ===== *)
theory Canonical
  imports Prelude
begin

text \<open>
  The three byte strings a phone signs, and their encoders:
  \<open>approval/canonical.py\<close> (the decision on a draft), \<open>approval/capabilities.py\<close> (a capability
  grant) and \<open>approval/devices.py\<close> (the enrolment binding). Each is a domain prefix, a version
  where the code has one, and length-prefixed fields in a fixed order. A Python \<open>dict\<close> of
  fields is a record of optional values; \<open>fields.get(name)\<close> of an absent field is \<open>None\<close>.

  The lemmas show that the bytes determine the fields (up to the absent/empty
  identification the encoding makes on purpose) and that no byte string is of two kinds.
\<close>

section \<open>Fields\<close>

datatype fval = FStr "pystr option" | FBytes "bytes option" | FU64 "int option"

fun field_bytes :: "fval \<Rightarrow> exc + bytes" where
  "field_bytes (FStr None) = Inr []"
| "field_bytes (FStr (Some v)) = utf8 v"
| "field_bytes (FBytes None) = Inr []"
| "field_bytes (FBytes (Some v)) = Inr v"
| "field_bytes (FU64 None) = Inr []"
| "field_bytes (FU64 (Some v)) = to_bytes_be 8 v"

text \<open>The loop over \<open>_FIELDS\<close>: four length bytes, then the field.\<close>

primrec encode_fields :: "fval list \<Rightarrow> exc + bytes" where
  "encode_fields [] = Inr []"
| "encode_fields (v # vs) =
     (case field_bytes v of Inl e \<Rightarrow> Inl e
      | Inr b \<Rightarrow> (case lp b of Inl e \<Rightarrow> Inl e
         | Inr x \<Rightarrow> (case encode_fields vs of Inl e \<Rightarrow> Inl e | Inr y \<Rightarrow> Inr (x @ y))))"

definition ascii :: "string \<Rightarrow> bytes" where
  "ascii s = map (\<lambda>c. of_nat (of_char c)) s"

definition version_bytes :: bytes where
  "version_bytes = be_bytes 2 1"

definition encode_with :: "bytes \<Rightarrow> fval list \<Rightarrow> exc + bytes" where
  "encode_with d vs =
     (case encode_fields vs of Inl e \<Rightarrow> Inl e | Inr b \<Rightarrow> Inr (d @ version_bytes @ b))"

section \<open>Draft decisions\<close>

definition DOMAIN :: bytes where
  "DOMAIN = ascii (''WHATSVAULT-DRAFT-DECISION-V1'' @ [CHR 0x0A])"

record decision_fields =
  df_decision :: "pystr option"
  df_draft_id :: "pystr option"
  df_account_id :: "pystr option"
  df_phone_number_id :: "pystr option"
  df_recipient_wa_id :: "pystr option"
  df_body_sha256 :: "bytes option"
  df_kind :: "pystr option"
  df_template_id :: "pystr option"
  df_template_params_sha256 :: "bytes option"
  df_reply_to_wamid :: "pystr option"
  df_target_message_wamid :: "pystr option"
  df_attachments_digest :: "bytes option"
  df_nonce :: "bytes option"
  df_created_at_ms :: "int option"
  df_expires_at_ms :: "int option"
  df_device_id :: "pystr option"

definition decision_slots :: "decision_fields \<Rightarrow> fval list" where
  "decision_slots f =
     [FStr (df_decision f), FStr (df_draft_id f), FStr (df_account_id f),
      FStr (df_phone_number_id f), FStr (df_recipient_wa_id f), FBytes (df_body_sha256 f),
      FStr (df_kind f), FStr (df_template_id f), FBytes (df_template_params_sha256 f),
      FStr (df_reply_to_wamid f), FStr (df_target_message_wamid f),
      FBytes (df_attachments_digest f), FBytes (df_nonce f), FU64 (df_created_at_ms f),
      FU64 (df_expires_at_ms f), FStr (df_device_id f)]"

definition encode :: "decision_fields \<Rightarrow> exc + bytes" where
  "encode f = encode_with DOMAIN (decision_slots f)"

section \<open>Capability grants\<close>

definition CAP_DOMAIN :: bytes where
  "CAP_DOMAIN = ascii (''WHATSVAULT-CAPABILITY-V1'' @ [CHR 0x0A])"

record grant_fields =
  gf_capability_id :: "pystr option"
  gf_device_id :: "pystr option"
  gf_account_id :: "pystr option"
  gf_conversation_id :: "pystr option"
  gf_action :: "pystr option"
  gf_created_at_ms :: "int option"
  gf_expires_at_ms :: "int option"
  gf_max_actions :: "int option"
  gf_nonce :: "bytes option"

definition grant_slots :: "grant_fields \<Rightarrow> fval list" where
  "grant_slots f =
     [FStr (gf_capability_id f), FStr (gf_device_id f), FStr (gf_account_id f),
      FStr (gf_conversation_id f), FStr (gf_action f), FU64 (gf_created_at_ms f),
      FU64 (gf_expires_at_ms f), FU64 (gf_max_actions f), FBytes (gf_nonce f)]"

definition encode_grant :: "grant_fields \<Rightarrow> exc + bytes" where
  "encode_grant f = encode_with CAP_DOMAIN (grant_slots f)"

section \<open>Enrolment binding\<close>

definition ENROL_DOMAIN :: bytes where
  "ENROL_DOMAIN = ascii (''WHATSVAULT-ENROL-V1'' @ [CHR 0x0A])"

definition binding :: "pystr \<Rightarrow> bytes \<Rightarrow> bytes \<Rightarrow> bytes \<Rightarrow> exc + bytes" where
  "binding pairing_id challenge signing_pub agreement_pub =
     (case utf8 pairing_id of Inl e \<Rightarrow> Inl e
      | Inr p \<Rightarrow> (case lp_all [p, challenge, signing_pub, agreement_pub] of Inl e \<Rightarrow> Inl e
         | Inr b \<Rightarrow> Inr (ENROL_DOMAIN @ b)))"

section \<open>Attachments\<close>

text \<open>
  \<open>attachments_digest\<close>: SHA-256 over a domain and, per item, its index, hash, media type and
  size. \<open>str(n)\<close> of an integer is its decimal form.
\<close>

fun nat_dec :: "nat \<Rightarrow> pystr" where
  "nat_dec n = (if n < 10 then [48 + n] else nat_dec (n div 10) @ [48 + n mod 10])"

declare nat_dec.simps [simp del]

definition int_dec :: "int \<Rightarrow> pystr" where
  "int_dec i = (if i < 0 then 45 # nat_dec (nat (- i)) else nat_dec (nat i))"

definition ATTACH_DOMAIN :: bytes where
  "ATTACH_DOMAIN = ascii (''WHATSVAULT-ATTACHMENTS-V1'' @ [CHR 0x0A])"

record attachment_item =
  at_content_sha256 :: pystr
  at_mime :: pystr
  at_size :: int

primrec utf8_all :: "pystr list \<Rightarrow> exc + bytes list" where
  "utf8_all [] = Inr []"
| "utf8_all (s # ss) =
     (case utf8 s of Inl e \<Rightarrow> Inl e
      | Inr b \<Rightarrow> (case utf8_all ss of Inl e \<Rightarrow> Inl e | Inr bs \<Rightarrow> Inr (b # bs)))"

definition lp_strs :: "pystr list \<Rightarrow> exc + bytes" where
  "lp_strs ss = (case utf8_all ss of Inl e \<Rightarrow> Inl e | Inr bs \<Rightarrow> lp_all bs)"

definition attachment_parts :: "attachment_item list \<Rightarrow> pystr list" where
  "attachment_parts items =
     concat (map (\<lambda>(i, it). [int_dec (int i), at_content_sha256 it, at_mime it, int_dec (at_size it)])
       (enumerate 0 items))"

definition attachments_digest :: "(bytes \<Rightarrow> bytes) \<Rightarrow> attachment_item list \<Rightarrow> exc + bytes" where
  "attachments_digest sha256 items =
     (case lp_strs (attachment_parts items) of Inl e \<Rightarrow> Inl e
      | Inr b \<Rightarrow> Inr (sha256 (ATTACH_DOMAIN @ b)))"

section \<open>The bytes determine the fields\<close>

text \<open>An absent optional and an empty one share the zero-length slot.\<close>

definition blank :: "'a list option \<Rightarrow> 'a list option" where
  "blank v = (case v of Some [] \<Rightarrow> None | _ \<Rightarrow> v)"

fun norm_slot :: "fval \<Rightarrow> fval" where
  "norm_slot (FStr v) = FStr (blank v)"
| "norm_slot (FBytes v) = FBytes (blank v)"
| "norm_slot (FU64 v) = FU64 v"

fun same_kind :: "fval \<Rightarrow> fval \<Rightarrow> bool" where
  "same_kind (FStr _) (FStr _) = True"
| "same_kind (FBytes _) (FBytes _) = True"
| "same_kind (FU64 _) (FU64 _) = True"
| "same_kind _ _ = False"

lemma blank_simps [simp]:
  "blank None = None" "blank (Some []) = None" "blank (Some (x # xs)) = Some (x # xs)"
  by (simp_all add: blank_def)

lemma blank_eq_iff:
  "blank a = blank b \<longleftrightarrow> a = b \<or> (a \<in> {None, Some []} \<and> b \<in> {None, Some []})"
  by (cases a rule: option.exhaust; cases b rule: option.exhaust)
     (auto simp: blank_def split: list.splits)

lemma field_bytes_inject:
  assumes "same_kind u v" "field_bytes u = Inr b" "field_bytes v = Inr b"
  shows "norm_slot u = norm_slot v"
proof (cases u)
  case (FStr x)
  with assms(1) obtain y where v: "v = FStr y" by (cases v) auto
  show ?thesis using assms FStr v
    by (cases x; cases y) (auto simp: utf8_Nil_iff dest: utf8_inject)
next
  case (FBytes x)
  with assms(1) obtain y where v: "v = FBytes y" by (cases v) auto
  show ?thesis using assms FBytes v by (cases x; cases y) auto
next
  case (FU64 x)
  with assms(1) obtain y where v: "v = FU64 y" by (cases v) auto
  show ?thesis using assms FU64 v
    by (cases x; cases y) (auto dest: to_bytes_be_inject to_bytes_be_length)
qed

lemma encode_fields_inject:
  assumes "list_all2 same_kind us vs" "encode_fields us = Inr b" "encode_fields vs = Inr b"
  shows "map norm_slot us = map norm_slot vs"
  using assms
proof (induction us vs arbitrary: b rule: list_all2_induct)
  case Nil
  then show ?case by simp
next
  case (Cons u us v vs)
  from Cons.prems(1) obtain p x q where
    u: "field_bytes u = Inr p" "lp p = Inr x" "encode_fields us = Inr q" "b = x @ q"
    by (auto split: sum.splits)
  from Cons.prems(2) obtain p' x' q' where
    v: "field_bytes v = Inr p'" "lp p' = Inr x'" "encode_fields vs = Inr q'" "b = x' @ q'"
    by (auto split: sum.splits)
  from u v have "x @ q = x' @ q'" by simp
  from lp_append_inject [OF u(2) v(2) this] have "p = p'" "q = q'" by auto
  with Cons u v show ?case using field_bytes_inject by auto
qed

lemma encode_with_inject:
  assumes "list_all2 same_kind us vs" "encode_with d us = Inr b" "encode_with d vs = Inr b"
  shows "map norm_slot us = map norm_slot vs"
proof -
  from assms obtain p where "encode_fields us = Inr p" "encode_fields vs = Inr p"
    by (auto simp: encode_with_def split: sum.splits)
  with assms(1) show ?thesis by (rule encode_fields_inject)
qed

definition norm_decision :: "decision_fields \<Rightarrow> decision_fields" where
  "norm_decision f =
     \<lparr>df_decision = blank (df_decision f), df_draft_id = blank (df_draft_id f),
      df_account_id = blank (df_account_id f), df_phone_number_id = blank (df_phone_number_id f),
      df_recipient_wa_id = blank (df_recipient_wa_id f), df_body_sha256 = blank (df_body_sha256 f),
      df_kind = blank (df_kind f), df_template_id = blank (df_template_id f),
      df_template_params_sha256 = blank (df_template_params_sha256 f),
      df_reply_to_wamid = blank (df_reply_to_wamid f),
      df_target_message_wamid = blank (df_target_message_wamid f),
      df_attachments_digest = blank (df_attachments_digest f), df_nonce = blank (df_nonce f),
      df_created_at_ms = df_created_at_ms f, df_expires_at_ms = df_expires_at_ms f,
      df_device_id = blank (df_device_id f)\<rparr>"

definition norm_grant :: "grant_fields \<Rightarrow> grant_fields" where
  "norm_grant f =
     \<lparr>gf_capability_id = blank (gf_capability_id f), gf_device_id = blank (gf_device_id f),
      gf_account_id = blank (gf_account_id f), gf_conversation_id = blank (gf_conversation_id f),
      gf_action = blank (gf_action f), gf_created_at_ms = gf_created_at_ms f,
      gf_expires_at_ms = gf_expires_at_ms f, gf_max_actions = gf_max_actions f,
      gf_nonce = blank (gf_nonce f)\<rparr>"

lemma encode_inject:
  assumes "encode f = Inr b" "encode g = Inr b"
  shows "norm_decision f = norm_decision g"
proof -
  have "list_all2 same_kind (decision_slots f) (decision_slots g)"
    by (simp add: decision_slots_def)
  with assms have "map norm_slot (decision_slots f) = map norm_slot (decision_slots g)"
    unfolding encode_def by (blast dest: encode_with_inject)
  then show ?thesis by (simp add: decision_slots_def norm_decision_def)
qed

lemma encode_grant_inject:
  assumes "encode_grant f = Inr b" "encode_grant g = Inr b"
  shows "norm_grant f = norm_grant g"
proof -
  have "list_all2 same_kind (grant_slots f) (grant_slots g)"
    by (simp add: grant_slots_def)
  with assms have "map norm_slot (grant_slots f) = map norm_slot (grant_slots g)"
    unfolding encode_grant_def by (blast dest: encode_with_inject)
  then show ?thesis by (simp add: grant_slots_def norm_grant_def)
qed

lemma binding_inject:
  assumes "binding p c s a = Inr b" "binding p' c' s' a' = Inr b"
  shows "p = p' \<and> c = c' \<and> s = s' \<and> a = a'"
proof -
  from assms(1) obtain u x where u: "utf8 p = Inr u" "lp_all [u, c, s, a] = Inr x" "b = ENROL_DOMAIN @ x"
    by (auto simp: binding_def simp del: lp_all.simps split: sum.splits)
  from assms(2) obtain v y where v: "utf8 p' = Inr v" "lp_all [v, c', s', a'] = Inr y" "b = ENROL_DOMAIN @ y"
    by (auto simp: binding_def simp del: lp_all.simps split: sum.splits)
  from u v have "x = y" by simp
  with u(2) v(2) have "[u, c, s, a] = [v, c', s', a']" using lp_all_inject by blast
  with u(1) v(1) show ?thesis using utf8_inject by auto
qed

section \<open>Domain separation\<close>

text \<open>The three domains differ at their twelfth byte, so no signed string is of two kinds.\<close>

lemma domain_byte:
  "(DOMAIN @ x) ! 11 = 0x44" "(CAP_DOMAIN @ x) ! 11 = 0x43" "(ENROL_DOMAIN @ x) ! 11 = 0x45"
  by (simp_all add: DOMAIN_def CAP_DOMAIN_def ENROL_DOMAIN_def ascii_def nth_append)

lemma domains_differ:
  "DOMAIN @ x \<noteq> CAP_DOMAIN @ y" "DOMAIN @ x \<noteq> ENROL_DOMAIN @ y" "CAP_DOMAIN @ x \<noteq> ENROL_DOMAIN @ y"
proof -
  have neq: "xs \<noteq> ys" if "xs ! 11 \<noteq> ys ! 11" for xs ys :: bytes using that by blast
  show "DOMAIN @ x \<noteq> CAP_DOMAIN @ y" "DOMAIN @ x \<noteq> ENROL_DOMAIN @ y" "CAP_DOMAIN @ x \<noteq> ENROL_DOMAIN @ y"
    by (rule neq; simp add: domain_byte)+
qed

lemma encode_prefix: "encode f = Inr b \<Longrightarrow> \<exists>x. b = DOMAIN @ x"
  by (auto simp: encode_def encode_with_def split: sum.splits)

lemma encode_grant_prefix: "encode_grant f = Inr b \<Longrightarrow> \<exists>x. b = CAP_DOMAIN @ x"
  by (auto simp: encode_grant_def encode_with_def split: sum.splits)

lemma binding_prefix: "binding p c s a = Inr b \<Longrightarrow> \<exists>x. b = ENROL_DOMAIN @ x"
  by (auto simp: binding_def split: sum.splits)

lemma encode_binding_disjoint:
  assumes "encode f = Inr b" "binding p c s a = Inr b'"
  shows "b \<noteq> b'"
  using encode_prefix [OF assms(1)] binding_prefix [OF assms(2)] domains_differ by blast

lemma encode_grant_disjoint:
  assumes "encode f = Inr b" "encode_grant g = Inr b'"
  shows "b \<noteq> b'"
  using encode_prefix [OF assms(1)] encode_grant_prefix [OF assms(2)] domains_differ by blast

lemma grant_binding_disjoint:
  assumes "encode_grant g = Inr b" "binding p c s a = Inr b'"
  shows "b \<noteq> b'"
  using encode_grant_prefix [OF assms(1)] binding_prefix [OF assms(2)] domains_differ by blast

section \<open>Decimal and length-prefixed texts\<close>

lemma nat_dec_not_Nil: "nat_dec n \<noteq> []"
  by (subst nat_dec.simps) simp

lemma nat_dec_inject: "nat_dec m = nat_dec n \<Longrightarrow> m = n"
proof (induction m arbitrary: n rule: less_induct)
  case (less m)
  have len1: "nat_dec k = [x] \<Longrightarrow> k < 10 \<and> x = 48 + k" for k x
    by (subst (asm) nat_dec.simps) (auto simp: nat_dec_not_Nil split: if_splits)
  show ?case
  proof (cases "m < 10")
    case True
    then have "nat_dec m = [48 + m]" by (subst nat_dec.simps) simp
    with less.prems len1 [of n "48 + m"] show ?thesis by simp
  next
    case False
    then have m: "nat_dec m = nat_dec (m div 10) @ [48 + m mod 10]" by (subst nat_dec.simps) simp
    have "\<not> n < 10"
    proof
      assume "n < 10"
      then have "nat_dec n = [48 + n]" by (subst nat_dec.simps) simp
      with less.prems m nat_dec_not_Nil [of "m div 10"] show False by simp
    qed
    then have n: "nat_dec n = nat_dec (n div 10) @ [48 + n mod 10]" by (subst nat_dec.simps) simp
    from m n less.prems have "nat_dec (m div 10) = nat_dec (n div 10)" "m mod 10 = n mod 10" by simp_all
    moreover have "m div 10 < m" using False by simp
    ultimately have "m div 10 = n div 10" using less.IH by blast
    with \<open>m mod 10 = n mod 10\<close> show ?thesis by (metis div_mult_mod_eq)
  qed
qed

lemma nat_dec_digits: "c \<in> set (nat_dec n) \<Longrightarrow> 48 \<le> c"
proof (induction n rule: nat_dec.induct)
  case (1 n)
  then show ?case by (subst (asm) (2) nat_dec.simps) (auto split: if_splits)
qed

lemma int_dec_inject: "int_dec i = int_dec j \<Longrightarrow> i = j"
proof -
  assume a: "int_dec i = int_dec j"
  have h: "nat_dec n \<noteq> 45 # xs" for n xs using nat_dec_digits [of 45 n] by force
  from a h [symmetric] h show ?thesis
    by (auto simp: int_dec_def split: if_splits dest!: nat_dec_inject)
qed

lemma utf8_all_inject: "utf8_all xs = Inr b \<Longrightarrow> utf8_all ys = Inr b \<Longrightarrow> xs = ys"
proof (induction xs arbitrary: ys b)
  case Nil
  then show ?case by (cases ys) (auto split: sum.splits)
next
  case (Cons x xs)
  from Cons.prems obtain p q where p: "utf8 x = Inr p" "utf8_all xs = Inr q" "b = p # q"
    by (auto split: sum.splits)
  with Cons.prems(2) obtain y ys' where y: "ys = y # ys'" "utf8 y = Inr p" "utf8_all ys' = Inr q"
    by (cases ys) (auto split: sum.splits)
  with p Cons.IH show ?case using utf8_inject by blast
qed

lemma lp_strs_inject: "lp_strs xs = Inr b \<Longrightarrow> lp_strs ys = Inr b \<Longrightarrow> xs = ys"
  by (auto simp: lp_strs_def split: sum.splits dest: lp_all_inject intro: utf8_all_inject)

end
