(* ===== verification/Ids.thy ===== *)
theory Ids
  imports Prelude
begin

text \<open>
  Prefixed ULID identifiers (\<open>src/whatsvault/ids.py\<close>). The ULID body comes from the
  third-party package \<open>ulid\<close>: \<open>new_id\<close> takes it as an argument, and what the program relies on
  (26 characters of Crockford's base 32 alphabet) is the hypothesis \<open>is_ulid\<close>.
\<close>

definition PREFIXES :: "pystr list" where
  "PREFIXES = map lit
     [''acc'', ''cnt'', ''cnv'', ''src'', ''msg'', ''rev'', ''att'', ''evt'', ''drf'', ''apv'',
      ''atm'', ''cap'', ''dev'', ''bat'', ''imp'', ''dlq'', ''tpl'', ''job'', ''run'', ''rcn'', ''aud'']"

text \<open>The class \<open>[0-9A-HJKMNP-TV-Z]\<close>.\<close>

definition ulid_char :: "nat \<Rightarrow> bool" where
  "ulid_char c \<longleftrightarrow>
     (48 \<le> c \<and> c \<le> 57) \<or> (65 \<le> c \<and> c \<le> 72) \<or> c = 74 \<or> c = 75 \<or> c = 77 \<or> c = 78 \<or>
     (80 \<le> c \<and> c \<le> 84) \<or> (86 \<le> c \<and> c \<le> 90)"

definition is_ulid :: "pystr \<Rightarrow> bool" where
  "is_ulid s \<longleftrightarrow> length s = 26 \<and> list_all ulid_char s"

definition mk_id :: "string \<Rightarrow> pystr \<Rightarrow> pystr" where
  "mk_id p u = lit p @ lit ''_'' @ u"

definition new_id :: "pystr \<Rightarrow> pystr \<Rightarrow> exc + pystr" where
  "new_id p u = (if p \<in> set PREFIXES then Inr (p @ lit ''_'' @ u) else Inl IdError)"

definition validate :: "pystr \<Rightarrow> pystr \<Rightarrow> exc + pystr" where
  "validate p v =
     (if p \<notin> set PREFIXES then Inl IdError
      else if take (length (p @ lit ''_'')) v \<noteq> p @ lit ''_'' then Inl IdError
      else if \<not> is_ulid (drop (length (p @ lit ''_'')) v) then Inl IdError
      else Inr v)"

text \<open>\<open>str.partition("_")\<close>: everything before and after the first underscore.\<close>

definition partition_us :: "pystr \<Rightarrow> pystr \<times> pystr" where
  "partition_us s = (takeWhile (\<lambda>c. c \<noteq> 95) s, drop 1 (dropWhile (\<lambda>c. c \<noteq> 95) s))"

definition parse_id :: "pystr \<Rightarrow> exc + pystr" where
  "parse_id v =
     (let (p, body) = partition_us v in
      if p \<notin> set PREFIXES then Inl IdError
      else if \<not> is_ulid body then Inl IdError
      else Inr p)"

section \<open>The identifiers the program mints\<close>

text \<open>Every prefix a module passes to \<open>new_id\<close> is known, so minting never raises.\<close>

lemma new_id_mk:
  "lit p \<in> set PREFIXES \<Longrightarrow> new_id (lit p) u = Inr (mk_id p u)"
  by (simp add: new_id_def mk_id_def)

lemma prefixes_no_underscore: "p \<in> set PREFIXES \<Longrightarrow> (95::nat) \<notin> set p"
  by (auto simp: PREFIXES_def lit_def)

lemma lit_us: "lit ''_'' = [95]"
  by (simp add: lit_def)

lemma partition_us_id: "95 \<notin> set p \<Longrightarrow> partition_us (p @ 95 # u) = (p, u)"
  by (induction p) (auto simp: partition_us_def)

lemma parse_new_id:
  assumes "new_id p u = Inr v" "is_ulid u"
  shows "parse_id v = Inr p"
  using assms prefixes_no_underscore [of p]
  by (auto simp: new_id_def parse_id_def lit_us partition_us_id split: if_splits)

lemma validate_new_id:
  assumes "new_id p u = Inr v" "is_ulid u"
  shows "validate p v = Inr v"
  using assms by (auto simp: new_id_def validate_def lit_us split: if_splits)

text \<open>What \<open>validate\<close> accepts is exactly what \<open>new_id\<close> can produce.\<close>

lemma validate_iff:
  "validate p v = Inr w \<longleftrightarrow> w = v \<and> (\<exists>u. is_ulid u \<and> new_id p u = Inr v)"
proof
  assume a: "validate p v = Inr w"
  let ?m = "p @ lit ''_''"
  from a have p: "p \<in> set PREFIXES" and t: "take (length ?m) v = ?m"
    and u: "is_ulid (drop (length ?m) v)" and w: "w = v"
    by (auto simp: validate_def split: if_splits)
  from t have "v = ?m @ drop (length ?m) v" by (metis append_take_drop_id)
  with p have "new_id p (drop (length ?m) v) = Inr v" by (simp add: new_id_def)
  with u w show "w = v \<and> (\<exists>u. is_ulid u \<and> new_id p u = Inr v)" by blast
next
  assume "w = v \<and> (\<exists>u. is_ulid u \<and> new_id p u = Inr v)"
  then show "validate p v = Inr w" using validate_new_id by blast
qed

lemma new_id_inject:
  assumes "new_id p u = Inr v" "new_id q w = Inr v"
  shows "p = q \<and> u = w"
proof -
  from assms have p: "p \<in> set PREFIXES" "v = p @ 95 # u" and q: "q \<in> set PREFIXES" "v = q @ 95 # w"
    by (auto simp: new_id_def lit_us split: if_splits)
  then have "partition_us v = (p, u)" "partition_us v = (q, w)"
    using partition_us_id prefixes_no_underscore by metis+
  then show ?thesis by simp
qed

lemma mk_id_inject [simp]: "mk_id p u = mk_id p w \<longleftrightarrow> u = w"
  by (simp add: mk_id_def)

end
