(* ===== verification/Devices.thy ===== *)
theory Devices
  imports Control_Db Canonical Ids
begin

text \<open>
  Signature verification and enrolled devices (\<open>approval/verify.py\<close>, \<open>approval/devices.py\<close>).

  The record \<open>crypto\<close> holds the cryptographic primitives the program calls: \<open>hashlib\<close>'s SHA-256,
  \<open>hmac\<close>, and the P-256 verification of the package \<open>cryptography\<close>, which accepts, raises
  \<open>InvalidSignature\<close> or raises \<open>ValueError\<close> (a malformed key or signature).
\<close>

datatype ec_outcome = EcValid | EcInvalidSignature | EcValueError

record crypto =
  sha256 :: "bytes \<Rightarrow> bytes"
  hmac_sha256 :: "bytes \<Rightarrow> bytes \<Rightarrow> bytes"
  ec_verify :: "bytes \<Rightarrow> bytes \<Rightarrow> nat \<Rightarrow> nat \<Rightarrow> ec_outcome"

section \<open>Verification\<close>

definition verify :: "crypto \<Rightarrow> bytes \<Rightarrow> bytes \<Rightarrow> bytes \<Rightarrow> bool" where
  "verify C payload sig key =
     (if sig = [] \<or> length sig \<noteq> 64 then False
      else (case ec_verify C key payload (from_be (take 32 sig)) (from_be (drop 32 sig)) of
              EcValid \<Rightarrow> True | EcInvalidSignature \<Rightarrow> False | EcValueError \<Rightarrow> False))"

lemma verify_length: "verify C p sig k \<Longrightarrow> length sig = 64"
  by (simp add: verify_def split: if_splits)

definition verify_enrolment :: "crypto \<Rightarrow> pystr \<Rightarrow> bytes \<Rightarrow> bytes \<Rightarrow> bytes \<Rightarrow> bytes \<Rightarrow> exc + bool" where
  "verify_enrolment C pairing_id challenge signing_pub agreement_pub signature =
     (case binding pairing_id challenge signing_pub agreement_pub of
        Inl e \<Rightarrow> Inl e | Inr b \<Rightarrow> Inr (verify C b signature signing_pub))"

section \<open>Devices\<close>

text \<open>\<open>u\<close> is the ULID that \<open>ids.new_id\<close> draws.\<close>

definition enroll ::
  "pystr \<Rightarrow> pystr \<Rightarrow> bytes \<Rightarrow> bytes \<Rightarrow> int option \<Rightarrow> control \<Rightarrow> (exc + pystr) \<times> control" where
  "enroll u name signing_pub agreement_pub now_ms c =
     (let did = mk_id ''dev'' u in
      case ins_device \<lparr>dev_id = did, dev_name = name, dev_public_key = signing_pub,
             dev_agreement_public_key = Some agreement_pub, dev_created_at_ms = now_ms,
             dev_status = ACTIVE\<rparr> (work c) of
        Inl e \<Rightarrow> (Inl e, c)
      | Inr w \<Rightarrow> (Inr did, commit (c\<lparr>work := w\<rparr>)))"

definition set_revoked :: "pystr \<Rightarrow> control_db \<Rightarrow> control_db" where
  "set_revoked i d =
     d\<lparr>approval_devices := upd (\<lambda>r. dev_id r = i) (dev_status_update (\<lambda>_. REVOKED)) (approval_devices d)\<rparr>"

definition revoke :: "pystr \<Rightarrow> control \<Rightarrow> control" where
  "revoke device_id c = commit (c\<lparr>work := set_revoked device_id (work c)\<rparr>)"

datatype key_column = public_key | agreement_public_key

definition active_key :: "control_db \<Rightarrow> pystr \<Rightarrow> key_column \<Rightarrow> bytes option" where
  "active_key d device_id column =
     (case List.find (\<lambda>r. dev_id r = device_id \<and> dev_status r = ACTIVE) (approval_devices d) of
        None \<Rightarrow> None
      | Some r \<Rightarrow> (case column of
            public_key \<Rightarrow> Some (dev_public_key r)
          | agreement_public_key \<Rightarrow> dev_agreement_public_key r))"

definition active_signing_key :: "control_db \<Rightarrow> pystr \<Rightarrow> bytes option" where
  "active_signing_key d i = active_key d i public_key"

definition active_agreement_key :: "control_db \<Rightarrow> pystr \<Rightarrow> bytes option" where
  "active_agreement_key d i = active_key d i agreement_public_key"

section \<open>Lemmas\<close>

lemma active_signing_key_Some:
  "active_signing_key d i = Some k \<Longrightarrow>
   \<exists>r\<in>set (approval_devices d). dev_id r = i \<and> dev_status r = ACTIVE \<and> dev_public_key r = k"
  by (auto simp: active_signing_key_def active_key_def dest: find_SomeD split: option.splits)

lemma active_key_only_devices:
  "approval_devices d' = approval_devices d \<Longrightarrow> active_signing_key d' = active_signing_key d"
  by (simp add: active_signing_key_def active_key_def fun_eq_iff)

lemma active_key_None_iff:
  "active_key d i public_key = None \<longleftrightarrow> \<not> (\<exists>r\<in>set (approval_devices d). dev_id r = i \<and> dev_status r = ACTIVE)"
  by (auto simp: active_key_def find_None split: option.splits dest: find_SomeD)

lemma find_active_revoked:
  fixes t :: "device list"
  shows "List.find (\<lambda>r. dev_id r = j \<and> dev_status r = ACTIVE)
      (upd (\<lambda>r. dev_id r = i) (dev_status_update (\<lambda>_. REVOKED)) t) =
    (if j = i then None else List.find (\<lambda>r. dev_id r = j \<and> dev_status r = ACTIVE) t)"
  by (induction t) (auto simp: upd_def)

lemma revoked_has_no_key: "active_key (set_revoked i d) i col = None"
  by (simp add: active_key_def set_revoked_def find_active_revoked)

lemma revoke_others: "j \<noteq> i \<Longrightarrow> active_key (set_revoked i d) j col = active_key d j col"
  by (simp add: active_key_def set_revoked_def find_active_revoked)

lemma revoke_work: "work (revoke i c) = set_revoked i (work c)"
  by (simp add: revoke_def)

lemma set_revoked_frame [simp]:
  "drafts (set_revoked i d) = drafts d" "approval_nonces (set_revoked i d) = approval_nonces d"
  "send_attempts (set_revoked i d) = send_attempts d" "approvals (set_revoked i d) = approvals d"
  "capability_grants (set_revoked i d) = capability_grants d"
  "conversation_windows (set_revoked i d) = conversation_windows d"
  by (simp_all add: set_revoked_def)

lemma set_revoked_inv: "control_inv d \<Longrightarrow> control_inv (set_revoked i d)"
  unfolding set_revoked_def by (rule upd_devices_inv) auto

lemma enroll_Inr:
  assumes "enroll u name s a t c = (Inr i, c')"
  shows "i = mk_id ''dev'' u \<and> clean c' \<and>
    work c' = (work c)\<lparr>approval_devices := approval_devices (work c) @
      [\<lparr>dev_id = i, dev_name = name, dev_public_key = s, dev_agreement_public_key = Some a,
        dev_created_at_ms = t, dev_status = ACTIVE\<rparr>]\<rparr> \<and>
    i \<notin> dev_id ` set (approval_devices (work c))"
  using assms by (auto simp: enroll_def ins_device_def ins_Inr Let_def split: sum.splits)

lemma enroll_Inl: "enroll u name s a t c = (Inl e, c') \<Longrightarrow> e = IntegrityError \<and> c' = c"
  by (auto simp: enroll_def ins_device_def ins_Inl Let_def split: sum.splits)

lemma enroll_inv:
  assumes "control_inv (work c)" "enroll u name s a t c = (r, c')" shows "control_inv (work c')"
  using assms ins_device_inv by (auto simp: enroll_def Let_def split: sum.splits)

text \<open>The key just enrolled is the one the sender will verify against.\<close>

lemma enroll_active:
  assumes "enroll u name s a t c = (Inr i, c')"
  shows "active_signing_key (work c') i = Some s" "active_agreement_key (work c') i = Some a"
proof -
  from enroll_Inr [OF assms] have w: "approval_devices (work c') = approval_devices (work c) @
      [\<lparr>dev_id = i, dev_name = name, dev_public_key = s, dev_agreement_public_key = Some a,
        dev_created_at_ms = t, dev_status = ACTIVE\<rparr>]"
    and n: "i \<notin> dev_id ` set (approval_devices (work c))" by auto
  from n have "List.find (\<lambda>r. dev_id r = i \<and> dev_status r = ACTIVE) (approval_devices (work c)) = None"
    by (auto simp: find_None)
  with w show "active_signing_key (work c') i = Some s" "active_agreement_key (work c') i = Some a"
    by (simp_all add: active_signing_key_def active_agreement_key_def active_key_def find_append_None)
qed

end
