(* ===== verification/Relay.thy ===== *)
theory Relay
  imports Devices
begin

text \<open>
  Acceptance of approval envelopes (\<open>approval/relay.py\<close>). The parsed JSON object is a record of
  optional strings (\<open>env.get\<close> of an absent member is \<open>None\<close>); \<open>raw\<close> are the bytes as received.
\<close>

record raw_envelope =
  re_device_id :: "pystr option"
  re_signature_hex :: "pystr option"
  re_decision :: "pystr option"
  re_draft_id :: "pystr option"
  re_nonce_hex :: "pystr option"

definition hex_or :: "'a \<Rightarrow> (bytes \<Rightarrow> 'a) \<Rightarrow> pystr option \<Rightarrow> exc + 'a" where
  "hex_or dflt f v =
     (if truthy v then (case fromhex (the v) of Inl e \<Rightarrow> Inl e | Inr b \<Rightarrow> Inr (f b)) else Inr dflt)"

definition device_active :: "control_db \<Rightarrow> pystr option \<Rightarrow> bool" where
  "device_active d i =
     (case i of None \<Rightarrow> False
      | Some i' \<Rightarrow> (case List.find (\<lambda>r. dev_id r = i') (approval_devices d) of
            None \<Rightarrow> False | Some r \<Rightarrow> dev_status r = ACTIVE))"

definition same_slot :: "pystr \<Rightarrow> pystr \<Rightarrow> pystr \<Rightarrow> bytes option \<Rightarrow> approval \<Rightarrow> bool" where
  "same_slot drf dev dec nonce r \<longleftrightarrow>
     apv_draft_id r = drf \<and> apv_device_id r = dev \<and> apv_decision r = dec \<and> same_key nonce (apv_nonce r)"

text \<open>Lines 41 to 53: the structural check, giving the parts of the row.\<close>

definition envelope_parts ::
  "raw_envelope \<Rightarrow> control_db \<Rightarrow> exc + (pystr \<times> pystr \<times> pystr \<times> bytes \<times> bytes option)" where
  "envelope_parts env d =
     (if \<not> device_active d (re_device_id env) then Inl (RelayRejected ''unknown_or_inactive_device'')
      else (case hex_or [] id (re_signature_hex env) of
          Inl e \<Rightarrow> Inl e
        | Inr sig \<Rightarrow>
            if length sig \<noteq> 64 then Inl (RelayRejected ''bad_signature_length'')
            else if re_decision env \<notin> {Some (lit ''APPROVE''), Some (lit ''REJECT'')}
            then Inl (RelayRejected ''bad_decision'')
            else (case re_draft_id env of
                None \<Rightarrow> Inl (RelayRejected ''unknown_draft'')
              | Some drf \<Rightarrow>
                  if \<not> has_draft d drf then Inl (RelayRejected ''unknown_draft'')
                  else (case hex_or None Some (re_nonce_hex env) of
                      Inl e \<Rightarrow> Inl e
                    | Inr nonce \<Rightarrow> Inr (drf, the (re_device_id env), the (re_decision env), sig, nonce)))))"

definition accept_envelope ::
  "pystr \<Rightarrow> bytes \<Rightarrow> raw_envelope \<Rightarrow> control \<Rightarrow> (exc + pystr) \<times> control" where
  "accept_envelope u raw env c =
     (case envelope_parts env (work c) of
        Inl e \<Rightarrow> (Inl e, c)
      | Inr (drf, dev, dec, sig, nonce) \<Rightarrow>
          (case List.find (same_slot drf dev dec nonce) (approvals (work c)) of
             Some r \<Rightarrow> (Inr (apv_id r), c)
           | None \<Rightarrow>
               (let i = mk_id ''apv'' u in
                case ins_approval \<lparr>apv_id = i, apv_draft_id = drf, apv_device_id = dev, apv_decision = dec,
                       apv_signature = Some sig, apv_envelope = raw, apv_nonce = nonce\<rparr> (work c) of
                  Inl e \<Rightarrow> (Inl e, c)
                | Inr w \<Rightarrow> (Inr i, commit (c\<lparr>work := w\<rparr>)))))"

section \<open>Lemmas\<close>

lemma accept_cases:
  assumes "accept_envelope u raw env c = (r, c')"
  shows "c' = c \<or> (\<exists>row. clean c' \<and> ins_approval row (work c) = Inr (work c'))"
  using assms by (auto simp: accept_envelope_def Let_def split: sum.splits option.splits) blast

text \<open>Accepting an envelope only ever adds one row to \<open>approvals\<close>.\<close>

lemma accept_frame:
  assumes "accept_envelope u raw env c = (r, c')"
  shows "work c' = (work c)\<lparr>approvals := approvals (work c')\<rparr>"
  using accept_cases [OF assms] by (auto dest: ins_approval_Inr)

lemma accept_inv:
  assumes "control_inv (work c)" "accept_envelope u raw env c = (r, c')"
  shows "control_inv (work c')"
  using accept_cases [OF assms(2)] assms(1) ins_approval_inv by blast

text \<open>The structural check does not look at the approvals table.\<close>

lemma envelope_parts_cong:
  assumes "approval_devices d' = approval_devices d" "drafts d' = drafts d"
  shows "envelope_parts env d' = envelope_parts env d"
proof -
  have "has_draft d' = has_draft d" "device_active d' = device_active d"
    using assms by (simp_all add: has_draft_def device_active_def fun_eq_iff split: option.split)
  then show ?thesis by (simp add: envelope_parts_def split: option.split sum.split)
qed

text \<open>Resubmitting an envelope that carries a nonce returns the first id and writes nothing.\<close>

lemma accept_again:
  assumes a: "accept_envelope u raw env c = (Inr i, c')"
    and n: "truthy (re_nonce_hex env)"
  shows "accept_envelope u' raw' env c' = (Inr i, c')"
proof -
  from a obtain drf dev dec sig nonce where
    parts: "envelope_parts env (work c) = Inr (drf, dev, dec, sig, nonce)"
    by (auto simp: accept_envelope_def split: sum.splits)
  with n have nn: "nonce \<noteq> None"
    by (auto simp: envelope_parts_def hex_or_def split: if_splits sum.splits option.splits)
  have "approval_devices (work c') = approval_devices (work c)" "drafts (work c') = drafts (work c)"
    using accept_cases [OF a] by (auto dest: ins_approval_Inr)
  with parts have parts': "envelope_parts env (work c') = Inr (drf, dev, dec, sig, nonce)"
    using envelope_parts_cong by metis
  show ?thesis
  proof (cases "List.find (same_slot drf dev dec nonce) (approvals (work c))")
    case None
    define row where "row = \<lparr>apv_id = mk_id ''apv'' u, apv_draft_id = drf, apv_device_id = dev,
      apv_decision = dec, apv_signature = Some sig, apv_envelope = raw, apv_nonce = nonce\<rparr>"
    have row: "same_slot drf dev dec nonce row"
      using nn by (simp add: row_def same_slot_def same_key_def)
    from a parts None have i: "apv_id row = i" and w: "ins_approval row (work c) = Inr (work c')"
      by (auto simp: accept_envelope_def Let_def row_def split: sum.splits)
    from ins_approval_Inr [OF w] None row
    have "List.find (same_slot drf dev dec nonce) (approvals (work c')) = Some row"
      by (simp add: find_append_None)
    with parts' i show ?thesis by (simp add: accept_envelope_def)
  next
    case (Some r)
    with a parts have "c' = c" "apv_id r = i" by (auto simp: accept_envelope_def)
    with Some parts show ?thesis by (simp add: accept_envelope_def)
  qed
qed

lemma accepted_is_structural:
  assumes "accept_envelope u raw env c = (Inr i, c')"
  shows "device_active (work c) (re_device_id env) \<and>
    re_decision env \<in> {Some (lit ''APPROVE''), Some (lit ''REJECT'')} \<and>
    (\<exists>drf. re_draft_id env = Some drf \<and> has_draft (work c) drf)"
  using assms
  by (auto simp: accept_envelope_def envelope_parts_def split: sum.splits if_splits option.splits)

end
