(* ===== verification/Capabilities.thy ===== *)
theory Capabilities
  imports Devices
begin

text \<open>
  Phone-signed capability grants (\<open>approval/capabilities.py\<close>). \<open>store_grant\<close> verifies before it
  stores; \<open>verify_and_consume\<close> walks the matching rows, re-verifies each against the current
  device key, and uses up one action of the first row that passes every check.
\<close>

section \<open>The code\<close>

definition store_grant :: "crypto \<Rightarrow> grant_fields \<Rightarrow> bytes \<Rightarrow> control \<Rightarrow> (exc + pystr) \<times> control" where
  "store_grant C f signature c =
     (case (gf_device_id f, gf_capability_id f, gf_action f) of
        (Some dev, Some cap, Some act) \<Rightarrow>
          (case active_signing_key (work c) dev of
             None \<Rightarrow> (Inl (GrantRejected ''device_inactive_or_unknown''), c)
           | Some key \<Rightarrow>
               (case encode_grant f of
                  Inl e \<Rightarrow> (Inl e, c)
                | Inr payload \<Rightarrow>
                    if \<not> verify C payload signature key then (Inl (GrantRejected ''bad_signature''), c)
                    else (case ins_grant \<lparr>cap_id = cap, cap_device_id = dev,
                             cap_account_id = gf_account_id f, cap_conversation_id = gf_conversation_id f,
                             cap_action = act, cap_created_at_ms = gf_created_at_ms f,
                             cap_expires_at_ms = gf_expires_at_ms f, cap_max_actions = gf_max_actions f,
                             cap_used_count = 0, cap_nonce = gf_nonce f, cap_signature = signature,
                             cap_status = ACTIVE\<rparr> (work c) of
                        Inl e \<Rightarrow> (Inl e, c)
                      | Inr w \<Rightarrow> (Inr cap, commit (c\<lparr>work := w\<rparr>)))))
      | _ \<Rightarrow> (Inl KeyError, c))"

definition row_fields :: "pystr \<Rightarrow> pystr \<Rightarrow> grant \<Rightarrow> grant_fields" where
  "row_fields action conversation_id r =
     \<lparr>gf_capability_id = Some (cap_id r), gf_device_id = Some (cap_device_id r),
      gf_account_id = cap_account_id r, gf_conversation_id = Some conversation_id,
      gf_action = Some action, gf_created_at_ms = cap_created_at_ms r,
      gf_expires_at_ms = cap_expires_at_ms r, gf_max_actions = cap_max_actions r,
      gf_nonce = cap_nonce r\<rparr>"

definition past :: "int \<Rightarrow> grant \<Rightarrow> bool" where
  "past now r = (case cap_expires_at_ms r of None \<Rightarrow> False | Some e \<Rightarrow> e \<le> now)"

definition used_up :: "grant \<Rightarrow> bool" where
  "used_up r = (case cap_max_actions r of None \<Rightarrow> False | Some m \<Rightarrow> m \<le> cap_used_count r)"

definition bump :: "pystr \<Rightarrow> int \<Rightarrow> control_db \<Rightarrow> control_db" where
  "bump i n d = d\<lparr>capability_grants :=
     upd (\<lambda>r. cap_id r = i \<and> cap_used_count r = n) (\<lambda>r. r\<lparr>cap_used_count := cap_used_count r + 1\<rparr>)
       (capability_grants d)\<rparr>"

text \<open>The loop over the fetched rows.\<close>

fun try_grants ::
  "crypto \<Rightarrow> pystr \<Rightarrow> pystr \<Rightarrow> int \<Rightarrow> grant list \<Rightarrow> control \<Rightarrow> (exc + bool) \<times> control" where
  "try_grants C action conv now [] c = (Inr False, c)"
| "try_grants C action conv now (r # rs) c =
     (case active_signing_key (work c) (cap_device_id r) of
        None \<Rightarrow> try_grants C action conv now rs c
      | Some key \<Rightarrow>
          if past now r then try_grants C action conv now rs c
          else if used_up r then try_grants C action conv now rs c
          else (case encode_grant (row_fields action conv r) of
              Inl e \<Rightarrow> (Inl e, c)
            | Inr payload \<Rightarrow>
                if \<not> verify C payload (cap_signature r) key then try_grants C action conv now rs c
                else
                  (let n = rowcount (\<lambda>x. cap_id x = cap_id r \<and> cap_used_count x = cap_used_count r)
                             (capability_grants (work c));
                       c1 = c\<lparr>work := bump (cap_id r) (cap_used_count r) (work c)\<rparr> in
                   if n = 1 then (Inr True, commit c1) else try_grants C action conv now rs c1)))"

definition matching :: "pystr \<Rightarrow> pystr \<Rightarrow> grant \<Rightarrow> bool" where
  "matching action conv r \<longleftrightarrow>
     cap_action r = action \<and> cap_conversation_id r = Some conv \<and> cap_status r = ACTIVE"

definition verify_and_consume ::
  "crypto \<Rightarrow> pystr \<Rightarrow> pystr \<Rightarrow> int \<Rightarrow> control \<Rightarrow> (exc + bool) \<times> control" where
  "verify_and_consume C action conv now c =
     try_grants C action conv now (filter (matching action conv) (capability_grants (work c))) c"

section \<open>What authorises an action\<close>

definition authorises :: "crypto \<Rightarrow> pystr \<Rightarrow> pystr \<Rightarrow> int \<Rightarrow> control_db \<Rightarrow> grant \<Rightarrow> bool" where
  "authorises C action conv now d r \<longleftrightarrow>
     r \<in> set (capability_grants d) \<and> matching action conv r \<and> \<not> past now r \<and> \<not> used_up r \<and>
     (\<exists>key payload. active_signing_key d (cap_device_id r) = Some key \<and>
        encode_grant (row_fields action conv r) = Inr payload \<and> verify C payload (cap_signature r) key)"

lemma bump_frame [simp]:
  "approval_devices (bump i n d) = approval_devices d" "drafts (bump i n d) = drafts d"
  "approvals (bump i n d) = approvals d" "approval_nonces (bump i n d) = approval_nonces d"
  "send_attempts (bump i n d) = send_attempts d" "conversation_windows (bump i n d) = conversation_windows d"
  by (simp_all add: bump_def)

lemma bump_one:
  assumes "distinct (map cap_id t)" "r \<in> set t"
  shows "rowcount (\<lambda>x. cap_id x = cap_id r \<and> cap_used_count x = cap_used_count r) t = 1"
proof -
  have "filter (\<lambda>x. cap_id x = cap_id r \<and> cap_used_count x = cap_used_count r) t = filter (\<lambda>x. cap_id x = cap_id r) t"
    using assms by (auto intro!: filter_cong simp: distinct_map dest: inj_onD)
  then show ?thesis using rowcount_distinct [OF assms(1), of "cap_id r"] assms(2)
    by (simp add: rowcount_def)
qed

lemma try_grants_result:
  assumes "distinct (map cap_id (capability_grants (work c)))"
    and "set rs \<subseteq> {r \<in> set (capability_grants (work c)). matching action conv r}"
    and "try_grants C action conv now rs c = (Inr b, c')"
  shows "if b then \<exists>r\<in>set rs. authorises C action conv now (work c) r \<and> clean c' \<and>
                     work c' = bump (cap_id r) (cap_used_count r) (work c)
         else c' = c \<and> (\<forall>r\<in>set rs. \<not> authorises C action conv now (work c) r)"
  using assms(2,3)
proof (induction rs)
  case Nil
  then show ?case by auto
next
  case (Cons r rs)
  have n: "rowcount (\<lambda>x. cap_id x = cap_id r \<and> cap_used_count x = cap_used_count r)
      (capability_grants (work c)) = 1"
    using bump_one assms(1) Cons.prems(1) by auto
  show ?case
  proof (cases "authorises C action conv now (work c) r")
    case True
    with Cons.prems n have "b \<and> c' = commit (c\<lparr>work := bump (cap_id r) (cap_used_count r) (work c)\<rparr>)"
      by (auto simp: authorises_def Let_def)
    with True show ?thesis by auto
  next
    case False
    with Cons.prems have "try_grants C action conv now rs c = (Inr b, c')"
      by (auto simp: authorises_def n Let_def split: option.splits if_splits sum.splits)
    with Cons.IH Cons.prems(1) have "if b then \<exists>r\<in>set rs. authorises C action conv now (work c) r \<and> clean c' \<and>
                     work c' = bump (cap_id r) (cap_used_count r) (work c)
         else c' = c \<and> (\<forall>r\<in>set rs. \<not> authorises C action conv now (work c) r)" by auto
    with False show ?thesis by (auto split: if_splits)
  qed
qed

text \<open>A grant is used exactly when one authorises the action, and one action of it is spent.\<close>

lemma verify_and_consume_True:
  assumes "control_inv (work c)" "verify_and_consume C action conv now c = (Inr True, c')"
  obtains r where "authorises C action conv now (work c) r" "clean c'"
    "work c' = bump (cap_id r) (cap_used_count r) (work c)"
  using try_grants_result [OF _ _ assms(2) [unfolded verify_and_consume_def]] assms(1)
  by (auto simp: control_inv_def)

lemma verify_and_consume_False:
  assumes "control_inv (work c)" "verify_and_consume C action conv now c = (Inr False, c')"
  shows "c' = c \<and> \<not> (\<exists>r. authorises C action conv now (work c) r)"
  using try_grants_result [OF _ _ assms(2) [unfolded verify_and_consume_def]] assms(1)
  by (auto simp: control_inv_def authorises_def)

lemma try_grants_cases:
  assumes "try_grants C action conv now rs c = (x, c')"
    and "distinct (map cap_id (capability_grants (work c)))"
    and "set rs \<subseteq> set (capability_grants (work c))"
  shows "c' = c \<or> (\<exists>r\<in>set rs. clean c' \<and> \<not> used_up r \<and> work c' = bump (cap_id r) (cap_used_count r) (work c))"
  using assms
proof (induction rs)
  case (Cons r rs)
  have "rowcount (\<lambda>x. cap_id x = cap_id r \<and> cap_used_count x = cap_used_count r)
      (capability_grants (work c)) = 1"
    using bump_one Cons.prems by auto
  with Cons show ?case
    by (auto simp: Let_def split: option.splits if_splits sum.splits)
qed simp

lemma verify_and_consume_cases:
  assumes "control_inv (work c)" "verify_and_consume C action conv now c = (x, c')"
  shows "c' = c \<or> (\<exists>r\<in>set (capability_grants (work c)). clean c' \<and> \<not> used_up r \<and>
    work c' = bump (cap_id r) (cap_used_count r) (work c))"
  using try_grants_cases [OF assms(2) [unfolded verify_and_consume_def]] assms(1)
  by (auto simp: control_inv_def)

section \<open>Quotas\<close>

text \<open>No grant is ever used more often than it allows.\<close>

definition quota_ok :: "control_db \<Rightarrow> bool" where
  "quota_ok d \<longleftrightarrow> (\<forall>r\<in>set (capability_grants d). \<forall>m. cap_max_actions r = Some m \<longrightarrow> cap_used_count r \<le> m)"

lemma bump_inv: "control_inv d \<Longrightarrow> control_inv (bump i n d)"
  unfolding bump_def by (rule upd_grants_inv) (auto simp: grant_ok_def)

lemma bump_quota:
  assumes "quota_ok d" "control_inv d" "r \<in> set (capability_grants d)" "\<not> used_up r"
  shows "quota_ok (bump (cap_id r) (cap_used_count r) d)"
proof -
  have same: "x = r" if "x \<in> set (capability_grants d)" "cap_id x = cap_id r" for x
    using assms(2,3) that by (auto simp: control_inv_def distinct_map dest: inj_onD)
  have "cap_used_count r + 1 \<le> m" if "cap_max_actions r = Some m" for m
    using assms(4) that by (simp add: used_up_def)
  then show ?thesis using assms(1) same
    by (fastforce simp: quota_ok_def bump_def set_upd)
qed

lemma consume_quota:
  assumes "control_inv (work c)" "quota_ok (work c)" "verify_and_consume C action conv now c = (x, c')"
  shows "control_inv (work c') \<and> quota_ok (work c')"
  using verify_and_consume_cases [OF assms(1,3)] assms(1,2) bump_inv bump_quota by auto

lemma store_grant_cases:
  assumes "store_grant C f sig c = (x, c')"
  shows "c' = c \<or> (\<exists>row. clean c' \<and> ins_grant row (work c) = Inr (work c') \<and> cap_used_count row = 0)"
  using assms by (auto simp: store_grant_def split: option.splits sum.splits if_splits)

lemma store_grant_inv:
  assumes "control_inv (work c)" "quota_ok (work c)" "store_grant C f sig c = (x, c')"
  shows "control_inv (work c') \<and> quota_ok (work c')"
  using store_grant_cases [OF assms(3)]
proof (elim disjE exE conjE)
  fix row assume row: "ins_grant row (work c) = Inr (work c')" "cap_used_count row = 0"
  with assms(1) have "control_inv (work c')" by (blast intro: ins_grant_inv)
  moreover have "quota_ok (work c')"
    using ins_grant_Inr [OF row(1)] assms(2) row(2) by (auto simp: quota_ok_def grant_ok_def)
  ultimately show ?thesis by simp
qed (use assms in simp)

text \<open>A stored grant was signed by an active device's key over exactly the stored fields.\<close>

lemma store_grant_signed:
  assumes "store_grant C f sig c = (Inr i, c')"
  shows "\<exists>dev key payload. gf_device_id f = Some dev \<and> active_signing_key (work c) dev = Some key \<and>
    encode_grant f = Inr payload \<and> verify C payload sig key"
  using assms by (auto simp: store_grant_def split: option.splits sum.splits if_splits)

end
