(* ===== verification/Reconcile.thy ===== *)
theory Reconcile
  imports Devices
begin

text \<open>
  Delivery reconciliation (\<open>approval/reconcile.py\<close>): a provider status event resolves an
  indeterminate attempt when it names it, touches an attempt whose message id it carries,
  and is otherwise filed for a human to decide.
\<close>

record status_event =
  se_wamid :: "pystr option"
  se_callback :: "pystr option"
  se_recipient_id :: "pystr option"
  se_provider_ts_ms :: "int option"
  se_status :: "pystr option"

datatype match_result = M_RESOLVED pystr | M_POSSIBLE_MATCH pystr

text \<open>The attempt a callback \<open>wv1:<attempt>\<close> names.\<close>

definition callback_attempt :: "status_event \<Rightarrow> pystr option" where
  "callback_attempt e =
     (case se_callback e of None \<Rightarrow> None
      | Some cb \<Rightarrow> if cb \<noteq> [] \<and> take 4 cb = lit ''wv1:'' then Some (drop 4 cb) else None)"

definition resolvable :: "pystr \<Rightarrow> attempt \<Rightarrow> bool" where
  "resolvable i r \<longleftrightarrow> atm_id r = i \<and> atm_state r = INDETERMINATE"

definition resolve_attempt :: "pystr \<Rightarrow> pystr option \<Rightarrow> int \<Rightarrow> control_db \<Rightarrow> control_db" where
  "resolve_attempt i wamid now d = d\<lparr>send_attempts :=
     upd (resolvable i) (\<lambda>r. r\<lparr>atm_state := SUBMITTED, atm_wamid := wamid, atm_updated_at_ms := now\<rparr>)
       (send_attempts d)\<rparr>"

definition by_wamid :: "pystr \<Rightarrow> status_event \<Rightarrow> int \<Rightarrow> control \<Rightarrow> (exc + match_result) \<times> control" where
  "by_wamid u e now c =
     (case (if truthy (se_wamid e) then List.find (\<lambda>r. atm_wamid r = se_wamid e) (send_attempts (work c)) else None) of
        Some row \<Rightarrow>
          (Inr (M_RESOLVED (atm_id row)),
           commit (c\<lparr>work := (work c)\<lparr>send_attempts :=
             upd (\<lambda>r. atm_id r = atm_id row) (atm_updated_at_ms_update (\<lambda>_. now)) (send_attempts (work c))\<rparr>\<rparr>))
      | None \<Rightarrow>
          (let cid = mk_id ''rcn'' u in
           case ins_candidate \<lparr>rcn_id = cid, rcn_wamid = se_wamid e, rcn_recipient_id = se_recipient_id e,
                  rcn_provider_ts_ms = se_provider_ts_ms e, rcn_status = se_status e,
                  rcn_state = POSSIBLE_MATCH, rcn_created_at_ms = now, rcn_resolution = None\<rparr> (work c) of
             Inl x \<Rightarrow> (Inl x, c)
           | Inr w \<Rightarrow> (Inr (M_POSSIBLE_MATCH cid), commit (c\<lparr>work := w\<rparr>))))"

definition on_status_event ::
  "pystr \<Rightarrow> status_event \<Rightarrow> int \<Rightarrow> control \<Rightarrow> (exc + match_result) \<times> control" where
  "on_status_event u e now c =
     (case callback_attempt e of
        None \<Rightarrow> by_wamid u e now c
      | Some atm \<Rightarrow>
          (let n = rowcount (resolvable atm) (send_attempts (work c));
               c1 = commit (c\<lparr>work := resolve_attempt atm (se_wamid e) now (work c)\<rparr>) in
           if n = 1 then (Inr (M_RESOLVED atm), c1) else by_wamid u e now c1))"

definition resolve :: "pystr \<Rightarrow> pystr \<Rightarrow> control \<Rightarrow> candidate_state \<times> control" where
  "resolve candidate_id decision c =
     (let st = (if decision = lit ''resolve'' then RESOLVED else DISMISSED) in
      (st, commit (c\<lparr>work := (work c)\<lparr>reconciliation_candidates :=
         upd (\<lambda>r. rcn_id r = candidate_id) (\<lambda>r. r\<lparr>rcn_state := st, rcn_resolution := Some decision\<rparr>)
           (reconciliation_candidates (work c))\<rparr>\<rparr>)))"

section \<open>Lemmas\<close>

definition status_frame :: "control_db \<Rightarrow> control_db \<Rightarrow> bool" where
  "status_frame d d' \<longleftrightarrow>
     d' = d\<lparr>send_attempts := send_attempts d', reconciliation_candidates := reconciliation_candidates d'\<rparr> \<and>
     map (\<lambda>a. (atm_id a, atm_draft_id a, atm_idempotency_key a)) (send_attempts d') =
     map (\<lambda>a. (atm_id a, atm_draft_id a, atm_idempotency_key a)) (send_attempts d)"

lemma status_frame_refl [simp]: "status_frame d d"
  by (simp add: status_frame_def)

lemma status_frame_trans: "status_frame a b \<Longrightarrow> status_frame b c \<Longrightarrow> status_frame a c"
  by (cases a; cases b; cases c) (simp add: status_frame_def)

lemma status_frame_attempts:
  "(\<And>r. (atm_id (f r), atm_draft_id (f r), atm_idempotency_key (f r)) = (atm_id r, atm_draft_id r, atm_idempotency_key r)) \<Longrightarrow>
   status_frame d (d\<lparr>send_attempts := upd p f (send_attempts d)\<rparr>)"
  by (simp add: status_frame_def map_upd_key)

lemma by_wamid_frame: "by_wamid u e now c = (r, c') \<Longrightarrow> status_frame (work c) (work c')"
  by (auto simp: by_wamid_def Let_def status_frame_attempts split: option.splits sum.splits
           dest!: ins_candidate_Inr) (simp add: status_frame_def)

text \<open>Status events never add or remove an attempt, and touch no other table but the candidates.\<close>

lemma on_status_frame:
  assumes "on_status_event u e now c = (r, c')" shows "status_frame (work c) (work c')"
proof (cases "callback_attempt e")
  case None
  with assms show ?thesis by (simp add: on_status_event_def by_wamid_frame)
next
  case (Some atm)
  let ?c1 = "commit (c\<lparr>work := resolve_attempt atm (se_wamid e) now (work c)\<rparr>)"
  have f: "status_frame (work c) (work ?c1)"
    by (simp add: resolve_attempt_def status_frame_attempts)
  from assms Some have "c' = ?c1 \<or> by_wamid u e now ?c1 = (r, c')"
    by (auto simp: on_status_event_def Let_def split: if_splits)
  then show ?thesis using f by_wamid_frame [of u e now ?c1 r c'] status_frame_trans by blast
qed

lemma status_frame_inv:
  assumes "status_frame d d'" "control_inv d" shows "control_inv d'"
proof -
  from assms(1) have same: "approval_devices d' = approval_devices d" "drafts d' = drafts d"
    "approvals d' = approvals d" "approval_nonces d' = approval_nonces d"
    "capability_grants d' = capability_grants d"
    and m: "map (\<lambda>a. (atm_id a, atm_draft_id a, atm_idempotency_key a)) (send_attempts d') =
      map (\<lambda>a. (atm_id a, atm_draft_id a, atm_idempotency_key a)) (send_attempts d)"
    by (cases d; cases d'; simp add: status_frame_def)+
  have ids: "map atm_id (send_attempts d') = map atm_id (send_attempts d)"
    "map atm_idempotency_key (send_attempts d') = map atm_idempotency_key (send_attempts d)"
    "map atm_draft_id (send_attempts d') = map atm_draft_id (send_attempts d)"
    using arg_cong [OF m, of "map fst"] arg_cong [OF m, of "map (\<lambda>x. snd (snd x))"]
      arg_cong [OF m, of "map (\<lambda>x. fst (snd x))"] by (simp_all add: comp_def)
  have "has_draft d' = has_draft d" "has_device d' = has_device d"
    using same by (auto simp: has_draft_def has_device_def fun_eq_iff)
  then have "approval_ok d' = approval_ok d" "grant_ok d' = grant_ok d"
    by (auto simp: approval_ok_def grant_ok_def fun_eq_iff)
  moreover have "list_all (\<lambda>a. has_draft d (atm_draft_id a)) (send_attempts d') =
      list_all (has_draft d) (map atm_draft_id (send_attempts d'))"
    by (simp add: list_all_iff)
  moreover have "list_all (\<lambda>a. has_draft d (atm_draft_id a)) (send_attempts d) =
      list_all (has_draft d) (map atm_draft_id (send_attempts d))"
    by (simp add: list_all_iff)
  ultimately show ?thesis using assms(2) same ids \<open>has_draft d' = has_draft d\<close>
    by (simp add: control_inv_def consumed_def draft_nonces_def)
qed

text \<open>An attempt leaves \<open>INDETERMINATE\<close> only when the event names it.\<close>

lemma on_status_attempts:
  assumes "on_status_event u e now c = (r, c')" "a \<in> set (send_attempts (work c'))"
  shows "\<exists>b\<in>set (send_attempts (work c)). atm_id b = atm_id a \<and>
    (atm_state a = atm_state b \<or>
     (atm_state b = INDETERMINATE \<and> atm_state a = SUBMITTED \<and> callback_attempt e = Some (atm_id a)))"
proof -
  have bw: "\<exists>b\<in>set (send_attempts (work x)). atm_id b = atm_id y \<and> atm_state b = atm_state y"
    if "by_wamid u e now x = (r, x')" "y \<in> set (send_attempts (work x'))" for x x' y
    using that by (auto simp: by_wamid_def Let_def set_upd split: option.splits sum.splits if_splits
        dest!: ins_candidate_Inr) blast+
  show ?thesis
  proof (cases "callback_attempt e")
    case None
    with assms bw show ?thesis by (fastforce simp: on_status_event_def)
  next
    case (Some atm)
    let ?c1 = "commit (c\<lparr>work := resolve_attempt atm (se_wamid e) now (work c)\<rparr>)"
    have "\<exists>b\<in>set (send_attempts (work ?c1)). atm_id b = atm_id a \<and> atm_state b = atm_state a"
      using assms Some bw [of ?c1 c' a] by (auto simp: on_status_event_def Let_def split: if_splits)
    then obtain b where b: "b \<in> set (send_attempts (work ?c1))" "atm_id b = atm_id a" "atm_state b = atm_state a"
      by blast
    then show ?thesis using Some
      by (auto simp: resolve_attempt_def set_upd resolvable_def)
  qed
qed

end
