(* ===== verification/Policy.thy ===== *)
theory Policy
  imports Prelude
begin

text \<open>
  The send policy, the clock guard and the display guard
  (\<open>approval/policy.py\<close>, \<open>approval/clockguard.py\<close>, \<open>approval/display_guard.py\<close>): the pure
  checks that the draft preparation and the sender share.
\<close>

section \<open>Policy P1 to P7\<close>

record policy_ctx =
  pc_recipient_wa_id :: "pystr option"
  pc_kind :: pystr
  pc_account_ok :: bool
  pc_now_ms :: "int option"
  pc_expires_at_ms :: "int option"
  pc_device_active :: bool
  pc_rate_ok :: bool
  pc_recipient_is_group :: bool
  pc_window_open :: bool

record policy_result =
  pr_ok :: bool
  pr_failed :: "string list"

definition expired :: "int option \<Rightarrow> int option \<Rightarrow> bool" where
  "expired now exp = (case (now, exp) of (Some n, Some e) \<Rightarrow> e \<le> n | _ \<Rightarrow> False)"

definition evaluate_failed :: "policy_ctx \<Rightarrow> string list" where
  "evaluate_failed ctx =
     (if \<not> truthy (pc_recipient_wa_id ctx) then [''P1_RECIPIENT_UNBOUND''] else []) @
     (if pc_kind ctx = lit ''text'' \<and> \<not> pc_window_open ctx then [''P2_WINDOW_CLOSED''] else []) @
     (if \<not> pc_account_ok ctx then [''P3_ACCOUNT_BINDING''] else []) @
     (if expired (pc_now_ms ctx) (pc_expires_at_ms ctx) then [''P4_EXPIRED''] else []) @
     (if \<not> pc_device_active ctx then [''P5_DEVICE_INACTIVE''] else []) @
     (if \<not> pc_rate_ok ctx then [''P6_RATE_LIMIT''] else []) @
     (if pc_recipient_is_group ctx then [''P7_GROUP_RECIPIENT''] else [])"

definition evaluate :: "policy_ctx \<Rightarrow> policy_result" where
  "evaluate ctx = \<lparr>pr_ok = (length (evaluate_failed ctx) = 0), pr_failed = evaluate_failed ctx\<rparr>"

text \<open>What a send needs, without the order of the checks.\<close>

definition permitted :: "policy_ctx \<Rightarrow> bool" where
  "permitted ctx \<longleftrightarrow>
     truthy (pc_recipient_wa_id ctx) \<and> (pc_kind ctx = lit ''text'' \<longrightarrow> pc_window_open ctx) \<and>
     pc_account_ok ctx \<and> \<not> expired (pc_now_ms ctx) (pc_expires_at_ms ctx) \<and>
     pc_device_active ctx \<and> pc_rate_ok ctx \<and> \<not> pc_recipient_is_group ctx"

lemma evaluate_ok_iff: "pr_ok (evaluate ctx) \<longleftrightarrow> permitted ctx"
  by (auto simp: evaluate_def evaluate_failed_def permitted_def)

lemma evaluate_ok_failed: "pr_ok (evaluate ctx) \<longleftrightarrow> pr_failed (evaluate ctx) = []"
  by (simp add: evaluate_def)

lemma evaluate_refused: "\<not> permitted ctx \<Longrightarrow> pr_failed (evaluate ctx) \<noteq> []"
  using evaluate_ok_iff evaluate_ok_failed by blast

text \<open>The reason a caller reports is the first failing check, in the order P1 to P7.\<close>

definition policy_codes :: "string list" where
  "policy_codes = [''P1_RECIPIENT_UNBOUND'', ''P2_WINDOW_CLOSED'', ''P3_ACCOUNT_BINDING'', ''P4_EXPIRED'',
     ''P5_DEVICE_INACTIVE'', ''P6_RATE_LIMIT'', ''P7_GROUP_RECIPIENT'']"

definition code_fails :: "policy_ctx \<Rightarrow> string \<Rightarrow> bool" where
  "code_fails ctx k \<longleftrightarrow> k \<in> set (pr_failed (evaluate ctx))"

lemma evaluate_failed_order: "evaluate_failed ctx = filter (code_fails ctx) policy_codes"
  by (simp add: code_fails_def evaluate_def policy_codes_def evaluate_failed_def)

section \<open>Clock guard\<close>

text \<open>\<open>ClockGuard\<close>: its state is \<open>_last\<close>; \<open>n\<close> is what the wall clock returned.\<close>

type_synonym clock = "int option"

definition trusted_now :: "int \<Rightarrow> clock \<Rightarrow> (exc + int) \<times> clock" where
  "trusted_now n g =
     (case g of
        None \<Rightarrow> (Inr n, Some n)
      | Some l \<Rightarrow> if n < l then (Inl ClockUntrusted, g) else (Inr n, Some n))"

lemma trusted_now_Inr:
  "trusted_now n l = (Inr t, l') \<Longrightarrow> t = n \<and> l' = Some n \<and> (\<forall>m. l = Some m \<longrightarrow> m \<le> n)"
  by (auto simp: trusted_now_def split: option.splits if_splits)

primrec readings :: "int list \<Rightarrow> clock \<Rightarrow> int list" where
  "readings [] l = []"
| "readings (n # ns) l =
     (case trusted_now n l of (Inl _, l') \<Rightarrow> readings ns l' | (Inr t, l') \<Rightarrow> t # readings ns l')"

lemma readings_ge: "t \<in> set (readings ns (Some m)) \<Longrightarrow> m \<le> t"
proof (induction ns arbitrary: m)
  case (Cons n ns)
  then show ?case by (cases "n < m") (auto simp: trusted_now_def dest: Cons.IH)
qed simp

lemma readings_sorted: "sorted (readings ns l)"
proof (induction ns arbitrary: l)
  case (Cons n ns)
  then show ?case
    by (cases l) (auto simp: trusted_now_def readings_ge)
qed simp

section \<open>Display guard\<close>

definition BIDI :: "nat list" where
  "BIDI = [0x202A, 0x202B, 0x202C, 0x202D, 0x202E, 0x2066, 0x2067, 0x2068, 0x2069, 0x200E, 0x200F]"

definition ZWNJ :: nat where
  "ZWNJ = 0x200C"

definition OTHER_INVISIBLE :: "nat list" where
  "OTHER_INVISIBLE = [0x200B, 0x2060, 0xFEFF, 0x2061, 0x2062, 0x2063]"

datatype script = Arabic | Cyrillic | Latin

definition script_of :: "nat \<Rightarrow> script option" where
  "script_of c =
     (if (0x0600 \<le> c \<and> c \<le> 0x06FF) \<or> (0x0750 \<le> c \<and> c \<le> 0x077F) \<or> (0xFB50 \<le> c \<and> c \<le> 0xFDFF)
      then Some Arabic
      else if 0x0400 \<le> c \<and> c \<le> 0x04FF then Some Cyrillic
      else if (0x41 \<le> c \<and> c \<le> 0x5A) \<or> (0x61 \<le> c \<and> c \<le> 0x7A) then Some Latin
      else None)"

datatype reason = bidi_control | mixed_latin_cyrillic | zero_width_invisible | zwnj_outside_persian

text \<open>The reasons the loop adds at position \<open>i\<close>, with the neighbours it looks at.\<close>

definition reason_at :: "pystr \<Rightarrow> nat \<Rightarrow> reason option" where
  "reason_at s i =
     (let c = s ! i in
      if c \<in> set BIDI then Some bidi_control
      else if c \<in> set OTHER_INVISIBLE then Some zero_width_invisible
      else if c = ZWNJ then
        (let left = (if 0 < i then script_of (s ! (i - 1)) else None);
             right = (if i + 1 < length s then script_of (s ! (i + 1)) else None)
         in if left \<noteq> Some Arabic \<and> right \<noteq> Some Arabic then Some zwnj_outside_persian else None)
      else None)"

definition scan_scripts :: "pystr \<Rightarrow> script list" where
  "scan_scripts s = List.map_filter script_of s"

definition char_reasons :: "pystr \<Rightarrow> reason list" where
  "char_reasons s = List.map_filter (reason_at s) [0..<length s]"

text \<open>\<open>sorted(reasons)\<close>: the set as a list in alphabetical order.\<close>

definition all_reasons :: "pystr \<Rightarrow> reason list" where
  "all_reasons s =
     char_reasons s @
     (if Latin \<in> set (scan_scripts s) \<and> Cyrillic \<in> set (scan_scripts s) then [mixed_latin_cyrillic] else [])"

definition scan_reasons :: "pystr \<Rightarrow> reason list" where
  "scan_reasons s =
     filter (\<lambda>r. r \<in> set (all_reasons s))
       [bidi_control, mixed_latin_cyrillic, zero_width_invisible, zwnj_outside_persian]"

definition scan :: "pystr \<Rightarrow> bool \<times> reason list" where
  "scan s = (length (scan_reasons s) = 0, scan_reasons s)"

lemma map_filter_set: "x \<in> set (List.map_filter f xs) \<longleftrightarrow> (\<exists>y\<in>set xs. f y = Some x)"
  by (induction xs) (auto simp: map_filter_simps split: option.splits)

lemma set_scan_reasons: "set (scan_reasons s) = set (all_reasons s)"
proof -
  let ?l = "[bidi_control, mixed_latin_cyrillic, zero_width_invisible, zwnj_outside_persian]"
  have "r \<in> set ?l" for r by (cases r) auto
  then have "set (all_reasons s) \<subseteq> set ?l" by blast
  moreover have "set (scan_reasons s) = set (all_reasons s) \<inter> set ?l"
    unfolding scan_reasons_def set_filter by blast
  ultimately show ?thesis by blast
qed

text \<open>A text is safe exactly when no position and no script mix is flagged.\<close>

definition hidden_free :: "pystr \<Rightarrow> bool" where
  "hidden_free s \<longleftrightarrow>
     (\<forall>c\<in>set s. c \<notin> set BIDI \<and> c \<notin> set OTHER_INVISIBLE) \<and>
     (\<forall>i<length s. s ! i = ZWNJ \<longrightarrow>
        (0 < i \<and> script_of (s ! (i - 1)) = Some Arabic) \<or>
        (i + 1 < length s \<and> script_of (s ! (i + 1)) = Some Arabic)) \<and>
     \<not> (\<exists>a\<in>set s. \<exists>b\<in>set s. script_of a = Some Latin \<and> script_of b = Some Cyrillic)"

lemma ZWNJ_not_flagged_set: "ZWNJ \<notin> set BIDI" "ZWNJ \<notin> set OTHER_INVISIBLE"
  by (simp_all add: ZWNJ_def BIDI_def OTHER_INVISIBLE_def)

lemma scan_safe_iff: "fst (scan s) \<longleftrightarrow> hidden_free s"
proof -
  have mix: "(Latin \<in> set (scan_scripts s) \<and> Cyrillic \<in> set (scan_scripts s)) \<longleftrightarrow>
      (\<exists>a\<in>set s. \<exists>b\<in>set s. script_of a = Some Latin \<and> script_of b = Some Cyrillic)"
    by (auto simp: scan_scripts_def map_filter_set)
  have "fst (scan s) \<longleftrightarrow> set (all_reasons s) = {}"
    by (simp add: scan_def flip: set_scan_reasons)
  also have "\<dots> \<longleftrightarrow> (\<forall>i<length s. reason_at s i = None) \<and>
      \<not> (\<exists>a\<in>set s. \<exists>b\<in>set s. script_of a = Some Latin \<and> script_of b = Some Cyrillic)"
  proof -
    have "set (char_reasons s) = {} \<longleftrightarrow> (\<forall>i<length s. reason_at s i = None)"
      by (auto simp: char_reasons_def map_filter_set set_eq_iff) (meson atLeastLessThan_iff le0 not_None_eq)
    then show ?thesis using mix by (auto simp: all_reasons_def)
  qed
  also have "(\<forall>i<length s. reason_at s i = None) \<longleftrightarrow>
      (\<forall>i<length s. s ! i \<notin> set BIDI \<and> s ! i \<notin> set OTHER_INVISIBLE \<and>
        (s ! i = ZWNJ \<longrightarrow> (0 < i \<and> script_of (s ! (i - 1)) = Some Arabic) \<or>
           (i + 1 < length s \<and> script_of (s ! (i + 1)) = Some Arabic)))"
    by (intro all_cong) (auto simp: reason_at_def Let_def ZWNJ_not_flagged_set)
  finally show ?thesis by (auto simp: hidden_free_def all_set_conv_all_nth)
qed

end
