(* ===== verification/Drafts.thy ===== *)
theory Drafts
  imports Devices Policy
begin

text \<open>
  Draft preparation (\<open>approval/drafts.py\<close>). \<open>prepare\<close> evaluates the shared policy, reuses a
  pending draft with the same body in the conversation, and otherwise writes one new
  \<open>PENDING_APPROVAL\<close> row. The draft id's ULID \<open>u\<close> and the 32 bytes of \<open>os.urandom\<close> are
  arguments.
\<close>

definition DEFAULT_TTL_MS :: int where
  "DEFAULT_TTL_MS = 15 * 60 * 1000"

record prepare_args =
  pa_conversation_id :: pystr
  pa_account_id :: pystr
  pa_phone_number_id :: pystr
  pa_recipient_wa_id :: "pystr option"
  pa_text :: pystr
  pa_kind :: pystr
  pa_now_ms :: int
  pa_window_open :: bool
  pa_expires_at_ms :: "int option"

definition prepare_ctx :: "prepare_args \<Rightarrow> policy_ctx" where
  "prepare_ctx a =
     \<lparr>pc_recipient_wa_id = pa_recipient_wa_id a, pc_kind = pa_kind a, pc_account_ok = True,
      pc_now_ms = Some (pa_now_ms a), pc_expires_at_ms = Some (pa_now_ms a + 1),
      pc_device_active = True, pc_rate_ok = True, pc_recipient_is_group = False,
      pc_window_open = pa_window_open a\<rparr>"

text \<open>\<open>expires_at_ms or (now_ms + DEFAULT_TTL_MS)\<close>: zero counts as absent.\<close>

definition expiry :: "prepare_args \<Rightarrow> int" where
  "expiry a = (case pa_expires_at_ms a of
      None \<Rightarrow> pa_now_ms a + DEFAULT_TTL_MS
    | Some e \<Rightarrow> if e = 0 then pa_now_ms a + DEFAULT_TTL_MS else e)"

definition new_draft :: "crypto \<Rightarrow> pystr \<Rightarrow> bytes \<Rightarrow> prepare_args \<Rightarrow> bytes \<Rightarrow> draft" where
  "new_draft C i nonce a body =
     \<lparr>drf_id = i, drf_conversation_id = pa_conversation_id a, drf_account_id = pa_account_id a,
      drf_phone_number_id = pa_phone_number_id a, drf_recipient_wa_id = pa_recipient_wa_id a,
      drf_body_bytes = Some body, drf_body_sha256 = Some (sha256 C body), drf_kind = pa_kind a,
      drf_template_id = None, drf_template_params_sha256 = None,
      drf_attachments_digest = Some (sha256 C ATTACH_DOMAIN), drf_reply_to_wamid = None,
      drf_target_message_wamid = None, drf_nonce = Some nonce,
      drf_created_at_ms = Some (pa_now_ms a), drf_expires_at_ms = Some (expiry a),
      drf_created_by = Some (lit ''mcp''), drf_state = D_PENDING_APPROVAL\<rparr>"

definition reusable :: "prepare_args \<Rightarrow> bytes \<Rightarrow> draft \<Rightarrow> bool" where
  "reusable a bsha r \<longleftrightarrow>
     drf_conversation_id r = pa_conversation_id a \<and> drf_body_sha256 r = Some bsha \<and>
     drf_state r = D_PENDING_APPROVAL"

definition prepare ::
  "crypto \<Rightarrow> pystr \<Rightarrow> bytes \<Rightarrow> prepare_args \<Rightarrow> control \<Rightarrow> (exc + pystr \<times> bool) \<times> control" where
  "prepare C u nonce a c =
     (let r = evaluate (prepare_ctx a) in
      if \<not> pr_ok r then (Inl (DraftRefused (hd (pr_failed r))), c)
      else (case utf8 (pa_text a) of
          Inl e \<Rightarrow> (Inl e, c)
        | Inr body \<Rightarrow>
            (case List.find (reusable a (sha256 C body)) (drafts (work c)) of
               Some d \<Rightarrow> (Inr (drf_id d, True), c)
             | None \<Rightarrow>
                 (let i = mk_id ''drf'' u in
                  case ins_draft (new_draft C i nonce a body) (work c) of
                    Inl e \<Rightarrow> (Inl e, c)
                  | Inr w \<Rightarrow> (Inr (i, False), commit (c\<lparr>work := w\<rparr>))))))"

lemma attachments_digest_empty: "attachments_digest h [] = Inr (h ATTACH_DOMAIN)"
  by (simp add: attachments_digest_def lp_strs_def attachment_parts_def)

section \<open>What a call does\<close>

lemma prepare_fresh:
  assumes "prepare C u nonce a c = (Inr (i, False), c')"
  obtains body where "permitted (prepare_ctx a)" "utf8 (pa_text a) = Inr body" "i = mk_id ''drf'' u"
    "ins_draft (new_draft C i nonce a body) (work c) = Inr (work c')" "clean c'"
    "drafts (work c') = drafts (work c) @ [new_draft C i nonce a body]"
    "work c' = (work c)\<lparr>drafts := drafts (work c')\<rparr>"
proof -
  from assms obtain body where body: "utf8 (pa_text a) = Inr body" and ok: "pr_ok (evaluate (prepare_ctx a))"
    by (auto simp: prepare_def Let_def split: if_splits sum.splits)
  from assms body ok have i: "i = mk_id ''drf'' u"
    and w: "ins_draft (new_draft C i nonce a body) (work c) = Inr (work c')" "clean c'"
    by (auto simp: prepare_def Let_def split: sum.splits option.splits)
  from w have "work c' = (work c)\<lparr>drafts := drafts (work c) @ [new_draft C i nonce a body]\<rparr>"
    using ins_draft_Inr by blast
  then show thesis using that [of body] ok body i w by (simp add: evaluate_ok_iff)
qed

lemma prepare_reused:
  assumes "prepare C u nonce a c = (Inr (i, True), c')"
  shows "c' = c \<and> (\<exists>body. utf8 (pa_text a) = Inr body \<and>
    (\<exists>d\<in>set (drafts (work c)). drf_id d = i \<and> reusable a (sha256 C body) d))"
  using assms by (auto simp: prepare_def Let_def split: if_splits sum.splits option.splits dest!: find_SomeD)

lemma prepare_error:
  assumes "prepare C u nonce a c = (Inl e, c')"
  shows "c' = c"
  using assms by (auto simp: prepare_def Let_def split: if_splits sum.splits option.splits)

lemma prepare_refused:
  "\<not> permitted (prepare_ctx a) \<Longrightarrow>
   prepare C u nonce a c = (Inl (DraftRefused (hd (evaluate_failed (prepare_ctx a)))), c)"
  using evaluate_ok_iff [of "prepare_ctx a"] by (simp add: prepare_def Let_def) (simp add: evaluate_def)

lemma prepare_cases:
  assumes "prepare C u nonce a c = (r, c')"
  shows "c' = c \<or> (\<exists>body. clean c' \<and> utf8 (pa_text a) = Inr body \<and>
    ins_draft (new_draft C (mk_id ''drf'' u) nonce a body) (work c) = Inr (work c'))"
  using assms
  by (auto simp: prepare_def Let_def split: if_splits sum.splits option.splits)

lemma prepare_inv:
  assumes "control_inv (work c)" "prepare C u nonce a c = (r, c')"
  shows "control_inv (work c')"
  using prepare_cases [OF assms(2)] ins_draft_inv [OF assms(1)] assms(1) by auto

text \<open>Preparing the same text again returns the first draft and writes nothing.\<close>

lemma prepare_idempotent:
  assumes "prepare C u nonce a c = (Inr (i, b), c')"
  shows "prepare C u' nonce' a c' = (Inr (i, True), c')"
proof (cases b)
  case True
  with assms have c: "c' = c" by (auto dest: prepare_reused)
  from assms True show ?thesis unfolding c
    by (auto simp: prepare_def Let_def split: if_splits sum.splits option.splits)
next
  case False
  with assms obtain body where body: "permitted (prepare_ctx a)" "utf8 (pa_text a) = Inr body"
    and d: "drafts (work c') = drafts (work c) @ [new_draft C i nonce a body]"
    by (auto elim: prepare_fresh)
  have none: "List.find (reusable a (sha256 C body)) (drafts (work c)) = None"
    using assms False body(2)
    by (auto simp: prepare_def Let_def split: if_splits sum.splits option.splits)
  have "reusable a (sha256 C body) (new_draft C i nonce a body)"
    by (simp add: reusable_def new_draft_def)
  with none d have "List.find (reusable a (sha256 C body)) (drafts (work c')) = Some (new_draft C i nonce a body)"
    by (simp add: find_append_None)
  moreover have "drf_id (new_draft C i nonce a body) = i" by (simp add: new_draft_def)
  ultimately show ?thesis using body
    by (simp add: prepare_def Let_def evaluate_ok_iff)
qed

end
