(* ===== verification/Scheduler.thy ===== *)
theory Scheduler
  imports Drafts
begin

text \<open>
  The prepare-only scheduler (\<open>apps/scheduler/scheduler.py\<close>). The precondition and the
  preparation that \<open>fire\<close> receives as functions are parameters; the preparation acts on the
  control connection and may raise.
\<close>

record job =
  jb_job_id :: "pystr option"
  jb_conversation_id :: pystr
  jb_account_id :: "pystr option"
  jb_timezone :: "pystr option"
  jb_schedule :: "pystr option"
  jb_generation_mode :: "pystr option"
  jb_conditions :: pystr
  jb_enabled :: "bool option"
  jb_max_lateness_ms :: "int option"
  jb_next_run_ms :: "int option"
  jb_created_at_ms :: "int option"

definition ALLOWED_MODES :: "pystr list" where
  "ALLOWED_MODES = [lit ''static'', lit ''template'']"

text \<open>\<open>jb_conditions\<close> is the text \<open>json.dumps\<close> gives for the job's conditions.\<close>

definition persist_job :: "pystr \<Rightarrow> job \<Rightarrow> control \<Rightarrow> (exc + pystr) \<times> control" where
  "persist_job u j c =
     (let mode = (case jb_generation_mode j of None \<Rightarrow> lit ''static'' | Some m \<Rightarrow> m) in
      if mode \<notin> set ALLOWED_MODES then (Inl SchedulerError, c)
      else
        (let i = (if truthy (jb_job_id j) then the (jb_job_id j) else mk_id ''job'' u) in
         case ins_job \<lparr>job_id = i, job_conversation_id = jb_conversation_id j,
                job_account_id = jb_account_id j, job_timezone = jb_timezone j,
                job_schedule = jb_schedule j, job_generation_mode = mode,
                job_conditions = jb_conditions j,
                job_enabled = (if jb_enabled j = Some False then 0 else 1),
                job_max_lateness_ms = jb_max_lateness_ms j, job_last_run_ms = None,
                job_next_run_ms = jb_next_run_ms j, job_created_at_ms = jb_created_at_ms j\<rparr> (work c) of
           Inl e \<Rightarrow> (Inl e, c)
         | Inr w \<Rightarrow> (Inr i, commit (c\<lparr>work := w\<rparr>))))"

definition load_jobs :: "control_db \<Rightarrow> job_row list" where
  "load_jobs d = filter (\<lambda>r. job_enabled r = 1) (scheduled_jobs d)"

definition set_enabled :: "pystr \<Rightarrow> int \<Rightarrow> control \<Rightarrow> control" where
  "set_enabled i v c = commit (c\<lparr>work := (work c)\<lparr>scheduled_jobs :=
     upd (\<lambda>r. job_id r = i) (job_enabled_update (\<lambda>_. v)) (scheduled_jobs (work c))\<rparr>\<rparr>)"

definition fire ::
  "pystr \<Rightarrow> pystr \<Rightarrow> bool \<Rightarrow> (control \<Rightarrow> (exc + pystr) \<times> control) \<Rightarrow> int \<Rightarrow> control \<Rightarrow>
   (exc + pystr \<times> string \<times> pystr option) \<times> control" where
  "fire u job precondition prepare_fn now c =
     (let rid = mk_id ''run'' u;
          record_run = (\<lambda>outcome drf c1.
            case ins_run \<lparr>run_id = rid, run_job_id = job, run_fired_at_ms = now, run_outcome = outcome,
                   run_draft_id = drf\<rparr> (work c1) of
              Inl e \<Rightarrow> (Inl e, c1)
            | Inr w \<Rightarrow> (Inr (rid, outcome, drf), commit (c1\<lparr>work := w\<lparr>scheduled_jobs :=
                upd (\<lambda>r. job_id r = job) (job_last_run_ms_update (\<lambda>_. Some now)) (scheduled_jobs w)\<rparr>\<rparr>))) in
      if precondition then
        (case prepare_fn c of
           (Inl e, c1) \<Rightarrow> (Inl e, c1)
         | (Inr drf, c1) \<Rightarrow> record_run ''PREPARED'' (Some drf) c1)
      else record_run ''SKIPPED_PRECONDITION'' None c)"

section \<open>Lemmas\<close>

text \<open>Only the two non-generating modes are ever stored.\<close>

lemma persist_job_mode:
  assumes "\<forall>r\<in>set (scheduled_jobs (work c)). job_generation_mode r \<in> set ALLOWED_MODES"
    and "persist_job u j c = (x, c')"
  shows "\<forall>r\<in>set (scheduled_jobs (work c')). job_generation_mode r \<in> set ALLOWED_MODES"
  using assms
  by (auto simp: persist_job_def Let_def ALLOWED_MODES_def split: sum.splits if_splits dest!: ins_job_Inr)

text \<open>Firing a job changes the drafts only through the preparation it was given.\<close>

lemma fire_frame:
  assumes "fire u job pre prep now c = (r, c')"
  obtains c1 where "c1 = (if pre then snd (prep c) else c)"
    "work c' = (work c1)\<lparr>job_runs := job_runs (work c'), scheduled_jobs := scheduled_jobs (work c')\<rparr>"
  using assms
  by (cases pre; cases "prep c")
     (auto simp: fire_def Let_def split: sum.splits dest!: ins_run_Inr)

lemma fire_skips:
  assumes "fire u job False prep now c = (r, c')"
  shows "drafts (work c') = drafts (work c)"
  using assms by (auto simp: fire_def Let_def split: sum.splits dest!: ins_run_Inr)

end
