(* ===== verification/Providers.thy ===== *)
theory Providers
  imports Prelude
begin

text \<open>
  The provider interface (\<open>providers/base.py\<close>) and its in-memory implementation
  (\<open>providers/fake_meta.py\<close>). The locale \<open>provider\<close> states what the sender may rely on: a call
  of \<open>send_text\<close> transmits the given message at most once and transmits nothing else; the
  interpretation discharges it for \<open>FakeMeta\<close>.
\<close>

text \<open>A reply is the returned dictionary, or one of the two exceptions the sender catches.\<close>

datatype reply =
    Reply (rep_outcome: pystr) (rep_wamid: "pystr option") (rep_error_code: "pystr option")
  | TimeoutAfterSend
  | ConnectFailed
  | ProviderRaised

type_synonym sent = "pystr option \<times> pystr"

locale provider =
  fixes send_text :: "'p \<Rightarrow> pystr \<Rightarrow> pystr option \<Rightarrow> pystr \<Rightarrow> reply \<times> 'p"
    and sends :: "'p \<Rightarrow> sent list"
  assumes at_most_once: "send_text p n r b = (rep, p') \<Longrightarrow> sends p' \<in> {sends p, sends p @ [(r, b)]}"
    and connect_failed: "send_text p n r b = (ConnectFailed, p') \<Longrightarrow> sends p' = sends p"
    and submitted: "send_text p n r b = (Reply (lit ''SUBMITTED'') w e, p') \<Longrightarrow> sends p' = sends p @ [(r, b)]"
begin

lemma sends_monotone: "send_text p n r b = (rep, p') \<Longrightarrow> \<exists>l. sends p' = sends p @ l \<and> length l \<le> 1"
  using at_most_once [of p n r b rep p'] by auto

lemma sent_is_requested:
  "send_text p n r b = (rep, p') \<Longrightarrow> x \<in> set (sends p') \<Longrightarrow> x \<in> set (sends p) \<or> x = (r, b)"
  using at_most_once [of p n r b rep p'] by auto

end

section \<open>FakeMeta\<close>

record fake_meta =
  fm_mode :: pystr
  fm_sends :: "sent list"
  fm_mark_reads :: "pystr list"

definition fm_init :: "pystr \<Rightarrow> fake_meta" where
  "fm_init m = \<lparr>fm_mode = m, fm_sends = [], fm_mark_reads = []\<rparr>"

definition fm_send_text :: "fake_meta \<Rightarrow> pystr \<Rightarrow> pystr option \<Rightarrow> pystr \<Rightarrow> reply \<times> fake_meta" where
  "fm_send_text p phone_number_id recipient_wa_id body =
     (if fm_mode p = lit ''timeout_after_send'' then
        (TimeoutAfterSend, p\<lparr>fm_sends := fm_sends p @ [(recipient_wa_id, body)]\<rparr>)
      else if fm_mode p = lit ''connect_fail'' then (ConnectFailed, p)
      else
        (let p' = p\<lparr>fm_sends := fm_sends p @ [(recipient_wa_id, body)]\<rparr> in
         if fm_mode p = lit ''ok'' then (Reply (lit ''SUBMITTED'') (Some (lit ''wamid.NEW'')) None, p')
         else (Reply (lit ''FAILED'') None (Some (fm_mode p)), p')))"

definition fm_mark_read :: "fake_meta \<Rightarrow> pystr \<Rightarrow> fake_meta" where
  "fm_mark_read p wamid = p\<lparr>fm_mark_reads := fm_mark_reads p @ [wamid]\<rparr>"

interpretation fake: provider fm_send_text fm_sends
  by unfold_locales (auto simp: fm_send_text_def Let_def split: if_splits)

end
