(* ===== verification/Sender.thy ===== *)
theory Sender
  imports Drafts Providers
begin

text \<open>
  The sender (\<open>approval/sender.py\<close>). \<open>execute_write\<close> follows the code in three stages: the
  read-only checks of an approval envelope (\<open>check_approval\<close>), the permission-to-transmit
  transaction that consumes a nonce and opens an attempt and then commits (\<open>permission\<close>), and
  the call of the provider with the bookkeeping of its outcome (\<open>transmit\<close>).

  The provider and the wall clock are parameters. A return value of the code is a
  \<open>send_result\<close>; an exception that leaves the function is \<open>Inl\<close>.
\<close>

definition WINDOW_MS :: int where
  "WINDOW_MS = 24 * 3600 * 1000"

record envelope =
  env_draft_id :: pystr
  env_decision :: pystr
  env_device_id :: pystr
  env_signature :: bytes
  env_nonce :: bytes

datatype send_result =
    R_REFUSED string
  | R_DENIED string
  | R_INDETERMINATE pystr
  | R_FAILED pystr
  | R_SUBMITTED "pystr option" pystr

definition canonical_fields :: "draft \<Rightarrow> envelope \<Rightarrow> decision_fields" where
  "canonical_fields dr env =
     \<lparr>df_decision = Some (env_decision env), df_draft_id = Some (drf_id dr),
      df_account_id = Some (drf_account_id dr), df_phone_number_id = Some (drf_phone_number_id dr),
      df_recipient_wa_id = drf_recipient_wa_id dr, df_body_sha256 = drf_body_sha256 dr,
      df_kind = Some (drf_kind dr), df_template_id = drf_template_id dr,
      df_template_params_sha256 = drf_template_params_sha256 dr,
      df_reply_to_wamid = drf_reply_to_wamid dr,
      df_target_message_wamid = drf_target_message_wamid dr,
      df_attachments_digest = drf_attachments_digest dr, df_nonce = drf_nonce dr,
      df_created_at_ms = drf_created_at_ms dr, df_expires_at_ms = drf_expires_at_ms dr,
      df_device_id = Some (env_device_id env)\<rparr>"

definition window_open :: "control_db \<Rightarrow> pystr \<Rightarrow> int \<Rightarrow> bool" where
  "window_open d conversation_id now_ms \<longleftrightarrow>
     0 < last_inbound d conversation_id \<and> now_ms < last_inbound d conversation_id + WINDOW_MS"

definition send_ctx :: "control_db \<Rightarrow> int \<Rightarrow> draft \<Rightarrow> policy_ctx" where
  "send_ctx d now dr =
     \<lparr>pc_recipient_wa_id = drf_recipient_wa_id dr, pc_kind = drf_kind dr, pc_account_ok = True,
      pc_now_ms = Some now, pc_expires_at_ms = drf_expires_at_ms dr, pc_device_active = True,
      pc_rate_ok = True, pc_recipient_is_group = False,
      pc_window_open = window_open d (drf_conversation_id dr) now\<rparr>"

definition body_of :: "draft \<Rightarrow> bytes" where
  "body_of dr = (case drf_body_bytes dr of Some b \<Rightarrow> b | None \<Rightarrow> [])"

definition payload_changed :: "crypto \<Rightarrow> draft \<Rightarrow> bool" where
  "payload_changed C dr = (case drf_body_sha256 dr of None \<Rightarrow> False | Some h \<Rightarrow> sha256 C (body_of dr) \<noteq> h)"

section \<open>The code\<close>

text \<open>Lines 66 to 94: the checks, in the order of the code.\<close>

definition check_approval :: "crypto \<Rightarrow> int \<Rightarrow> envelope \<Rightarrow> control_db \<Rightarrow> exc + (string + draft)" where
  "check_approval C now env d =
     (case List.find (\<lambda>r. drf_id r = env_draft_id env) (drafts d) of
        None \<Rightarrow> Inr (Inl ''UNKNOWN_DRAFT'')
      | Some dr \<Rightarrow>
          if env_decision env \<noteq> lit ''APPROVE'' then Inr (Inl ''NOT_APPROVED'')
          else (case active_signing_key d (env_device_id env) of
              None \<Rightarrow> Inr (Inl ''DEVICE_INACTIVE'')
            | Some signing_pub \<Rightarrow>
                (case encode (canonical_fields dr env) of
                   Inl e \<Rightarrow> Inl e
                 | Inr payload \<Rightarrow>
                     if \<not> verify C payload (env_signature env) signing_pub then Inr (Inl ''SIGNATURE_INVALID'')
                     else if payload_changed C dr then Inr (Inl ''PAYLOAD_CHANGED'')
                     else (let pol = evaluate (send_ctx d now dr) in
                           if \<not> pr_ok pol then Inr (Inl (hd (pr_failed pol))) else Inr (Inr dr)))))"

text \<open>Lines 96 to 111: consume the nonce, open the attempt, commit.\<close>

definition permission ::
  "crypto \<Rightarrow> int \<Rightarrow> pystr \<Rightarrow> envelope \<Rightarrow> control \<Rightarrow> (exc + (string + pystr)) \<times> control" where
  "permission C now u env c =
     (case consume (env_draft_id env) now (env_nonce env) (work c) of
        Inl _ \<Rightarrow> (Inr (Inl ''APPROVAL_ALREADY_CONSUMED''), c)
      | Inr w1 \<Rightarrow>
          (case utf8 (env_draft_id env) of
             Inl e \<Rightarrow> (Inl e, c\<lparr>work := w1\<rparr>)
           | Inr idb \<Rightarrow>
               (let aid = mk_id ''atm'' u;
                    idem = hex_of (sha256 C (idb @ env_nonce env)) in
                case ins_attempt \<lparr>atm_id = aid, atm_draft_id = env_draft_id env,
                       atm_idempotency_key = idem, atm_state = SUBMITTING, atm_wamid = None,
                       atm_error_code = None, atm_created_at_ms = now, atm_updated_at_ms = now\<rparr> w1 of
                  Inl e \<Rightarrow> (Inl e, c\<lparr>work := w1\<rparr>)
                | Inr w2 \<Rightarrow> (Inr (Inr aid), commit (c\<lparr>work := w2\<rparr>)))))"

text \<open>\<open>_finish\<close>: the columns are interpolated, so they come from an allow list.\<close>

definition FINISH_COLUMNS :: "string list" where
  "FINISH_COLUMNS = [''wamid'', ''error_code'']"

fun set_cols :: "(string \<times> pystr option) list \<Rightarrow> attempt \<Rightarrow> attempt" where
  "set_cols [] r = r"
| "set_cols ((k, v) # cols) r =
     set_cols cols (if k = ''wamid'' then r\<lparr>atm_wamid := v\<rparr>
       else if k = ''error_code'' then r\<lparr>atm_error_code := v\<rparr> else r)"

definition finish_row :: "attempt_state \<Rightarrow> int \<Rightarrow> (string \<times> pystr option) list \<Rightarrow> attempt \<Rightarrow> attempt" where
  "finish_row st now cols r = set_cols cols (r\<lparr>atm_state := st, atm_updated_at_ms := now\<rparr>)"

definition finish ::
  "pystr \<Rightarrow> int \<Rightarrow> attempt_state \<Rightarrow> (string \<times> pystr option) list \<Rightarrow> control \<Rightarrow> (exc + unit) \<times> control" where
  "finish aid now st cols c =
     (if \<exists>k\<in>set (map fst cols). k \<notin> set FINISH_COLUMNS then (Inl ValueError, c)
      else (Inr (), commit (c\<lparr>work := (work c)\<lparr>send_attempts :=
              upd (\<lambda>r. atm_id r = aid) (finish_row st now cols) (send_attempts (work c))\<rparr>\<rparr>)))"

text \<open>Lines 124 to 140: the call and the outcome matrix.\<close>

definition transmit ::
  "('p \<Rightarrow> pystr \<Rightarrow> pystr option \<Rightarrow> pystr \<Rightarrow> reply \<times> 'p) \<Rightarrow> int \<Rightarrow> draft \<Rightarrow> pystr \<Rightarrow> control \<Rightarrow> 'p \<Rightarrow>
   (exc + send_result) \<times> control \<times> 'p" where
  "transmit send_text now dr aid c p =
     (case utf8_decode (body_of dr) of
        None \<Rightarrow> (Inl UnicodeDecodeError, c, p)
      | Some body \<Rightarrow>
          (case send_text p (drf_phone_number_id dr) (drf_recipient_wa_id dr) body of
             (TimeoutAfterSend, p') \<Rightarrow>
               (Inr (R_INDETERMINATE aid), snd (finish aid now INDETERMINATE [] c), p')
           | (ConnectFailed, p') \<Rightarrow>
               (Inr (R_FAILED aid), snd (finish aid now FAILED [(''error_code'', Some (lit ''connect_fail''))] c), p')
           | (ProviderRaised, p') \<Rightarrow> (Inl ProviderError, c, p')
           | (Reply oc wamid err, p') \<Rightarrow>
               if oc = lit ''SUBMITTED''
               then (Inr (R_SUBMITTED wamid aid), snd (finish aid now SUBMITTED [(''wamid'', wamid)] c), p')
               else (Inr (R_FAILED aid), snd (finish aid now FAILED [(''error_code'', err)] c), p')))"

record 'p world =
  ctl :: control
  clk :: clock
  prov :: 'p

definition execute_write ::
  "crypto \<Rightarrow> ('p \<Rightarrow> pystr \<Rightarrow> pystr option \<Rightarrow> pystr \<Rightarrow> reply \<times> 'p) \<Rightarrow> int \<Rightarrow> pystr \<Rightarrow> envelope \<Rightarrow>
   'p world \<Rightarrow> (exc + send_result) \<times> 'p world" where
  "execute_write C send_text n u env s =
     (case trusted_now n (clk s) of
        (Inl _, l) \<Rightarrow> (Inr (R_REFUSED ''CLOCK_UNTRUSTED''), s\<lparr>clk := l\<rparr>)
      | (Inr now, l) \<Rightarrow>
          (let s1 = s\<lparr>clk := l\<rparr> in
           case check_approval C now env (work (ctl s)) of
             Inl e \<Rightarrow> (Inl e, s1)
           | Inr (Inl why) \<Rightarrow> (Inr (R_DENIED why), s1)
           | Inr (Inr dr) \<Rightarrow>
               (case permission C now u env (ctl s) of
                  (Inl e, c1) \<Rightarrow> (Inl e, s1\<lparr>ctl := c1\<rparr>)
                | (Inr (Inl why), c1) \<Rightarrow> (Inr (R_DENIED why), s1\<lparr>ctl := c1\<rparr>)
                | (Inr (Inr aid), c1) \<Rightarrow>
                    (case transmit send_text now dr aid c1 (prov s) of
                       (r, c2, p2) \<Rightarrow> (r, s1\<lparr>ctl := c2, prov := p2\<rparr>)))))"

definition recover_startup :: "int \<Rightarrow> control \<Rightarrow> nat \<times> control" where
  "recover_startup now_ms c =
     (rowcount (\<lambda>r. atm_state r = SUBMITTING) (send_attempts (work c)),
      commit (c\<lparr>work := (work c)\<lparr>send_attempts :=
        upd (\<lambda>r. atm_state r = SUBMITTING)
          (\<lambda>r. r\<lparr>atm_state := INDETERMINATE, atm_updated_at_ms := now_ms\<rparr>) (send_attempts (work c))\<rparr>\<rparr>))"

section \<open>The checks\<close>

text \<open>The conditions under which the code goes on to consume a nonce.\<close>

definition approved :: "crypto \<Rightarrow> int \<Rightarrow> envelope \<Rightarrow> control_db \<Rightarrow> draft \<Rightarrow> bool" where
  "approved C now env d dr \<longleftrightarrow>
     List.find (\<lambda>r. drf_id r = env_draft_id env) (drafts d) = Some dr \<and>
     env_decision env = lit ''APPROVE'' \<and>
     (\<exists>k payload. active_signing_key d (env_device_id env) = Some k \<and>
        encode (canonical_fields dr env) = Inr payload \<and> verify C payload (env_signature env) k) \<and>
     \<not> payload_changed C dr \<and> permitted (send_ctx d now dr)"

lemma check_approval_iff: "check_approval C now env d = Inr (Inr dr) \<longleftrightarrow> approved C now env d dr"
  by (auto simp: check_approval_def approved_def Let_def evaluate_ok_iff split: option.splits sum.splits if_splits)

lemma check_denied_codes:
  assumes "check_approval C now env d = Inr (Inl why)"
  shows "why \<in> set ([''UNKNOWN_DRAFT'', ''NOT_APPROVED'', ''DEVICE_INACTIVE'', ''SIGNATURE_INVALID'',
    ''PAYLOAD_CHANGED''] @ policy_codes)"
proof -
  have hd: "hd (pr_failed (evaluate x)) \<in> set policy_codes" if "\<not> pr_ok (evaluate x)" for x
  proof -
    from that have "evaluate_failed x \<noteq> []" by (simp add: evaluate_def)
    then have "hd (evaluate_failed x) \<in> set (evaluate_failed x)" by simp
    then show ?thesis unfolding evaluate_failed_order by (simp add: evaluate_def evaluate_failed_order)
  qed
  show ?thesis using assms hd
    by (auto simp: check_approval_def Let_def split: option.splits sum.splits if_splits)
qed

lemma approved_draft: "approved C now env d dr \<Longrightarrow> dr \<in> set (drafts d) \<and> drf_id dr = env_draft_id env"
  by (auto simp: approved_def dest: find_SomeD)

text \<open>
  The checks look at the drafts, the devices and the windows only, and not at the nonce of
  the envelope: the signed bytes carry the draft's nonce.
\<close>

lemma approved_cong:
  assumes "drafts d' = drafts d" "approval_devices d' = approval_devices d"
    "conversation_windows d' = conversation_windows d"
  shows "approved C now env d' dr = approved C now env d dr"
proof -
  have "send_ctx d' now dr = send_ctx d now dr"
    using assms(3) by (simp add: send_ctx_def window_open_def last_inbound_def)
  then show ?thesis using assms(1) active_key_only_devices [OF assms(2)] by (simp add: approved_def)
qed

lemma approved_any_nonce: "approved C now (env\<lparr>env_nonce := n\<rparr>) d dr = approved C now env d dr"
  by (simp add: approved_def canonical_fields_def)

section \<open>The permission transaction\<close>

definition opened_attempt :: "crypto \<Rightarrow> int \<Rightarrow> pystr \<Rightarrow> envelope \<Rightarrow> bytes \<Rightarrow> attempt" where
  "opened_attempt C now aid env idb =
     \<lparr>atm_id = aid, atm_draft_id = env_draft_id env,
      atm_idempotency_key = hex_of (sha256 C (idb @ env_nonce env)), atm_state = SUBMITTING,
      atm_wamid = None, atm_error_code = None, atm_created_at_ms = now, atm_updated_at_ms = now\<rparr>"

definition nonce_entry :: "int \<Rightarrow> envelope \<Rightarrow> nonce_row" where
  "nonce_entry now env =
     \<lparr>non_nonce = env_nonce env, non_consumed_by = env_draft_id env, non_consumed_at_ms = now\<rparr>"

lemma permission_granted:
  assumes "permission C now u env c = (Inr (Inr aid), c')"
  obtains idb where "aid = mk_id ''atm'' u" "utf8 (env_draft_id env) = Inr idb" "clean c'"
    "env_nonce env \<notin> set (consumed (work c))" "length (env_nonce env) = 32"
    "has_draft (work c) (env_draft_id env)" "aid \<notin> atm_id ` set (send_attempts (work c))"
    "work c' = (work c)\<lparr>approval_nonces := approval_nonces (work c) @ [nonce_entry now env],
       send_attempts := send_attempts (work c) @ [opened_attempt C now aid env idb]\<rparr>"
proof -
  from assms obtain w1 where w1: "consume (env_draft_id env) now (env_nonce env) (work c) = Inr w1"
    by (auto simp: permission_def split: sum.splits)
  with assms obtain idb where idb: "utf8 (env_draft_id env) = Inr idb"
    by (auto simp: permission_def split: sum.splits)
  with w1 assms have aid: "aid = mk_id ''atm'' u"
    and w2: "ins_attempt (opened_attempt C now aid env idb) w1 = Inr (work c')" and cl: "clean c'"
    by (auto simp: permission_def opened_attempt_def Let_def split: sum.splits)
  from w1 have n: "length (env_nonce env) = 32" "env_nonce env \<notin> set (consumed (work c))"
    "w1 = (work c)\<lparr>approval_nonces := approval_nonces (work c) @ [nonce_entry now env]\<rparr>"
    by (auto simp: consume_Inr nonce_entry_def)
  from ins_attempt_Inr [OF w2] n(3) have
    "work c' = (work c)\<lparr>approval_nonces := approval_nonces (work c) @ [nonce_entry now env],
       send_attempts := send_attempts (work c) @ [opened_attempt C now aid env idb]\<rparr>"
    "has_draft (work c) (env_draft_id env)" "aid \<notin> atm_id ` set (send_attempts (work c))"
    by (auto simp: has_draft_def opened_attempt_def)
  with that aid idb cl n show thesis by blast
qed

lemma permission_grants:
  assumes "length (env_nonce env) = 32" "env_nonce env \<notin> set (consumed (work c))"
    "utf8 (env_draft_id env) = Inr idb" "has_draft (work c) (env_draft_id env)"
    "mk_id ''atm'' u \<notin> atm_id ` set (send_attempts (work c))"
    "hex_of (sha256 C (idb @ env_nonce env)) \<notin> atm_idempotency_key ` set (send_attempts (work c))"
  shows "\<exists>c'. permission C now u env c = (Inr (Inr (mk_id ''atm'' u)), c')"
proof -
  define w1 where "w1 = (work c)\<lparr>approval_nonces := approval_nonces (work c) @ [nonce_entry now env]\<rparr>"
  have w1: "consume (env_draft_id env) now (env_nonce env) (work c) = Inr w1"
    using assms(1,2) by (simp add: consume_Inr w1_def nonce_entry_def)
  have "\<exists>w2. ins_attempt (opened_attempt C now (mk_id ''atm'' u) env idb) w1 = Inr w2"
    using assms(4-6)
    by (auto simp: ins_attempt_def ins_def opened_attempt_def w1_def has_draft_def list_ex_iff image_iff)
  with w1 assms(3) show ?thesis
    by (auto simp: permission_def Let_def opened_attempt_def)
qed

lemma permission_denied: "permission C now u env c = (Inr (Inl why), c') \<Longrightarrow>
    c' = c \<and> why = ''APPROVAL_ALREADY_CONSUMED''"
  by (auto simp: permission_def Let_def split: sum.splits)

text \<open>A nonce that was consumed never opens another attempt.\<close>

lemma permission_replay:
  "env_nonce env \<in> set (consumed (work c)) \<Longrightarrow>
   permission C now u env c = (Inr (Inl ''APPROVAL_ALREADY_CONSUMED''), c)"
  using nonce_gate.refuses_seen [of "env_nonce env" "work c" "env_draft_id env" now]
  by (auto simp: permission_def)

lemma permission_disk: "permission C now u env c = (r, c') \<Longrightarrow> disk c' = disk c \<or> (\<exists>aid. r = Inr (Inr aid))"
  by (auto simp: permission_def Let_def split: sum.splits)

lemma permission_inv:
  assumes "control_inv (work c)" "permission C now u env c = (r, c')"
  shows "control_inv (work c')"
  using assms
  by (auto simp: permission_def Let_def split: sum.splits
           intro: ins_attempt_inv [OF consume_inv [OF assms(1)]] consume_inv [OF assms(1)])

section \<open>Finishing an attempt\<close>

lemma set_cols_keys [simp]:
  "atm_id (set_cols cols r) = atm_id r" "atm_draft_id (set_cols cols r) = atm_draft_id r"
  "atm_idempotency_key (set_cols cols r) = atm_idempotency_key r" "atm_state (set_cols cols r) = atm_state r"
  by (induction cols r rule: set_cols.induct) auto

lemma finish_row_keys [simp]:
  "atm_id (finish_row st now cols r) = atm_id r" "atm_draft_id (finish_row st now cols r) = atm_draft_id r"
  "atm_idempotency_key (finish_row st now cols r) = atm_idempotency_key r"
  "atm_state (finish_row st now cols r) = st"
  by (simp_all add: finish_row_def)

lemma finish_work:
  "set (map fst cols) \<subseteq> set FINISH_COLUMNS \<Longrightarrow>
   finish aid now st cols c = (Inr (), commit (c\<lparr>work := (work c)\<lparr>send_attempts :=
     upd (\<lambda>r. atm_id r = aid) (finish_row st now cols) (send_attempts (work c))\<rparr>\<rparr>))"
  by (auto simp: finish_def)

lemma finish_frame:
  "work (snd (finish aid now st cols c)) =
     (work c)\<lparr>send_attempts := send_attempts (work (snd (finish aid now st cols c)))\<rparr>"
  by (simp add: finish_def)

lemma finish_inv: "control_inv (work c) \<Longrightarrow> control_inv (work (snd (finish aid now st cols c)))"
  by (simp add: finish_def upd_attempts_inv)

text \<open>The columns the sender passes are all on the allow list, so \<open>_finish\<close> never raises.\<close>

lemma finish_columns:
  "set (map fst [(''wamid'', v)]) \<subseteq> set FINISH_COLUMNS" "set (map fst [(''error_code'', v)]) \<subseteq> set FINISH_COLUMNS"
  "set (map fst []) \<subseteq> set FINISH_COLUMNS"
  by (auto simp: FINISH_COLUMNS_def)

section \<open>Recovery after a crash\<close>

lemma recover_startup_state:
  assumes "recover_startup now c = (k, c')"
  shows "clean c'" "work c' = (work c)\<lparr>send_attempts := send_attempts (work c')\<rparr>"
    "\<forall>a\<in>set (send_attempts (work c')). atm_state a \<noteq> SUBMITTING"
    "map atm_id (send_attempts (work c')) = map atm_id (send_attempts (work c))"
    "k = rowcount (\<lambda>r. atm_state r = SUBMITTING) (send_attempts (work c))"
  using assms by (auto simp: recover_startup_def set_upd map_upd_key)

lemma recover_startup_others:
  assumes "recover_startup now c = (k, c')"
  shows "filter (\<lambda>a. atm_state a \<notin> {SUBMITTING, INDETERMINATE}) (send_attempts (work c')) =
    filter (\<lambda>a. atm_state a \<notin> {SUBMITTING, INDETERMINATE}) (send_attempts (work c))"
proof -
  have "send_attempts (work c') = upd (\<lambda>r. atm_state r = SUBMITTING)
      (\<lambda>r. r\<lparr>atm_state := INDETERMINATE, atm_updated_at_ms := now\<rparr>) (send_attempts (work c))"
    using assms by (auto simp: recover_startup_def)
  then show ?thesis by (simp add: filter_upd_other)
qed

lemma recover_startup_inv: "control_inv (work c) \<Longrightarrow> control_inv (work (snd (recover_startup now c)))"
  by (simp add: recover_startup_def upd_attempts_inv)

lemma recover_startup_idempotent:
  assumes "recover_startup now c = (k, c')"
  shows "recover_startup now' c' = (0, c')"
proof -
  have none: "\<forall>a\<in>set (send_attempts (work c')). atm_state a \<noteq> SUBMITTING" and cl: "clean c'"
    using recover_startup_state [OF assms] by simp_all
  from none have "upd (\<lambda>r. atm_state r = SUBMITTING) f (send_attempts (work c')) = send_attempts (work c')" for f
    by (auto intro: upd_idle)
  moreover have "rowcount (\<lambda>r. atm_state r = SUBMITTING) (send_attempts (work c')) = 0"
    using none by (simp add: rowcount_zero)
  moreover have "commit c' = c'" using cl by (simp add: commit_def clean_def)
  ultimately show ?thesis by (simp add: recover_startup_def)
qed

end
