(* ===== verification/Templates.thy ===== *)
theory Templates
  imports Sender
begin

text \<open>
  The template catalogue (\<open>templates.py\<close>). The digest of the parameters is SHA-256 over a
  preimage that names the template, its language, its definition version and the ordered
  parameters; \<open>template_preimage\<close> is that preimage.
\<close>

definition TPL_DOMAIN :: bytes where
  "TPL_DOMAIN = ascii (''WHATSVAULT-TEMPLATE-PARAMS-V1'' @ [CHR 0x0A])"

text \<open>A parameter is a plain value or a dictionary with optional members.\<close>

datatype param =
    Plain pystr
  | Dict (p_component_type: "pystr option") (p_param_type: "pystr option") (p_value: "pystr option")

definition dflt :: "string \<Rightarrow> pystr option \<Rightarrow> pystr" where
  "dflt s v = (case v of None \<Rightarrow> lit s | Some x \<Rightarrow> x)"

fun param_fields :: "param \<Rightarrow> pystr list" where
  "param_fields (Plain v) = [lit ''body'', lit ''text'', v]"
| "param_fields (Dict ct pt v) = [dflt ''body'' ct, dflt ''text'' pt, dflt '''' v]"

definition param_parts :: "param list \<Rightarrow> pystr list" where
  "param_parts ps = concat (map (\<lambda>(i, p). int_dec (int i) # param_fields p) (enumerate 0 ps))"

definition template_preimage :: "pystr \<Rightarrow> pystr \<Rightarrow> int \<Rightarrow> param list \<Rightarrow> exc + bytes" where
  "template_preimage name language version ps =
     (case lp_strs ([name, language, int_dec version] @ param_parts ps) of
        Inl e \<Rightarrow> Inl e | Inr b \<Rightarrow> Inr (TPL_DOMAIN @ b))"

definition params_digest :: "crypto \<Rightarrow> pystr \<Rightarrow> pystr \<Rightarrow> int \<Rightarrow> param list \<Rightarrow> exc + bytes" where
  "params_digest C name language version ps =
     (case template_preimage name language version ps of Inl e \<Rightarrow> Inl e | Inr b \<Rightarrow> Inr (sha256 C b))"

section \<open>The catalogue\<close>

text \<open>
  One row of a sync. \<open>json.dumps(r.get("schema"))\<close> writes the text \<open>null\<close> for a row without a
  schema, never SQL \<open>NULL\<close>.
\<close>

record sync_row =
  sy_template_id :: pystr
  sy_meta_template_id :: "pystr option"
  sy_name :: pystr
  sy_language :: pystr
  sy_category :: "pystr option"
  sy_status :: pystr
  sy_definition_version :: "int option"
  sy_schema :: "int option option"
  sy_synced_at :: "int option"

definition synced_template :: "sync_row \<Rightarrow> template_row" where
  "synced_template r =
     \<lparr>tpl_id = sy_template_id r, tpl_meta_template_id = sy_meta_template_id r, tpl_name = sy_name r,
      tpl_language = sy_language r, tpl_category = sy_category r, tpl_status = sy_status r,
      tpl_definition_version = (case sy_definition_version r of None \<Rightarrow> 1 | Some v \<Rightarrow> v),
      tpl_schema = (case sy_schema r of None \<Rightarrow> JsonNull | Some p \<Rightarrow> JsonObj p),
      tpl_synced_at = sy_synced_at r\<rparr>"

definition replace_template :: "template_row \<Rightarrow> control_db \<Rightarrow> control_db" where
  "replace_template r d = d\<lparr>templates := del (\<lambda>x. tpl_id x = tpl_id r) (templates d) @ [r]\<rparr>"

definition upsert_from_sync :: "sync_row list \<Rightarrow> control \<Rightarrow> nat \<times> control" where
  "upsert_from_sync rows c =
     (length rows,
      commit (c\<lparr>work := fold (\<lambda>r d. replace_template (synced_template r) d) rows (work c)\<rparr>))"

section \<open>Preparing a template draft\<close>

definition template_draft ::
  "pystr \<Rightarrow> bytes \<Rightarrow> pystr \<Rightarrow> pystr \<Rightarrow> pystr \<Rightarrow> pystr \<Rightarrow> bytes \<Rightarrow> int \<Rightarrow> draft" where
  "template_draft i nonce conversation_id account_id phone_number_id template_id digest now =
     \<lparr>drf_id = i, drf_conversation_id = conversation_id, drf_account_id = account_id,
      drf_phone_number_id = phone_number_id, drf_recipient_wa_id = None, drf_body_bytes = None,
      drf_body_sha256 = None, drf_kind = lit ''template'', drf_template_id = Some template_id,
      drf_template_params_sha256 = Some digest, drf_attachments_digest = None,
      drf_reply_to_wamid = None, drf_target_message_wamid = None, drf_nonce = Some nonce,
      drf_created_at_ms = Some now, drf_expires_at_ms = Some (now + DEFAULT_TTL_MS),
      drf_created_by = Some (lit ''mcp''), drf_state = D_PENDING_APPROVAL\<rparr>"

text \<open>
  \<open>json.loads\<close> of the stored text \<open>null\<close> is \<open>None\<close>, whose attribute \<open>get\<close> does not exist.
\<close>

definition schema_params :: "schema_json \<Rightarrow> exc + int option" where
  "schema_params s = (case s of NoSchema \<Rightarrow> Inr None | JsonNull \<Rightarrow> Inl AttributeError | JsonObj p \<Rightarrow> Inr p)"

definition prepare_template ::
  "crypto \<Rightarrow> pystr \<Rightarrow> bytes \<Rightarrow> pystr \<Rightarrow> pystr \<Rightarrow> pystr \<Rightarrow> pystr \<Rightarrow> param list \<Rightarrow> int \<Rightarrow> control \<Rightarrow>
   (exc + pystr \<times> pystr) \<times> control" where
  "prepare_template C u nonce conversation_id account_id phone_number_id template_id params now c =
     (case List.find (\<lambda>r. tpl_id r = template_id) (templates (work c)) of
        None \<Rightarrow> (Inl (TemplateRefused ''UNKNOWN_TEMPLATE''), c)
      | Some row \<Rightarrow>
          if tpl_status row \<noteq> lit ''APPROVED'' then (Inl (TemplateRefused ''NOT_APPROVED''), c)
          else (case schema_params (tpl_schema row) of
              Inl e \<Rightarrow> (Inl e, c)
            | Inr want \<Rightarrow>
                if want \<noteq> None \<and> want \<noteq> Some (int (length params))
                then (Inl (TemplateRefused ''PARAM_MISMATCH''), c)
                else (case params_digest C (tpl_name row) (tpl_language row) (tpl_definition_version row) params of
                    Inl e \<Rightarrow> (Inl e, c)
                  | Inr digest \<Rightarrow>
                      (let i = mk_id ''drf'' u in
                       case ins_draft (template_draft i nonce conversation_id account_id phone_number_id
                              template_id digest now) (work c) of
                         Inl e \<Rightarrow> (Inl e, c)
                       | Inr w \<Rightarrow> (Inr (i, hex_of digest), commit (c\<lparr>work := w\<rparr>))))))"

section \<open>The preimage determines template, version and parameters\<close>

lemma param_parts_inject:
  assumes "param_parts ps = param_parts qs"
  shows "map param_fields ps = map param_fields qs"
proof -
  have gen: "concat (map (\<lambda>(i, p). int_dec (int i) # param_fields p) (enumerate k ps)) =
        concat (map (\<lambda>(i, p). int_dec (int i) # param_fields p) (enumerate k qs)) \<Longrightarrow>
      map param_fields ps = map param_fields qs" for k
  proof (induction ps arbitrary: qs k)
    case Nil
    then show ?case by (cases qs) auto
  next
    case (Cons p ps)
    have len: "length (param_fields x) = 3" for x by (cases x) auto
    from Cons.prems obtain q qs' where qs: "qs = q # qs'" by (cases qs) auto
    let ?rest = "\<lambda>xs. concat (map (\<lambda>(i, p). int_dec (int i) # param_fields p) (enumerate (Suc k) xs))"
    from Cons.prems have "param_fields p @ ?rest ps = param_fields q @ ?rest qs'" by (simp add: qs)
    moreover have "length (param_fields p) = length (param_fields q)" by (simp only: len)
    ultimately have "param_fields p = param_fields q" "?rest ps = ?rest qs'"
      using append_eq_append_conv [of "param_fields p" "param_fields q"] by blast+
    from Cons.IH [OF this(2)] this(1) show ?case by (simp only: qs list.map)
  qed
  from assms show ?thesis unfolding param_parts_def by (rule gen)
qed

lemma template_preimage_inject:
  assumes "template_preimage n l v ps = Inr b" "template_preimage n' l' v' qs = Inr b"
  shows "n = n' \<and> l = l' \<and> v = v' \<and> map param_fields ps = map param_fields qs"
proof -
  from assms obtain x where x: "lp_strs ([n, l, int_dec v] @ param_parts ps) = Inr x"
    "lp_strs ([n', l', int_dec v'] @ param_parts qs) = Inr x"
    by (auto simp: template_preimage_def simp del: append.simps split: sum.splits)
  then have "[n, l, int_dec v] @ param_parts ps = [n', l', int_dec v'] @ param_parts qs"
    using lp_strs_inject by blast
  then have "n = n'" "l = l'" "int_dec v = int_dec v'" "param_parts ps = param_parts qs" by simp_all
  then show ?thesis using int_dec_inject param_parts_inject by blast
qed

lemma prepare_template_cases:
  assumes "prepare_template C u nonce cv ac pn ti ps now c = (r, c')"
  shows "c' = c \<or> (\<exists>digest. clean c' \<and>
    ins_draft (template_draft (mk_id ''drf'' u) nonce cv ac pn ti digest now) (work c) = Inr (work c'))"
  using assms by (auto simp: prepare_template_def Let_def split: option.splits sum.splits if_splits)

lemma prepare_template_inv:
  assumes "control_inv (work c)" "prepare_template C u nonce cv ac pn ti ps now c = (r, c')"
  shows "control_inv (work c')"
  using prepare_template_cases [OF assms(2)] ins_draft_inv [OF assms(1)] assms(1) by auto

text \<open>A template draft names no recipient, and the send policy refuses such a draft.\<close>

lemma unbound_never_approved: "drf_recipient_wa_id dr = None \<Longrightarrow> \<not> approved C now env d dr"
  by (simp add: approved_def permitted_def send_ctx_def)

end
