(* ===== verification/Windows.thy ===== *)
theory Windows
  imports Control_Db
begin

text \<open>
  The conversation windows of \<open>control.db\<close> (\<open>doctor.py\<close>): the live ingest path only moves a
  window forward, the doctor sets it to the evidence. \<open>repair_window\<close> is the control-side half
  of \<open>rebuild_window_from_evidence\<close>, given the maximum over the evidence.
\<close>

definition advance_window :: "pystr \<Rightarrow> int \<Rightarrow> control \<Rightarrow> (exc + int) \<times> control" where
  "advance_window conversation_id incoming_provider_ms c =
     (let new_val = max (last_inbound (work c) conversation_id) incoming_provider_ms in
      case upsert_window conversation_id new_val (work c) of
        Inl e \<Rightarrow> (Inl e, c)
      | Inr w \<Rightarrow> (Inr new_val, commit (c\<lparr>work := w\<rparr>)))"

definition repair_window :: "pystr \<Rightarrow> int \<Rightarrow> control \<Rightarrow> (exc + int \<times> int \<times> bool) \<times> control" where
  "repair_window conversation_id evidence_ms c =
     (let stored_ms = last_inbound (work c) conversation_id; drift = (stored_ms \<noteq> evidence_ms) in
      if drift then
        (case upsert_window conversation_id evidence_ms (work c) of
           Inl e \<Rightarrow> (Inl e, c)
         | Inr w \<Rightarrow> (Inr (evidence_ms, stored_ms, drift), commit (c\<lparr>work := w\<rparr>)))
      else (Inr (evidence_ms, stored_ms, drift), c))"

lemma upsert_window_frame:
  assumes "upsert_window cid v d = Inr d'"
  shows "d' = d\<lparr>conversation_windows := conversation_windows d'\<rparr>" "0 \<le> v"
  using assms by (auto simp: upsert_window_def split: if_splits)

lemma upsert_window_total: "0 \<le> v \<Longrightarrow> \<exists>d'. upsert_window cid v d = Inr d'"
  by (simp add: upsert_window_def)

lemma find_set_window:
  fixes t :: "window_row list"
  shows "List.find (\<lambda>r. win_conversation_id r = j) (upd (\<lambda>r. win_conversation_id r = i) (win_last_inbound_ms_update (\<lambda>_. v)) t) =
    map_option (\<lambda>r. if win_conversation_id r = i then r\<lparr>win_last_inbound_ms := v\<rparr> else r)
      (List.find (\<lambda>r. win_conversation_id r = j) t)"
  by (simp add: find_upd_key)

lemma upsert_window_lookup:
  assumes "upsert_window cid v d = Inr d'"
  shows "last_inbound d' j = (if j = cid then v else last_inbound d j)"
proof (cases "list_ex (\<lambda>r. win_conversation_id r = cid) (conversation_windows d)")
  case True
  then obtain r where "List.find (\<lambda>r. win_conversation_id r = cid) (conversation_windows d) = Some r"
    by (metis find_None list_ex_iff not_Some_eq)
  with True assms show ?thesis
    by (auto simp: upsert_window_def last_inbound_def find_set_window split: if_splits option.splits dest: find_SomeD)
next
  case False
  then have "List.find (\<lambda>r. win_conversation_id r = cid) (conversation_windows d) = None"
    by (auto simp: find_None list_ex_iff)
  with False assms show ?thesis
    by (cases "List.find (\<lambda>r. win_conversation_id r = j) (conversation_windows d)")
      (auto simp: upsert_window_def last_inbound_def find_append_None find_append_Some split: if_splits)
qed

text \<open>Windows never hold a negative time, so the live path never raises.\<close>

definition windows_ok :: "control_db \<Rightarrow> bool" where
  "windows_ok d \<longleftrightarrow> (\<forall>j. 0 \<le> last_inbound d j)"

lemma advance_window_total:
  assumes "windows_ok (work c)"
  obtains c' where "advance_window cid ms c = (Inr (max (last_inbound (work c) cid) ms), c')" "clean c'"
    "windows_ok (work c')" "last_inbound (work c') cid = max (last_inbound (work c) cid) ms"
    "\<And>j. last_inbound (work c) j \<le> last_inbound (work c') j"
proof -
  let ?v = "max (last_inbound (work c) cid) ms"
  have "0 \<le> ?v" using assms by (simp add: windows_ok_def max.coboundedI1)
  then obtain w where w: "upsert_window cid ?v (work c) = Inr w" using upsert_window_total by blast
  note l = upsert_window_lookup [OF w]
  show thesis
    by (rule that [of "commit (c\<lparr>work := w\<rparr>)"])
      (use w l assms \<open>0 \<le> ?v\<close> in \<open>auto simp: advance_window_def windows_ok_def\<close>)
qed

lemma repair_window_exact:
  assumes "repair_window cid ev c = (Inr x, c')"
  shows "last_inbound (work c') cid = ev" "x = (ev, last_inbound (work c) cid, last_inbound (work c) cid \<noteq> ev)"
    "j \<noteq> cid \<Longrightarrow> last_inbound (work c') j = last_inbound (work c) j"
  using assms upsert_window_lookup
  by (auto simp: repair_window_def Let_def split: if_splits sum.splits)

end
