(* ===== verification/Approval_System.thy ===== *)
theory Approval_System
  imports Relay Capabilities Reconcile Scheduler Templates Windows "HOL-Library.Sublist"
begin

text \<open>
  The approval pipeline as a transition system. Between two calls of the sender the other
  operations on the control database run in any order (\<open>run_call\<close>), and the process may die
  at every point that matters: between calls, after the permission was committed and before
  the provider is called, and after the provider was called and before its outcome is
  recorded. A ghost log records each call of the provider. The invariants of the reachable
  states say what was ever transmitted.
\<close>

section \<open>One call of the sender\<close>

text \<open>The draft, the attempt, the committed connection and the text with which the code calls the provider.\<close>

definition posting ::
  "crypto \<Rightarrow> int \<Rightarrow> pystr \<Rightarrow> envelope \<Rightarrow> 'p world \<Rightarrow> (draft \<times> pystr \<times> control \<times> pystr) option" where
  "posting C n u env w =
     (case fst (trusted_now n (clk w)) of
        Inl _ \<Rightarrow> None
      | Inr now \<Rightarrow>
          (case check_approval C now env (work (ctl w)) of
             Inr (Inr dr) \<Rightarrow>
               (case permission C now u env (ctl w) of
                  (Inr (Inr aid), c1) \<Rightarrow> map_option (\<lambda>b. (dr, aid, c1, b)) (utf8_decode (body_of dr))
                | _ \<Rightarrow> None)
           | _ \<Rightarrow> None))"

lemma posting_Some:
  assumes "posting C n u env w = Some (dr, aid, c1, b)"
  shows "fst (trusted_now n (clk w)) = Inr n" "approved C n env (work (ctl w)) dr"
    "permission C n u env (ctl w) = (Inr (Inr aid), c1)" "utf8_decode (body_of dr) = Some b"
proof -
  from assms obtain now where t: "fst (trusted_now n (clk w)) = Inr now"
    and ca: "check_approval C now env (work (ctl w)) = Inr (Inr dr)"
    and p: "permission C now u env (ctl w) = (Inr (Inr aid), c1)" "utf8_decode (body_of dr) = Some b"
    by (auto simp: posting_def split: sum.splits prod.splits)
  from t have "now = n" by (auto simp: trusted_now_def split: option.splits if_splits)
  with t ca p show "fst (trusted_now n (clk w)) = Inr n" "approved C n env (work (ctl w)) dr"
    "permission C n u env (ctl w) = (Inr (Inr aid), c1)" "utf8_decode (body_of dr) = Some b"
    by (simp_all add: check_approval_iff)
qed

text \<open>What the outcome matrix makes of a reply.\<close>

fun recorded :: "int \<Rightarrow> pystr \<Rightarrow> reply \<Rightarrow> control \<Rightarrow> (exc + send_result) \<times> control" where
  "recorded now aid TimeoutAfterSend c = (Inr (R_INDETERMINATE aid), snd (finish aid now INDETERMINATE [] c))"
| "recorded now aid ConnectFailed c =
     (Inr (R_FAILED aid), snd (finish aid now FAILED [(''error_code'', Some (lit ''connect_fail''))] c))"
| "recorded now aid ProviderRaised c = (Inl ProviderError, c)"
| "recorded now aid (Reply oc wamid err) c =
     (if oc = lit ''SUBMITTED''
      then (Inr (R_SUBMITTED wamid aid), snd (finish aid now SUBMITTED [(''wamid'', wamid)] c))
      else (Inr (R_FAILED aid), snd (finish aid now FAILED [(''error_code'', err)] c)))"

text \<open>The whole of \<open>execute_write\<close>, by whether the provider is called.\<close>

lemma execute_posting:
  assumes "posting C n u env w = Some (dr, aid, c1, b)"
    and "send_text (prov w) (drf_phone_number_id dr) (drf_recipient_wa_id dr) b = (rep, p')"
  shows "execute_write C send_text n u env w =
    (fst (recorded n aid rep c1), \<lparr>ctl = snd (recorded n aid rep c1), clk = Some n, prov = p'\<rparr>)"
proof -
  note p = posting_Some [OF assms(1)]
  obtain l where l: "trusted_now n (clk w) = (Inr n, l)" using p(1) by (cases "trusted_now n (clk w)") auto
  then have "l = Some n" by (auto dest: trusted_now_Inr)
  with p l assms(2) show ?thesis
    by (cases rep) (auto simp: execute_write_def transmit_def check_approval_iff [symmetric])
qed

lemma execute_silent:
  assumes "posting C n u env w = None" "execute_write C send_text n u env w = (r, w')"
  shows "prov w' = prov w \<and>
    (ctl w' = ctl w \<or> (\<exists>now x. permission C now u env (ctl w) = (x, ctl w'))) \<and>
    (\<forall>x. r = Inr x \<longrightarrow> (\<exists>why. x = R_REFUSED why \<or> x = R_DENIED why))"
proof -
  obtain x l where t: "trusted_now n (clk w) = (x, l)" by (cases "trusted_now n (clk w)") auto
  show ?thesis
  proof (cases "\<exists>now dr. x = Inr now \<and> check_approval C now env (work (ctl w)) = Inr (Inr dr)")
    case False
    with t assms(2) show ?thesis
      by (auto simp: execute_write_def Let_def split: sum.splits)
  next
    case True
    then obtain now dr where x: "x = Inr now" and ca: "check_approval C now env (work (ctl w)) = Inr (Inr dr)"
      by blast
    obtain y c1 where p: "permission C now u env (ctl w) = (y, c1)" by force
    have d: "y = Inr (Inr aid) \<Longrightarrow> utf8_decode (body_of dr) = None" for aid
      using assms(1) t x ca p by (simp add: posting_def)
    have "prov w' = prov w \<and> ctl w' = c1 \<and> (\<forall>x. r = Inr x \<longrightarrow> (\<exists>why. x = R_REFUSED why \<or> x = R_DENIED why))"
      using assms(2) t x ca p d
      by (auto simp: execute_write_def transmit_def Let_def split: sum.splits)
    with p show ?thesis by blast
  qed
qed

section \<open>What the control database never forgets\<close>

text \<open>
  No operation deletes a consumed nonce, changes a draft, changes or deletes a device key,
  deletes an attempt, or gives a device without an active key its key back.
\<close>

definition dev_key :: "device \<Rightarrow> pystr \<times> bytes" where
  "dev_key r = (dev_id r, dev_public_key r)"

definition grows :: "control_db \<Rightarrow> control_db \<Rightarrow> bool" where
  "grows d d' \<longleftrightarrow>
     prefix (consumed d) (consumed d') \<and> prefix (drafts d) (drafts d') \<and>
     prefix (map dev_key (approval_devices d)) (map dev_key (approval_devices d')) \<and>
     prefix (map atm_id (send_attempts d)) (map atm_id (send_attempts d')) \<and>
     (\<forall>i. has_device d i \<and> active_signing_key d i = None \<longrightarrow> active_signing_key d' i = None)"

lemma grows_refl [simp]: "grows d d"
  by (simp add: grows_def)

lemma grows_devices: "grows d d' \<Longrightarrow> has_device d i \<Longrightarrow> has_device d' i"
proof -
  assume "grows d d'" "has_device d i"
  then have "i \<in> fst ` set (map dev_key (approval_devices d))"
    by (auto simp: has_device_iff dev_key_def image_image)
  with \<open>grows d d'\<close> have "i \<in> fst ` set (map dev_key (approval_devices d'))"
    unfolding grows_def by (meson image_mono set_mono_prefix subsetD)
  then show ?thesis by (auto simp: has_device_iff dev_key_def image_image)
qed

lemma grows_trans: "grows a b \<Longrightarrow> grows b c \<Longrightarrow> grows a c"
  using grows_devices [of a b] by (auto simp: grows_def intro: prefix_order.trans)

text \<open>The frame: changes of other tables, and of the bookkeeping columns of an attempt.\<close>

lemma grows_frame:
  assumes "approval_devices d' = approval_devices d" "prefix (consumed d) (consumed d')"
    "prefix (drafts d) (drafts d')" "prefix (map atm_id (send_attempts d)) (map atm_id (send_attempts d'))"
  shows "grows d d'"
  using assms active_key_only_devices [OF assms(1)] by (simp add: grows_def)

lemma grows_other:
  assumes "approval_devices d' = approval_devices d" "approval_nonces d' = approval_nonces d"
    "drafts d' = drafts d" "map atm_id (send_attempts d') = map atm_id (send_attempts d)"
  shows "grows d d'"
  using assms by (intro grows_frame) (simp_all add: consumed_def)

lemma grows_insert:
  "ins_draft r1 d = Inr d' \<Longrightarrow> grows d d'" "ins_approval r2 d = Inr d' \<Longrightarrow> grows d d'"
  "ins_grant r3 d = Inr d' \<Longrightarrow> grows d d'" "ins_candidate r4 d = Inr d' \<Longrightarrow> grows d d'"
  "ins_job r5 d = Inr d' \<Longrightarrow> grows d d'" "ins_run r6 d = Inr d' \<Longrightarrow> grows d d'"
  "ins_attempt r7 d = Inr d' \<Longrightarrow> grows d d'" "consume i t n d = Inr d' \<Longrightarrow> grows d d'"
  by (auto intro!: grows_frame simp: consumed_def consume_Inr dest!: ins_draft_Inr ins_approval_Inr ins_grant_Inr
      ins_candidate_Inr ins_job_Inr ins_run_Inr ins_attempt_Inr)

lemma grows_enroll:
  assumes "ins_device r d = Inr d'" shows "grows d d'"
proof -
  from ins_device_Inr [OF assms] have d': "d' = d\<lparr>approval_devices := approval_devices d @ [r]\<rparr>"
    and n: "dev_id r \<notin> dev_id ` set (approval_devices d)" by auto
  have "active_signing_key d' i = None" if "has_device d i" "active_signing_key d i = None" for i
  proof -
    from that n have "dev_id r \<noteq> i" by (auto simp: has_device_iff)
    moreover from that have "List.find (\<lambda>x. dev_id x = i \<and> dev_status x = ACTIVE) (approval_devices d) = None"
      by (simp add: active_signing_key_def active_key_None_iff find_None)
    ultimately show ?thesis by (simp add: active_signing_key_def active_key_def d' find_append_None)
  qed
  then show ?thesis by (simp add: grows_def d' consumed_def)
qed

lemma grows_revoke: "grows d (set_revoked i d)"
proof -
  have "active_signing_key (set_revoked i d) j = None" if "active_signing_key d j = None" for j
    using that revoked_has_no_key revoke_others by (cases "j = i") (auto simp: active_signing_key_def)
  moreover have "map dev_key (approval_devices (set_revoked i d)) = map dev_key (approval_devices d)"
    by (simp add: set_revoked_def map_upd_key dev_key_def)
  ultimately show ?thesis by (simp add: grows_def consumed_def)
qed

section \<open>The operations beside the sender\<close>

datatype call =
    PREPARE pystr bytes prepare_args
  | PREPARE_TEMPLATE pystr bytes pystr pystr pystr pystr "param list" int
  | SYNC_TEMPLATES "sync_row list"
  | ENROLL pystr pystr bytes bytes "int option"
  | REVOKE pystr
  | ACCEPT pystr bytes raw_envelope
  | STORE_GRANT grant_fields bytes
  | USE_GRANT pystr pystr int
  | STATUS pystr status_event int
  | RESOLVE pystr pystr
  | RECOVER int
  | PERSIST_JOB pystr job
  | SET_ENABLED pystr int
  | FIRE pystr pystr bool pystr bytes prepare_args int
  | ADVANCE_WINDOW pystr int
  | REPAIR_WINDOW pystr int

definition prepare_id :: "crypto \<Rightarrow> pystr \<Rightarrow> bytes \<Rightarrow> prepare_args \<Rightarrow> control \<Rightarrow> (exc + pystr) \<times> control" where
  "prepare_id C u nonce a c = map_prod (map_sum id fst) id (prepare C u nonce a c)"

fun run_call :: "crypto \<Rightarrow> call \<Rightarrow> control \<Rightarrow> control" where
  "run_call C (PREPARE u n a) c = snd (prepare C u n a c)"
| "run_call C (PREPARE_TEMPLATE u n cv ac pn ti ps now) c = snd (prepare_template C u n cv ac pn ti ps now c)"
| "run_call C (SYNC_TEMPLATES rows) c = snd (upsert_from_sync rows c)"
| "run_call C (ENROLL u name s a t) c = snd (enroll u name s a t c)"
| "run_call C (REVOKE i) c = revoke i c"
| "run_call C (ACCEPT u raw env) c = snd (accept_envelope u raw env c)"
| "run_call C (STORE_GRANT f sig) c = snd (store_grant C f sig c)"
| "run_call C (USE_GRANT action conv now) c = snd (verify_and_consume C action conv now c)"
| "run_call C (STATUS u e now) c = snd (on_status_event u e now c)"
| "run_call C (RESOLVE i decision) c = snd (resolve i decision c)"
| "run_call C (RECOVER now) c = snd (recover_startup now c)"
| "run_call C (PERSIST_JOB u j) c = snd (persist_job u j c)"
| "run_call C (SET_ENABLED i v) c = set_enabled i v c"
| "run_call C (FIRE u job pre u' n a now) c = snd (fire u job pre (prepare_id C u' n a) now c)"
| "run_call C (ADVANCE_WINDOW cid ms) c = snd (advance_window cid ms c)"
| "run_call C (REPAIR_WINDOW cid ms) c = snd (repair_window cid ms c)"

text \<open>
  A draft with a recipient carries a text body and its digest. The content of the database
  that every operation keeps: \<open>control_inv\<close>, the quotas, and this shape of the drafts.
\<close>

definition bound :: "crypto \<Rightarrow> draft \<Rightarrow> bool" where
  "bound C r \<longleftrightarrow> drf_recipient_wa_id r = None \<or>
     (\<exists>t b. utf8 t = Inr b \<and> drf_body_bytes r = Some b \<and> drf_body_sha256 r = Some (sha256 C b) \<and>
        drf_nonce r \<noteq> None \<and> drf_expires_at_ms r \<noteq> None)"

definition db_inv :: "crypto \<Rightarrow> control_db \<Rightarrow> bool" where
  "db_inv C d \<longleftrightarrow> control_inv d \<and> quota_ok d \<and> list_all (bound C) (drafts d)"

text \<open>An operation keeps the invariant, only grows the database, and makes all or nothing durable.\<close>

definition op_ok :: "crypto \<Rightarrow> control \<Rightarrow> control \<Rightarrow> bool" where
  "op_ok C c c' \<longleftrightarrow>
     (db_inv C (work c) \<longrightarrow> db_inv C (work c') \<and> grows (work c) (work c')) \<and>
     (disk c' = disk c \<or> disk c' = work c')"

lemma op_ok_refl [simp]: "op_ok C c c"
  by (simp add: op_ok_def)

lemma op_ok_trans: "op_ok C a b \<Longrightarrow> op_ok C b c \<Longrightarrow> disk c \<in> {disk a, work c} \<Longrightarrow> op_ok C a c"
  by (auto simp: op_ok_def dest: grows_trans)

lemma op_okI:
  assumes "db_inv C (work c) \<Longrightarrow> control_inv (work c')" "grows (work c) (work c')"
    "capability_grants (work c') = capability_grants (work c)" "drafts (work c') = drafts (work c)"
    "disk c' = disk c \<or> disk c' = work c'"
  shows "op_ok C c c'"
  using assms by (auto simp: op_ok_def db_inv_def quota_ok_def)

lemma new_draft_bound: "utf8 t = Inr b \<Longrightarrow> bound C (new_draft C i n a b)"
  by (auto simp: bound_def new_draft_def)

lemma template_draft_bound: "bound C (template_draft i n cv ac pn ti dg now)"
  by (simp add: bound_def template_draft_def)

lemma insert_draft_ok:
  assumes "ins_draft r (work c) = Inr (work c')" "clean c'" "bound C r"
  shows "op_ok C c c'"
  using assms ins_draft_Inr [OF assms(1)] ins_draft_inv [OF _ assms(1)] grows_insert(1) [OF assms(1)]
  by (auto simp: op_ok_def db_inv_def quota_ok_def clean_disk)

lemma prepare_ok: "op_ok C c (snd (prepare C u n a c))"
  using prepare_cases [of C u n a c "fst (prepare C u n a c)" "snd (prepare C u n a c)"]
    insert_draft_ok new_draft_bound by auto

lemma prepare_template_ok: "op_ok C c (snd (prepare_template C u n cv ac pn ti ps now c))"
  using prepare_template_cases [of C u n cv ac pn ti ps now c, OF surjective_pairing]
    insert_draft_ok template_draft_bound by auto

lemma sync_frame:
  fixes d :: control_db and rows :: "sync_row list"
  defines "d' \<equiv> fold (\<lambda>r d. replace_template (synced_template r) d) rows d"
  shows "approval_devices d' = approval_devices d" "drafts d' = drafts d" "approvals d' = approvals d"
    "approval_nonces d' = approval_nonces d" "send_attempts d' = send_attempts d"
    "capability_grants d' = capability_grants d"
  unfolding d'_def by (induction rows arbitrary: d) (simp_all add: replace_template_def)

lemma other_tables_ok:
  assumes "approval_devices (work c') = approval_devices (work c)" "drafts (work c') = drafts (work c)"
    "approvals (work c') = approvals (work c)" "approval_nonces (work c') = approval_nonces (work c)"
    "send_attempts (work c') = send_attempts (work c)" "capability_grants (work c') = capability_grants (work c)"
    "disk c' = disk c \<or> disk c' = work c'"
  shows "op_ok C c c'"
  using assms control_inv_cong [OF assms(1-6)] by (intro op_okI) (simp_all add: grows_other db_inv_def)

lemma sync_ok: "op_ok C c (snd (upsert_from_sync rows c))"
  by (rule other_tables_ok) (simp_all add: upsert_from_sync_def sync_frame)

lemma enroll_ok: "op_ok C c (snd (enroll u name s a t c))"
proof (cases "fst (enroll u name s a t c)")
  case (Inl e)
  then show ?thesis using enroll_Inl [of u name s a t c e] by (metis op_ok_refl prod.collapse)
next
  case (Inr i)
  then have e: "enroll u name s a t c = (Inr i, snd (enroll u name s a t c))" by (metis prod.collapse)
  obtain r where r: "ins_device r (work c) = Inr (work (snd (enroll u name s a t c)))"
    using e by (auto simp: enroll_def Let_def split: sum.splits)
  show ?thesis
    by (rule op_okI)
      (use enroll_Inr [OF e] ins_device_inv [OF _ r] grows_enroll [OF r] in \<open>auto simp: db_inv_def clean_disk\<close>)
qed

lemma revoke_ok: "op_ok C c (revoke i c)"
  by (rule op_okI) (auto simp: revoke_work db_inv_def set_revoked_inv grows_revoke, simp add: revoke_def)

lemma accept_ok: "op_ok C c (snd (accept_envelope u raw env c))"
proof -
  consider "snd (accept_envelope u raw env c) = c"
    | row where "clean (snd (accept_envelope u raw env c))"
        "ins_approval row (work c) = Inr (work (snd (accept_envelope u raw env c)))"
    using accept_cases [OF surjective_pairing] by blast
  then show ?thesis
  proof cases
    case (2 row)
    show ?thesis
      by (rule op_okI)
        (use 2 ins_approval_Inr [OF 2(2)] ins_approval_inv [OF _ 2(2)] grows_insert(2) [OF 2(2)]
         in \<open>auto simp: db_inv_def clean_disk\<close>)
  qed simp
qed

lemma store_grant_ok: "op_ok C c (snd (store_grant C f sig c))"
proof -
  consider "snd (store_grant C f sig c) = c"
    | row where "clean (snd (store_grant C f sig c))" "ins_grant row (work c) = Inr (work (snd (store_grant C f sig c)))"
    using store_grant_cases [OF surjective_pairing] by blast
  then show ?thesis
  proof cases
    case (2 row)
    then show ?thesis
      using store_grant_inv [OF _ _ surjective_pairing, of c C f sig] grows_insert(3) [OF 2(2)] ins_grant_Inr [OF 2(2)]
      by (auto simp: op_ok_def db_inv_def clean_disk)
  qed simp
qed

lemma use_grant_ok:
  assumes inv: "db_inv C (work c)"
  shows "op_ok C c (snd (verify_and_consume C action conv now c))"
proof -
  let ?c = "snd (verify_and_consume C action conv now c)"
  have i: "control_inv (work c)" "quota_ok (work c)" using inv by (simp_all add: db_inv_def)
  have q: "control_inv (work ?c) \<and> quota_ok (work ?c)" by (rule consume_quota [OF i surjective_pairing])
  consider "?c = c" | r :: grant where "clean ?c" "work ?c = bump (cap_id r) (cap_used_count r) (work c)"
    using verify_and_consume_cases [OF i(1), of C action conv now, OF surjective_pairing] by blast
  then show ?thesis
  proof cases
    case (2 r)
    have "grows (work c) (work ?c)" unfolding 2(2) by (rule grows_other) simp_all
    with 2 q inv show ?thesis by (simp add: op_ok_def db_inv_def clean_disk)
  qed simp
qed

lemma status_frame_ok:
  assumes "status_frame (work c) (work c')" "disk c' = disk c \<or> disk c' = work c'"
  shows "op_ok C c c'"
proof -
  from assms(1) have same: "approval_devices (work c') = approval_devices (work c)" "drafts (work c') = drafts (work c)"
    "approval_nonces (work c') = approval_nonces (work c)" "capability_grants (work c') = capability_grants (work c)"
    and m: "map (\<lambda>a. (atm_id a, atm_draft_id a, atm_idempotency_key a)) (send_attempts (work c')) =
      map (\<lambda>a. (atm_id a, atm_draft_id a, atm_idempotency_key a)) (send_attempts (work c))"
    by (cases "work c"; cases "work c'"; simp add: status_frame_def)+
  have "map atm_id (send_attempts (work c')) = map atm_id (send_attempts (work c))"
    using arg_cong [OF m, of "map fst"] by (simp add: comp_def)
  with same assms show ?thesis
    by (intro op_okI) (auto simp: db_inv_def intro: grows_other status_frame_inv)
qed

lemma by_wamid_disk: "by_wamid u e now c = (r, c') \<Longrightarrow> disk c' = disk c \<or> disk c' = work c'"
  by (auto simp: by_wamid_def Let_def split: option.splits sum.splits)

lemma by_wamid_fresh: "by_wamid u e now c = (r, c') \<Longrightarrow> clean c \<Longrightarrow> clean c'"
  by (auto simp: by_wamid_def Let_def split: option.splits sum.splits)

lemma status_ok: "op_ok C c (snd (on_status_event u e now c))"
proof (rule status_frame_ok)
  show "status_frame (work c) (work (snd (on_status_event u e now c)))"
    by (rule on_status_frame [OF surjective_pairing])
  show "disk (snd (on_status_event u e now c)) = disk c \<or>
      disk (snd (on_status_event u e now c)) = work (snd (on_status_event u e now c))"
  proof (cases "callback_attempt e")
    case None
    obtain r1 c2 where bw: "by_wamid u e now c = (r1, c2)" by force
    then show ?thesis using by_wamid_disk [OF bw] None by (simp add: on_status_event_def)
  next
    case (Some atm)
    let ?c1 = "commit (c\<lparr>work := resolve_attempt atm (se_wamid e) now (work c)\<rparr>)"
    obtain r1 c2 where bw: "by_wamid u e now ?c1 = (r1, c2)" by force
    then have "clean c2" by (rule by_wamid_fresh) simp
    with Some bw show ?thesis
      by (cases "rowcount (resolvable atm) (send_attempts (work c)) = 1")
        (simp_all add: on_status_event_def Let_def clean_disk)
  qed
qed

lemma resolve_ok: "op_ok C c (snd (resolve i decision c))"
  by (rule other_tables_ok) (simp_all add: resolve_def Let_def)

lemma recover_ok: "op_ok C c (snd (recover_startup now c))"
  by (rule op_okI) (simp_all add: recover_startup_def grows_other map_upd_key db_inv_def upd_attempts_inv)

lemma persist_job_ok: "op_ok C c (snd (persist_job u j c))"
proof -
  obtain x c' where p: "persist_job u j c = (x, c')" by force
  then consider "c' = c" | row where "clean c'" "ins_job row (work c) = Inr (work c')"
    by (auto simp: persist_job_def Let_def split: if_splits sum.splits)
  then show ?thesis
  proof cases
    case (2 row)
    then show ?thesis using ins_job_Inr [OF 2(2)] p by (auto intro!: other_tables_ok simp: clean_disk)
  qed (simp add: p)
qed

lemma set_enabled_ok: "op_ok C c (set_enabled i v c)"
  by (rule other_tables_ok) (simp_all add: set_enabled_def)

lemma fire_ok: "op_ok C c (snd (fire u job pre (prepare_id C u' n a) now c))"
proof -
  obtain x c' where f: "fire u job pre (prepare_id C u' n a) now c = (x, c')" by force
  define c1 where "c1 = (if pre then snd (prepare C u' n a c) else c)"
  have p: "op_ok C c c1" by (simp add: c1_def prepare_ok)
  have pid: "prepare_id C u' n a c = (map_sum id fst (fst (prepare C u' n a c)), snd (prepare C u' n a c))"
    by (simp add: prepare_id_def map_prod_def split_beta)
  have run: "c' = c1 \<or> (clean c' \<and> (\<exists>rs js. work c' = (work c1)\<lparr>job_runs := rs, scheduled_jobs := js\<rparr>))"
  proof (cases "pre \<and> (\<exists>e. fst (prepare C u' n a c) = Inl e)")
    case True
    with f show ?thesis by (auto simp: fire_def c1_def pid)
  next
    case False
    then obtain row where
      "(case ins_run row (work c1) of Inl e \<Rightarrow> c' = c1
        | Inr w \<Rightarrow> c' = commit (c1\<lparr>work := w\<lparr>scheduled_jobs :=
            upd (\<lambda>r. job_id r = job) (job_last_run_ms_update (\<lambda>_. Some now)) (scheduled_jobs w)\<rparr>\<rparr>))"
      using f by (cases pre; cases "fst (prepare C u' n a c)")
        (fastforce simp: fire_def Let_def c1_def pid split: sum.splits)+
    then show ?thesis by (auto split: sum.splits dest!: ins_run_Inr)
  qed
  then show ?thesis
  proof (elim disjE conjE exE)
    fix rs js assume w: "clean c'" "work c' = (work c1)\<lparr>job_runs := rs, scheduled_jobs := js\<rparr>"
    then have "op_ok C c1 c'" by (intro other_tables_ok) (simp_all add: clean_disk)
    with p w show ?thesis by (auto simp: f clean_disk intro: op_ok_trans)
  qed (simp add: p f)
qed

lemma upsert_window_ok:
  assumes "upsert_window cid v (work c) = Inr w" shows "op_ok C c (commit (c\<lparr>work := w\<rparr>))"
proof -
  obtain ws where "w = (work c)\<lparr>conversation_windows := ws\<rparr>" using upsert_window_frame(1) [OF assms] by blast
  then show ?thesis by (intro other_tables_ok) simp_all
qed

lemma window_ok: "op_ok C c (snd (advance_window cid ms c))" "op_ok C c (snd (repair_window cid ms c))"
  by (auto simp: advance_window_def repair_window_def Let_def intro: upsert_window_ok split: sum.split)

lemma run_call_ok: "db_inv C (work c) \<Longrightarrow> op_ok C c (run_call C k c)"
  by (cases k) (simp_all add: prepare_ok prepare_template_ok sync_ok enroll_ok revoke_ok accept_ok store_grant_ok
    use_grant_ok status_ok resolve_ok recover_ok persist_job_ok set_enabled_ok fire_ok
    window_ok)

end
