(* ===== verification/Send_Safety.thy ===== *)
theory Send_Safety
  imports Approval_System
begin

text \<open>
  The step relation of the approval pipeline with its ghost log, and the invariants of its
  reachable states. A process that dies starts again with a connection on the durable state
  and a fresh clock guard.
\<close>

record post =
  po_env :: envelope
  po_now :: int
  po_db :: control_db
  po_draft :: draft
  po_attempt :: pystr
  po_body :: pystr

record 'p sys =
  wld :: "'p world"
  posts :: "post list"

type_synonym 'p sender_fn = "'p \<Rightarrow> pystr \<Rightarrow> pystr option \<Rightarrow> pystr \<Rightarrow> reply \<times> 'p"

definition post_of :: "int \<Rightarrow> envelope \<Rightarrow> 'p world \<Rightarrow> draft \<Rightarrow> pystr \<Rightarrow> pystr \<Rightarrow> post" where
  "post_of n env w dr aid b =
     \<lparr>po_env = env, po_now = n, po_db = work (ctl w), po_draft = dr, po_attempt = aid, po_body = b\<rparr>"

definition restart :: "control \<Rightarrow> 'p \<Rightarrow> 'p world" where
  "restart c p = \<lparr>ctl = crash c, clk = None, prov = p\<rparr>"

text \<open>
  What the sending process does: it dies between two calls, refuses, sends, or dies on either side of the
  call of the provider.
\<close>

inductive sending :: "crypto \<Rightarrow> 'p sender_fn \<Rightarrow> 'p sys \<Rightarrow> 'p sys \<Rightarrow> bool" for C send_text where
  die: "sending C send_text s (s\<lparr>wld := restart (ctl (wld s)) (prov (wld s))\<rparr>)"
| refuse: "posting C n u env (wld s) = None \<Longrightarrow> execute_write C send_text n u env (wld s) = (r, w') \<Longrightarrow>
    sending C send_text s (s\<lparr>wld := w'\<rparr>)"
| send: "posting C n u env (wld s) = Some (dr, aid, c1, b) \<Longrightarrow>
    execute_write C send_text n u env (wld s) = (r, w') \<Longrightarrow>
    sending C send_text s (s\<lparr>wld := w', posts := posts s @ [post_of n env (wld s) dr aid b]\<rparr>)"
| die_before_post: "posting C n u env (wld s) = Some (dr, aid, c1, b) \<Longrightarrow>
    sending C send_text s (s\<lparr>wld := restart c1 (prov (wld s))\<rparr>)"
| die_after_post: "posting C n u env (wld s) = Some (dr, aid, c1, b) \<Longrightarrow>
    send_text (prov (wld s)) (drf_phone_number_id dr) (drf_recipient_wa_id dr) b = (rep, p') \<Longrightarrow>
    sending C send_text s (s\<lparr>wld := restart c1 p', posts := posts s @ [post_of n env (wld s) dr aid b]\<rparr>)"

text \<open>A step of the system: an operation beside the sender, or the sender.\<close>

definition called :: "crypto \<Rightarrow> call \<Rightarrow> 'p sys \<Rightarrow> 'p sys" where
  "called C k s = s\<lparr>wld := (wld s)\<lparr>ctl := run_call C k (ctl (wld s))\<rparr>\<rparr>"

inductive step :: "crypto \<Rightarrow> 'p sender_fn \<Rightarrow> 'p sys \<Rightarrow> 'p sys \<Rightarrow> bool" for C send_text where
  call: "step C send_text s (called C k s)"
| sender: "sending C send_text s s' \<Longrightarrow> step C send_text s s'"

lemma step_cases:
  assumes "step C send_text s s'"
  obtains (call) k where "s' = s\<lparr>wld := (wld s)\<lparr>ctl := run_call C k (ctl (wld s))\<rparr>\<rparr>"
  | (die) "s' = s\<lparr>wld := restart (ctl (wld s)) (prov (wld s))\<rparr>"
  | (refuse) n u env r w' where "s' = s\<lparr>wld := w'\<rparr>" "posting C n u env (wld s) = None"
      "execute_write C send_text n u env (wld s) = (r, w')"
  | (send) n u env dr aid c1 b r w' where "s' = s\<lparr>wld := w', posts := posts s @ [post_of n env (wld s) dr aid b]\<rparr>"
      "posting C n u env (wld s) = Some (dr, aid, c1, b)" "execute_write C send_text n u env (wld s) = (r, w')"
  | (die_before_post) n u env dr aid c1 b where "s' = s\<lparr>wld := restart c1 (prov (wld s))\<rparr>"
      "posting C n u env (wld s) = Some (dr, aid, c1, b)"
  | (die_after_post) n u env dr aid c1 b rep p' where
      "s' = s\<lparr>wld := restart c1 p', posts := posts s @ [post_of n env (wld s) dr aid b]\<rparr>"
      "posting C n u env (wld s) = Some (dr, aid, c1, b)"
      "send_text (prov (wld s)) (drf_phone_number_id dr) (drf_recipient_wa_id dr) b = (rep, p')"
  using assms
proof cases
  case (call k)
  then show ?thesis by (intro that(1)) (simp add: called_def)
next
  case sender
  then show ?thesis by cases (rule that(2-6); assumption)+
qed

definition start :: "'p \<Rightarrow> 'p sys" where
  "start p = \<lparr>wld = \<lparr>ctl = connect empty_control, clk = None, prov = p\<rparr>, posts = []\<rparr>"

abbreviation steps :: "crypto \<Rightarrow> 'p sender_fn \<Rightarrow> 'p sys \<Rightarrow> 'p sys \<Rightarrow> bool" where
  "steps C send_text \<equiv> (step C send_text)\<^sup>*\<^sup>*"

section \<open>The invariant\<close>

definition conn_inv :: "crypto \<Rightarrow> control \<Rightarrow> bool" where
  "conn_inv C c \<longleftrightarrow> db_inv C (work c) \<and> db_inv C (disk c) \<and> grows (disk c) (work c)"

definition post_ok :: "crypto \<Rightarrow> control_db \<Rightarrow> post \<Rightarrow> bool" where
  "post_ok C d po \<longleftrightarrow>
     approved C (po_now po) (po_env po) (po_db po) (po_draft po) \<and> grows (po_db po) d \<and>
     bound C (po_draft po) \<and> utf8_decode (body_of (po_draft po)) = Some (po_body po) \<and>
     po_attempt po \<in> atm_id ` set (send_attempts d) \<and> env_nonce (po_env po) \<in> set (consumed d)"

definition sys_inv :: "crypto \<Rightarrow> 'p sys \<Rightarrow> bool" where
  "sys_inv C s \<longleftrightarrow>
     conn_inv C (ctl (wld s)) \<and> distinct (map (\<lambda>po. env_nonce (po_env po)) (posts s)) \<and>
     (\<forall>po\<in>set (posts s). post_ok C (disk (ctl (wld s))) po)"

lemma conn_inv_op: "conn_inv C c \<Longrightarrow> op_ok C c c' \<Longrightarrow> conn_inv C c' \<and> grows (disk c) (disk c')"
  by (auto simp: conn_inv_def op_ok_def dest: grows_trans)

lemma conn_inv_crash: "conn_inv C c \<Longrightarrow> conn_inv C (crash c)"
  by (simp add: conn_inv_def)

lemma grows_sets:
  assumes "grows d d'"
  shows "set (consumed d) \<subseteq> set (consumed d')" "set (drafts d) \<subseteq> set (drafts d')"
    "atm_id ` set (send_attempts d) \<subseteq> atm_id ` set (send_attempts d')"
  using assms set_mono_prefix unfolding grows_def by (metis set_map)+

lemma post_ok_grows: "post_ok C d po \<Longrightarrow> grows d d' \<Longrightarrow> post_ok C d' po"
  using grows_sets [of d d'] by (auto simp: post_ok_def dest: grows_trans)

section \<open>Its preservation\<close>

lemma permission_ok:
  assumes "permission C' now u env c = (x, c')" shows "op_ok C c c'"
proof -
  consider "c' = c" | w1 where "consume (env_draft_id env) now (env_nonce env) (work c) = Inr w1" "c' = c\<lparr>work := w1\<rparr>"
    | w1 row where "consume (env_draft_id env) now (env_nonce env) (work c) = Inr w1"
        "ins_attempt row w1 = Inr (work c')" "clean c'"
    using assms by (auto simp: permission_def Let_def split: sum.splits)
  then show ?thesis
  proof cases
    case (2 w1)
    have inv: "control_inv (work c) \<Longrightarrow> control_inv w1" by (rule consume_inv [OF _ 2(1)])
    show ?thesis
      by (rule op_okI)
        (use 2 inv grows_insert(8) [OF 2(1)] 2(1) [unfolded consume_Inr] in \<open>auto simp: db_inv_def\<close>)
  next
    case (3 w1 row)
    have inv: "control_inv (work c) \<Longrightarrow> control_inv (work c')"
      by (rule ins_attempt_inv [OF consume_inv [OF _ 3(1)] 3(2)])
    show ?thesis
      by (rule op_okI)
        (use 3 inv grows_trans [OF grows_insert(8) [OF 3(1)] grows_insert(7) [OF 3(2)]]
          3(1) [unfolded consume_Inr] ins_attempt_Inr [OF 3(2)] in \<open>auto simp: db_inv_def clean_disk\<close>)
  qed simp
qed

lemma finish_ok: "op_ok C c (snd (finish aid now st cols c))"
  by (rule op_okI) (auto simp: finish_def grows_other map_upd_key db_inv_def intro: upd_attempts_inv)

lemma recorded_frame:
  "approval_nonces (work (snd (recorded now aid rep c))) = approval_nonces (work c)"
  "approval_devices (work (snd (recorded now aid rep c))) = approval_devices (work c)"
  "map (\<lambda>a. (atm_id a, atm_idempotency_key a)) (send_attempts (work (snd (recorded now aid rep c)))) =
     map (\<lambda>a. (atm_id a, atm_idempotency_key a)) (send_attempts (work c))"
  by (cases rep; simp add: finish_def map_upd_key)+

lemma recorded_ok: "op_ok C c (snd (recorded now aid rep c))"
  by (cases rep) (auto simp: finish_ok)

lemma posting_conn:
  assumes "posting C n u env w = Some (dr, aid, c1, b)" "conn_inv C (ctl w)"
  shows "conn_inv C c1" "clean c1" "grows (work (ctl w)) (disk c1)" "grows (disk (ctl w)) (disk c1)"
    "env_nonce env \<in> set (consumed (disk c1))" "env_nonce env \<notin> set (consumed (work (ctl w)))"
    "post_ok C (disk c1) (post_of n env w dr aid b)"
proof -
  note p = posting_Some [OF assms(1)]
  note ok = permission_ok [OF p(3), of C]
  from ok assms(2) show i: "conn_inv C c1" and g: "grows (disk (ctl w)) (disk c1)" using conn_inv_op by blast+
  from p(3) obtain idb where g': "clean c1" "env_nonce env \<notin> set (consumed (work (ctl w)))"
    and w: "work c1 = (work (ctl w))\<lparr>approval_nonces := approval_nonces (work (ctl w)) @ [nonce_entry n env],
       send_attempts := send_attempts (work (ctl w)) @ [opened_attempt C n aid env idb]\<rparr>"
    by (rule permission_granted)
  then show "clean c1" "env_nonce env \<notin> set (consumed (work (ctl w)))" by blast+
  from g'(1) have d: "disk c1 = work c1" by (rule clean_disk)
  from w d show n: "env_nonce env \<in> set (consumed (disk c1))" by (simp add: consumed_def nonce_entry_def)
  from ok assms(2) d show gr: "grows (work (ctl w)) (disk c1)" by (simp add: op_ok_def conn_inv_def)
  have "dr \<in> set (drafts (work (ctl w)))" using approved_draft [OF p(2)] by simp
  then have "bound C dr" using assms(2) by (auto simp: conn_inv_def db_inv_def list_all_iff)
  with p gr n w d show "post_ok C (disk c1) (post_of n env w dr aid b)"
    by (simp add: post_ok_def post_of_def opened_attempt_def)
qed

lemma sys_inv_conn: "sys_inv C s \<Longrightarrow> conn_inv C (ctl (wld s))"
  by (simp add: sys_inv_def)

lemma execute_silent_ok:
  assumes "posting C n u env w = None" "execute_write C send_text n u env w = (r, w')"
  shows "op_ok C (ctl w) (ctl w')"
  using execute_silent [OF assms]
proof (elim conjE disjE exE)
  fix now x assume "permission C now u env (ctl w) = (x, ctl w')"
  then show ?thesis by (rule permission_ok)
qed simp

lemma execute_posting_ctl:
  assumes "posting C n u env w = Some (dr, aid, c1, b)" "execute_write C send_text n u env w = (r, w')"
  obtains rep where "ctl w' = snd (recorded n aid rep c1)"
    "send_text (prov w) (drf_phone_number_id dr) (drf_recipient_wa_id dr) b = (rep, prov w')"
    "r = fst (recorded n aid rep c1)" "clk w' = Some n"
proof -
  obtain rep p' where rep: "send_text (prov w) (drf_phone_number_id dr) (drf_recipient_wa_id dr) b = (rep, p')"
    by force
  show thesis
    by (rule that [of rep]) (use execute_posting [where send_text = send_text, OF assms(1) rep] assms(2) rep in auto)
qed

text \<open>A step keeps the databases well formed and forgets nothing that is durable.\<close>

lemma step_conn:
  assumes "step C send_text s s'" "conn_inv C (ctl (wld s))"
  shows "conn_inv C (ctl (wld s')) \<and> grows (disk (ctl (wld s))) (disk (ctl (wld s')))"
  using assms(1)
proof (cases rule: step_cases)
  case (call k)
  have "db_inv C (work (ctl (wld s)))" using assms(2) by (simp add: conn_inv_def)
  from conn_inv_op [OF assms(2) run_call_ok [OF this]] show ?thesis by (simp add: call)
next
  case (refuse n u env r w')
  show ?thesis using conn_inv_op [OF assms(2) execute_silent_ok [OF refuse(2,3)]] by (simp add: refuse(1))
next
  case (send n u env dr aid c1 b r w')
  note pc = posting_conn [OF send(2) assms(2)]
  obtain rep where "ctl w' = snd (recorded n aid rep c1)" by (rule execute_posting_ctl [OF send(2,3)])
  then have "conn_inv C (ctl w') \<and> grows (disk c1) (disk (ctl w'))"
    using conn_inv_op [OF pc(1) recorded_ok] by simp
  with pc(4) show ?thesis by (auto simp: send(1) intro: grows_trans)
next
  case (die_before_post n u env dr aid c1 b)
  then show ?thesis using posting_conn(1,4) [OF _ assms(2)] by (simp add: restart_def conn_inv_crash)
next
  case (die_after_post n u env dr aid c1 b rep p')
  then show ?thesis using posting_conn(1,4) [OF _ assms(2)] by (simp add: restart_def conn_inv_crash)
qed (use assms(2) in \<open>simp add: restart_def conn_inv_crash\<close>)

text \<open>A step logs at most one post, and that one rests on what was durable before the provider was called.\<close>

lemma step_posts:
  assumes "step C send_text s s'" "conn_inv C (ctl (wld s))"
  shows "posts s' = posts s \<or>
    (\<exists>n u env dr aid c1 b. posting C n u env (wld s) = Some (dr, aid, c1, b) \<and>
       posts s' = posts s @ [post_of n env (wld s) dr aid b] \<and> grows (disk c1) (disk (ctl (wld s'))))"
  using assms(1)
proof (cases rule: step_cases)
  case (send n u env dr aid c1 b r w')
  obtain rep where "ctl w' = snd (recorded n aid rep c1)" by (rule execute_posting_ctl [OF send(2,3)])
  then have "grows (disk c1) (disk (ctl w'))"
    using conn_inv_op [OF posting_conn(1) [OF send(2) assms(2)] recorded_ok] by simp
  with send show ?thesis by (intro disjI2 exI conjI) simp_all
next
  case (die_after_post n u env dr aid c1 b rep p')
  then have "grows (disk c1) (disk (ctl (wld s')))" by (simp add: restart_def)
  with die_after_post show ?thesis by (intro disjI2 exI conjI) simp_all
qed simp_all

lemma sys_inv_step:
  assumes "step C send_text s s'" "sys_inv C s" shows "sys_inv C s'"
proof -
  have ci: "conn_inv C (ctl (wld s))" by (rule sys_inv_conn [OF assms(2)])
  note sc = step_conn [OF assms(1) ci]
  have old: "\<forall>po\<in>set (posts s). post_ok C (disk (ctl (wld s'))) po"
    using assms(2) sc post_ok_grows by (auto simp: sys_inv_def)
  show ?thesis using step_posts [OF assms(1) ci]
  proof (elim disjE exE conjE)
    fix n u env dr aid c1 b
    assume p: "posting C n u env (wld s) = Some (dr, aid, c1, b)"
      and l: "posts s' = posts s @ [post_of n env (wld s) dr aid b]" and g: "grows (disk c1) (disk (ctl (wld s')))"
    note pc = posting_conn [OF p ci]
    have "env_nonce env \<notin> (\<lambda>po. env_nonce (po_env po)) ` set (posts s)"
    proof
      assume "env_nonce env \<in> (\<lambda>po. env_nonce (po_env po)) ` set (posts s)"
      then have "env_nonce env \<in> set (consumed (disk (ctl (wld s))))"
        using assms(2) by (auto simp: sys_inv_def post_ok_def)
      with ci pc(6) grows_sets(1) show False by (auto simp: conn_inv_def)
    qed
    then show ?thesis using assms(2) sc old l post_ok_grows [OF pc(7) g]
      by (auto simp: sys_inv_def post_of_def)
  qed (use assms(2) sc old in \<open>auto simp: sys_inv_def\<close>)
qed

lemma sys_inv_start: "sys_inv C (start p)"
  by (simp add: sys_inv_def start_def conn_inv_def db_inv_def control_inv_empty quota_ok_def)
    (simp add: empty_control_def)

lemma sys_inv_reachable: "steps C send_text (start p) s \<Longrightarrow> sys_inv C s"
  by (induction rule: rtranclp_induct) (auto intro: sys_inv_start sys_inv_step)

section \<open>What the provider has seen\<close>

definition post_msg :: "post \<Rightarrow> sent" where
  "post_msg po = (drf_recipient_wa_id (po_draft po), po_body po)"

context provider
begin

lemma send_logged:
  assumes "send_text p n (drf_recipient_wa_id dr) b = (rep, p')" "subseq (sends p) (map post_msg l)"
    "po_draft po = dr" "po_body po = b"
  shows "subseq (sends p') (map post_msg (l @ [po]))"
proof -
  have "map post_msg (l @ [po]) = map post_msg l @ [(drf_recipient_wa_id dr, b)]"
    using assms(3,4) by (simp add: post_msg_def)
  with assms(2) have "subseq (sends p @ [(drf_recipient_wa_id dr, b)]) (map post_msg (l @ [po]))"
    "subseq (sends p) (map post_msg (l @ [po]))"
    by (auto intro: list_emb_append_mono list_emb_append2)
  moreover have "sends p' \<in> {sends p, sends p @ [(drf_recipient_wa_id dr, b)]}"
    by (rule at_most_once [OF assms(1)])
  ultimately show ?thesis by auto
qed

lemma step_logged:
  assumes "step C send_text s s'" "subseq (sends (prov (wld s))) (map post_msg (posts s))"
  shows "subseq (sends (prov (wld s'))) (map post_msg (posts s'))"
  using assms(1)
proof (cases rule: step_cases)
  case (refuse n u env r w')
  have "prov w' = prov (wld s)" using execute_silent [OF refuse(2,3)] by blast
  with assms(2) show ?thesis by (simp add: refuse(1))
next
  case (send n u env dr aid c1 b r w')
  obtain rep where "send_text (prov (wld s)) (drf_phone_number_id dr) (drf_recipient_wa_id dr) b = (rep, prov w')"
    by (rule execute_posting_ctl [OF send(2,3)])
  then show ?thesis using send_logged assms(2) by (simp add: send(1) post_of_def)
next
  case (die_after_post n u env dr aid c1 b rep p')
  then show ?thesis using send_logged [OF die_after_post(3) assms(2)] by (simp add: restart_def post_of_def)
qed (use assms(2) in \<open>simp_all add: restart_def\<close>)

lemma reachable_logged:
  assumes "steps C send_text (start p) s" "sends p = []"
  shows "subseq (sends (prov (wld s))) (map post_msg (posts s))"
  using assms(1) by (induction rule: rtranclp_induct) (use assms(2) in \<open>auto simp: start_def intro: step_logged\<close>)

end

section \<open>What a post rests on\<close>

lemma grows_key:
  assumes "grows d d'" "active_signing_key d i = Some k"
  shows "(i, k) \<in> dev_key ` set (approval_devices d')"
proof -
  from active_signing_key_Some [OF assms(2)] have "(i, k) \<in> dev_key ` set (approval_devices d)"
    by (force simp: dev_key_def)
  with assms(1) show ?thesis unfolding grows_def by (metis set_map set_mono_prefix subsetD)
qed

text \<open>Everything an approval has to bind before the provider is called.\<close>

definition authorised :: "crypto \<Rightarrow> control_db \<Rightarrow> post \<Rightarrow> bool" where
  "authorised C d po \<longleftrightarrow>
     (let dr = po_draft po; env = po_env po; now = po_now po in
      dr \<in> set (drafts d) \<and> drf_id dr = env_draft_id env \<and> env_decision env = lit ''APPROVE'' \<and>
      (\<exists>k payload. (env_device_id env, k) \<in> dev_key ` set (approval_devices d) \<and>
         active_signing_key (po_db po) (env_device_id env) = Some k \<and>
         encode (canonical_fields dr env) = Inr payload \<and> verify C payload (env_signature env) k) \<and>
      (\<exists>body. utf8 (po_body po) = Inr body \<and> drf_body_sha256 dr = Some (sha256 C body)) \<and>
      truthy (drf_recipient_wa_id dr) \<and> (\<exists>e. drf_expires_at_ms dr = Some e \<and> now < e) \<and>
      (drf_kind dr = lit ''text'' \<longrightarrow> window_open (po_db po) (drf_conversation_id dr) now))"

lemma post_ok_authorised:
  assumes "post_ok C d po" shows "authorised C d po"
proof -
  let ?dr = "po_draft po" and ?env = "po_env po"
  have a: "approved C (po_now po) ?env (po_db po) ?dr" and g: "grows (po_db po) d" and b: "bound C ?dr"
    and dec: "utf8_decode (body_of ?dr) = Some (po_body po)"
    using assms by (auto simp: post_ok_def)
  from a have dr: "?dr \<in> set (drafts (po_db po))" "drf_id ?dr = env_draft_id ?env" by (auto dest: approved_draft)
  from dr g have "?dr \<in> set (drafts d)" using grows_sets(2) by blast
  moreover obtain k payload where k: "active_signing_key (po_db po) (env_device_id ?env) = Some k"
    "encode (canonical_fields ?dr ?env) = Inr payload" "verify C payload (env_signature ?env) k"
    using a by (auto simp: approved_def)
  moreover from a have p: "env_decision ?env = lit ''APPROVE''" "truthy (drf_recipient_wa_id ?dr)"
    "\<not> expired (Some (po_now po)) (drf_expires_at_ms ?dr)"
    "drf_kind ?dr = lit ''text'' \<longrightarrow> window_open (po_db po) (drf_conversation_id ?dr) (po_now po)"
    by (auto simp: approved_def permitted_def send_ctx_def)
  moreover from b p(2) obtain t body where t: "utf8 t = Inr body" "drf_body_bytes ?dr = Some body"
    "drf_body_sha256 ?dr = Some (sha256 C body)" "drf_expires_at_ms ?dr \<noteq> None"
    by (auto simp: bound_def truthy_def)
  moreover from t dec have "t = po_body po" using utf8_roundtrip [OF t(1)] by (simp add: body_of_def)
  ultimately show ?thesis using dr(2) grows_key [OF g k(1)]
    by (auto simp: authorised_def Let_def expired_def)
qed

section \<open>Revocation\<close>

definition cut_off :: "control_db \<Rightarrow> pystr \<Rightarrow> bool" where
  "cut_off d i \<longleftrightarrow> has_device d i \<and> active_signing_key d i = None"

lemma cut_off_grows: "cut_off d i \<Longrightarrow> grows d d' \<Longrightarrow> cut_off d' i"
  using grows_devices [of d d' i] by (auto simp: cut_off_def grows_def)

lemma revoked_cut_off: "has_device d i \<Longrightarrow> cut_off (set_revoked i d) i"
  using grows_devices [OF grows_revoke] revoked_has_no_key by (simp add: cut_off_def active_signing_key_def)

lemma cut_off_steps:
  assumes "steps C send_text s s'" "sys_inv C s" "cut_off (disk (ctl (wld s))) i"
  shows "sys_inv C s' \<and> cut_off (disk (ctl (wld s'))) i \<and>
    (\<exists>l. posts s' = posts s @ l \<and> (\<forall>po\<in>set l. env_device_id (po_env po) \<noteq> i))"
  using assms(1)
proof (induction rule: rtranclp_induct)
  case base
  then show ?case using assms(2,3) by simp
next
  case (step y z)
  then obtain l where l: "posts y = posts s @ l" "\<forall>po\<in>set l. env_device_id (po_env po) \<noteq> i"
    and inv: "sys_inv C y" and cut: "cut_off (disk (ctl (wld y))) i" by blast
  have ci: "conn_inv C (ctl (wld y))" by (rule sys_inv_conn [OF inv])
  then have "grows (disk (ctl (wld y))) (work (ctl (wld y)))" by (simp add: conn_inv_def)
  with cut have w: "cut_off (work (ctl (wld y))) i" by (rule cut_off_grows)
  have "\<exists>l. posts z = posts s @ l \<and> (\<forall>po\<in>set l. env_device_id (po_env po) \<noteq> i)"
    using step_posts [OF step(2) ci]
  proof (elim disjE exE conjE)
    fix n u env dr aid c1 b
    assume p: "posting C n u env (wld y) = Some (dr, aid, c1, b)"
      and z: "posts z = posts y @ [post_of n env (wld y) dr aid b]"
    have "env_device_id env \<noteq> i" using posting_Some(2) [OF p] w by (auto simp: cut_off_def approved_def)
    with z l show ?thesis by (intro exI [of _ "l @ [post_of n env (wld y) dr aid b]"]) (auto simp: post_of_def)
  qed (use l in auto)
  then show ?case using sys_inv_step [OF step(2) inv] cut_off_grows [OF cut] step_conn [OF step(2) ci] by blast
qed

section \<open>The outcome of a single call\<close>

lemma postingI:
  assumes "fst (trusted_now n (clk w)) = Inr n" "approved C n env (work (ctl w)) dr"
    "permission C n u env (ctl w) = (Inr (Inr aid), c1)" "utf8_decode (body_of dr) = Some b"
  shows "posting C n u env w = Some (dr, aid, c1, b)"
  using assms by (simp add: posting_def check_approval_iff [symmetric])

lemma submitted_posted:
  assumes "execute_write C send_text n u env w = (Inr (R_SUBMITTED wamid aid), w')"
  obtains dr c1 b err where "posting C n u env w = Some (dr, aid, c1, b)" "clk w' = Some n"
    "ctl w' = snd (finish aid n SUBMITTED [(''wamid'', wamid)] c1)"
    "send_text (prov w) (drf_phone_number_id dr) (drf_recipient_wa_id dr) b =
       (Reply (lit ''SUBMITTED'') wamid err, prov w')"
proof (cases "posting C n u env w")
  case None
  with execute_silent [OF None assms] show ?thesis by auto
next
  case (Some x)
  then obtain dr aid' c1 b where p: "posting C n u env w = Some (dr, aid', c1, b)" by (cases x) auto
  obtain rep where rep: "ctl w' = snd (recorded n aid' rep c1)" "clk w' = Some n"
    "send_text (prov w) (drf_phone_number_id dr) (drf_recipient_wa_id dr) b = (rep, prov w')"
    "Inr (R_SUBMITTED wamid aid) = fst (recorded n aid' rep c1)"
    by (rule execute_posting_ctl [OF p assms])
  from rep(4) obtain err where e: "rep = Reply (lit ''SUBMITTED'') wamid err" "aid' = aid"
    by (cases rep) (auto split: if_splits)
  show thesis
  proof (rule that)
    show "posting C n u env w = Some (dr, aid, c1, b)" using p e(2) by simp
    show "ctl w' = snd (finish aid n SUBMITTED [(''wamid'', wamid)] c1)" unfolding rep(1) e by simp
  qed (use rep(2,3) e(1) in simp_all)
qed

end
