(* ===== verification/Example_Run.thy ===== *)
theory Example_Run
  imports Send_Safety
begin

text \<open>
  A run of the approval pipeline on a concrete vault: a device is enrolled, the window of a
  conversation is opened, a draft is prepared, and an approval of it is executed against the
  fake provider. The theorems about reachable states are applied to it.
\<close>

definition demo_crypto :: crypto where
  "demo_crypto = \<lparr>sha256 = (\<lambda>b. take 32 (b @ replicate 32 0)), hmac_sha256 = (\<lambda>k b. take 32 (k @ b @ replicate 32 0)),
     ec_verify = (\<lambda>k m r s. if r = 0 \<and> s = 0 then EcValid else EcInvalidSignature)\<rparr>"

definition demo_args :: prepare_args where
  "demo_args = \<lparr>pa_conversation_id = lit ''c'', pa_account_id = lit ''a'', pa_phone_number_id = lit ''p'',
     pa_recipient_wa_id = Some (lit ''r''), pa_text = lit ''hi'', pa_kind = lit ''text'', pa_now_ms = 10,
     pa_window_open = True, pa_expires_at_ms = None\<rparr>"

definition demo_calls :: "call list" where
  "demo_calls = [ENROLL (lit ''1'') (lit ''phone'') [7] [9] None, ADVANCE_WINDOW (lit ''c'') 5,
     PREPARE (lit ''2'') (replicate 32 1) demo_args]"

definition demo_envelope :: envelope where
  "demo_envelope = \<lparr>env_draft_id = mk_id ''drf'' (lit ''2''), env_decision = lit ''APPROVE'',
     env_device_id = mk_id ''dev'' (lit ''1''), env_signature = replicate 64 0, env_nonce = replicate 32 1\<rparr>"

definition demo_ready :: "fake_meta world" where
  "demo_ready = \<lparr>ctl = fold (run_call demo_crypto) demo_calls (connect empty_control), clk = None,
     prov = fm_init (lit ''ok'')\<rparr>"

definition demo_done :: "fake_meta sys" where
  "demo_done =
     (case posting demo_crypto 20 (lit ''3'') demo_envelope demo_ready of
        None \<Rightarrow> \<lparr>wld = demo_ready, posts = []\<rparr>
      | Some (dr, aid, c1, b) \<Rightarrow>
          \<lparr>wld = snd (execute_write demo_crypto fm_send_text 20 (lit ''3'') demo_envelope demo_ready),
           posts = [post_of 20 demo_envelope demo_ready dr aid b]\<rparr>)"

definition demo_draft :: draft where
  "demo_draft = new_draft demo_crypto (lit ''drf_2'') (replicate 32 1) demo_args [104, 105]"

definition demo_db :: control_db where
  "demo_db = empty_control\<lparr>approval_devices := [\<lparr>dev_id = lit ''dev_1'', dev_name = lit ''phone'',
       dev_public_key = [7], dev_agreement_public_key = Some [9], dev_created_at_ms = None, dev_status = ACTIVE\<rparr>],
     drafts := [demo_draft],
     conversation_windows := [\<lparr>win_conversation_id = lit ''c'', win_last_inbound_ms = 5\<rparr>]\<rparr>"

lemma demo_ready_ctl: "ctl demo_ready = connect demo_db"
  by code_simp

lemma demo_encodes: "\<exists>payload. encode (canonical_fields demo_draft demo_envelope) = Inr payload"
  by (simp add: encode_def encode_with_def decision_slots_def canonical_fields_def demo_draft_def
      demo_envelope_def new_draft_def demo_args_def lp_def to_bytes_be_def lit_def mk_id_def utf8_char_def
      demo_crypto_def ATTACH_DOMAIN_def ascii_def expiry_def DEFAULT_TTL_MS_def)

lemma demo_verify: "verify demo_crypto payload (replicate 64 0) k"
  by (simp add: verify_def demo_crypto_def) code_simp

lemma demo_approved: "approved demo_crypto 20 demo_envelope demo_db demo_draft"
proof -
  have "List.find (\<lambda>r. drf_id r = env_draft_id demo_envelope) (drafts demo_db) = Some demo_draft"
    "env_decision demo_envelope = lit ''APPROVE''" "env_signature demo_envelope = replicate 64 0"
    "active_signing_key demo_db (env_device_id demo_envelope) = Some [7]"
    "\<not> payload_changed demo_crypto demo_draft" "permitted (send_ctx demo_db 20 demo_draft)"
    by code_simp+
  with demo_encodes demo_verify show ?thesis by (auto simp: approved_def)
qed

lemma demo_posting:
  "posting demo_crypto 20 (lit ''3'') demo_envelope demo_ready =
     Some (demo_draft, lit ''atm_3'', snd (permission demo_crypto 20 (lit ''3'') demo_envelope (connect demo_db)), lit ''hi'')"
proof (rule postingI)
  show "fst (trusted_now 20 (clk demo_ready)) = Inr 20" by (simp add: trusted_now_def demo_ready_def)
  show "approved demo_crypto 20 demo_envelope (work (ctl demo_ready)) demo_draft"
    by (simp add: demo_ready_ctl demo_approved)
  have "fst (permission demo_crypto 20 (lit ''3'') demo_envelope (connect demo_db)) = Inr (Inr (lit ''atm_3''))"
    by code_simp
  then show "permission demo_crypto 20 (lit ''3'') demo_envelope (ctl demo_ready) =
      (Inr (Inr (lit ''atm_3'')), snd (permission demo_crypto 20 (lit ''3'') demo_envelope (connect demo_db)))"
    by (simp add: demo_ready_ctl prod_eq_iff)
  show "utf8_decode (body_of demo_draft) = Some (lit ''hi'')" by code_simp
qed

lemma demo_done_posts: "posts demo_done = [post_of 20 demo_envelope demo_ready demo_draft (lit ''atm_3'') (lit ''hi'')]"
  by (simp add: demo_done_def demo_posting)

lemma demo_done_sends: "fm_sends (prov (wld demo_done)) = [(Some (lit ''r''), lit ''hi'')]"
proof -
  have m: "fm_mode (prov demo_ready) = lit ''ok''" "fm_sends (prov demo_ready) = []"
    "drf_recipient_wa_id demo_draft = Some (lit ''r'')" by code_simp+
  obtain rep p' where r: "fm_send_text (prov demo_ready) (drf_phone_number_id demo_draft) (drf_recipient_wa_id demo_draft)
      (lit ''hi'') = (rep, p')" by force
  with m have "fm_sends p' = [(Some (lit ''r''), lit ''hi'')]" by (auto simp: fm_send_text_def Let_def)
  then show ?thesis using execute_posting [where send_text = fm_send_text, OF demo_posting r] demo_posting
    by (simp add: demo_done_def)
qed

lemma run_calls_steps:
  "steps C send_text s (s\<lparr>wld := (wld s)\<lparr>ctl := fold (run_call C) ks (ctl (wld s))\<rparr>\<rparr>)"
proof (induction ks arbitrary: s)
  case Nil
  then show ?case by simp
next
  case (Cons k ks)
  have "step C send_text s (s\<lparr>wld := (wld s)\<lparr>ctl := run_call C k (ctl (wld s))\<rparr>\<rparr>)" using step.call [of C send_text s k] by (simp add: called_def)
  from converse_rtranclp_into_rtranclp [OF this Cons.IH] show ?case by simp
qed

lemma demo_reachable: "steps demo_crypto fm_send_text (start (fm_init (lit ''ok''))) demo_done"
proof -
  let ?s = "\<lparr>wld = demo_ready, posts = []\<rparr> :: fake_meta sys"
  have r: "steps demo_crypto fm_send_text (start (fm_init (lit ''ok''))) ?s"
    using run_calls_steps [of demo_crypto fm_send_text "start (fm_init (lit ''ok''))" demo_calls]
    by (simp add: start_def demo_ready_def)
  show ?thesis
  proof (cases "posting demo_crypto 20 (lit ''3'') demo_envelope demo_ready")
    case None
    with r show ?thesis by (simp add: demo_done_def)
  next
    case (Some x)
    obtain dr aid c1 b where x: "x = (dr, aid, c1, b)" by (cases x) auto
    from step.sender [OF sending.send [of demo_crypto 20 "lit ''3''" demo_envelope ?s dr aid c1 b fm_send_text, OF _ surjective_pairing]]
    have "step demo_crypto fm_send_text ?s demo_done" using Some x by (simp add: demo_done_def)
    with r show ?thesis by simp
  qed
qed

lemma demo_submitted:
  "execute_write demo_crypto fm_send_text 20 (lit ''3'') demo_envelope demo_ready =
     (Inr (R_SUBMITTED (Some (lit ''wamid.NEW'')) (lit ''atm_3'')), wld demo_done)"
proof -
  have m: "fm_mode (prov demo_ready) = lit ''ok''" by code_simp
  have "fm_send_text (prov demo_ready) (drf_phone_number_id demo_draft) (drf_recipient_wa_id demo_draft) (lit ''hi'') =
      (Reply (lit ''SUBMITTED'') (Some (lit ''wamid.NEW'')) None,
       (prov demo_ready)\<lparr>fm_sends := fm_sends (prov demo_ready) @ [(drf_recipient_wa_id demo_draft, lit ''hi'')]\<rparr>)"
    by (simp add: fm_send_text_def m)
  from execute_posting [where send_text = fm_send_text, OF demo_posting this] show ?thesis
    by (simp add: demo_done_def demo_posting)
qed

text \<open>The database after the run.\<close>

lemma demo_done_db:
  "consumed (work (ctl (wld demo_done))) = [replicate 32 1]"
  "map (\<lambda>a. (atm_id a, atm_idempotency_key a)) (send_attempts (work (ctl (wld demo_done)))) =
     [(lit ''atm_3'', hex_of (sha256 demo_crypto ([100, 114, 102, 95, 50] @ replicate 32 1)))]"
  "has_device (work (ctl (wld demo_done))) (lit ''dev_1'')"
proof -
  note p = posting_Some(3) [OF demo_posting]
  obtain idb where idb: "utf8 (env_draft_id demo_envelope) = Inr idb" and
    w: "work (snd (permission demo_crypto 20 (lit ''3'') demo_envelope (connect demo_db))) =
      demo_db\<lparr>approval_nonces := approval_nonces demo_db @ [nonce_entry 20 demo_envelope],
       send_attempts := send_attempts demo_db @ [opened_attempt demo_crypto 20 (lit ''atm_3'') demo_envelope idb]\<rparr>"
    using p by (auto simp: demo_ready_ctl elim: permission_granted)
  have "utf8 (env_draft_id demo_envelope) = Inr [100, 114, 102, 95, 50]" by code_simp
  with idb have i: "idb = [100, 114, 102, 95, 50]" by simp
  let ?c = "snd (permission demo_crypto 20 (lit ''3'') demo_envelope (connect demo_db))"
  obtain rep where c: "ctl (wld demo_done) = snd (recorded 20 (lit ''atm_3'') rep ?c)"
    by (rule execute_posting_ctl [OF demo_posting surjective_pairing, of fm_send_text])
      (simp add: demo_done_def demo_posting)
  have db: "approval_nonces demo_db = []" "send_attempts demo_db = []"
    "has_device demo_db (lit ''dev_1'')" "env_nonce demo_envelope = replicate 32 1" by code_simp+
  show "consumed (work (ctl (wld demo_done))) = [replicate 32 1]"
    by (simp add: c w db consumed_def nonce_entry_def recorded_frame)
  show "has_device (work (ctl (wld demo_done))) (lit ''dev_1'')"
    using db(3) by (simp add: c w has_device_def recorded_frame)
  show "map (\<lambda>a. (atm_id a, atm_idempotency_key a)) (send_attempts (work (ctl (wld demo_done)))) =
     [(lit ''atm_3'', hex_of (sha256 demo_crypto ([100, 114, 102, 95, 50] @ replicate 32 1)))]"
    by (simp add: c recorded_frame) (simp add: w db opened_attempt_def i)
qed

end
