(* ===== verification/Queue.thy ===== *)
theory Queue
  imports Canonical "HOL-Library.Multiset"
begin

text \<open>
  The pull queue (\<open>apps/ingest/queue_client.py\<close>). The locale \<open>pull_queue\<close> is the protocol that the
  consumer relies on: leases have distinct identifiers, an acknowledged body is gone for good, a
  refused one waits again. \<open>FakeQueue\<close>, the only queue the repository has, is interpreted as one.
\<close>

section \<open>The protocol\<close>

locale pull_queue =
  fixes lease :: "nat \<Rightarrow> 'q \<Rightarrow> (pystr \<times> bytes) list \<times> 'q"
    and ack :: "pystr list \<Rightarrow> 'q \<Rightarrow> 'q"
    and nack :: "pystr list \<Rightarrow> 'q \<Rightarrow> 'q"
    and waiting :: "'q \<Rightarrow> bytes list"
    and out :: "'q \<Rightarrow> (pystr \<times> bytes) list"
    and acked :: "'q \<Rightarrow> bytes list"
    and ok :: "'q \<Rightarrow> bool"
  assumes ok_distinct: "ok q \<Longrightarrow> distinct (map fst (out q))"
    and lease_law: "ok q \<Longrightarrow> lease n q = (l, q') \<Longrightarrow>
      ok q' \<and> out q' = out q @ l \<and> waiting q = map snd l @ waiting q' \<and> acked q' = acked q \<and> length l \<le> n"
    and ack_law: "ok q \<Longrightarrow> ok (ack ls q) \<and> waiting (ack ls q) = waiting q \<and>
      out (ack ls q) = filter (\<lambda>x. fst x \<notin> set ls) (out q) \<and>
      mset (acked (ack ls q)) = mset (acked q) + mset (map snd (filter (\<lambda>x. fst x \<in> set ls) (out q)))"
    and nack_law: "ok q \<Longrightarrow> ok (nack ls q) \<and> acked (nack ls q) = acked q \<and>
      out (nack ls q) = filter (\<lambda>x. fst x \<notin> set ls) (out q) \<and>
      mset (waiting (nack ls q)) = mset (waiting q) + mset (map snd (filter (\<lambda>x. fst x \<in> set ls) (out q)))"
begin

text \<open>All bodies a queue still answers for.\<close>

definition bodies :: "'q \<Rightarrow> bytes multiset" where
  "bodies q = mset (waiting q) + mset (map snd (out q)) + mset (acked q)"

lemma split_out: "mset (map snd (filter P xs)) + mset (map snd (filter (\<lambda>x. \<not> P x) xs)) = mset (map snd xs)"
  by (induction xs) auto

lemma lease_bodies: "ok q \<Longrightarrow> lease n q = (l, q') \<Longrightarrow> bodies q' = bodies q"
  using lease_law [of q n l q'] by (simp add: bodies_def)

lemma ack_bodies: "ok q \<Longrightarrow> bodies (ack ls q) = bodies q"
  using ack_law [of q ls] split_out [of "\<lambda>x. fst x \<in> set ls" "out q"] by (simp add: bodies_def ac_simps)

lemma nack_bodies: "ok q \<Longrightarrow> bodies (nack ls q) = bodies q"
  using nack_law [of q ls] split_out [of "\<lambda>x. fst x \<in> set ls" "out q"] by (simp add: bodies_def ac_simps)

text \<open>A lease identifier stands for one body.\<close>

lemma out_unique: "ok q \<Longrightarrow> (i, b) \<in> set (out q) \<Longrightarrow> (i, b') \<in> set (out q) \<Longrightarrow> b = b'"
  using ok_distinct [of q] by (metis eq_key_imp_eq_value)

lemma ack_adds:
  assumes "ok q" "b \<in> set (acked (ack ls q))"
  shows "b \<in> set (acked q) \<or> (\<exists>i\<in>set ls. (i, b) \<in> set (out q))"
proof -
  have "b \<in># mset (acked (ack ls q))" using assms(2) by simp
  then show ?thesis using ack_law [OF assms(1), of ls] by auto
qed

end

section \<open>FakeQueue\<close>

record fake_queue =
  fq_pending :: "bytes list"
  fq_leased :: "(pystr \<times> bytes) list"
  fq_acked :: "bytes list"
  fq_counter :: nat

definition fq_init :: "bytes list \<Rightarrow> fake_queue" where
  "fq_init messages = \<lparr>fq_pending = messages, fq_leased = [], fq_acked = [], fq_counter = 0\<rparr>"

definition fq_add :: "bytes \<Rightarrow> fake_queue \<Rightarrow> fake_queue" where
  "fq_add body q = q\<lparr>fq_pending := fq_pending q @ [body]\<rparr>"

definition lease_id :: "nat \<Rightarrow> pystr" where
  "lease_id n = lit ''L'' @ nat_dec n"

text \<open>\<open>self._leased[lid] = body\<close>: a new key is appended, an old one keeps its place.\<close>

definition dict_set :: "'k \<Rightarrow> 'v \<Rightarrow> ('k \<times> 'v) list \<Rightarrow> ('k \<times> 'v) list" where
  "dict_set k v d = (if k \<in> fst ` set d then map (\<lambda>x. if fst x = k then (k, v) else x) d else d @ [(k, v)])"

fun fq_lease :: "nat \<Rightarrow> fake_queue \<Rightarrow> (pystr \<times> bytes) list \<times> fake_queue" where
  "fq_lease 0 q = ([], q)"
| "fq_lease (Suc n) q =
     (case fq_pending q of
        [] \<Rightarrow> ([], q)
      | body # rest \<Rightarrow>
          (let lid = lease_id (Suc (fq_counter q));
               (out, q') = fq_lease n (q\<lparr>fq_counter := Suc (fq_counter q), fq_pending := rest,
                                         fq_leased := dict_set lid body (fq_leased q)\<rparr>)
           in ((lid, body) # out, q')))"

text \<open>\<open>self._leased.pop(lid, None)\<close>.\<close>

definition pop :: "pystr \<Rightarrow> (pystr \<times> bytes) list \<Rightarrow> bytes option \<times> (pystr \<times> bytes) list" where
  "pop lid d = (map_of d lid, filter (\<lambda>x. fst x \<noteq> lid) d)"

primrec fq_ack :: "pystr list \<Rightarrow> fake_queue \<Rightarrow> fake_queue" where
  "fq_ack [] q = q"
| "fq_ack (lid # ls) q =
     (let (body, d) = pop lid (fq_leased q); q' = q\<lparr>fq_leased := d\<rparr> in
      fq_ack ls (case body of None \<Rightarrow> q' | Some b \<Rightarrow> q'\<lparr>fq_acked := fq_acked q' @ [b]\<rparr>))"

primrec fq_nack :: "pystr list \<Rightarrow> fake_queue \<Rightarrow> fake_queue" where
  "fq_nack [] q = q"
| "fq_nack (lid # ls) q =
     (let (body, d) = pop lid (fq_leased q); q' = q\<lparr>fq_leased := d\<rparr> in
      fq_nack ls (case body of None \<Rightarrow> q' | Some b \<Rightarrow> q'\<lparr>fq_pending := fq_pending q' @ [b]\<rparr>))"

definition fq_ok :: "fake_queue \<Rightarrow> bool" where
  "fq_ok q \<longleftrightarrow> distinct (map fst (fq_leased q)) \<and>
     (\<forall>i\<in>fst ` set (fq_leased q). \<exists>n\<le>fq_counter q. i = lease_id n)"

lemma lease_id_inject [simp]: "lease_id m = lease_id n \<longleftrightarrow> m = n"
  by (auto simp: lease_id_def dest: nat_dec_inject)

lemma fq_fresh: "fq_ok q \<Longrightarrow> lease_id (Suc (fq_counter q)) \<notin> fst ` set (fq_leased q)"
  by (fastforce simp: fq_ok_def)

lemma fq_lease_law:
  "fq_ok q \<Longrightarrow> fq_lease n q = (l, q') \<Longrightarrow>
   fq_ok q' \<and> fq_leased q' = fq_leased q @ l \<and> fq_pending q = map snd l @ fq_pending q' \<and>
   fq_acked q' = fq_acked q \<and> length l \<le> n"
proof (induction n arbitrary: q l q')
  case (Suc n)
  show ?case
  proof (cases "fq_pending q")
    case Nil
    with Suc show ?thesis by auto
  next
    case (Cons body rest)
    let ?lid = "lease_id (Suc (fq_counter q))"
    let ?q = "q\<lparr>fq_counter := Suc (fq_counter q), fq_pending := rest, fq_leased := fq_leased q @ [(?lid, body)]\<rparr>"
    obtain o' q2 where r: "fq_lease n ?q = (o', q2)" by force
    have new: "dict_set ?lid body (fq_leased q) = fq_leased q @ [(?lid, body)]"
      using fq_fresh [OF Suc.prems(1)] by (simp add: dict_set_def)
    have "fq_ok ?q" using Suc.prems(1) fq_fresh [OF Suc.prems(1)] unfolding fq_ok_def by (auto intro: le_SucI)
    from Suc.IH [OF this r] Suc.prems(2) Cons r new show ?thesis by (auto simp: Let_def)
  qed
qed simp

lemma popped:
  "distinct (map fst d) \<Longrightarrow>
   mset (map snd (filter (\<lambda>x. fst x \<in> insert i A) d)) =
   mset (case map_of d i of None \<Rightarrow> [] | Some b \<Rightarrow> [b]) + mset (map snd (filter (\<lambda>x. fst x \<in> A) (filter (\<lambda>x. fst x \<noteq> i) d)))"
proof (induction d)
  case (Cons x d)
  show ?case
  proof (cases "fst x = i")
    case True
    with Cons.prems have i: "i \<notin> fst ` set d" by auto
    then have "filter (\<lambda>x. fst x \<in> insert i A) d = filter (\<lambda>x. fst x \<in> A) (filter (\<lambda>x. fst x \<noteq> i) d)"
      unfolding filter_filter by (intro filter_cong) (auto simp: image_iff)
    with True show ?thesis by (simp del: mset_map mset_filter)
  next
    case False
    with Cons show ?thesis by (simp del: mset_map mset_filter)
  qed
qed simp

definition popped_queue :: "pystr \<Rightarrow> fake_queue \<Rightarrow> fake_queue" where
  "popped_queue lid q = q\<lparr>fq_leased := filter (\<lambda>x. fst x \<noteq> lid) (fq_leased q)\<rparr>"

lemma fq_ok_simps [simp]:
  "fq_ok (q\<lparr>fq_acked := a\<rparr>) = fq_ok q" "fq_ok (q\<lparr>fq_pending := p\<rparr>) = fq_ok q"
  "fq_ok q \<Longrightarrow> fq_ok (popped_queue lid q)"
  by (auto simp: fq_ok_def popped_queue_def distinct_map_filter)

lemma popped_queue_simps [simp]:
  "fq_pending (popped_queue i q) = fq_pending q" "fq_acked (popped_queue i q) = fq_acked q"
  "fq_leased (popped_queue i q) = filter (\<lambda>x. fst x \<noteq> i) (fq_leased q)"
  by (simp_all add: popped_queue_def)

lemma fq_ack_Cons:
  "fq_ack (lid # ls) q = fq_ack ls ((popped_queue lid q)\<lparr>fq_acked := fq_acked q @
     (case map_of (fq_leased q) lid of None \<Rightarrow> [] | Some b \<Rightarrow> [b])\<rparr>)"
  by (simp add: pop_def popped_queue_def split: option.split)

lemma fq_nack_Cons:
  "fq_nack (lid # ls) q = fq_nack ls ((popped_queue lid q)\<lparr>fq_pending := fq_pending q @
     (case map_of (fq_leased q) lid of None \<Rightarrow> [] | Some b \<Rightarrow> [b])\<rparr>)"
  by (simp add: pop_def popped_queue_def split: option.split)

lemma filter_out_Cons:
  "filter (\<lambda>x. fst x \<notin> set ls) (filter (\<lambda>x. fst x \<noteq> i) d) = filter (\<lambda>x. fst x \<notin> set (i # ls)) d"
  unfolding filter_filter by (rule filter_cong) auto

lemma fq_ack_law:
  "fq_ok q \<Longrightarrow> fq_ok (fq_ack ls q) \<and> fq_pending (fq_ack ls q) = fq_pending q \<and>
   fq_leased (fq_ack ls q) = filter (\<lambda>x. fst x \<notin> set ls) (fq_leased q) \<and>
   mset (fq_acked (fq_ack ls q)) = mset (fq_acked q) + mset (map snd (filter (\<lambda>x. fst x \<in> set ls) (fq_leased q)))"
proof (induction ls arbitrary: q)
  case (Cons i ls)
  let ?b = "case map_of (fq_leased q) i of None \<Rightarrow> [] | Some b \<Rightarrow> [b]"
  let ?q = "(popped_queue i q)\<lparr>fq_acked := fq_acked q @ ?b\<rparr>"
  have ok: "fq_ok ?q" and d: "distinct (map fst (fq_leased q))" using Cons.prems by (simp_all add: fq_ok_def [of q])
  show ?case using Cons.IH [OF ok] popped [OF d, of i "set ls"]
    unfolding fq_ack_Cons by (simp add: filter_out_Cons del: mset_map mset_filter filter_filter fq_ack.simps)
qed simp

lemma fq_nack_law:
  "fq_ok q \<Longrightarrow> fq_ok (fq_nack ls q) \<and> fq_acked (fq_nack ls q) = fq_acked q \<and>
   fq_leased (fq_nack ls q) = filter (\<lambda>x. fst x \<notin> set ls) (fq_leased q) \<and>
   mset (fq_pending (fq_nack ls q)) = mset (fq_pending q) + mset (map snd (filter (\<lambda>x. fst x \<in> set ls) (fq_leased q)))"
proof (induction ls arbitrary: q)
  case (Cons i ls)
  let ?b = "case map_of (fq_leased q) i of None \<Rightarrow> [] | Some b \<Rightarrow> [b]"
  let ?q = "(popped_queue i q)\<lparr>fq_pending := fq_pending q @ ?b\<rparr>"
  have ok: "fq_ok ?q" and d: "distinct (map fst (fq_leased q))" using Cons.prems by (simp_all add: fq_ok_def [of q])
  show ?case using Cons.IH [OF ok] popped [OF d, of i "set ls"]
    unfolding fq_nack_Cons by (simp add: filter_out_Cons del: mset_map mset_filter filter_filter fq_nack.simps)
qed simp

interpretation fq: pull_queue fq_lease fq_ack fq_nack fq_pending fq_leased fq_acked fq_ok
proof
  show "distinct (map fst (fq_leased q))" if "fq_ok q" for q using that by (simp add: fq_ok_def)
qed (fact fq_lease_law fq_ack_law fq_nack_law)+

lemma fq_init_ok: "fq_ok (fq_init ms)"
  by (simp add: fq_ok_def fq_init_def)

lemma fq_add_ok: "fq_ok q \<Longrightarrow> fq_ok (fq_add b q)"
  by (simp add: fq_ok_def fq_add_def)

end
