(* ===== verification/Vault_Db.thy ===== *)
theory Vault_Db
  imports Store
begin

text \<open>
  The tables of \<open>vault.db\<close> (\<open>db/migrations/vault\<close>) with the columns the program reads or writes,
  their inserts with the conditions of the schema, and the invariant of the message tables.
  The columns \<open>window_eligible\<close> (0 or 1) are booleans.
\<close>

datatype direction = In | Out
datatype precision = P_ms | P_s | P_min | P_day
datatype origin = cloud_api | business_app_echo | history_sync | manual_export
datatype visibility = ALLOW_MCP | LOCAL_ONLY
datatype circuit = CLOSED | OPEN

record account =
  acc_id :: pystr
  acc_phone_number_id :: pystr

record contact =
  cnt_id :: pystr
  cnt_wa_id :: "pystr option"
  cnt_display_name :: "pystr option"
  cnt_push_name :: "pystr option"

record conversation =
  cnv_id :: pystr
  cnv_account_id :: pystr
  cnv_type :: string
  cnv_wa_chat_id :: "pystr option"
  cnv_subject :: "pystr option"
  cnv_last_message_ms :: "int option"
  cnv_mcp_visibility :: visibility

record message =
  msg_id :: pystr
  msg_account_id :: pystr
  msg_conversation_id :: pystr
  msg_sender_contact_id :: "pystr option"
  msg_direction :: direction
  msg_ts_lower_ms :: int
  msg_ts_upper_ms_exclusive :: int
  msg_ts_precision :: precision
  msg_type :: pystr
  msg_text_original :: "pystr option"
  msg_reply_to_wamid :: "pystr option"
  msg_origin :: origin
  msg_window_eligible :: bool
  msg_wamid :: "pystr option"
  msg_import_fingerprint :: "pystr option"
  msg_delivery_rank :: nat

record status_row =
  ste_id :: pystr
  ste_wamid :: pystr
  ste_status :: pystr
  ste_provider_ts_ms :: int
  ste_recipient_id :: "pystr option"

record event_row =
  evt_id :: pystr
  evt_provider :: string
  evt_external_event_id :: "pystr option"
  evt_semantic_event_key :: pystr
  evt_family :: string
  evt_provider_ts_ms :: "int option"
  evt_received_at_ms :: int
  evt_raw_payload_sha256 :: pystr
  evt_raw_payload :: bytes

record dlq_row =
  dlq_id :: pystr
  dlq_event_id_hash :: "pystr option"
  dlq_envelope :: bytes
  dlq_failure_class :: string
  dlq_failure_code :: string
  dlq_pipeline_stage :: string
  dlq_recipient_key_id :: "nat option"
  dlq_crypto_version :: "nat option"
  dlq_envelope_version :: "nat option"
  dlq_ciphertext_sha256 :: "pystr option"
  dlq_sanitised_detail :: pystr
  dlq_first_seen_ms :: int

record ingest_state =
  ist_circuit_state :: circuit
  ist_tripped_at_ms :: "int option"
  ist_reason :: "pystr option"

record search_doc =
  sdc_rowid :: nat
  sdc_message_id :: pystr
  sdc_normaliser_version :: nat
  sdc_text_search :: pystr
  sdc_text_compact :: pystr

record batch =
  bat_id :: pystr
  bat_source_sha256 :: pystr
  bat_source_artifact_path :: "pystr option"
  bat_source_artifact_sha256 :: "pystr option"
  bat_declared_date_format :: string
  bat_declared_timezone :: pystr
  bat_self_participant_label :: pystr
  bat_message_count :: nat
  bat_system_event_count :: nat
  bat_undone_at_ms :: "int option"

record participant =
  imp_id :: pystr
  imp_batch_id :: pystr
  imp_raw_display_name :: pystr

record observation =
  obs_batch_id :: pystr
  obs_message_id :: pystr
  obs_participant_id :: "pystr option"
  obs_source_ordinal :: nat
  obs_start_offset :: "nat option"
  obs_end_offset :: "nat option"
  obs_source_fingerprint :: pystr

record source_row =
  src_id :: pystr
  src_conversation_id :: pystr
  src_source_kind :: string
  src_write_capable :: bool
  src_account_id :: "pystr option"
  src_import_batch_id :: "pystr option"

text \<open>An external-content FTS5 table is the list of its entries, keyed by \<open>rowid\<close>.\<close>

type_synonym fts = "(nat \<times> pystr) list"

record vault_db =
  accounts :: "account list"
  contacts :: "contact list"
  conversations :: "conversation list"
  messages :: "message list"
  message_status_events :: "status_row list"
  ingest_events :: "event_row list"
  ingest_dlq :: "dlq_row list"
  ingest_state :: ingest_state
  search_documents :: "search_doc list"
  fts_lexical :: fts
  fts_compact :: fts
  import_batches :: "batch list"
  import_participants :: "participant list"
  message_import_observations :: "observation list"
  conversation_sources :: "source_row list"

type_synonym vault = "vault_db conn"

definition empty_vault :: vault_db where
  "empty_vault =
     \<lparr>accounts = [], contacts = [], conversations = [], messages = [], message_status_events = [],
      ingest_events = [], ingest_dlq = [],
      ingest_state = \<lparr>ist_circuit_state = CLOSED, ist_tripped_at_ms = None, ist_reason = None\<rparr>,
      search_documents = [], fts_lexical = [], fts_compact = [], import_batches = [], import_participants = [],
      message_import_observations = [], conversation_sources = []\<rparr>"

section \<open>Inserts\<close>

definition ins_account :: "account \<Rightarrow> vault_db \<Rightarrow> exc + vault_db" where
  "ins_account r d =
     (case ins (\<lambda>_. True) (\<lambda>a b. acc_id a = acc_id b) r (accounts d) of
        Inl e \<Rightarrow> Inl e | Inr t \<Rightarrow> Inr (d\<lparr>accounts := t\<rparr>))"

definition ins_contact :: "contact \<Rightarrow> vault_db \<Rightarrow> exc + vault_db" where
  "ins_contact r d =
     (case ins (\<lambda>_. True) (\<lambda>a b. cnt_id a = cnt_id b) r (contacts d) of
        Inl e \<Rightarrow> Inl e | Inr t \<Rightarrow> Inr (d\<lparr>contacts := t\<rparr>))"

definition ins_conversation :: "conversation \<Rightarrow> vault_db \<Rightarrow> exc + vault_db" where
  "ins_conversation r d =
     (case ins (\<lambda>r. list_ex (\<lambda>a. acc_id a = cnv_account_id r) (accounts d) \<and> cnv_type r \<in> {''dm'', ''group''})
             (\<lambda>a b. cnv_id a = cnv_id b) r (conversations d) of
        Inl e \<Rightarrow> Inl e | Inr t \<Rightarrow> Inr (d\<lparr>conversations := t\<rparr>))"

definition message_ok :: "vault_db \<Rightarrow> message \<Rightarrow> bool" where
  "message_ok d r \<longleftrightarrow>
     list_ex (\<lambda>a. acc_id a = msg_account_id r) (accounts d) \<and>
     list_ex (\<lambda>a. cnv_id a = msg_conversation_id r) (conversations d) \<and>
     (case msg_sender_contact_id r of None \<Rightarrow> True | Some i \<Rightarrow> list_ex (\<lambda>a. cnt_id a = i) (contacts d)) \<and>
     msg_ts_lower_ms r < msg_ts_upper_ms_exclusive r \<and> msg_delivery_rank r \<le> 3"

definition message_clash :: "message \<Rightarrow> message \<Rightarrow> bool" where
  "message_clash a b \<longleftrightarrow> msg_id a = msg_id b \<or>
     (msg_account_id a = msg_account_id b \<and> same_key (msg_wamid a) (msg_wamid b)) \<or>
     same_key (msg_import_fingerprint a) (msg_import_fingerprint b)"

definition ins_message :: "message \<Rightarrow> vault_db \<Rightarrow> exc + vault_db" where
  "ins_message r d =
     (case ins (message_ok d) message_clash r (messages d) of
        Inl e \<Rightarrow> Inl e | Inr t \<Rightarrow> Inr (d\<lparr>messages := t\<rparr>))"

definition ins_status :: "status_row \<Rightarrow> vault_db \<Rightarrow> exc + vault_db" where
  "ins_status r d =
     (case ins (\<lambda>_. True) (\<lambda>a b. ste_id a = ste_id b) r (message_status_events d) of
        Inl e \<Rightarrow> Inl e | Inr t \<Rightarrow> Inr (d\<lparr>message_status_events := t\<rparr>))"

definition event_key :: "event_row \<Rightarrow> string \<times> pystr" where
  "event_key r = (evt_provider r, evt_semantic_event_key r)"

definition ins_event :: "event_row \<Rightarrow> vault_db \<Rightarrow> exc + vault_db" where
  "ins_event r d =
     (case ins (\<lambda>_. True) (\<lambda>a b. evt_id a = evt_id b \<or> event_key a = event_key b) r (ingest_events d) of
        Inl e \<Rightarrow> Inl e | Inr t \<Rightarrow> Inr (d\<lparr>ingest_events := t\<rparr>))"

definition ins_dlq :: "dlq_row \<Rightarrow> vault_db \<Rightarrow> exc + vault_db" where
  "ins_dlq r d =
     (case ins (\<lambda>_. True) (\<lambda>a b. dlq_id a = dlq_id b) r (ingest_dlq d) of
        Inl e \<Rightarrow> Inl e | Inr t \<Rightarrow> Inr (d\<lparr>ingest_dlq := t\<rparr>))"

definition ins_batch :: "batch \<Rightarrow> vault_db \<Rightarrow> exc + vault_db" where
  "ins_batch r d =
     (case ins (\<lambda>r. bat_declared_date_format r \<in> {''DMY'', ''MDY'', ''YMD''}) (\<lambda>a b. bat_id a = bat_id b) r (import_batches d) of
        Inl e \<Rightarrow> Inl e | Inr t \<Rightarrow> Inr (d\<lparr>import_batches := t\<rparr>))"

definition ins_participant :: "participant \<Rightarrow> vault_db \<Rightarrow> exc + vault_db" where
  "ins_participant r d =
     (case ins (\<lambda>r. list_ex (\<lambda>b. bat_id b = imp_batch_id r) (import_batches d)) (\<lambda>a b. imp_id a = imp_id b) r
             (import_participants d) of
        Inl e \<Rightarrow> Inl e | Inr t \<Rightarrow> Inr (d\<lparr>import_participants := t\<rparr>))"

definition observation_ok :: "vault_db \<Rightarrow> observation \<Rightarrow> bool" where
  "observation_ok d r \<longleftrightarrow>
     list_ex (\<lambda>b. bat_id b = obs_batch_id r) (import_batches d) \<and>
     list_ex (\<lambda>m. msg_id m = obs_message_id r) (messages d) \<and>
     (case obs_participant_id r of None \<Rightarrow> True | Some i \<Rightarrow> list_ex (\<lambda>p. imp_id p = i) (import_participants d))"

definition observation_clash :: "observation \<Rightarrow> observation \<Rightarrow> bool" where
  "observation_clash a b \<longleftrightarrow> obs_batch_id a = obs_batch_id b \<and>
     (obs_message_id a = obs_message_id b \<or> obs_source_ordinal a = obs_source_ordinal b)"

definition ins_observation :: "observation \<Rightarrow> vault_db \<Rightarrow> exc + vault_db" where
  "ins_observation r d =
     (case ins (observation_ok d) observation_clash r (message_import_observations d) of
        Inl e \<Rightarrow> Inl e | Inr t \<Rightarrow> Inr (d\<lparr>message_import_observations := t\<rparr>))"

definition ins_source :: "source_row \<Rightarrow> vault_db \<Rightarrow> exc + vault_db" where
  "ins_source r d =
     (case ins (\<lambda>r. list_ex (\<lambda>v. cnv_id v = src_conversation_id r) (conversations d) \<and>
               (case src_account_id r of None \<Rightarrow> True | Some i \<Rightarrow> list_ex (\<lambda>a. acc_id a = i) (accounts d)))
             (\<lambda>a b. src_id a = src_id b) r (conversation_sources d) of
        Inl e \<Rightarrow> Inl e | Inr t \<Rightarrow> Inr (d\<lparr>conversation_sources := t\<rparr>))"

lemma ins_import_Inr:
  "ins_batch rb d = Inr d' \<Longrightarrow> d' = d\<lparr>import_batches := import_batches d @ [rb]\<rparr> \<and> bat_id rb \<notin> bat_id ` set (import_batches d)"
  "ins_participant rp d = Inr d' \<Longrightarrow> d' = d\<lparr>import_participants := import_participants d @ [rp]\<rparr>"
  "ins_observation ro d = Inr d' \<Longrightarrow>
     d' = d\<lparr>message_import_observations := message_import_observations d @ [ro]\<rparr> \<and> observation_ok d ro"
  "ins_source rs d = Inr d' \<Longrightarrow> d' = d\<lparr>conversation_sources := conversation_sources d @ [rs]\<rparr>"
  by (auto simp: ins_batch_def ins_participant_def ins_observation_def ins_source_def ins_Inr split: sum.splits)

lemma ins_vault_Inr:
  "ins_account ra d = Inr d' \<Longrightarrow> d' = d\<lparr>accounts := accounts d @ [ra]\<rparr>"
  "ins_contact rc d = Inr d' \<Longrightarrow> d' = d\<lparr>contacts := contacts d @ [rc]\<rparr>"
  "ins_conversation rv d = Inr d' \<Longrightarrow> d' = d\<lparr>conversations := conversations d @ [rv]\<rparr>"
  "ins_message rm d = Inr d' \<Longrightarrow> d' = d\<lparr>messages := messages d @ [rm]\<rparr> \<and> message_ok d rm \<and>
     (\<forall>x\<in>set (messages d). \<not> message_clash rm x)"
  "ins_status rs d = Inr d' \<Longrightarrow> d' = d\<lparr>message_status_events := message_status_events d @ [rs]\<rparr>"
  "ins_event re d = Inr d' \<Longrightarrow> d' = d\<lparr>ingest_events := ingest_events d @ [re]\<rparr> \<and>
     event_key re \<notin> event_key ` set (ingest_events d)"
  "ins_dlq rd d = Inr d' \<Longrightarrow> d' = d\<lparr>ingest_dlq := ingest_dlq d @ [rd]\<rparr>"
  by (auto simp: ins_account_def ins_contact_def ins_conversation_def ins_message_def ins_status_def ins_event_def
      ins_dlq_def ins_Inr split: sum.splits)

section \<open>The dedupe ledger as a gate\<close>

definition ledger :: "vault_db \<Rightarrow> (string \<times> pystr) list" where
  "ledger d = map event_key (ingest_events d)"

definition with_key :: "event_row \<Rightarrow> string \<times> pystr \<Rightarrow> event_row" where
  "with_key r k = r\<lparr>evt_provider := fst k, evt_semantic_event_key := snd k\<rparr>"

interpretation ledger_gate: gate ledger "\<lambda>k. ins_event (with_key r k)" for r
  by unfold_locales (auto simp: ledger_def event_key_def with_key_def dest!: ins_vault_Inr(6))

section \<open>Well-formed vaults\<close>

definition vault_inv :: "vault_db \<Rightarrow> bool" where
  "vault_inv d \<longleftrightarrow>
     distinct (map msg_id (messages d)) \<and> list_all (message_ok d) (messages d) \<and> distinct (ledger d)"

lemma vault_inv_empty: "vault_inv empty_vault"
  by (simp add: vault_inv_def empty_vault_def ledger_def)

lemma message_ok_mono:
  "message_ok d r \<Longrightarrow> set (accounts d) \<subseteq> set (accounts d') \<Longrightarrow> set (contacts d) \<subseteq> set (contacts d') \<Longrightarrow>
   set (conversations d) \<subseteq> set (conversations d') \<Longrightarrow> message_ok d' r"
  by (auto simp: message_ok_def list_ex_iff split: option.splits)

lemma vault_inv_grow:
  assumes "vault_inv d" "messages d' = messages d" "ingest_events d' = ingest_events d"
    "set (accounts d) \<subseteq> set (accounts d')" "set (contacts d) \<subseteq> set (contacts d')"
    "set (conversations d) \<subseteq> set (conversations d')"
  shows "vault_inv d'"
  using assms message_ok_mono [of d _ d'] by (auto simp: vault_inv_def ledger_def list_all_iff)

lemma ins_message_inv:
  assumes "vault_inv d" "ins_message r d = Inr d'" shows "vault_inv d'"
proof -
  from ins_vault_Inr(4) [OF assms(2)] have d': "d' = d\<lparr>messages := messages d @ [r]\<rparr>" and ok: "message_ok d r"
    and n: "\<forall>x\<in>set (messages d). \<not> message_clash r x" by auto
  have "message_ok d' = message_ok d" by (simp add: d' message_ok_def fun_eq_iff split: option.split)
  with assms(1) ok n show ?thesis by (auto simp: vault_inv_def d' ledger_def message_clash_def image_iff)
qed

lemma ins_event_inv:
  assumes "vault_inv d" "ins_event r d = Inr d'" shows "vault_inv d'"
proof -
  from ins_vault_Inr(6) [OF assms(2)] have d': "d' = d\<lparr>ingest_events := ingest_events d @ [r]\<rparr>"
    and n: "event_key r \<notin> event_key ` set (ingest_events d)" by auto
  have "message_ok d' = message_ok d" by (simp add: d' message_ok_def fun_eq_iff split: option.split)
  with assms(1) n show ?thesis by (auto simp: vault_inv_def d' ledger_def)
qed

end
