(* ===== verification/Json.thy ===== *)
theory Json
  imports Canonical "HOL-Library.List_Lexorder"
begin

text \<open>
  JSON values and \<open>json.dumps(x, sort_keys=True, ensure_ascii=False)\<close>, with the separators as an
  argument: the compact form is what the audit log hashes, the default form is what the ingest
  pipeline stores and hashes. Numbers are integers (the program's own
  payloads carry no others). Keys are sorted by code points, Python's order on strings. Parsing is not modelled: the programs receive parsed values.
\<close>

datatype json =
    JNull
  | JBool bool
  | JInt int
  | JStr pystr
  | JArr "json list"
  | JObj "(pystr \<times> json) list"

text \<open>\<open>d.get(k)\<close> on a dictionary; \<open>None\<close> when absent. The code calls it on dictionaries only.\<close>

definition jget :: "pystr \<Rightarrow> (pystr \<times> json) list \<Rightarrow> json option" where
  "jget k kvs = map_of kvs k"

text \<open>Python's truth value.\<close>

fun jtrue :: "json \<Rightarrow> bool" where
  "jtrue JNull = False"
| "jtrue (JBool b) = b"
| "jtrue (JInt i) = (i \<noteq> 0)"
| "jtrue (JStr s) = (s \<noteq> [])"
| "jtrue (JArr l) = (l \<noteq> [])"
| "jtrue (JObj l) = (l \<noteq> [])"

definition hex4 :: "nat \<Rightarrow> pystr" where
  "hex4 n = map (\<lambda>d. if d < 10 then 48 + d else 87 + d) [n div 4096 mod 16, n div 256 mod 16, n div 16 mod 16, n mod 16]"

definition escape_char :: "nat \<Rightarrow> pystr" where
  "escape_char c =
     (if c = 34 then [92, 34] else if c = 92 then [92, 92] else if c = 10 then [92, 110]
      else if c = 13 then [92, 114] else if c = 9 then [92, 116] else if c = 12 then [92, 102]
      else if c = 8 then [92, 98] else if c < 32 then [92, 117] @ hex4 c else [c])"

definition dump_str :: "pystr \<Rightarrow> pystr" where
  "dump_str s = [34] @ concat (map escape_char s) @ [34]"

text \<open>The same with \<open>ensure_ascii=True\<close>: characters outside ASCII become one or two \<open>\\uXXXX\<close>.\<close>

definition escape_ascii :: "nat \<Rightarrow> pystr" where
  "escape_ascii c =
     (if c < 128 then escape_char c
      else if c < 65536 then [92, 117] @ hex4 c
      else [92, 117] @ hex4 (55296 + (c - 65536) div 1024) @ [92, 117] @ hex4 (56320 + (c - 65536) mod 1024))"

definition dump_ascii :: "pystr option \<Rightarrow> pystr" where
  "dump_ascii v = (case v of None \<Rightarrow> lit ''null'' | Some s \<Rightarrow> [34] @ concat (map escape_ascii s) @ [34])"

primrec join :: "pystr \<Rightarrow> pystr list \<Rightarrow> pystr" where
  "join sep [] = []"
| "join sep (x # xs) = x @ concat (map (\<lambda>y. sep @ y) xs)"

function dumps :: "pystr \<Rightarrow> pystr \<Rightarrow> json \<Rightarrow> pystr" where
  "dumps isep ksep JNull = lit ''null''"
| "dumps isep ksep (JBool b) = (if b then lit ''true'' else lit ''false'')"
| "dumps isep ksep (JInt i) = int_dec i"
| "dumps isep ksep (JStr s) = dump_str s"
| "dumps isep ksep (JArr l) = [91] @ join isep (map (dumps isep ksep) l) @ [93]"
| "dumps isep ksep (JObj kvs) =
     [123] @ join isep (map (\<lambda>kv. dump_str (fst kv) @ ksep @ dumps isep ksep (snd kv)) (sort_key fst kvs)) @ [125]"
  by pat_completeness auto

lemma json_member_size: "kv \<in> set kvs \<Longrightarrow> size (snd kv) < Suc (size_list (size_prod (\<lambda>_. 0) size) kvs)"
  by (induction kvs) auto

lemma json_item_size: "x \<in> set l \<Longrightarrow> size x < Suc (size_list size l)"
  by (induction l) auto

termination dumps
  by (relation "measure (\<lambda>(_, _, j). size j)") (auto simp: json_item_size json_member_size)

definition compact :: "json \<Rightarrow> pystr" where
  "compact = dumps [44] [58]"

definition spaced :: "json \<Rightarrow> pystr" where
  "spaced = dumps [44, 32] [58, 32]"

text \<open>The order of the members of an object does not show in its canonical text.\<close>

lemma dumps_order:
  assumes "distinct (map fst kvs)" and d: "distinct (map fst kvs')" and s: "set kvs = set kvs'"
  shows "dumps a b (JObj kvs) = dumps a b (JObj kvs')"
proof -
  have "sort_key fst kvs = sort_key fst kvs'"
  proof (rule map_sorted_distinct_set_unique [where f = fst])
    show "inj_on fst (set (sort_key fst kvs) \<union> set (sort_key fst kvs'))"
      using assms(1) s by (simp add: distinct_map)
    show "distinct (map fst (sort_key fst kvs))" "distinct (map fst (sort_key fst kvs'))"
      using assms(1) d by (simp_all add: distinct_map)
  qed (simp_all add: s)
  then show ?thesis by simp
qed

end
