(* ===== verification/Sealing.thy ===== *)
theory Sealing
  imports Devices Json
begin

text \<open>
  The three sealed envelopes: the edge relay's (\<open>crypto/sealed.py\<close>), the blobs at rest
  (\<open>crypto/atrest.py\<close>) and the device seal (\<open>crypto/device_seal.py\<close>, with \<open>relay.sealed_draft_detail\<close>).
  The record \<open>sealing\<close> holds the primitives of the package \<open>cryptography\<close>; an exchange is \<open>None\<close> when
  the package raises \<open>ValueError\<close>, a decryption is \<open>None\<close> when the tag does not verify. Ephemeral keys
  and nonces are arguments.
\<close>

record sealing =
  x_pub :: "bytes \<Rightarrow> bytes"
  x_exchange :: "bytes \<Rightarrow> bytes \<Rightarrow> bytes option"
  p_pub :: "bytes \<Rightarrow> bytes"
  p_exchange :: "bytes \<Rightarrow> bytes \<Rightarrow> bytes option"
  hkdf :: "bytes \<Rightarrow> bytes \<Rightarrow> bytes"
  gcm_encrypt :: "bytes \<Rightarrow> bytes \<Rightarrow> bytes \<Rightarrow> bytes \<Rightarrow> bytes"
  gcm_decrypt :: "bytes \<Rightarrow> bytes \<Rightarrow> bytes \<Rightarrow> bytes \<Rightarrow> bytes option"

text \<open>The documented behaviour the round trips rest on.\<close>

definition gcm_opens :: "sealing \<Rightarrow> bool" where
  "gcm_opens S \<longleftrightarrow> (\<forall>k n pt aad. gcm_decrypt S k n (gcm_encrypt S k n pt aad) aad = Some pt)"

definition x_agrees :: "sealing \<Rightarrow> bool" where
  "x_agrees S \<longleftrightarrow> (\<forall>a b. x_exchange S a (x_pub S b) = x_exchange S b (x_pub S a)) \<and> (\<forall>a. length (x_pub S a) = 32)"

definition p_agrees :: "sealing \<Rightarrow> bool" where
  "p_agrees S \<longleftrightarrow> (\<forall>a b. p_exchange S a (p_pub S b) = p_exchange S b (p_pub S a)) \<and> (\<forall>a. length (p_pub S a) = 65)"

text \<open>\<open>struct.pack(">I", n)\<close> and \<open>bytes([n])\<close>.\<close>

definition pack_I :: "nat \<Rightarrow> exc + bytes" where
  "pack_I n = (if n < 2 ^ 32 then Inr (be_bytes 4 n) else Inl StructError)"

definition one_byte :: "nat \<Rightarrow> exc + byte" where
  "one_byte n = (if n < 256 then Inr (of_nat n) else Inl ValueError)"

section \<open>The edge seal\<close>

definition WVE1 :: bytes where "WVE1 = ascii ''WVE1''"
definition EDGE_INFO :: bytes where "EDGE_INFO = ascii ''WHATSVAULT-EDGE-SEAL-V1''"
definition HDR_LEN :: nat where "HDR_LEN = 43"
definition EPH_END :: nat where "EPH_END = HDR_LEN + 32"
definition NONCE_END :: nat where "NONCE_END = EPH_END + 12"
definition CTLEN_END :: nat where "CTLEN_END = NONCE_END + 4"

definition header_bytes :: "nat \<Rightarrow> nat \<Rightarrow> nat \<Rightarrow> nat \<Rightarrow> bytes \<Rightarrow> exc + bytes" where
  "header_bytes env_ver alg cver key_id event_id_hash =
     (if length event_id_hash \<noteq> 32 then Inl ValueError
      else (case (one_byte env_ver, one_byte alg, one_byte cver) of
          (Inr a, Inr b, Inr c) \<Rightarrow>
            (case pack_I key_id of Inl e \<Rightarrow> Inl e | Inr k \<Rightarrow> Inr (WVE1 @ [a, b, c] @ k @ event_id_hash))
        | _ \<Rightarrow> Inl ValueError))"

record seal_args =
  sa_key_id :: nat
  sa_event_id_hash :: bytes
  sa_crypto_version :: nat
  sa_algorithm_id :: nat
  sa_envelope_version :: nat

definition seal_edge :: "sealing \<Rightarrow> bytes \<Rightarrow> bytes \<Rightarrow> bytes \<Rightarrow> bytes \<Rightarrow> seal_args \<Rightarrow> exc + bytes" where
  "seal_edge S eph nonce recipient_pub pt a =
     (case x_exchange S eph recipient_pub of
        None \<Rightarrow> Inl ValueError
      | Some shared \<Rightarrow>
     (case header_bytes (sa_envelope_version a) (sa_algorithm_id a) (sa_crypto_version a) (sa_key_id a) (sa_event_id_hash a) of
        Inl e \<Rightarrow> Inl e
      | Inr aad \<Rightarrow>
          (let ct = gcm_encrypt S (hkdf S EDGE_INFO shared) nonce pt aad in
           case pack_I (length ct) of
             Inl e \<Rightarrow> Inl e | Inr l \<Rightarrow> Inr (aad @ x_pub S eph @ nonce @ l @ ct))))"

record edge_header =
  eh_envelope_version :: nat
  eh_algorithm_id :: nat
  eh_crypto_version :: nat
  eh_recipient_key_id :: nat
  eh_event_id_hash :: bytes
  eh_ciphertext_sha256 :: pystr

definition slice :: "nat \<Rightarrow> nat \<Rightarrow> bytes \<Rightarrow> bytes" where
  "slice i j b = take (j - i) (drop i b)"

definition edge_ct :: "bytes \<Rightarrow> bytes" where
  "edge_ct env = take (from_be (slice NONCE_END CTLEN_END env)) (drop CTLEN_END env)"

definition parse_header :: "crypto \<Rightarrow> bytes \<Rightarrow> exc + edge_header" where
  "parse_header C env =
     (if length env < CTLEN_END \<or> take 4 env \<noteq> WVE1 then Inl BadEnvelope
      else if length (edge_ct env) \<noteq> from_be (slice NONCE_END CTLEN_END env) then Inl BadEnvelope
      else Inr \<lparr>eh_envelope_version = unat (env ! 4), eh_algorithm_id = unat (env ! 5), eh_crypto_version = unat (env ! 6),
                eh_recipient_key_id = from_be (slice 7 11 env), eh_event_id_hash = slice 11 43 env,
                eh_ciphertext_sha256 = hex_of (sha256 C (edge_ct env))\<rparr>)"

definition open_edge :: "crypto \<Rightarrow> sealing \<Rightarrow> (nat \<Rightarrow> bytes option) \<Rightarrow> bytes \<Rightarrow> exc + (bytes \<times> edge_header)" where
  "open_edge C S key_lookup env =
     (case parse_header C env of
        Inl e \<Rightarrow> Inl e
      | Inr hdr \<Rightarrow>
     (case key_lookup (eh_recipient_key_id hdr) of
        None \<Rightarrow> Inl KeyUnavailable
      | Some priv \<Rightarrow>
     (case x_exchange S priv (slice HDR_LEN EPH_END env) of
        None \<Rightarrow> Inl ValueError
      | Some shared \<Rightarrow>
          (case gcm_decrypt S (hkdf S EDGE_INFO shared) (slice EPH_END NONCE_END env) (edge_ct env) (take HDR_LEN env) of
             None \<Rightarrow> Inl AeadAuthFailed | Some pt \<Rightarrow> Inr (pt, hdr)))))"

section \<open>Blobs at rest\<close>

definition WVA1 :: bytes where "WVA1 = ascii ''WVA1''"

definition seal_blob :: "sealing \<Rightarrow> bytes \<Rightarrow> bytes \<Rightarrow> bytes \<Rightarrow> int \<Rightarrow> bytes \<Rightarrow> exc + bytes" where
  "seal_blob S nonce key pt key_id aad =
     (case to_bytes_be 4 key_id of
        Inl e \<Rightarrow> Inl e
      | Inr k \<Rightarrow> (let header = WVA1 @ [1] @ k @ nonce in Inr (header @ gcm_encrypt S key nonce pt (header @ aad))))"

definition open_blob :: "sealing \<Rightarrow> bytes \<Rightarrow> bytes \<Rightarrow> bytes \<Rightarrow> exc + bytes" where
  "open_blob S key sealed aad =
     (if length sealed < 21 \<or> take 4 sealed \<noteq> WVA1 then Inl ValueError
      else if sealed ! 4 \<noteq> 1 then Inl ValueError
      else (case gcm_decrypt S key (slice 9 21 sealed) (drop 21 sealed) (take 21 sealed @ aad) of
          None \<Rightarrow> Inl InvalidTag | Some pt \<Rightarrow> Inr pt))"

section \<open>The device seal\<close>

definition WVD1 :: bytes where "WVD1 = ascii ''WVD1''"
definition DEVICE_INFO :: bytes where "DEVICE_INFO = ascii ''WHATSVAULT-DEVICE-SEAL-V1''"

definition seal_device :: "sealing \<Rightarrow> bytes \<Rightarrow> bytes \<Rightarrow> bytes \<Rightarrow> bytes \<Rightarrow> bytes \<Rightarrow> exc + bytes" where
  "seal_device S eph nonce agreement_pub pt aad =
     (case p_exchange S eph agreement_pub of
        None \<Rightarrow> Inl ValueError
      | Some shared \<Rightarrow>
          (let ct = gcm_encrypt S (hkdf S DEVICE_INFO shared) nonce pt aad in
           case pack_I (length ct) of Inl e \<Rightarrow> Inl e | Inr l \<Rightarrow> Inr (WVD1 @ p_pub S eph @ nonce @ l @ ct)))"

definition open_device :: "sealing \<Rightarrow> bytes \<Rightarrow> bytes \<Rightarrow> bytes \<Rightarrow> exc + bytes" where
  "open_device S agreement_priv env aad =
     (if take 4 env \<noteq> WVD1 then Inl DeviceSealError
      else if length (slice 81 85 env) \<noteq> 4 then Inl StructError
      else (case p_exchange S agreement_priv (slice 4 69 env) of
          None \<Rightarrow> Inl ValueError
        | Some shared \<Rightarrow>
            (case gcm_decrypt S (hkdf S DEVICE_INFO shared) (slice 69 81 env)
                    (take (from_be (slice 81 85 env)) (drop 85 env)) aad of
               None \<Rightarrow> Inl DeviceSealError | Some pt \<Rightarrow> Inr pt)))"

section \<open>Round trips\<close>

lemma magic_length [simp]: "length WVE1 = 4" "length WVA1 = 4" "length WVD1 = 4"
  by (simp_all add: WVE1_def WVA1_def WVD1_def ascii_def)

lemma slice_skip: "length a = i \<Longrightarrow> j = i + length b \<Longrightarrow> slice i j (a @ b @ c) = b"
  by (simp add: slice_def)

lemma one_byte_unat: "one_byte n = Inr b \<Longrightarrow> unat b = n"
  by (auto simp: one_byte_def unat_of_nat split: if_splits)

lemma header_bytes_Inr:
  assumes "header_bytes v a c k h = Inr aad"
  obtains x y z where "aad = WVE1 @ [x, y, z] @ be_bytes 4 k @ h" "unat x = v" "unat y = a" "unat z = c"
    "length h = 32" "k < 2 ^ 32"
  using assms by (auto simp: header_bytes_def pack_I_def one_byte_unat split: if_splits sum.splits)

lemma open_seal_edge:
  assumes ok: "gcm_opens S" "x_agrees S" and n: "length nonce = 12"
    and s: "seal_edge S eph nonce (x_pub S priv) pt a = Inr env" and l: "key_lookup (sa_key_id a) = Some priv"
  shows "\<exists>hdr. open_edge C S key_lookup env = Inr (pt, hdr) \<and> eh_recipient_key_id hdr = sa_key_id a \<and>
    eh_event_id_hash hdr = sa_event_id_hash a \<and> eh_envelope_version hdr = sa_envelope_version a \<and>
    eh_algorithm_id hdr = sa_algorithm_id a \<and> eh_crypto_version hdr = sa_crypto_version a"
proof -
  from s obtain shared aad where sh: "x_exchange S eph (x_pub S priv) = Some shared"
    and h: "header_bytes (sa_envelope_version a) (sa_algorithm_id a) (sa_crypto_version a) (sa_key_id a) (sa_event_id_hash a) = Inr aad"
    by (auto simp: seal_edge_def split: option.splits sum.splits)
  define ct where "ct = gcm_encrypt S (hkdf S EDGE_INFO shared) nonce pt aad"
  from s sh h have len: "length ct < 2 ^ 32" and env: "env = aad @ x_pub S eph @ nonce @ be_bytes 4 (length ct) @ ct"
    by (auto simp: seal_edge_def Let_def pack_I_def ct_def split: sum.splits if_splits)
  from h obtain x y z where aad: "aad = WVE1 @ [x, y, z] @ be_bytes 4 (sa_key_id a) @ sa_event_id_hash a"
    and v: "unat x = sa_envelope_version a" "unat y = sa_algorithm_id a" "unat z = sa_crypto_version a"
    "length (sa_event_id_hash a) = 32" "sa_key_id a < 2 ^ 32"
    by (rule header_bytes_Inr)
  have al: "length aad = 43" using v(4) by (simp add: aad)
  have xl: "length (x_pub S eph) = 32" using ok(2) by (simp add: x_agrees_def)
  have s1: "slice HDR_LEN EPH_END env = x_pub S eph"
    using slice_skip [of aad HDR_LEN EPH_END "x_pub S eph"] al xl by (simp add: env HDR_LEN_def EPH_END_def)
  have s2: "slice EPH_END NONCE_END env = nonce"
    using slice_skip [of "aad @ x_pub S eph" EPH_END NONCE_END nonce] al xl n
    by (simp add: env HDR_LEN_def EPH_END_def NONCE_END_def)
  have s3: "slice NONCE_END CTLEN_END env = be_bytes 4 (length ct)"
    using slice_skip [of "aad @ x_pub S eph @ nonce" NONCE_END CTLEN_END "be_bytes 4 (length ct)"] al xl n
    by (simp add: env HDR_LEN_def EPH_END_def NONCE_END_def CTLEN_END_def)
  have d: "drop CTLEN_END env = ct"
    using al xl n by (simp add: env HDR_LEN_def EPH_END_def NONCE_END_def CTLEN_END_def)
  have fb: "from_be (be_bytes 4 (length ct)) = length ct" "from_be (be_bytes 4 (sa_key_id a)) = sa_key_id a"
    using len v(5) by (simp_all add: from_be_be_bytes)
  have ec: "edge_ct env = ct" by (simp add: edge_ct_def s3 d fb)
  have t: "take HDR_LEN env = aad" using al by (simp add: env HDR_LEN_def)
  have le: "\<not> length env < CTLEN_END" using al xl n
    by (simp add: env HDR_LEN_def EPH_END_def NONCE_END_def CTLEN_END_def)
  have m: "take 4 env = WVE1" "env ! 4 = x" "env ! 5 = y" "env ! 6 = z" "slice 7 11 env = be_bytes 4 (sa_key_id a)"
    "slice 11 43 env = sa_event_id_hash a"
    using v(4) by (simp_all add: env aad nth_append slice_def)
  have "x_exchange S priv (x_pub S eph) = Some shared" using sh ok(2) by (simp add: x_agrees_def)
  moreover have "gcm_decrypt S (hkdf S EDGE_INFO shared) nonce ct aad = Some pt" using ok(1) by (simp add: gcm_opens_def ct_def)
  ultimately show ?thesis
    by (simp add: open_edge_def parse_header_def le m s3 ec fb l s1 s2 t v)
qed

lemma open_seal_blob:
  assumes "gcm_opens S" "length nonce = 12" "seal_blob S nonce key pt key_id aad = Inr env"
  shows "open_blob S key env aad = Inr pt"
proof -
  from assms(3) obtain k where k: "length k = 4"
    "env = (WVA1 @ [1] @ k @ nonce) @ gcm_encrypt S key nonce pt ((WVA1 @ [1] @ k @ nonce) @ aad)"
    by (auto simp: seal_blob_def to_bytes_be_def Let_def split: if_splits)
  have "slice 9 21 env = nonce" "drop 21 env = gcm_encrypt S key nonce pt ((WVA1 @ [1] @ k @ nonce) @ aad)"
    "take 21 env = WVA1 @ [1] @ k @ nonce" "take 4 env = WVA1" "env ! 4 = 1" "\<not> length env < 21"
    using k(1) assms(2) by (simp_all add: k(2) slice_def nth_append)
  then show ?thesis using assms(1) by (simp add: open_blob_def gcm_opens_def)
qed

lemma open_seal_device:
  assumes "gcm_opens S" "p_agrees S" "length nonce = 12" "seal_device S eph nonce (p_pub S priv) pt aad = Inr env"
  shows "open_device S priv env aad = Inr pt"
proof -
  from assms(4) obtain shared where sh: "p_exchange S eph (p_pub S priv) = Some shared"
    by (auto simp: seal_device_def split: option.splits)
  define ct where "ct = gcm_encrypt S (hkdf S DEVICE_INFO shared) nonce pt aad"
  from assms(4) sh have len: "length ct < 2 ^ 32" and env: "env = WVD1 @ p_pub S eph @ nonce @ be_bytes 4 (length ct) @ ct"
    by (auto simp: seal_device_def Let_def pack_I_def ct_def split: sum.splits if_splits)
  have pl: "length (p_pub S eph) = 65" using assms(2) by (simp add: p_agrees_def)
  have "slice 4 69 env = p_pub S eph" "slice 69 81 env = nonce" "slice 81 85 env = be_bytes 4 (length ct)"
    "drop 85 env = ct" "take 4 env = WVD1"
    using pl assms(3) by (simp_all add: env slice_def)
  moreover have "from_be (be_bytes 4 (length ct)) = length ct" using len by (simp add: from_be_be_bytes)
  moreover have "p_exchange S priv (p_pub S eph) = Some shared" using sh assms(2) by (simp add: p_agrees_def)
  ultimately show ?thesis using assms(1) by (simp add: open_device_def gcm_opens_def ct_def)
qed

section \<open>The draft shown on the phone\<close>

text \<open>The JSON text of the draft's id, recipient, body and nonce, in this order, ASCII only.\<close>

definition draft_detail :: "pystr \<Rightarrow> pystr option \<Rightarrow> pystr option \<Rightarrow> pystr option \<Rightarrow> pystr" where
  "draft_detail draft_id recipient body nonce =
     [123] @ join [44, 32]
       (map (\<lambda>(k, v). dump_ascii (Some k) @ [58, 32] @ dump_ascii v)
         [(lit ''draft_id'', Some draft_id), (lit ''recipient_wa_id'', recipient), (lit ''body'', body), (lit ''nonce'', nonce)]) @ [125]"

definition sealed_draft_detail ::
  "sealing \<Rightarrow> bytes \<Rightarrow> bytes \<Rightarrow> control_db \<Rightarrow> pystr \<Rightarrow> pystr \<Rightarrow> exc + bytes" where
  "sealed_draft_detail S eph nonce d draft_id device_id =
     (case active_agreement_key d device_id of
        None \<Rightarrow> Inl (RelayRejected ''device_has_no_active_agreement_key'')
      | Some pub \<Rightarrow>
     (case List.find (\<lambda>r. drf_id r = draft_id) (drafts d) of
        None \<Rightarrow> Inl (RelayRejected ''unknown_draft'')
      | Some dr \<Rightarrow>
     (case (case drf_body_bytes dr of None \<Rightarrow> Inr None
            | Some b \<Rightarrow> (case utf8_decode b of None \<Rightarrow> Inl UnicodeDecodeError | Some t \<Rightarrow> Inr (Some t))) of
        Inl e \<Rightarrow> Inl e
      | Inr body \<Rightarrow>
     (case utf8 (draft_detail draft_id (drf_recipient_wa_id dr) body (map_option hex_of (drf_nonce dr))) of
        Inl e \<Rightarrow> Inl e
      | Inr detail \<Rightarrow>
     (case utf8 draft_id of
        Inl e \<Rightarrow> Inl e
      | Inr aad \<Rightarrow> seal_device S eph nonce pub detail aad)))))"

text \<open>What the phone opens is the detail of the draft it asked for, bound to the draft's id.\<close>

lemma detail_opens:
  assumes "gcm_opens S" "p_agrees S" "length nonce = 12" "active_agreement_key d dev = Some (p_pub S priv)"
    "sealed_draft_detail S eph nonce d i dev = Inr env"
  shows "\<exists>dr body aad detail. List.find (\<lambda>r. drf_id r = i) (drafts d) = Some dr \<and> utf8 i = Inr aad \<and>
    body = (case drf_body_bytes dr of None \<Rightarrow> None | Some b \<Rightarrow> utf8_decode b) \<and>
    utf8 (draft_detail i (drf_recipient_wa_id dr) body (map_option hex_of (drf_nonce dr))) = Inr detail \<and>
    open_device S priv env aad = Inr detail"
  using assms open_seal_device [OF assms(1-3)]
  by (auto simp: sealed_draft_detail_def split: option.splits sum.splits)

text \<open>A revoked device gets nothing.\<close>

lemma detail_refused:
  "sealed_draft_detail S eph nonce (set_revoked dev d) i dev = Inl (RelayRejected ''device_has_no_active_agreement_key'')"
  by (simp add: sealed_draft_detail_def active_agreement_key_def revoked_has_no_key)

end
