(* ===== verification/Dlq.thy ===== *)
theory Dlq
  imports Vault_Db Sealing Windows
begin

text \<open>
  The dead-letter queue, the circuit breaker (\<open>ingest/dlq.py\<close>), the retirement gate of recipient
  keys (\<open>keys.py\<close>) and the retention monitor (\<open>ingest/retention.py\<close>).
\<close>

definition DETAIL_CAP :: nat where "DETAIL_CAP = 200"

text \<open>The error is a decrypt error of \<open>open_sealed\<close>.\<close>

definition classify_decrypt_error :: "exc \<Rightarrow> bool \<Rightarrow> string" where
  "classify_decrypt_error e key_healthy =
     (if e = KeyUnavailable then ''KEY_UNAVAILABLE''
      else if e = BadEnvelope then ''POISON_MALFORMED''
      else if e = AeadAuthFailed then (if key_healthy then ''AEAD_AUTH_FAILED_ISOLATED'' else ''AEAD_AUTH_FAILED_SYSTEMIC'')
      else ''AEAD_AUTH_FAILED_SYSTEMIC'')"

text \<open>\<open>hdr = {}\<close> when the header does not parse; an empty hash counts as absent.\<close>

definition quarantine_row :: "crypto \<Rightarrow> pystr \<Rightarrow> bytes \<Rightarrow> string \<Rightarrow> string \<Rightarrow> string \<Rightarrow> pystr option \<Rightarrow> int \<Rightarrow> dlq_row" where
  "quarantine_row C u envelope failure_class failure_code pipeline_stage detail now_ms =
     (let h = (case parse_header C envelope of Inl e \<Rightarrow> None | Inr hdr \<Rightarrow> Some hdr) in
      \<lparr>dlq_id = mk_id ''dlq'' u,
       dlq_event_id_hash = (case h of None \<Rightarrow> None
          | Some hdr \<Rightarrow> if eh_event_id_hash hdr = [] then None else Some (hex_of (eh_event_id_hash hdr))),
       dlq_envelope = envelope, dlq_failure_class = failure_class, dlq_failure_code = failure_code,
       dlq_pipeline_stage = pipeline_stage, dlq_recipient_key_id = map_option eh_recipient_key_id h,
       dlq_crypto_version = map_option eh_crypto_version h, dlq_envelope_version = map_option eh_envelope_version h,
       dlq_ciphertext_sha256 = map_option eh_ciphertext_sha256 h,
       dlq_sanitised_detail = take DETAIL_CAP (case detail of None \<Rightarrow> [] | Some t \<Rightarrow> t), dlq_first_seen_ms = now_ms\<rparr>)"

definition quarantine ::
  "crypto \<Rightarrow> pystr \<Rightarrow> bytes \<Rightarrow> string \<Rightarrow> string \<Rightarrow> string \<Rightarrow> pystr option \<Rightarrow> int \<Rightarrow> vault \<Rightarrow> (exc + unit) \<times> vault" where
  "quarantine C u envelope failure_class failure_code pipeline_stage detail now_ms c =
     (case ins_dlq (quarantine_row C u envelope failure_class failure_code pipeline_stage detail now_ms) (work c) of
        Inl e \<Rightarrow> (Inl e, c)
      | Inr w \<Rightarrow> (Inr (), commit (c\<lparr>work := w\<rparr>)))"

definition circuit_state :: "vault_db \<Rightarrow> circuit" where
  "circuit_state d = ist_circuit_state (ingest_state d)"

definition trip :: "pystr option \<Rightarrow> int \<Rightarrow> vault \<Rightarrow> vault" where
  "trip reason now_ms c =
     commit (c\<lparr>work := (work c)\<lparr>ingest_state := \<lparr>ist_circuit_state = OPEN, ist_tripped_at_ms = Some now_ms,
       ist_reason = Some (take DETAIL_CAP (case reason of None \<Rightarrow> [] | Some r \<Rightarrow> r))\<rparr>\<rparr>\<rparr>)"

definition reset :: "vault \<Rightarrow> vault" where
  "reset c = commit (c\<lparr>work := (work c)\<lparr>ingest_state :=
     \<lparr>ist_circuit_state = CLOSED, ist_tripped_at_ms = None, ist_reason = None\<rparr>\<rparr>\<rparr>)"

definition references_key :: "vault_db \<Rightarrow> nat \<Rightarrow> nat" where
  "references_key d key_id = rowcount (\<lambda>r. dlq_recipient_key_id r = Some key_id) (ingest_dlq d)"

definition retire :: "vault_db \<Rightarrow> nat \<Rightarrow> bool \<Rightarrow> exc + unit" where
  "retire d key_id edge_clear =
     (if \<not> edge_clear then Inl KeyStillReferenced
      else if 0 < references_key d key_id then Inl KeyStillReferenced
      else Inr ())"

text \<open>
  The monitor compares a floating-point quotient with 0.90, 0.75 and 0.50. For a positive retention
  whose horizon is below \<open>2 ^ 49\<close> milliseconds the rounding never crosses a threshold, and the
  comparison is the exact cross-multiplication below.
\<close>

datatype level = OK | WARNING | HIGH | CRITICAL

definition assess :: "int option \<Rightarrow> int \<Rightarrow> int \<Rightarrow> level" where
  "assess oldest_message_ms now_ms retention_days =
     (case oldest_message_ms of
        None \<Rightarrow> OK
      | Some oldest \<Rightarrow>
          (let age = now_ms - oldest; horizon = retention_days * 24 * 3600 * 1000 in
           if 90 * horizon \<le> 100 * age then CRITICAL
           else if 75 * horizon \<le> 100 * age then HIGH
           else if 50 * horizon \<le> 100 * age then WARNING
           else OK))"

section \<open>Their contracts\<close>

lemma quarantine_cases:
  assumes "quarantine C u env fc code stage det now c = (r, c')"
  obtains e where "r = Inl e" "c' = c"
    | row where "r = Inr ()" "work c' = (work c)\<lparr>ingest_dlq := ingest_dlq (work c) @ [row]\<rparr>" "clean c'"
      "dlq_envelope row = env" "dlq_recipient_key_id row = map_option eh_recipient_key_id (case parse_header C env of Inl e \<Rightarrow> None | Inr h \<Rightarrow> Some h)"
  using assms
  by (auto simp: quarantine_def quarantine_row_def Let_def split: sum.splits dest!: ins_vault_Inr(7))

text \<open>A key that some quarantined envelope names is never retired; the parsed key is the one recorded.\<close>

lemma retire_iff: "retire d k clear = Inr () \<longleftrightarrow> clear \<and> (\<forall>r\<in>set (ingest_dlq d). dlq_recipient_key_id r \<noteq> Some k)"
  by (auto simp: retire_def references_key_def rowcount_pos)

lemma quarantined_not_retired:
  assumes "quarantine C u env fc code stage det now c = (Inr (), c')" "parse_header C env = Inr h"
  shows "retire (disk c') (eh_recipient_key_id h) clear = Inl KeyStillReferenced"
proof -
  obtain row where "work c' = (work c)\<lparr>ingest_dlq := ingest_dlq (work c) @ [row]\<rparr>" "clean c'"
    "dlq_recipient_key_id row = Some (eh_recipient_key_id h)"
    using assms(1) by (rule quarantine_cases) (use assms(2) in auto)
  then show ?thesis by (auto simp: retire_def references_key_def rowcount_pos clean_disk)
qed

lemma circuit_simps [simp]:
  "circuit_state (work (trip r n c)) = OPEN" "circuit_state (disk (trip r n c)) = OPEN"
  "circuit_state (work (reset c)) = CLOSED" "clean (trip r n c)" "clean (reset c)"
  by (simp_all add: circuit_state_def trip_def reset_def)

text \<open>The monitor only ever raises its level as an event ages.\<close>

definition severity :: "level \<Rightarrow> nat" where
  "severity l = (case l of OK \<Rightarrow> 0 | WARNING \<Rightarrow> 1 | HIGH \<Rightarrow> 2 | CRITICAL \<Rightarrow> 3)"

lemma assess_mono: "n \<le> n' \<Longrightarrow> severity (assess (Some t) n days) \<le> severity (assess (Some t) n' days)"
  by (auto simp: assess_def Let_def severity_def)

end
