(* ===== verification/Webhook.thy ===== *)
theory Webhook
  imports Json Devices
begin

text \<open>
  Webhook fan-out, classification and dedupe keys (\<open>ingest/normalise.py\<close>, \<open>ingest/dedupe.py\<close>,
  \<open>ingest/status.py\<close>). Payloads are parsed JSON values of any shape: a method call on a value that
  is not a dictionary raises \<open>AttributeError\<close>, iterating a number raises \<open>TypeError\<close>. \<open>pint\<close> is
  Python's \<open>int\<close> on a string.
\<close>

section \<open>Dictionaries and iteration\<close>

text \<open>\<open>x.get(k)\<close>.\<close>

definition getk :: "string \<Rightarrow> json \<Rightarrow> exc + json option" where
  "getk k x = (case x of JObj kvs \<Rightarrow> Inr (jget (lit k) kvs) | _ \<Rightarrow> Inl AttributeError)"

text \<open>\<open>x.get(k) or {}\<close> and \<open>x.get(k) or []\<close>.\<close>

definition orelse :: "json \<Rightarrow> json option \<Rightarrow> json" where
  "orelse dflt v = (case v of None \<Rightarrow> dflt | Some x \<Rightarrow> if jtrue x then x else dflt)"

definition get_or :: "string \<Rightarrow> json \<Rightarrow> json \<Rightarrow> exc + json" where
  "get_or k dflt x = (case getk k x of Inl e \<Rightarrow> Inl e | Inr v \<Rightarrow> Inr (orelse dflt v))"

definition iter :: "json \<Rightarrow> exc + json list" where
  "iter x = (case x of JArr l \<Rightarrow> Inr l | JObj kvs \<Rightarrow> Inr (map (\<lambda>kv. JStr (fst kv)) kvs)
     | JStr s \<Rightarrow> Inr (map (\<lambda>c. JStr [c]) s) | _ \<Rightarrow> Inl TypeError)"

primrec mapM :: "('a \<Rightarrow> exc + 'b) \<Rightarrow> 'a list \<Rightarrow> exc + 'b list" where
  "mapM f [] = Inr []"
| "mapM f (x # xs) = (case f x of Inl e \<Rightarrow> Inl e | Inr y \<Rightarrow> (case mapM f xs of Inl e \<Rightarrow> Inl e | Inr ys \<Rightarrow> Inr (y # ys)))"

text \<open>A value as a dictionary key: lists and dictionaries are unhashable, \<open>True == 1\<close>.\<close>

definition hashable :: "json option \<Rightarrow> exc + json" where
  "hashable v = (case v of None \<Rightarrow> Inr JNull | Some (JBool b) \<Rightarrow> Inr (JInt (if b then 1 else 0))
     | Some (JArr l) \<Rightarrow> Inl TypeError | Some (JObj l) \<Rightarrow> Inl TypeError | Some x \<Rightarrow> Inr x)"

section \<open>Fan-out\<close>

datatype atom_kind = A_message | A_status | A_unknown

record atom =
  at_kind :: atom_kind
  at_phone_number_id :: "json option"
  at_raw :: json
  at_echo :: bool
  at_contact_name :: "json option"

definition contact_entry :: "json \<Rightarrow> exc + (json \<times> json option)" where
  "contact_entry c =
     (case getk ''wa_id'' c of
        Inl e \<Rightarrow> Inl e
      | Inr w \<Rightarrow>
     (case hashable w of
        Inl e \<Rightarrow> Inl e
      | Inr k \<Rightarrow>
     (case get_or ''profile'' (JObj []) c of
        Inl e \<Rightarrow> Inl e
      | Inr p \<Rightarrow> (case getk ''name'' p of Inl e \<Rightarrow> Inl e | Inr n \<Rightarrow> Inr (k, n)))))"

text \<open>Later entries of a dict comprehension replace earlier ones.\<close>

definition contact_name :: "(json \<times> json option) list \<Rightarrow> json \<Rightarrow> json option" where
  "contact_name cs k = (case map_of (rev cs) k of None \<Rightarrow> None | Some n \<Rightarrow> n)"

definition message_atom :: "json option \<Rightarrow> (json \<times> json option) list \<Rightarrow> json \<Rightarrow> exc + atom" where
  "message_atom pnid cs m =
     (case getk ''_wv_echo'' m of
        Inl e \<Rightarrow> Inl e
      | Inr echo \<Rightarrow>
     (case getk ''from'' m of
        Inl e \<Rightarrow> Inl e
      | Inr f \<Rightarrow>
     (case hashable f of
        Inl e \<Rightarrow> Inl e
      | Inr k \<Rightarrow> Inr \<lparr>at_kind = A_message, at_phone_number_id = pnid, at_raw = m,
                     at_echo = (case echo of None \<Rightarrow> False | Some x \<Rightarrow> jtrue x), at_contact_name = contact_name cs k\<rparr>)))"

definition status_atom :: "json option \<Rightarrow> json \<Rightarrow> atom" where
  "status_atom pnid s = \<lparr>at_kind = A_status, at_phone_number_id = pnid, at_raw = s, at_echo = False, at_contact_name = None\<rparr>"

definition unknown_atom :: "json option \<Rightarrow> json \<Rightarrow> atom" where
  "unknown_atom pnid v = \<lparr>at_kind = A_unknown, at_phone_number_id = pnid, at_raw = v, at_echo = False, at_contact_name = None\<rparr>"

definition split_change :: "json \<Rightarrow> exc + atom list" where
  "split_change change =
     (case get_or ''value'' (JObj []) change of
        Inl e \<Rightarrow> Inl e
      | Inr v \<Rightarrow>
     (case get_or ''metadata'' (JObj []) v of
        Inl e \<Rightarrow> Inl e
      | Inr md \<Rightarrow>
     (case getk ''phone_number_id'' md of
        Inl e \<Rightarrow> Inl e
      | Inr pnid \<Rightarrow>
     (case get_or ''contacts'' (JArr []) v of
        Inl e \<Rightarrow> Inl e
      | Inr cl \<Rightarrow>
     (case iter cl of
        Inl e \<Rightarrow> Inl e
      | Inr cvs \<Rightarrow>
     (case mapM contact_entry cvs of
        Inl e \<Rightarrow> Inl e
      | Inr cs \<Rightarrow>
     (case (get_or ''messages'' (JArr []) v, get_or ''statuses'' (JArr []) v) of
        (Inr ml, Inr sl) \<Rightarrow>
     (case iter ml of
        Inl e \<Rightarrow> Inl e
      | Inr ms \<Rightarrow>
     (case mapM (message_atom pnid cs) ms of
        Inl e \<Rightarrow> Inl e
      | Inr mas \<Rightarrow>
     (case iter sl of
        Inl e \<Rightarrow> Inl e
      | Inr ss \<Rightarrow>
          Inr (mas @ map (status_atom pnid) ss @
               (if \<not> jtrue ml \<and> \<not> jtrue sl then [unknown_atom pnid v] else [])))))
      | (Inl e, _) \<Rightarrow> Inl e
      | (_, Inl e) \<Rightarrow> Inl e)))))))"

definition split_entry :: "json \<Rightarrow> exc + atom list" where
  "split_entry entry =
     (case get_or ''changes'' (JArr []) entry of
        Inl e \<Rightarrow> Inl e
      | Inr cl \<Rightarrow>
     (case iter cl of
        Inl e \<Rightarrow> Inl e
      | Inr cs \<Rightarrow> (case mapM split_change cs of Inl e \<Rightarrow> Inl e | Inr l \<Rightarrow> Inr (concat l))))"

definition split_webhook :: "json \<Rightarrow> exc + atom list" where
  "split_webhook payload =
     (case get_or ''entry'' (JArr []) payload of
        Inl e \<Rightarrow> Inl e
      | Inr el \<Rightarrow>
     (case iter el of
        Inl e \<Rightarrow> Inl e
      | Inr es \<Rightarrow> (case mapM split_entry es of Inl e \<Rightarrow> Inl e | Inr l \<Rightarrow> Inr (concat l))))"

section \<open>Families and rows\<close>

datatype family = MESSAGE_INBOUND | MESSAGE_ECHO | MESSAGE_STATUS | UNKNOWN_SUPPORTED

definition classify :: "atom \<Rightarrow> family" where
  "classify a = (case at_kind a of
      A_message \<Rightarrow> if at_echo a then MESSAGE_ECHO else MESSAGE_INBOUND
    | A_status \<Rightarrow> MESSAGE_STATUS
    | A_unknown \<Rightarrow> UNKNOWN_SUPPORTED)"

text \<open>\<open>int(m.get("timestamp", 0))\<close>.\<close>

definition to_int :: "(pystr \<Rightarrow> exc + int) \<Rightarrow> json option \<Rightarrow> exc + int" where
  "to_int pint v = (case v of None \<Rightarrow> Inr 0 | Some (JInt i) \<Rightarrow> Inr i | Some (JBool b) \<Rightarrow> Inr (if b then 1 else 0)
     | Some (JStr s) \<Rightarrow> pint s | Some _ \<Rightarrow> Inl TypeError)"

text \<open>SQLite's integers; binding any other raises \<open>OverflowError\<close>.\<close>

definition int64 :: "int \<Rightarrow> bool" where
  "int64 i \<longleftrightarrow> - (2 ^ 63) \<le> i \<and> i < 2 ^ 63"

text \<open>A value bound to a text column: \<open>None\<close> is \<open>NULL\<close>, a number is stored as its decimal text, a container is refused.\<close>

definition bind_text :: "json option \<Rightarrow> exc + pystr option" where
  "bind_text v = (case v of None \<Rightarrow> Inr None | Some JNull \<Rightarrow> Inr None
     | Some (JStr s) \<Rightarrow> (case utf8 s of Inl e \<Rightarrow> Inl e | Inr _ \<Rightarrow> Inr (Some s))
     | Some (JInt i) \<Rightarrow> (if int64 i then Inr (Some (int_dec i)) else Inl OverflowError) | Some (JBool b) \<Rightarrow> Inr (Some (int_dec (if b then 1 else 0)))
     | Some _ \<Rightarrow> Inl InterfaceError)"

record message_rows =
  mr_from :: "json option"
  mr_name :: "json option"
  mr_wamid :: "json option"
  mr_ts_lower_ms :: int
  mr_ts_upper_ms_exclusive :: int
  mr_type :: "json option"
  mr_text_original :: "json option"
  mr_echo :: bool
  mr_window_eligible :: bool
  mr_phone_number_id :: "json option"

record status_rows =
  sr_wamid :: "json option"
  sr_status :: "json option"
  sr_provider_ts_ms :: int
  sr_recipient_id :: "json option"

datatype rows = MessageRows family message_rows | StatusRows status_rows | NoRows family

text \<open>\<open>_text\<close>: the body of a text message only.\<close>

definition text_body :: "json \<Rightarrow> exc + json option" where
  "text_body m =
     (case getk ''type'' m of
        Inl e \<Rightarrow> Inl e
      | Inr ty \<Rightarrow>
          if ty \<noteq> Some (JStr (lit ''text'')) then Inr None
          else (case get_or ''text'' (JObj []) m of Inl e \<Rightarrow> Inl e | Inr t \<Rightarrow> getk ''body'' t))"

definition to_rows :: "(pystr \<Rightarrow> exc + int) \<Rightarrow> atom \<Rightarrow> exc + rows" where
  "to_rows pint a =
     (case classify a of
        MESSAGE_STATUS \<Rightarrow>
          (case (getk ''id'' (at_raw a), getk ''status'' (at_raw a), getk ''timestamp'' (at_raw a), getk ''recipient_id'' (at_raw a)) of
             (Inr i, Inr st, Inr ts, Inr rid) \<Rightarrow>
               (case to_int pint ts of
                  Inl e \<Rightarrow> Inl e
                | Inr t \<Rightarrow> Inr (StatusRows \<lparr>sr_wamid = i, sr_status = st, sr_provider_ts_ms = t * 1000, sr_recipient_id = rid\<rparr>))
           | _ \<Rightarrow> Inl AttributeError)
      | UNKNOWN_SUPPORTED \<Rightarrow> Inr (NoRows UNKNOWN_SUPPORTED)
      | fam \<Rightarrow>
          (case (getk ''timestamp'' (at_raw a), getk ''from'' (at_raw a), getk ''id'' (at_raw a), getk ''type'' (at_raw a)) of
             (Inr ts, Inr f, Inr i, Inr ty) \<Rightarrow>
               (case to_int pint ts of
                  Inl e \<Rightarrow> Inl e
                | Inr t \<Rightarrow>
                    (case text_body (at_raw a) of
                       Inl e \<Rightarrow> Inl e
                     | Inr body \<Rightarrow>
                         Inr (MessageRows fam
                           \<lparr>mr_from = f, mr_name = at_contact_name a, mr_wamid = i, mr_ts_lower_ms = t * 1000,
                            mr_ts_upper_ms_exclusive = t * 1000 + 1000,
                            mr_type = (case ty of None \<Rightarrow> Some (JStr (lit ''text'')) | Some _ \<Rightarrow> ty),
                            mr_text_original = body, mr_echo = (fam = MESSAGE_ECHO),
                            mr_window_eligible = (fam \<noteq> MESSAGE_ECHO), mr_phone_number_id = at_phone_number_id a\<rparr>)))
           | _ \<Rightarrow> Inl AttributeError))"

section \<open>Dedupe keys\<close>

definition MSG_DOMAIN :: pystr where "MSG_DOMAIN = lit ''WHATSVAULT-DEDUPE-MESSAGE-V1''"
definition STATUS_DOMAIN :: pystr where "STATUS_DOMAIN = lit ''WHATSVAULT-DEDUPE-STATUS-V1''"
definition OTHER_DOMAIN :: pystr where "OTHER_DOMAIN = lit ''WHATSVAULT-DEDUPE-OTHER-V1''"

text \<open>The preimage of \<open>_sha\<close>.\<close>

definition key_preimage :: "pystr \<Rightarrow> pystr list \<Rightarrow> exc + bytes" where
  "key_preimage tag parts =
     (case utf8 tag of Inl e \<Rightarrow> Inl e
      | Inr d \<Rightarrow> (case lp_strs parts of Inl e \<Rightarrow> Inl e | Inr b \<Rightarrow> Inr (d @ b)))"

definition message_parts :: "pystr \<Rightarrow> pystr \<Rightarrow> pystr \<Rightarrow> pystr list" where
  "message_parts provider pnid wamid = [provider, pnid, wamid]"

definition status_parts :: "pystr \<Rightarrow> pystr \<Rightarrow> pystr \<Rightarrow> pystr \<Rightarrow> int \<Rightarrow> pystr option \<Rightarrow> pystr list" where
  "status_parts provider pnid wamid status ts rid =
     [provider, pnid, wamid, status, int_dec ts, case rid of None \<Rightarrow> 0 # lit ''none'' | Some r \<Rightarrow> r]"

text \<open>\<open>x or ""\<close>, then \<open>x.encode\<close>: only strings have it.\<close>

definition key_str :: "json option \<Rightarrow> exc + pystr" where
  "key_str v = (case v of None \<Rightarrow> Inr [] | Some x \<Rightarrow> if \<not> jtrue x then Inr []
     else (case x of JStr s \<Rightarrow> Inr s | _ \<Rightarrow> Inl AttributeError))"

text \<open>The recipient is passed on as it is; \<open>None\<close> has its own marker.\<close>

definition recipient_str :: "json option \<Rightarrow> exc + pystr option" where
  "recipient_str v = (case v of None \<Rightarrow> Inr None | Some JNull \<Rightarrow> Inr None | Some (JStr s) \<Rightarrow> Inr (Some s) | Some _ \<Rightarrow> Inl AttributeError)"

definition PROVIDER :: pystr where "PROVIDER = lit ''meta''"

text \<open>What identifies an event: the arguments of \<open>message_key\<close> and \<open>status_key\<close>, or the JSON text.\<close>

datatype event_ident =
    MessageId pystr pystr
  | StatusId pystr pystr pystr int "pystr option"
  | OtherId pystr

definition semantic_ident :: "(pystr \<Rightarrow> exc + int) \<Rightarrow> atom \<Rightarrow> exc + event_ident" where
  "semantic_ident pint a =
     (case classify a of
        UNKNOWN_SUPPORTED \<Rightarrow> Inr (OtherId (spaced (at_raw a)))
      | MESSAGE_STATUS \<Rightarrow>
          (case (getk ''id'' (at_raw a), getk ''status'' (at_raw a), getk ''timestamp'' (at_raw a), getk ''recipient_id'' (at_raw a)) of
             (Inr i, Inr st, Inr ts, Inr rid) \<Rightarrow>
               (case to_int pint ts of
                  Inl e \<Rightarrow> Inl e
                | Inr t \<Rightarrow>
                    (case (key_str (at_phone_number_id a), key_str i, key_str st, recipient_str rid) of
                       (Inr p, Inr w, Inr s, Inr r) \<Rightarrow> Inr (StatusId p w s (t * 1000) r)
                     | _ \<Rightarrow> Inl AttributeError))
           | _ \<Rightarrow> Inl AttributeError)
      | _ \<Rightarrow>
          (case getk ''id'' (at_raw a) of
             Inl e \<Rightarrow> Inl e
           | Inr i \<Rightarrow>
               (case (key_str (at_phone_number_id a), key_str i) of
                  (Inr p, Inr w) \<Rightarrow> Inr (MessageId p w)
                | _ \<Rightarrow> Inl AttributeError)))"

fun ident_preimage :: "event_ident \<Rightarrow> exc + bytes" where
  "ident_preimage (MessageId p w) = key_preimage MSG_DOMAIN (message_parts PROVIDER p w)"
| "ident_preimage (StatusId p w s t r) = key_preimage STATUS_DOMAIN (status_parts PROVIDER p w s t r)"
| "ident_preimage (OtherId raw) = utf8 (OTHER_DOMAIN @ raw)"

definition semantic_key :: "crypto \<Rightarrow> (pystr \<Rightarrow> exc + int) \<Rightarrow> atom \<Rightarrow> exc + (family \<times> pystr)" where
  "semantic_key C pint a =
     (case semantic_ident pint a of
        Inl e \<Rightarrow> Inl e
      | Inr i \<Rightarrow> (case ident_preimage i of Inl e \<Rightarrow> Inl e | Inr b \<Rightarrow> Inr (classify a, hex_of (sha256 C b))))"

text \<open>The preimages determine the identity; a missing recipient shares its preimage with one text only.\<close>

fun norm_ident :: "event_ident \<Rightarrow> event_ident" where
  "norm_ident (StatusId p w s t r) = StatusId p w s t (Some (case r of None \<Rightarrow> 0 # lit ''none'' | Some x \<Rightarrow> x))"
| "norm_ident i = i"

lemma utf8_append: "utf8 (s @ t) = Inr b \<Longrightarrow> \<exists>x y. utf8 s = Inr x \<and> utf8 t = Inr y \<and> b = x @ y"
  by (induction s arbitrary: b) (auto split: sum.splits)

definition tag_bytes :: "pystr \<Rightarrow> bytes" where
  "tag_bytes t = map of_nat t"

lemma utf8_tags: "utf8 MSG_DOMAIN = Inr (tag_bytes MSG_DOMAIN)" "utf8 STATUS_DOMAIN = Inr (tag_bytes STATUS_DOMAIN)"
  "utf8 OTHER_DOMAIN = Inr (tag_bytes OTHER_DOMAIN)"
  by code_simp+

lemma tag_char: "18 < length (tag_bytes MSG_DOMAIN)" "18 < length (tag_bytes STATUS_DOMAIN)" "18 < length (tag_bytes OTHER_DOMAIN)"
  "tag_bytes MSG_DOMAIN ! 18 = 77" "tag_bytes STATUS_DOMAIN ! 18 = 83" "tag_bytes OTHER_DOMAIN ! 18 = 79"
  by code_simp+

lemma ident_preimage_tag:
  assumes "ident_preimage i = Inr b"
  shows "b ! 18 = (case i of MessageId _ _ \<Rightarrow> 77 | StatusId _ _ _ _ _ \<Rightarrow> 83 | OtherId _ \<Rightarrow> 79)"
proof (cases i)
  case (OtherId raw)
  with assms obtain y where "b = tag_bytes OTHER_DOMAIN @ y" using utf8_append utf8_tags(3) by fastforce
  with OtherId show ?thesis by (simp add: nth_append tag_char)
qed (use assms in \<open>auto simp: key_preimage_def utf8_tags nth_append tag_char split: sum.splits\<close>)

lemma key_preimage_inject: "key_preimage t xs = Inr b \<Longrightarrow> key_preimage t ys = Inr b \<Longrightarrow> xs = ys"
  by (auto simp: key_preimage_def split: sum.splits intro: lp_strs_inject)

lemma ident_preimage_inject:
  assumes "ident_preimage i = Inr b" "ident_preimage j = Inr b"
  shows "norm_ident i = norm_ident j"
proof -
  note t = ident_preimage_tag [OF assms(1)] ident_preimage_tag [OF assms(2)]
  show ?thesis
  proof (cases i)
    case (MessageId p w)
    with t obtain p' w' where j: "j = MessageId p' w'" by (cases j) auto
    from assms MessageId j have "message_parts PROVIDER p w = message_parts PROVIDER p' w'"
      by (auto dest: key_preimage_inject)
    then show ?thesis using MessageId j by (simp add: message_parts_def)
  next
    case (StatusId p w s ts r)
    with t obtain p' w' s' ts' r' where j: "j = StatusId p' w' s' ts' r'" by (cases j) auto
    from assms StatusId j have "status_parts PROVIDER p w s ts r = status_parts PROVIDER p' w' s' ts' r'"
      by (auto dest: key_preimage_inject)
    then show ?thesis using StatusId j by (auto simp: status_parts_def dest: int_dec_inject)
  next
    case (OtherId raw)
    with t obtain raw' where j: "j = OtherId raw'" by (cases j) auto
    have "OTHER_DOMAIN @ raw = OTHER_DOMAIN @ raw'" by (rule utf8_inject) (use assms OtherId j in simp_all)
    then show ?thesis using OtherId j by simp
  qed
qed

section \<open>Status lattice\<close>

record status_view =
  sv_delivery_rank :: nat
  sv_failed_at_ms :: "int option"
  sv_deleted_at_ms :: "int option"
  sv_unknown :: "pystr list"

definition RANK :: "pystr \<Rightarrow> nat option" where
  "RANK s = (if s = lit ''sent'' then Some 1 else if s = lit ''delivered'' then Some 2 else if s = lit ''read'' then Some 3 else None)"

definition earliest :: "int option \<Rightarrow> int \<Rightarrow> int option" where
  "earliest old ts = (case old of None \<Rightarrow> Some ts | Some o' \<Rightarrow> Some (min o' ts))"

definition status_step :: "status_view \<Rightarrow> pystr \<times> int \<Rightarrow> status_view" where
  "status_step v e =
     (case RANK (fst e) of
        Some r \<Rightarrow> v\<lparr>sv_delivery_rank := max (sv_delivery_rank v) r\<rparr>
      | None \<Rightarrow>
          if fst e = lit ''failed'' then v\<lparr>sv_failed_at_ms := earliest (sv_failed_at_ms v) (snd e)\<rparr>
          else if fst e = lit ''deleted'' then v\<lparr>sv_deleted_at_ms := earliest (sv_deleted_at_ms v) (snd e)\<rparr>
          else v\<lparr>sv_unknown := fst e # sv_unknown v\<rparr>)"

text \<open>\<open>sorted(unknown)\<close> of a set: sorted without duplicates.\<close>

definition reduce_status :: "(pystr \<times> int) list \<Rightarrow> status_view" where
  "reduce_status events =
     (let v = foldl status_step \<lparr>sv_delivery_rank = 0, sv_failed_at_ms = None, sv_deleted_at_ms = None, sv_unknown = []\<rparr> events in
      v\<lparr>sv_unknown := sort (remdups (sv_unknown v))\<rparr>)"

text \<open>The reference: what the events say as a set.\<close>

definition ranks :: "(pystr \<times> int) set \<Rightarrow> nat set" where
  "ranks E = {r. \<exists>e\<in>E. RANK (fst e) = Some r}"

definition times :: "string \<Rightarrow> (pystr \<times> int) set \<Rightarrow> int set" where
  "times st E = snd ` {e \<in> E. fst e = lit st}"

definition unknowns :: "(pystr \<times> int) set \<Rightarrow> pystr set" where
  "unknowns E = fst ` {e \<in> E. RANK (fst e) = None \<and> fst e \<noteq> lit ''failed'' \<and> fst e \<noteq> lit ''deleted''}"

definition least :: "int set \<Rightarrow> int option" where
  "least S = (if S = {} then None else Some (Min S))"

definition status_reference :: "(pystr \<times> int) set \<Rightarrow> status_view" where
  "status_reference E =
     \<lparr>sv_delivery_rank = Max (insert 0 (ranks E)), sv_failed_at_ms = least (times ''failed'' E),
      sv_deleted_at_ms = least (times ''deleted'' E), sv_unknown = sorted_list_of_set (unknowns E)\<rparr>"

lemma finite_times: "finite E \<Longrightarrow> finite (times st E)"
  by (simp add: times_def)

lemma finite_ranks: "finite E \<Longrightarrow> finite (ranks E)"
  by (rule finite_subset [of _ "the ` (RANK \<circ> fst) ` E"]) (force simp: ranks_def image_iff)+

lemma RANK_words: "RANK (lit ''failed'') = None" "RANK (lit ''deleted'') = None"
  by (simp_all add: RANK_def)

lemma RANK_le: "RANK s = Some r \<Longrightarrow> r \<le> 3"
  by (auto simp: RANK_def split: if_splits)

definition view_of :: "status_view \<Rightarrow> (pystr \<times> int) set \<Rightarrow> bool" where
  "view_of v E \<longleftrightarrow> sv_delivery_rank v = Max (insert 0 (ranks E)) \<and> sv_failed_at_ms v = least (times ''failed'' E) \<and>
     sv_deleted_at_ms v = least (times ''deleted'' E) \<and> set (sv_unknown v) = unknowns E"

lemma times_insert: "times st (insert e E) = (if fst e = lit st then insert (snd e) (times st E) else times st E)"
  by (auto simp: times_def image_iff)

lemma ranks_insert: "ranks (insert e E) = (case RANK (fst e) of None \<Rightarrow> ranks E | Some r \<Rightarrow> insert r (ranks E))"
  by (auto simp: ranks_def split: option.splits)

lemma least_insert: "finite S \<Longrightarrow> least (insert t S) = earliest (least S) t"
  by (auto simp: least_def earliest_def min.commute)

lemma status_step_view:
  assumes "view_of v E" "finite E" shows "view_of (status_step v e) (insert e E)"
proof (cases "RANK (fst e)")
  case (Some r)
  then have "fst e \<noteq> lit ''failed''" "fst e \<noteq> lit ''deleted''" using RANK_words by auto
  moreover have "unknowns (insert e E) = unknowns E" using Some by (auto simp: unknowns_def)
  moreover have "Max (insert 0 (insert r (ranks E))) = max (Max (insert 0 (ranks E))) r"
    using finite_ranks [OF assms(2)] Max_insert [of "insert 0 (ranks E)" r]
    by (simp add: insert_commute [of 0 r] max.commute del: Max_insert)
  ultimately show ?thesis using assms Some by (simp add: view_of_def status_step_def times_insert ranks_insert)
next
  case None
  have u: "unknowns (insert e E) = (if fst e = lit ''failed'' \<or> fst e = lit ''deleted'' then unknowns E
      else insert (fst e) (unknowns E))"
    using None by (auto simp: unknowns_def)
  show ?thesis using assms None least_insert [OF finite_times [OF assms(2)]]
    by (auto simp: view_of_def status_step_def times_insert ranks_insert u)
qed

lemma foldl_status_view: "view_of v E \<Longrightarrow> finite E \<Longrightarrow> view_of (foldl status_step v es) (E \<union> set es)"
proof (induction es arbitrary: v E)
  case (Cons e es)
  then show ?case using Cons.IH [OF status_step_view [of v E e]] by simp
qed simp

text \<open>The reduction is the reference: arrival order and repetitions do not matter.\<close>

lemma reduce_status_reference: "reduce_status es = status_reference (set es)"
proof -
  let ?v0 = "\<lparr>sv_delivery_rank = 0, sv_failed_at_ms = None, sv_deleted_at_ms = None, sv_unknown = []\<rparr>"
  have "view_of ?v0 {}" by (simp add: view_of_def ranks_def times_def unknowns_def least_def)
  from foldl_status_view [OF this] have v: "view_of (foldl status_step ?v0 es) (set es)" by simp
  then have "sort (remdups (sv_unknown (foldl status_step ?v0 es))) = sorted_list_of_set (unknowns (set es))"
    by (simp add: view_of_def sorted_list_of_set_sort_remdups [symmetric])
  with v show ?thesis by (simp add: reduce_status_def status_reference_def view_of_def Let_def)
qed

lemma reduce_status_rank: "sv_delivery_rank (reduce_status es) \<le> 3"
proof -
  have "finite (ranks (set es))" by (simp add: finite_ranks)
  moreover have "r \<in> ranks (set es) \<Longrightarrow> r \<le> 3" for r by (auto simp: ranks_def dest: RANK_le)
  ultimately show ?thesis by (simp add: reduce_status_reference status_reference_def)
qed

end
