(* ===== verification/Search_Text.thy ===== *)
theory Search_Text
  imports Prelude "HOL-Library.Product_Lexorder"
begin

text \<open>
  Search normalisation and snippets (\<open>search/normalise.py\<close>, \<open>search/snippet.py\<close>). The Unicode
  tables of Python's library (composition of a single character, white space, case folding)
  are parameters; the folds of the program are written out.
\<close>

record unicode =
  nfc :: "nat \<Rightarrow> pystr"
  isspace :: "nat \<Rightarrow> bool"
  casefold :: "pystr \<Rightarrow> pystr"

definition NORMALISER_VERSION :: nat where "NORMALISER_VERSION = 1"

definition fold_table :: "(nat \<times> nat) list" where
  "fold_table =
     [(0x064A, 0x06CC), (0x0649, 0x06CC), (0x0643, 0x06A9),
      (0x0623, 0x0627), (0x0625, 0x0627), (0x0622, 0x0627), (0x0671, 0x0627), (0x0624, 0x0648), (0x0626, 0x06CC)] @
     map (\<lambda>i. (0x0660 + i, 48 + i)) [0..<10] @ map (\<lambda>i. (0x06F0 + i, 48 + i)) [0..<10]"

definition stripped :: "nat \<Rightarrow> bool" where
  "stripped c \<longleftrightarrow> (0x064B \<le> c \<and> c < 0x0660) \<or> c = 0x0670 \<or> c = 0x0640 \<or>
     c \<in> {0x200E, 0x200F, 0x202A, 0x202B, 0x202C, 0x202D, 0x202E, 0x2066, 0x2067, 0x2068, 0x2069}"

definition fold_char :: "nat \<Rightarrow> pystr" where
  "fold_char c = (case map_of fold_table c of Some d \<Rightarrow> [d] | None \<Rightarrow> if stripped c then [] else [c])"

definition piece :: "unicode \<Rightarrow> pystr \<Rightarrow> nat \<Rightarrow> pystr" where
  "piece U sep c = (if c = 0x200C \<or> isspace U c then sep else casefold U (fold_char c))"

text \<open>One character of the input gives the pieces of the characters of its composition.\<close>

definition char_out :: "unicode \<Rightarrow> pystr \<Rightarrow> nat \<Rightarrow> pystr" where
  "char_out U sep c0 = concat (map (piece U sep) (nfc U c0))"

text \<open>\<open>_core\<close>: the output with, for each of its characters, the index of the input character it came from.\<close>

definition core :: "unicode \<Rightarrow> pystr \<Rightarrow> pystr \<Rightarrow> (nat \<times> nat) list" where
  "core U sep text = concat (map (\<lambda>(i, c0). map (\<lambda>c. (c, i)) (char_out U sep c0)) (enumerate 0 text))"

definition normalise_mapped :: "unicode \<Rightarrow> bool \<Rightarrow> pystr \<Rightarrow> pystr \<times> nat list" where
  "normalise_mapped U joined text = (let r = core U (if joined then [] else [32]) text in (map fst r, map snd r))"

definition to_search :: "unicode \<Rightarrow> pystr \<Rightarrow> pystr" where
  "to_search U text = map fst (core U [32] text)"

definition to_compact :: "unicode \<Rightarrow> pystr \<Rightarrow> pystr" where
  "to_compact U text = map fst (core U [] text)"

definition normalise_query :: "unicode \<Rightarrow> pystr \<Rightarrow> pystr \<times> pystr" where
  "normalise_query U term = (to_search U term, to_compact U term)"

definition strip :: "unicode \<Rightarrow> pystr \<Rightarrow> pystr" where
  "strip U s = rev (dropWhile (isspace U) (rev (dropWhile (isspace U) s)))"

section \<open>The origin map\<close>

lemma core_gen: "(c, i) \<in> set (concat (map (\<lambda>(i, c0). map (\<lambda>c. (c, i)) (char_out U sep c0)) (enumerate k src))) \<Longrightarrow>
    k \<le> i \<and> i < k + length src \<and> c \<in> set (char_out U sep (src ! (i - k)))"
  by (auto simp: in_set_enumerate_eq)

lemma core_sorted_gen: "sorted (map snd (concat (map (\<lambda>(i, c0). map (\<lambda>c. (c, i)) (char_out U sep c0)) (enumerate k src))))"
proof (induction src arbitrary: k)
  case (Cons c0 src)
  have "\<forall>y\<in>set (concat (map (\<lambda>(i, c0). map (\<lambda>c. (c, i)) (char_out U sep c0)) (enumerate (Suc k) src))). k \<le> snd y"
    using core_gen [of _ _ U sep "Suc k" src] by fastforce
  then show ?case using Cons.IH [of "Suc k"] by (simp add: sorted_append comp_def map_replicate_const)
qed simp

lemma core_origin:
  assumes "j < length (core U sep src)"
  shows "snd (core U sep src ! j) < length src"
    "fst (core U sep src ! j) \<in> set (char_out U sep (src ! snd (core U sep src ! j)))"
proof -
  have "core U sep src ! j \<in> set (core U sep src)" using assms by simp
  then have "(fst (core U sep src ! j), snd (core U sep src ! j)) \<in> set (core U sep src)" by simp
  from core_gen [OF this [unfolded core_def]]
  show "snd (core U sep src ! j) < length src"
    "fst (core U sep src ! j) \<in> set (char_out U sep (src ! snd (core U sep src ! j)))"
    by (simp_all add: core_def)
qed

lemma core_mono: "i \<le> j \<Longrightarrow> j < length (core U sep src) \<Longrightarrow> snd (core U sep src ! i) \<le> snd (core U sep src ! j)"
proof -
  assume a: "i \<le> j" "j < length (core U sep src)"
  have "sorted (map snd (core U sep src))" using core_sorted_gen [of U sep 0 src] by (simp only: core_def)
  from sorted_nth_mono [OF this a(1)] a show ?thesis by simp
qed

text \<open>Index, query and snippet use the same src: the mapped form projects to the plain one.\<close>

lemma mapped_is_search: "fst (normalise_mapped U False src) = to_search U src"
  "fst (normalise_mapped U True src) = to_compact U src"
  "length (snd (normalise_mapped U b src)) = length (fst (normalise_mapped U b src))"
  by (simp_all add: normalise_mapped_def to_search_def to_compact_def Let_def)

text \<open>Normalisation works character by character.\<close>

lemma core_chars: "map fst (core U sep src) = concat (map (char_out U sep) src)"
proof -
  have "map fst (concat (map (\<lambda>(i, c0). map (\<lambda>c. (c, i)) (char_out U sep c0)) (enumerate k src))) =
      concat (map (char_out U sep) src)" for k
    by (induction src arbitrary: k) (auto simp: comp_def)
  then show ?thesis by (simp add: core_def)
qed

lemma to_search_append: "to_search U (s @ t) = to_search U s @ to_search U t"
  by (simp add: to_search_def core_chars)

section \<open>Occurrences\<close>

definition occurs_at :: "pystr \<Rightarrow> pystr \<Rightarrow> nat \<Rightarrow> bool" where
  "occurs_at t s j \<longleftrightarrow> j + length t \<le> length s \<and> take (length t) (drop j s) = t"

text \<open>\<open>s.find(t, start)\<close>.\<close>

definition find_from :: "pystr \<Rightarrow> pystr \<Rightarrow> nat \<Rightarrow> nat option" where
  "find_from t s start = List.find (occurs_at t s) [start..<Suc (length s)]"

lemma find_from_Some: "find_from t s start = Some j \<Longrightarrow> start \<le> j \<and> j \<le> length s \<and> occurs_at t s j \<and>
    (\<forall>i. start \<le> i \<and> i < j \<longrightarrow> \<not> occurs_at t s i)"
proof -
  assume "find_from t s start = Some j"
  then obtain k where k: "k < Suc (length s) - start" "occurs_at t s (start + k)" "j = start + k"
    and n: "\<forall>i<k. \<not> occurs_at t s (start + i)"
    by (auto simp: find_from_def find_Some_iff simp del: upt_Suc)
  have "\<not> occurs_at t s i" if "start \<le> i" "i < j" for i
    using n [rule_format, of "i - start"] that k(3) by simp
  with k show ?thesis by simp
qed

lemma find_from_None: "find_from t s start = None \<longleftrightarrow> (\<forall>i. start \<le> i \<longrightarrow> \<not> occurs_at t s i)"
  by (auto simp: find_from_def find_None_iff occurs_at_def simp del: upt_Suc)

text \<open>The loop of \<open>render\<close> over the occurrences of one term.\<close>

function scan_from :: "pystr \<Rightarrow> pystr \<Rightarrow> nat \<Rightarrow> nat list" where
  "scan_from t s start = (case find_from t s start of None \<Rightarrow> [] | Some j \<Rightarrow> j # scan_from t s (j + 1))"
  by pat_completeness auto

termination scan_from
  by (relation "measure (\<lambda>(t, s, start). Suc (length s) - start)") (auto dest: find_from_Some)

declare scan_from.simps [simp del]

text \<open>It visits exactly the occurrences.\<close>

lemma scan_from_set: "set (scan_from t s start) = {j. start \<le> j \<and> occurs_at t s j}"
proof (induction t s start rule: scan_from.induct)
  case (1 t s start)
  show ?case
  proof (cases "find_from t s start")
    case None
    then have "scan_from t s start = []" by (subst scan_from.simps) simp
    with None show ?thesis by (simp add: find_from_None)
  next
    case (Some j)
    note f = find_from_Some [OF Some]
    have "scan_from t s start = j # scan_from t s (j + 1)" using Some by (subst scan_from.simps) simp
    then have "set (scan_from t s start) = insert j {i. j + 1 \<le> i \<and> occurs_at t s i}"
      using 1 [OF Some] by simp
    also have "\<dots> = {i. start \<le> i \<and> occurs_at t s i}"
    proof (intro set_eqI iffI)
      fix i assume "i \<in> {i. start \<le> i \<and> occurs_at t s i}"
      then have "\<not> i < j" "occurs_at t s i" using f by blast+
      then show "i \<in> insert j {i. j + 1 \<le> i \<and> occurs_at t s i}" by auto
    qed (use f in auto)
    finally show ?thesis .
  qed
qed

section \<open>Spans\<close>

text \<open>\<open>_merge\<close>, with the output list reversed in the accumulator.\<close>

fun merge_into :: "(nat \<times> nat) list \<Rightarrow> (nat \<times> nat) list \<Rightarrow> (nat \<times> nat) list" where
  "merge_into acc [] = rev acc"
| "merge_into [] (x # xs) = merge_into [x] xs"
| "merge_into ((a, b) # acc) ((s, e) # xs) =
     (if s \<le> b then merge_into ((a, max b e) # acc) xs else merge_into ((s, e) # (a, b) # acc) xs)"

definition merge :: "(nat \<times> nat) list \<Rightarrow> (nat \<times> nat) list" where
  "merge spans = merge_into [] (sort spans)"

definition term_spans :: "pystr \<Rightarrow> nat list \<Rightarrow> pystr \<Rightarrow> (nat \<times> nat) list" where
  "term_spans norm origins t = map (\<lambda>j. (origins ! j, origins ! (j + length t - 1) + 1)) (scan_from t norm 0)"

definition render :: "unicode \<Rightarrow> pystr \<Rightarrow> pystr list \<Rightarrow> pystr \<times> (nat \<times> nat) list" where
  "render U text_original query_terms =
     (let (norm, origins) = normalise_mapped U False text_original;
          ts = filter (\<lambda>t. t \<noteq> []) (map (\<lambda>q. strip U (to_search U q)) query_terms) in
      (text_original, merge (concat (map (term_spans norm origins) ts))))"

definition cover :: "(nat \<times> nat) list \<Rightarrow> nat set" where
  "cover spans = (\<Union>(s, e)\<in>set spans. {s..<e})"

text \<open>Spans in order, pairwise apart.\<close>

definition apart :: "(nat \<times> nat) list \<Rightarrow> bool" where
  "apart spans \<longleftrightarrow> sorted_wrt (\<lambda>(a, b) (s, e). b < s) spans \<and> (\<forall>(s, e)\<in>set spans. s < e)"

lemma cover_simps [simp]:
  "cover [] = {}" "cover ((s, e) # xs) = {s..<e} \<union> cover xs" "cover (xs @ ys) = cover xs \<union> cover ys"
  "cover (rev xs) = cover xs"
  by (auto simp: cover_def)

lemma cover_sort [simp]: "cover (sort xs) = cover xs"
  by (simp add: cover_def)

lemma merge_into_cover:
  assumes "sorted xs" "\<forall>x\<in>set xs. case acc of [] \<Rightarrow> True | (a, b) # _ \<Rightarrow> a \<le> fst x"
  shows "cover (merge_into acc xs) = cover acc \<union> cover xs"
  using assms
proof (induction acc xs rule: merge_into.induct)
  case (2 x xs)
  obtain a b where x: "x = (a, b)" by force
  have "\<forall>y\<in>set xs. a \<le> fst y" using 2(2) by (auto simp: x less_eq_prod_def)
  with 2 show ?case by (simp add: x)
next
  case (3 a b acc s e xs)
  have s: "a \<le> s" using 3(4) by simp
  have le: "\<forall>x\<in>set xs. s \<le> fst x" using 3(3) by (auto simp: less_eq_prod_def)
  show ?case
  proof (cases "s \<le> b")
    case True
    have "cover (merge_into ((a, max b e) # acc) xs) = cover ((a, max b e) # acc) \<union> cover xs"
      using 3 s le True by (intro 3(1)) auto
    moreover have "{a..<max b e} = {a..<b} \<union> {s..<e}" using s True by auto
    ultimately show ?thesis using True by auto
  next
    case False
    have "cover (merge_into ((s, e) # (a, b) # acc) xs) = cover ((s, e) # (a, b) # acc) \<union> cover xs"
      using 3 le False by (intro 3(2)) auto
    then show ?thesis using False by auto
  qed
qed auto

text \<open>The accumulator in reverse is apart, and stays so.\<close>

lemma merge_into_apart:
  assumes "apart (rev acc)" "sorted xs" "\<forall>(s, e)\<in>set xs. s < e"
    "\<forall>x\<in>set xs. case acc of [] \<Rightarrow> True | (a, b) # _ \<Rightarrow> a \<le> fst x"
  shows "apart (merge_into acc xs)"
  using assms
proof (induction acc xs rule: merge_into.induct)
  case (2 x xs)
  obtain a b where x: "x = (a, b)" by force
  have "\<forall>y\<in>set xs. a \<le> fst y" "apart (rev [x])" using 2(3,4) by (auto simp: x less_eq_prod_def apart_def)
  with 2 show ?case by (simp add: x)
next
  case (3 a b acc s e xs)
  have le: "\<forall>x\<in>set xs. s \<le> fst x" using 3(4) by (auto simp: less_eq_prod_def)
  show ?case
  proof (cases "s \<le> b")
    case True
    have "apart (rev ((a, max b e) # acc))" using 3(3,5,6) True by (auto simp: apart_def sorted_wrt_append)
    then show ?thesis using 3 le True by auto
  next
    case False
    have "apart (rev ((s, e) # (a, b) # acc))"
      using 3(3,5) False by (fastforce simp: apart_def sorted_wrt_append)
    then show ?thesis using 3 le False by auto
  qed
qed auto

lemma merge_cover: "cover (merge spans) = cover spans"
  by (simp add: merge_def merge_into_cover)

lemma merge_apart: "\<forall>(s, e)\<in>set spans. s < e \<Longrightarrow> apart (merge spans)"
  unfolding merge_def by (rule merge_into_apart) (auto simp: apart_def)

section \<open>Snippets\<close>

lemma term_span_ok:
  assumes "normalise_mapped U False src = (norm, origins)" "t \<noteq> []" "(s, e) \<in> set (term_spans norm origins t)"
  shows "s < e \<and> e \<le> length src"
proof -
  define r where "r = core U [32] src"
  have n: "norm = map fst r" "origins = map snd r" using assms(1) by (auto simp: normalise_mapped_def r_def Let_def)
  from assms(3) obtain j where j: "occurs_at t norm j" "s = origins ! j" "e = origins ! (j + length t - 1) + 1"
    by (auto simp: term_spans_def scan_from_set)
  have len: "0 < length t" using assms(2) by simp
  have "j + length t \<le> length r" using j(1) n by (simp add: occurs_at_def)
  with len have k: "j + length t - 1 < length r" "j \<le> j + length t - 1" by linarith+
  then have "s \<le> origins ! (j + length t - 1)"
    unfolding j(2) n(2) using core_mono [OF k(2), of U "[32]" src] by (simp add: r_def)
  moreover have "origins ! (j + length t - 1) < length src"
    unfolding n(2) using core_origin(1) [of "j + length t - 1" U "[32]" src] k(1) by (simp add: r_def)
  ultimately show ?thesis using j(3) by simp
qed

lemma render_spans:
  assumes "render U src qs = (shown, spans)"
  shows "shown = src" "apart spans" "cover spans \<subseteq> {0..<length src}"
proof -
  obtain norm origins where m: "normalise_mapped U False src = (norm, origins)" by force
  define raw where "raw = concat (map (term_spans norm origins) (filter (\<lambda>t. t \<noteq> []) (map (\<lambda>q. strip U (to_search U q)) qs)))"
  have r: "shown = src" "spans = merge raw" using assms m by (auto simp: render_def raw_def Let_def)
  have ok: "\<forall>(s, e)\<in>set raw. s < e \<and> e \<le> length src"
    using term_span_ok [OF m] by (auto simp: raw_def)
  show "shown = src" by (rule r(1))
  show "apart spans" unfolding r(2) by (rule merge_apart) (use ok in auto)
  show "cover spans \<subseteq> {0..<length src}" unfolding r(2) merge_cover using ok by (fastforce simp: cover_def)
qed

end
