(* ===== verification/Search_Index.thy ===== *)
theory Search_Index
  imports Vault_Db Search_Text "HOL-Library.Multiset"
begin

text \<open>
  The search index (\<open>search/index.py\<close>). An entry of an external-content FTS5 table is removed by
  the \<open>delete\<close> command with the row id and the old text; the invariant \<open>index_ok\<close> says that both FTS
  tables hold exactly the texts of \<open>search_documents\<close>.
\<close>

definition next_rowid :: "search_doc list \<Rightarrow> nat" where
  "next_rowid t = Suc (foldr (\<lambda>r m. max (sdc_rowid r) m) t 0)"

definition new_doc :: "unicode \<Rightarrow> nat \<Rightarrow> pystr \<Rightarrow> pystr option \<Rightarrow> search_doc" where
  "new_doc U rid mid txt =
     (let s = (case txt of None \<Rightarrow> [] | Some x \<Rightarrow> x) in
      \<lparr>sdc_rowid = rid, sdc_message_id = mid, sdc_normaliser_version = NORMALISER_VERSION,
       sdc_text_search = to_search U s, sdc_text_compact = to_compact U s\<rparr>)"

definition stage_message :: "unicode \<Rightarrow> pystr \<Rightarrow> pystr option \<Rightarrow> vault_db \<Rightarrow> vault_db" where
  "stage_message U mid txt d =
     (case List.find (\<lambda>r. sdc_message_id r = mid) (search_documents d) of
        Some row \<Rightarrow>
          (let doc = new_doc U (sdc_rowid row) mid txt in
           d\<lparr>search_documents := upd (\<lambda>r. sdc_rowid r = sdc_rowid row)
                (\<lambda>r. r\<lparr>sdc_normaliser_version := NORMALISER_VERSION, sdc_text_search := sdc_text_search doc,
                       sdc_text_compact := sdc_text_compact doc\<rparr>) (search_documents d),
             fts_lexical := remove1 (sdc_rowid row, sdc_text_search row) (fts_lexical d) @ [(sdc_rowid row, sdc_text_search doc)],
             fts_compact := remove1 (sdc_rowid row, sdc_text_compact row) (fts_compact d) @ [(sdc_rowid row, sdc_text_compact doc)]\<rparr>)
      | None \<Rightarrow>
          (let doc = new_doc U (next_rowid (search_documents d)) mid txt in
           d\<lparr>search_documents := search_documents d @ [doc],
             fts_lexical := fts_lexical d @ [(sdc_rowid doc, sdc_text_search doc)],
             fts_compact := fts_compact d @ [(sdc_rowid doc, sdc_text_compact doc)]\<rparr>))"

definition index_message :: "unicode \<Rightarrow> pystr \<Rightarrow> pystr option \<Rightarrow> vault \<Rightarrow> vault" where
  "index_message U mid txt c = commit (c\<lparr>work := stage_message U mid txt (work c)\<rparr>)"

definition text_of :: "vault_db \<Rightarrow> pystr \<Rightarrow> pystr option" where
  "text_of d mid = (case List.find (\<lambda>m. msg_id m = mid) (messages d) of None \<Rightarrow> Some [] | Some m \<Rightarrow> msg_text_original m)"

definition stale_ids :: "vault_db \<Rightarrow> pystr list" where
  "stale_ids d = map sdc_message_id (filter (\<lambda>r. sdc_normaliser_version r \<noteq> NORMALISER_VERSION) (search_documents d))"

definition reindex_stale :: "unicode \<Rightarrow> vault \<Rightarrow> nat \<times> vault" where
  "reindex_stale U c =
     (length (stale_ids (work c)),
      commit (c\<lparr>work := fold (\<lambda>mid d. stage_message U mid (text_of d mid) d) (stale_ids (work c)) (work c)\<rparr>))"

definition clear_index :: "vault_db \<Rightarrow> vault_db" where
  "clear_index d = d\<lparr>search_documents := [], fts_lexical := [], fts_compact := []\<rparr>"

definition with_text :: "vault_db \<Rightarrow> message list" where
  "with_text d = filter (\<lambda>m. msg_text_original m \<noteq> None) (messages d)"

definition rebuild_all :: "unicode \<Rightarrow> vault \<Rightarrow> nat \<times> vault" where
  "rebuild_all U c =
     (length (with_text (work c)),
      commit (c\<lparr>work := fold (\<lambda>m d. stage_message U (msg_id m) (msg_text_original m) d) (with_text (work c))
                          (clear_index (work c))\<rparr>))"

section \<open>The invariant\<close>

definition index_ok :: "vault_db \<Rightarrow> bool" where
  "index_ok d \<longleftrightarrow>
     distinct (map sdc_rowid (search_documents d)) \<and> distinct (map sdc_message_id (search_documents d)) \<and>
     mset (fts_lexical d) = mset (map (\<lambda>r. (sdc_rowid r, sdc_text_search r)) (search_documents d)) \<and>
     mset (fts_compact d) = mset (map (\<lambda>r. (sdc_rowid r, sdc_text_compact r)) (search_documents d))"

lemma next_rowid_fresh: "next_rowid t \<notin> sdc_rowid ` set t"
proof -
  have "r \<in> set t \<Longrightarrow> sdc_rowid r \<le> foldr (\<lambda>r m. max (sdc_rowid r) m) t 0" for r
    by (induction t) auto
  then show ?thesis by (fastforce simp: next_rowid_def)
qed

lemma stage_frame [simp]:
  "messages (stage_message U mid txt d) = messages d" "accounts (stage_message U mid txt d) = accounts d"
  "contacts (stage_message U mid txt d) = contacts d" "conversations (stage_message U mid txt d) = conversations d"
  "ingest_events (stage_message U mid txt d) = ingest_events d" "ingest_dlq (stage_message U mid txt d) = ingest_dlq d"
  "ingest_state (stage_message U mid txt d) = ingest_state d"
  "message_import_observations (stage_message U mid txt d) = message_import_observations d"
  "import_batches (stage_message U mid txt d) = import_batches d"
  "import_participants (stage_message U mid txt d) = import_participants d"
  "conversation_sources (stage_message U mid txt d) = conversation_sources d"
  by (simp_all add: stage_message_def Let_def split: option.split)

text \<open>Replacing the text of the one row with a key replaces one element of the multiset of texts.\<close>

lemma mset_upd_one:
  assumes "distinct (map k t)" "row \<in> set t"
  shows "mset (map g (upd (\<lambda>r. k r = k row) f t)) = mset (map g t) - {#g row#} + {#g (f row)#}"
  using assms
proof (induction t)
  case (Cons r t)
  show ?case
  proof (cases "r = row")
    case True
    with Cons.prems(1) have "upd (\<lambda>r. k r = k row) f t = t" by (intro upd_idle) (auto simp: image_iff)
    with True show ?thesis by (simp add: upd_def)
  next
    case False
    with Cons.prems have "k r \<noteq> k row" "row \<in> set t" by auto
    with Cons False show ?thesis by (simp add: upd_def add_mset_commute)
  qed
qed simp

lemma stage_message_ok:
  assumes "index_ok d" shows "index_ok (stage_message U mid txt d)"
proof (cases "List.find (\<lambda>r. sdc_message_id r = mid) (search_documents d)")
  case None
  let ?doc = "new_doc U (next_rowid (search_documents d)) mid txt"
  have "sdc_rowid ?doc \<notin> sdc_rowid ` set (search_documents d)" "sdc_message_id ?doc \<notin> sdc_message_id ` set (search_documents d)"
    using next_rowid_fresh [of "search_documents d"] None by (auto simp: new_doc_def Let_def find_None)
  with None assms show ?thesis by (simp add: stage_message_def index_ok_def Let_def)
next
  case (Some row)
  have row: "row \<in> set (search_documents d)" "sdc_message_id row = mid" using find_SomeD [OF Some] by auto
  let ?doc = "new_doc U (sdc_rowid row) mid txt"
  let ?f = "\<lambda>r. r\<lparr>sdc_normaliser_version := NORMALISER_VERSION, sdc_text_search := sdc_text_search ?doc,
    sdc_text_compact := sdc_text_compact ?doc\<rparr>"
  have d: "distinct (map sdc_rowid (search_documents d))" using assms by (simp add: index_ok_def)
  have m: "mset (map g (upd (\<lambda>r. sdc_rowid r = sdc_rowid row) ?f (search_documents d))) =
      mset (map g (search_documents d)) - {#g row#} + {#g (?f row)#}" for g :: "search_doc \<Rightarrow> nat \<times> pystr"
    by (rule mset_upd_one [OF d row(1)])
  show ?thesis using assms Some
    by (simp add: stage_message_def index_ok_def Let_def map_upd_key m del: mset_map)
qed

section \<open>Rebuilding\<close>

lemma index_ok_clear: "index_ok (clear_index d)"
  by (simp add: index_ok_def clear_index_def)

lemma fold_stage_ok: "index_ok d \<Longrightarrow> index_ok (fold (\<lambda>x d. stage_message U (k x) (g x d) d) xs d)"
  by (induction xs arbitrary: d) (auto intro: stage_message_ok)

lemma fold_stage_messages: "messages (fold (\<lambda>x d. stage_message U (k x) (g x d) d) xs d) = messages d"
  by (induction xs arbitrary: d) auto

definition indexed :: "unicode \<Rightarrow> pystr \<Rightarrow> pystr option \<Rightarrow> search_doc \<Rightarrow> bool" where
  "indexed U mid txt r \<longleftrightarrow> (\<exists>rid. r = new_doc U rid mid txt)"

lemma stage_new:
  assumes "mid \<notin> sdc_message_id ` set (search_documents d)"
  shows "\<exists>r. indexed U mid txt r \<and> search_documents (stage_message U mid txt d) = search_documents d @ [r]"
proof -
  have "List.find (\<lambda>r. sdc_message_id r = mid) (search_documents d) = None" using assms by (auto simp: find_None)
  then show ?thesis by (auto simp: stage_message_def Let_def indexed_def)
qed

lemma indexed_id: "indexed U mid txt r \<Longrightarrow> sdc_message_id r = mid"
  by (auto simp: indexed_def new_doc_def Let_def)

lemma fold_stage_new:
  assumes "distinct (map msg_id ms)" "msg_id ` set ms \<inter> sdc_message_id ` set (search_documents d) = {}"
  shows "\<exists>rs. search_documents (fold (\<lambda>m d. stage_message U (msg_id m) (msg_text_original m) d) ms d) = search_documents d @ rs \<and>
    list_all2 (\<lambda>m r. indexed U (msg_id m) (msg_text_original m) r) ms rs"
  using assms
proof (induction ms arbitrary: d)
  case (Cons m ms)
  obtain r where r: "indexed U (msg_id m) (msg_text_original m) r"
    "search_documents (stage_message U (msg_id m) (msg_text_original m) d) = search_documents d @ [r]"
    using stage_new [of "msg_id m" d U "msg_text_original m"] Cons.prems by auto
  have "msg_id ` set ms \<inter> sdc_message_id ` set (search_documents (stage_message U (msg_id m) (msg_text_original m) d)) = {}"
    using Cons.prems indexed_id [OF r(1)] by (auto simp: r(2))
  from Cons.IH [OF _ this] Cons.prems(1) r show ?case by auto
qed simp

text \<open>After a rebuild the index holds one current row per message with a text, in the order of the messages.\<close>

lemma rebuild_all_exact:
  assumes "distinct (map msg_id (messages (work c)))" "rebuild_all U c = (n, c')"
  shows "clean c'" "index_ok (work c')" "messages (work c') = messages (work c)" "n = length (search_documents (work c'))"
    "list_all2 (\<lambda>m r. indexed U (msg_id m) (msg_text_original m) r) (with_text (work c)) (search_documents (work c'))"
proof -
  let ?ms = "with_text (work c)"
  have w: "work c' = fold (\<lambda>m d. stage_message U (msg_id m) (msg_text_original m) d) ?ms (clear_index (work c))"
    "clean c'" "n = length ?ms" using assms(2) by (auto simp: rebuild_all_def)
  have "distinct (map msg_id ?ms)" using assms(1) by (simp add: with_text_def distinct_map_filter)
  from fold_stage_new [OF this, of "clear_index (work c)" U] obtain rs where
    rs: "search_documents (work c') = rs" "list_all2 (\<lambda>m r. indexed U (msg_id m) (msg_text_original m) r) ?ms rs"
    by (auto simp: w(1) clear_index_def)
  show "clean c'" by (rule w(2))
  show "index_ok (work c')" unfolding w(1) by (rule fold_stage_ok [OF index_ok_clear])
  show "messages (work c') = messages (work c)" by (simp add: w(1) fold_stage_messages clear_index_def)
  show "list_all2 (\<lambda>m r. indexed U (msg_id m) (msg_text_original m) r) ?ms (search_documents (work c'))"
    using rs by simp
  show "n = length (search_documents (work c'))" using rs w(3) by (auto dest: list_all2_lengthD)
qed

section \<open>Stale rows\<close>

lemma stage_versions:
  assumes "index_ok d" "r \<in> set (search_documents (stage_message U mid txt d))"
  shows "sdc_normaliser_version r = NORMALISER_VERSION \<or> (r \<in> set (search_documents d) \<and> sdc_message_id r \<noteq> mid)"
proof (cases "List.find (\<lambda>r. sdc_message_id r = mid) (search_documents d)")
  case None
  with assms show ?thesis by (auto simp: stage_message_def Let_def new_doc_def find_None)
next
  case (Some row)
  have row: "row \<in> set (search_documents d)" "sdc_message_id row = mid" using find_SomeD [OF Some] by auto
  have uniq: "x = row" if "x \<in> set (search_documents d)" "sdc_message_id x = mid" for x
    using assms(1) row that by (auto simp: index_ok_def distinct_map dest: inj_onD)
  from assms(2) Some have "sdc_normaliser_version r = NORMALISER_VERSION \<or>
      (r \<in> set (search_documents d) \<and> sdc_rowid r \<noteq> sdc_rowid row)"
    by (auto simp: stage_message_def Let_def set_upd)
  then show ?thesis using uniq [of r] by blast
qed

lemma reindex_stale_current:
  assumes "index_ok (work c)" "reindex_stale U c = (n, c')"
  shows "index_ok (work c')" "stale_ids (work c') = []" "messages (work c') = messages (work c)"
proof -
  define ids where "ids = stale_ids (work c)"
  have w: "work c' = fold (\<lambda>mid d. stage_message U mid (text_of d mid) d) ids (work c)"
    using assms(2) by (auto simp: reindex_stale_def ids_def)
  show "index_ok (work c')" unfolding w by (rule fold_stage_ok [OF assms(1), where k = id, simplified])
  show "messages (work c') = messages (work c)" unfolding w by (rule fold_stage_messages [where k = id, simplified])
  have gen: "r \<in> set (search_documents (fold (\<lambda>mid d. stage_message U mid (text_of d mid) d) xs d)) \<Longrightarrow>
      index_ok d \<Longrightarrow> sdc_normaliser_version r = NORMALISER_VERSION \<or>
        (r \<in> set (search_documents d) \<and> sdc_message_id r \<notin> set xs)" for r xs d
  proof (induction xs arbitrary: d)
    case (Cons x xs)
    let ?d = "stage_message U x (text_of d x) d"
    have "sdc_normaliser_version r = NORMALISER_VERSION \<or> (r \<in> set (search_documents ?d) \<and> sdc_message_id r \<notin> set xs)"
      using Cons.prems stage_message_ok by (intro Cons.IH) auto
    then show ?case using stage_versions [OF Cons.prems(2), of r U x "text_of d x"] by auto
  qed simp
  have "sdc_normaliser_version r = NORMALISER_VERSION" if "r \<in> set (search_documents (work c'))" for r
    using gen [OF that [unfolded w] assms(1)] by (auto simp: ids_def stale_ids_def)
  then show "stale_ids (work c') = []" by (auto simp: stale_ids_def filter_empty_conv)
qed

end
