(* ===== verification/Consumer.thy ===== *)
theory Consumer
  imports Queue Dlq Webhook Search_Index
begin

text \<open>
  The pull consumer (\<open>apps/ingest/consumer.py\<close>). Fresh ULIDs come from a supply, a sequence of which
  each minted identifier takes the first. \<open>ie_loads\<close> is \<open>json.loads\<close> on bytes and \<open>ie_pint\<close> is \<open>int\<close> on a
  string; \<open>ie_lookup\<close> is the caller's \<open>key_lookup\<close>. The queue is whatever the caller passes: its three
  operations are arguments of \<open>drain_once\<close>. \<open>fault\<close> is the hook that tests use to fail after a commit.
\<close>

type_synonym ulids = "nat \<Rightarrow> pystr"

definition mint :: "string \<Rightarrow> ulids \<Rightarrow> pystr \<times> ulids" where
  "mint p us = (mk_id p (us 0), \<lambda>k. us (Suc k))"

record ingest_env =
  ie_crypto :: crypto
  ie_sealing :: sealing
  ie_unicode :: unicode
  ie_loads :: "bytes \<Rightarrow> exc + json"
  ie_pint :: "pystr \<Rightarrow> exc + int"
  ie_lookup :: "nat \<Rightarrow> bytes option"

section \<open>Rows\<close>

definition get_account :: "json option \<Rightarrow> ulids \<Rightarrow> vault_db \<Rightarrow> (exc + pystr) \<times> ulids \<times> vault_db" where
  "get_account pnid us d =
     (case bind_text pnid of
        Inl e \<Rightarrow> (Inl e, us, d)
      | Inr p \<Rightarrow>
     (case List.find (\<lambda>r. Some (acc_phone_number_id r) = p) (accounts d) of
        Some r \<Rightarrow> (Inr (acc_id r), us, d)
      | None \<Rightarrow>
          (let (aid, us') = mint ''acc'' us in
           case p of
             None \<Rightarrow> (Inl IntegrityError, us', d)
           | Some t \<Rightarrow>
               (case ins_account \<lparr>acc_id = aid, acc_phone_number_id = t\<rparr> d of
                  Inl e \<Rightarrow> (Inl e, us', d) | Inr d' \<Rightarrow> (Inr aid, us', d')))))"

definition get_contact :: "json option \<Rightarrow> json option \<Rightarrow> ulids \<Rightarrow> vault_db \<Rightarrow> (exc + pystr) \<times> ulids \<times> vault_db" where
  "get_contact wa_id name us d =
     (case bind_text wa_id of
        Inl e \<Rightarrow> (Inl e, us, d)
      | Inr w \<Rightarrow>
     (case List.find (\<lambda>r. same_key (cnt_wa_id r) w) (contacts d) of
        Some r \<Rightarrow> (Inr (cnt_id r), us, d)
      | None \<Rightarrow>
          (let (cid, us') = mint ''cnt'' us in
           case bind_text name of
             Inl e \<Rightarrow> (Inl e, us', d)
           | Inr nm \<Rightarrow>
               (case ins_contact \<lparr>cnt_id = cid, cnt_wa_id = w, cnt_display_name = nm, cnt_push_name = None\<rparr> d of
                  Inl e \<Rightarrow> (Inl e, us', d) | Inr d' \<Rightarrow> (Inr cid, us', d')))))"

definition get_conversation :: "pystr \<Rightarrow> json option \<Rightarrow> ulids \<Rightarrow> vault_db \<Rightarrow> (exc + pystr) \<times> ulids \<times> vault_db" where
  "get_conversation account_id wa_chat_id us d =
     (case bind_text wa_chat_id of
        Inl e \<Rightarrow> (Inl e, us, d)
      | Inr w \<Rightarrow>
     (case List.find (\<lambda>r. cnv_account_id r = account_id \<and> same_key (cnv_wa_chat_id r) w) (conversations d) of
        Some r \<Rightarrow> (Inr (cnv_id r), us, d)
      | None \<Rightarrow>
          (let (cid, us') = mint ''cnv'' us in
           case ins_conversation \<lparr>cnv_id = cid, cnv_account_id = account_id, cnv_type = ''dm'', cnv_wa_chat_id = w,
                  cnv_subject = None, cnv_last_message_ms = None, cnv_mcp_visibility = ALLOW_MCP\<rparr> d of
             Inl e \<Rightarrow> (Inl e, us', d) | Inr d' \<Rightarrow> (Inr cid, us', d'))))"

text \<open>What \<open>_apply_rows\<close> returns for a message.\<close>

record applied =
  ap_conversation_id :: pystr
  ap_message_id :: pystr
  ap_text :: "json option"
  ap_provider_ms :: int

text \<open>The message row; \<open>NOT NULL\<close> on the type and the range of SQLite's integers are its failures.\<close>

definition message_row :: "pystr \<Rightarrow> pystr \<Rightarrow> pystr \<Rightarrow> pystr \<Rightarrow> message_rows \<Rightarrow> exc + message" where
  "message_row mid aid cid vid m =
     (case (bind_text (mr_type m), bind_text (mr_text_original m), bind_text (mr_wamid m)) of
        (Inr ty, Inr tx, Inr w) \<Rightarrow>
          (if \<not> int64 (mr_ts_lower_ms m) \<or> \<not> int64 (mr_ts_upper_ms_exclusive m) then Inl OverflowError
           else (case ty of
               None \<Rightarrow> Inl IntegrityError
             | Some t \<Rightarrow>
                 Inr \<lparr>msg_id = mid, msg_account_id = aid, msg_conversation_id = vid, msg_sender_contact_id = Some cid,
                      msg_direction = (if mr_echo m then Out else In), msg_ts_lower_ms = mr_ts_lower_ms m,
                      msg_ts_upper_ms_exclusive = mr_ts_upper_ms_exclusive m, msg_ts_precision = P_s, msg_type = t,
                      msg_text_original = tx, msg_reply_to_wamid = None,
                      msg_origin = (if mr_echo m then business_app_echo else cloud_api),
                      msg_window_eligible = mr_window_eligible m, msg_wamid = w, msg_import_fingerprint = None,
                      msg_delivery_rank = 0\<rparr>))
      | (Inl e, _, _) \<Rightarrow> Inl e
      | (_, Inl e, _) \<Rightarrow> Inl e
      | (_, _, Inl e) \<Rightarrow> Inl e)"

definition status_event_row :: "pystr \<Rightarrow> status_rows \<Rightarrow> exc + status_row" where
  "status_event_row sid s =
     (case (bind_text (sr_wamid s), bind_text (sr_status s), bind_text (sr_recipient_id s)) of
        (Inr w, Inr st, Inr rid) \<Rightarrow>
          (if \<not> int64 (sr_provider_ts_ms s) then Inl OverflowError
           else (case (w, st) of
               (Some w', Some st') \<Rightarrow>
                 Inr \<lparr>ste_id = sid, ste_wamid = w', ste_status = st', ste_provider_ts_ms = sr_provider_ts_ms s,
                      ste_recipient_id = rid\<rparr>
             | _ \<Rightarrow> Inl IntegrityError))
      | (Inl e, _, _) \<Rightarrow> Inl e
      | (_, Inl e, _) \<Rightarrow> Inl e
      | (_, _, Inl e) \<Rightarrow> Inl e)"

fun apply_rows :: "rows \<Rightarrow> ulids \<Rightarrow> vault_db \<Rightarrow> (exc + applied option) \<times> ulids \<times> vault_db" where
  "apply_rows (MessageRows fam m) us d =
     (case get_account (mr_phone_number_id m) us d of
        (Inl e, us1, d1) \<Rightarrow> (Inl e, us1, d1)
      | (Inr aid, us1, d1) \<Rightarrow>
     (case get_contact (mr_from m) (mr_name m) us1 d1 of
        (Inl e, us2, d2) \<Rightarrow> (Inl e, us2, d2)
      | (Inr cid, us2, d2) \<Rightarrow>
     (case get_conversation aid (mr_from m) us2 d2 of
        (Inl e, us3, d3) \<Rightarrow> (Inl e, us3, d3)
      | (Inr vid, us3, d3) \<Rightarrow>
          (let (mid, us4) = mint ''msg'' us3 in
           case message_row mid aid cid vid m of
             Inl e \<Rightarrow> (Inl e, us4, d3)
           | Inr r \<Rightarrow>
               (case ins_message r d3 of
                  Inl e \<Rightarrow> (Inl e, us4, d3)
                | Inr d4 \<Rightarrow> (Inr (Some \<lparr>ap_conversation_id = vid, ap_message_id = mid, ap_text = mr_text_original m,
                                       ap_provider_ms = mr_ts_lower_ms m\<rparr>), us4, d4))))))"
| "apply_rows (StatusRows s) us d =
     (let (sid, us') = mint ''evt'' us in
      case status_event_row sid s of
        Inl e \<Rightarrow> (Inl e, us', d)
      | Inr r \<Rightarrow> (case ins_status r d of Inl e \<Rightarrow> (Inl e, us', d) | Inr d' \<Rightarrow> (Inr None, us', d')))"
| "apply_rows (NoRows fam) us d = (Inr None, us, d)"

fun provider_ts :: "rows \<Rightarrow> int option" where
  "provider_ts (MessageRows _ m) = Some (mr_ts_lower_ms m)"
| "provider_ts (StatusRows s) = Some (sr_provider_ts_ms s)"
| "provider_ts (NoRows _) = None"

section \<open>One atom\<close>

definition family_name :: "family \<Rightarrow> string" where
  "family_name f = (case f of MESSAGE_INBOUND \<Rightarrow> ''MESSAGE_INBOUND'' | MESSAGE_ECHO \<Rightarrow> ''MESSAGE_ECHO''
     | MESSAGE_STATUS \<Rightarrow> ''MESSAGE_STATUS'' | UNKNOWN_SUPPORTED \<Rightarrow> ''UNKNOWN_SUPPORTED'')"

record ingest =
  vlt :: vault
  ctl_conn :: control
  fresh :: ulids

text \<open>The parameters of the ledger insert.\<close>

definition ledger_row :: "ingest_env \<Rightarrow> pystr \<Rightarrow> atom \<Rightarrow> family \<Rightarrow> pystr \<Rightarrow> rows \<Rightarrow> bytes \<Rightarrow> int \<Rightarrow> exc + event_row" where
  "ledger_row E eid a fam key rws raw now_ms =
     (case getk ''id'' (orelse (JObj []) (Some (at_raw a))) of
        Inl e \<Rightarrow> Inl e
      | Inr x \<Rightarrow>
     (case bind_text x of
        Inl e \<Rightarrow> Inl e
      | Inr ext \<Rightarrow>
          (if \<not> int64 now_ms \<or> (case provider_ts rws of None \<Rightarrow> False | Some t \<Rightarrow> \<not> int64 t) then Inl OverflowError
           else Inr \<lparr>evt_id = eid, evt_provider = ''meta'', evt_external_event_id = ext, evt_semantic_event_key = key,
                     evt_family = family_name fam, evt_provider_ts_ms = provider_ts rws, evt_received_at_ms = now_ms,
                     evt_raw_payload_sha256 = hex_of (sha256 (ie_crypto E) raw), evt_raw_payload = raw\<rparr>)))"

text \<open>The transaction: \<open>INSERT OR IGNORE\<close> into the ledger, the domain rows, \<open>COMMIT\<close>, or \<open>ROLLBACK\<close> and re-raise.\<close>

datatype outcome = Duplicate | Applied "applied option"

definition atom_txn :: "event_row \<Rightarrow> rows \<Rightarrow> ulids \<Rightarrow> vault \<Rightarrow> (exc + outcome) \<times> ulids \<times> vault" where
  "atom_txn ev rws us v =
     (case ins_event ev (work v) of
        Inl _ \<Rightarrow> (Inr Duplicate, us, commit v)
      | Inr d1 \<Rightarrow>
     (case apply_rows rws us d1 of
        (Inl e, us', d2) \<Rightarrow> (Inl e, us', rollback (v\<lparr>work := d2\<rparr>))
      | (Inr ap, us', d2) \<Rightarrow> (Inr (Applied ap), us', commit (v\<lparr>work := d2\<rparr>))))"

text \<open>Indexing failures are swallowed: a text that is no string is not indexed.\<close>

definition index_applied :: "unicode \<Rightarrow> applied \<Rightarrow> vault \<Rightarrow> vault" where
  "index_applied U ap v =
     (case ap_text ap of
        Some (JStr s) \<Rightarrow> index_message U (ap_message_id ap) (Some s) v
      | Some x \<Rightarrow> if jtrue x then v else index_message U (ap_message_id ap) None v
      | None \<Rightarrow> index_message U (ap_message_id ap) None v)"

definition project :: "ingest_env \<Rightarrow> family \<Rightarrow> applied option \<Rightarrow> ingest \<Rightarrow> (exc + unit) \<times> ingest" where
  "project E fam ap s =
     (case (fam, ap) of
        (MESSAGE_INBOUND, Some a) \<Rightarrow>
          (case advance_window (ap_conversation_id a) (ap_provider_ms a) (ctl_conn s) of
             (Inl e, c) \<Rightarrow> (Inl e, s\<lparr>ctl_conn := c\<rparr>)
           | (Inr _, c) \<Rightarrow> (Inr (), s\<lparr>ctl_conn := c, vlt := index_applied (ie_unicode E) a (vlt s)\<rparr>))
      | _ \<Rightarrow> (Inr (), s))"

definition process_atom :: "ingest_env \<Rightarrow> int \<Rightarrow> exc option \<Rightarrow> atom \<Rightarrow> ingest \<Rightarrow> (exc + unit) \<times> ingest" where
  "process_atom E now_ms fault a s =
     (case semantic_key (ie_crypto E) (ie_pint E) a of
        Inl e \<Rightarrow> (Inl e, s)
      | Inr (fam, key) \<Rightarrow>
     (case to_rows (ie_pint E) a of
        Inl e \<Rightarrow> (Inl e, s)
      | Inr rws \<Rightarrow>
     (case utf8 (spaced (at_raw a)) of
        Inl e \<Rightarrow> (Inl e, s)
      | Inr raw \<Rightarrow>
          (let (eid, us) = mint ''evt'' (fresh s) in
           case ledger_row E eid a fam key rws raw now_ms of
             Inl e \<Rightarrow> (Inl e, s\<lparr>fresh := us, vlt := rollback (vlt s)\<rparr>)
           | Inr ev \<Rightarrow>
          (case atom_txn ev rws us (vlt s) of
             (Inl e, us', v) \<Rightarrow> (Inl e, s\<lparr>fresh := us', vlt := v\<rparr>)
           | (Inr Duplicate, us', v) \<Rightarrow> (Inr (), s\<lparr>fresh := us', vlt := v\<rparr>)
           | (Inr (Applied ap), us', v) \<Rightarrow>
               (case project E fam ap (s\<lparr>fresh := us', vlt := v\<rparr>) of
                  (Inl e, s') \<Rightarrow> (Inl e, s')
                | (Inr _, s') \<Rightarrow> ((case fault of None \<Rightarrow> Inr () | Some e \<Rightarrow> Inl e), s')))))))"

primrec process_atoms :: "ingest_env \<Rightarrow> int \<Rightarrow> exc option \<Rightarrow> atom list \<Rightarrow> ingest \<Rightarrow> (exc + unit) \<times> ingest" where
  "process_atoms E now_ms fault [] s = (Inr (), s)"
| "process_atoms E now_ms fault (a # as) s =
     (case process_atom E now_ms fault a s of
        (Inl e, s') \<Rightarrow> (Inl e, s')
      | (Inr _, s') \<Rightarrow> process_atoms E now_ms fault as s')"

definition atoms_of :: "ingest_env \<Rightarrow> bytes \<Rightarrow> exc + atom list" where
  "atoms_of E pt = (case ie_loads E pt of Inl e \<Rightarrow> Inl e | Inr j \<Rightarrow> split_webhook j)"

definition process_payload :: "ingest_env \<Rightarrow> bytes \<Rightarrow> int \<Rightarrow> exc option \<Rightarrow> ingest \<Rightarrow> (exc + unit) \<times> ingest" where
  "process_payload E pt now_ms fault s =
     (case atoms_of E pt of Inl e \<Rightarrow> (Inl e, s) | Inr as \<Rightarrow> process_atoms E now_ms fault as s)"

section \<open>Draining\<close>

record counts =
  n_leased :: nat
  n_poison :: nat
  n_transient :: nat
  n_systemic :: nat
  n_durable :: nat
  n_acked :: nat
  n_circuit :: circuit

record 'q drain =
  dq :: 'q
  st :: ingest
  health :: "nat list"
  to_ack :: "pystr list"
  cnt :: counts

definition quarantine_lease ::
  "ingest_env \<Rightarrow> string \<Rightarrow> string \<Rightarrow> int \<Rightarrow> pystr \<times> bytes \<Rightarrow> 'q drain \<Rightarrow> (exc + unit) \<times> 'q drain" where
  "quarantine_lease E cls code now_ms lm D =
     (let us = fresh (st D);
          (r, v) = quarantine (ie_crypto E) (us 0) (snd lm) cls code ''decrypt'' (Some (lit ''stage=decrypt'')) now_ms (vlt (st D));
          D1 = D\<lparr>cnt := (cnt D)\<lparr>n_poison := Suc (n_poison (cnt D))\<rparr>, st := (st D)\<lparr>vlt := v, fresh := \<lambda>k. us (Suc k)\<rparr>\<rparr>
      in case r of Inl e \<Rightarrow> (Inl e, D1) | Inr _ \<Rightarrow> (Inr (), D1\<lparr>to_ack := to_ack D1 @ [fst lm]\<rparr>))"

definition nack_lease :: "(pystr list \<Rightarrow> 'q \<Rightarrow> 'q) \<Rightarrow> pystr \<times> bytes \<Rightarrow> 'q drain \<Rightarrow> 'q drain" where
  "nack_lease nack lm D = D\<lparr>cnt := (cnt D)\<lparr>n_transient := Suc (n_transient (cnt D))\<rparr>, dq := nack [fst lm] (dq D)\<rparr>"

text \<open>One leased message: go on with the next, or stop leasing (\<open>break\<close>), or an exception that escapes.\<close>

datatype verdict = Next | Break

definition drain_one ::
  "(pystr list \<Rightarrow> 'q \<Rightarrow> 'q) \<Rightarrow> ingest_env \<Rightarrow> int \<Rightarrow> exc option \<Rightarrow> pystr \<times> bytes \<Rightarrow> 'q drain \<Rightarrow> (exc + verdict) \<times> 'q drain" where
  "drain_one nack E now_ms fault lm D =
     (case open_edge (ie_crypto E) (ie_sealing E) (ie_lookup E) (snd lm) of
        Inr (pt, hdr) \<Rightarrow>
          (let D1 = D\<lparr>health := eh_recipient_key_id hdr # health D\<rparr> in
           case process_payload E pt now_ms fault (st D1) of
             (Inl _, s') \<Rightarrow> (Inr Next, nack_lease nack lm (D1\<lparr>st := s'\<rparr>))
           | (Inr _, s') \<Rightarrow> (Inr Next, D1\<lparr>st := s', to_ack := to_ack D1 @ [fst lm],
                                        cnt := (cnt D1)\<lparr>n_durable := Suc (n_durable (cnt D1))\<rparr>\<rparr>))
      | Inl e \<Rightarrow>
          if e = KeyUnavailable then (Inr Next, nack_lease nack lm D)
          else if e = BadEnvelope then
            (case quarantine_lease E ''POISON_MALFORMED'' ''bad_envelope'' now_ms lm D of
               (Inl e', D') \<Rightarrow> (Inl e', D') | (Inr _, D') \<Rightarrow> (Inr Next, D'))
          else if e = AeadAuthFailed then
            (let key_id = (case parse_header (ie_crypto E) (snd lm) of Inl _ \<Rightarrow> None | Inr h \<Rightarrow> Some (eh_recipient_key_id h));
                 healthy = (case key_id of None \<Rightarrow> False | Some k \<Rightarrow> k \<in> set (health D));
                 cls = classify_decrypt_error e healthy
             in if cls = ''AEAD_AUTH_FAILED_ISOLATED'' then
                  (case quarantine_lease E cls ''aead'' now_ms lm D of
                     (Inl e', D') \<Rightarrow> (Inl e', D') | (Inr _, D') \<Rightarrow> (Inr Next, D'))
                else
                  (Inr Break, D\<lparr>cnt := (cnt D)\<lparr>n_systemic := Suc (n_systemic (cnt D))\<rparr>,
                     st := (st D)\<lparr>vlt := trip (Some (lit ''systemic decrypt failure key='' @
                       (case key_id of None \<Rightarrow> lit ''None'' | Some k \<Rightarrow> nat_dec k))) now_ms (vlt (st D))\<rparr>\<rparr>))
          else (Inl e, D))"

primrec drain_loop ::
  "(pystr list \<Rightarrow> 'q \<Rightarrow> 'q) \<Rightarrow> ingest_env \<Rightarrow> int \<Rightarrow> exc option \<Rightarrow> (pystr \<times> bytes) list \<Rightarrow> 'q drain \<Rightarrow> (exc + unit) \<times> 'q drain" where
  "drain_loop nack E now_ms fault [] D = (Inr (), D)"
| "drain_loop nack E now_ms fault (lm # ls) D =
     (case drain_one nack E now_ms fault lm D of
        (Inl e, D') \<Rightarrow> (Inl e, D')
      | (Inr Break, D') \<Rightarrow> (Inr (), D')
      | (Inr Next, D') \<Rightarrow> drain_loop nack E now_ms fault ls D')"

definition no_counts :: "nat \<Rightarrow> circuit \<Rightarrow> counts" where
  "no_counts n ci = \<lparr>n_leased = n, n_poison = 0, n_transient = 0, n_systemic = 0, n_durable = 0, n_acked = 0, n_circuit = ci\<rparr>"

definition drain_once ::
  "(nat \<Rightarrow> 'q \<Rightarrow> (pystr \<times> bytes) list \<times> 'q) \<Rightarrow> (pystr list \<Rightarrow> 'q \<Rightarrow> 'q) \<Rightarrow> (pystr list \<Rightarrow> 'q \<Rightarrow> 'q) \<Rightarrow>
   ingest_env \<Rightarrow> int \<Rightarrow> exc option \<Rightarrow> nat \<Rightarrow> nat list \<Rightarrow> 'q \<Rightarrow> ingest \<Rightarrow> (exc + counts) \<times> 'q drain" where
  "drain_once lease ack nack E now_ms fault max_lease key_health q s =
     (if circuit_state (work (vlt s)) = OPEN then
        (Inr (no_counts 0 OPEN), \<lparr>dq = q, st = s, health = key_health, to_ack = [], cnt = no_counts 0 OPEN\<rparr>)
      else
        (let (leased, q1) = lease max_lease q;
             (r, D) = drain_loop nack E now_ms fault leased
                        \<lparr>dq = q1, st = s, health = key_health, to_ack = [], cnt = no_counts (length leased) CLOSED\<rparr>
         in case r of
              Inl e \<Rightarrow> (Inl e, D)
            | Inr _ \<Rightarrow>
                (let D' = D\<lparr>dq := ack (to_ack D) (dq D),
                            cnt := (cnt D)\<lparr>n_acked := length (to_ack D), n_circuit := circuit_state (work (vlt (st D)))\<rparr>\<rparr>
                 in (Inr (cnt D'), D'))))"

end
