(* ===== verification/Consumer_Safety.thy ===== *)
theory Consumer_Safety
  imports Consumer
begin

text \<open>
  What the consumer guarantees: an acknowledged message is settled (every atom in the durable dedupe
  ledger, or the envelope in the dead-letter queue), no event is applied twice, the ledger and
  the dead-letter queue only grow, and the windows only move forward.
\<close>

section \<open>Supplies\<close>

definition later :: "ulids \<Rightarrow> ulids \<Rightarrow> bool" where
  "later us us' \<longleftrightarrow> (\<exists>k. us' = (\<lambda>i. us (i + k)))"

lemma later_refl [simp, intro]: "later us us"
  by (auto simp: later_def intro: exI [of _ 0])

lemma later_trans [trans]: "later a b \<Longrightarrow> later b c \<Longrightarrow> later a c"
  by (auto simp: later_def add.assoc)

lemma mint_later: "mint p us = (i, us') \<Longrightarrow> i = mk_id p (us 0) \<and> us' = (\<lambda>k. us (Suc k)) \<and> later us us'"
  by (auto simp: mint_def later_def intro: exI [of _ "Suc 0"])

text \<open>The identifiers to come are new to the ledger.\<close>

definition fresh_ok :: "ulids \<Rightarrow> vault_db \<Rightarrow> bool" where
  "fresh_ok us d \<longleftrightarrow> inj us \<and> (\<forall>k. mk_id ''evt'' (us k) \<notin> evt_id ` set (ingest_events d))"

lemma fresh_ok_later: "fresh_ok us d \<Longrightarrow> later us us' \<Longrightarrow> ingest_events d' = ingest_events d \<Longrightarrow> fresh_ok us' d'"
  by (auto simp: fresh_ok_def later_def intro!: injI dest: injD)

lemma fresh_ok_used:
  assumes "fresh_ok us d" "ingest_events d' = ingest_events d @ [e]" "evt_id e = mk_id ''evt'' (us 0)"
  shows "fresh_ok (\<lambda>k. us (Suc k)) d'"
proof -
  have "us (Suc k) \<noteq> us 0" for k using assms(1) by (simp add: fresh_ok_def inj_eq)
  then show ?thesis using assms by (auto simp: fresh_ok_def inj_def)
qed

section \<open>Growth of the vault\<close>

text \<open>The evidence only grows, by at most one domain row for each new ledger entry.\<close>

definition rows_of :: "vault_db \<Rightarrow> nat" where
  "rows_of d = length (messages d) + length (message_status_events d)"

definition grown :: "vault_db \<Rightarrow> vault_db \<Rightarrow> bool" where
  "grown d d' \<longleftrightarrow> set (messages d) \<subseteq> set (messages d') \<and> set (ledger d) \<subseteq> set (ledger d') \<and>
     set (ingest_dlq d) \<subseteq> set (ingest_dlq d') \<and> rows_of d' + length (ledger d) \<le> rows_of d + length (ledger d') \<and>
     length (ledger d) \<le> length (ledger d')"

lemma grown_refl [simp, intro]: "grown d d"
  by (simp add: grown_def)

lemma grown_trans [trans]: "grown a b \<Longrightarrow> grown b c \<Longrightarrow> grown a c"
  by (auto simp: grown_def)

text \<open>The lookups-or-inserts touch the directory tables only.\<close>

definition directory_frame :: "vault_db \<Rightarrow> vault_db \<Rightarrow> bool" where
  "directory_frame d d' \<longleftrightarrow> messages d' = messages d \<and> ingest_events d' = ingest_events d \<and> ingest_dlq d' = ingest_dlq d \<and>
     ingest_state d' = ingest_state d \<and> message_status_events d' = message_status_events d \<and>
     search_documents d' = search_documents d \<and> fts_lexical d' = fts_lexical d \<and> fts_compact d' = fts_compact d \<and>
     set (accounts d) \<subseteq> set (accounts d') \<and> set (contacts d) \<subseteq> set (contacts d') \<and>
     set (conversations d) \<subseteq> set (conversations d')"

lemma directory_frame_trans [trans]: "directory_frame a b \<Longrightarrow> directory_frame b c \<Longrightarrow> directory_frame a c"
  by (auto simp: directory_frame_def)

lemma directory_frame_refl [simp]: "directory_frame d d"
  by (simp add: directory_frame_def)

lemma directory_frame_inv: "directory_frame d d' \<Longrightarrow> vault_inv d \<Longrightarrow> vault_inv d'"
  by (rule vault_inv_grow) (auto simp: directory_frame_def)

lemma get_account_frame: "get_account p us d = (r, us', d') \<Longrightarrow> directory_frame d d' \<and> later us us'"
  by (auto simp: get_account_def directory_frame_def mint_def later_def split: sum.splits option.splits prod.splits
      dest!: ins_vault_Inr(1) intro: exI [of _ "Suc 0"] exI [of _ 0])

lemma get_contact_frame: "get_contact w n us d = (r, us', d') \<Longrightarrow> directory_frame d d' \<and> later us us'"
  by (auto simp: get_contact_def directory_frame_def mint_def later_def split: sum.splits option.splits prod.splits
      dest!: ins_vault_Inr(2) intro: exI [of _ "Suc 0"] exI [of _ 0])

lemma get_conversation_frame: "get_conversation a w us d = (r, us', d') \<Longrightarrow> directory_frame d d' \<and> later us us'"
  by (auto simp: get_conversation_def directory_frame_def mint_def later_def split: sum.splits option.splits prod.splits
      dest!: ins_vault_Inr(3) intro: exI [of _ "Suc 0"] exI [of _ 0])

definition rows_frame :: "vault_db \<Rightarrow> vault_db \<Rightarrow> bool" where
  "rows_frame d d' \<longleftrightarrow> ingest_events d' = ingest_events d \<and> ingest_dlq d' = ingest_dlq d \<and> ingest_state d' = ingest_state d \<and>
     search_documents d' = search_documents d \<and> fts_lexical d' = fts_lexical d \<and> fts_compact d' = fts_compact d \<and>
     set (messages d) \<subseteq> set (messages d') \<and> rows_of d' \<le> Suc (rows_of d) \<and> (vault_inv d \<longrightarrow> vault_inv d')"

text \<open>The message branch, step by step.\<close>

lemma apply_message_cases:
  assumes "apply_rows (MessageRows fam m) us d = (r, us', d')"
  obtains (failed) e where "r = Inl e" "directory_frame d d'" "later us us'"
  | (stored) aid cid vid d3 us3 row where "directory_frame d d3" "later us us3" "us' = (\<lambda>k. us3 (Suc k))"
      "message_row (mk_id ''msg'' (us3 0)) aid cid vid m = Inr row" "ins_message row d3 = Inr d'"
      "r = Inr (Some \<lparr>ap_conversation_id = vid, ap_message_id = mk_id ''msg'' (us3 0), ap_text = mr_text_original m,
                       ap_provider_ms = mr_ts_lower_ms m\<rparr>)"
proof -
  obtain r1 us1 d1 where 1: "get_account (mr_phone_number_id m) us d = (r1, us1, d1)" by (metis prod_cases3)
  note f1 = get_account_frame [OF 1]
  show thesis
  proof (cases r1)
    case (Inl e)
    with 1 assms f1 show thesis by (intro failed [of e]) auto
  next
    case r1: (Inr aid)
    obtain r2 us2 d2 where 2: "get_contact (mr_from m) (mr_name m) us1 d1 = (r2, us2, d2)" by (metis prod_cases3)
    note f2 = get_contact_frame [OF 2]
    then have f12: "directory_frame d d2" "later us us2"
      using f1 directory_frame_trans later_trans by blast+
    show thesis
    proof (cases r2)
      case (Inl e)
      with 1 2 r1 assms f12 show thesis by (intro failed [of e]) auto
    next
      case r2: (Inr cid)
      obtain r3 us3 d3 where 3: "get_conversation aid (mr_from m) us2 d2 = (r3, us3, d3)" by (metis prod_cases3)
      note f3 = get_conversation_frame [OF 3]
      then have f: "directory_frame d d3" "later us us3"
        using f12 directory_frame_trans later_trans by blast+
      have l: "later us (\<lambda>k. us3 (Suc k))"
        using f(2) mint_later [of x us3 "mk_id x (us3 0)" "\<lambda>k. us3 (Suc k)" for x] later_trans by (auto simp: mint_def)
      show thesis using 1 2 3 r1 r2 assms f l
        by (cases r3) (auto simp: mint_def split: sum.splits intro: failed stored)
    qed
  qed
qed

lemma apply_rows_frame:
  assumes "apply_rows rws us d = (r, us', d')"
  shows "rows_frame d d' \<and> later us us'"
proof (cases rws)
  case (MessageRows fam m)
  show ?thesis using assms unfolding MessageRows
  proof (cases rule: apply_message_cases)
    case (failed e)
    then show ?thesis by (auto simp: rows_frame_def directory_frame_def rows_of_def intro: directory_frame_inv)
  next
    case (stored aid cid vid d3 us3 row)
    from ins_vault_Inr(4) [OF stored(5)] have "d' = d3\<lparr>messages := messages d3 @ [row]\<rparr>" by simp
    moreover have "vault_inv d \<longrightarrow> vault_inv d'"
      using ins_message_inv [OF _ stored(5)] directory_frame_inv [OF stored(1)] by blast
    moreover have "later us3 us'" unfolding stored(3) by (auto simp: later_def intro: exI [of _ "Suc 0"])
    then have "later us us'" using later_trans [OF stored(2)] by blast
    ultimately show ?thesis using stored(1) by (auto simp: rows_frame_def directory_frame_def rows_of_def)
  qed
next
  case (StatusRows s)
  have inv: "vault_inv d \<Longrightarrow> vault_inv (d\<lparr>message_status_events := x\<rparr>)" for x
    by (erule vault_inv_grow) simp_all
  have l: "later us (\<lambda>k. us (Suc k))" by (auto simp: later_def intro: exI [of _ "Suc 0"])
  show ?thesis
  proof (cases "status_event_row (mk_id ''evt'' (us 0)) s")
    case (Inl e)
    with assms StatusRows l show ?thesis by (simp add: mint_def rows_frame_def)
  next
    case (Inr row)
    with assms StatusRows l inv show ?thesis
      by (cases "ins_status row d") (auto simp: mint_def rows_frame_def rows_of_def dest!: ins_vault_Inr(5))
  qed
next
  case (NoRows fam)
  with assms show ?thesis by (simp add: rows_frame_def)
qed


section \<open>The transaction of an atom\<close>

lemma commit_clean [simp]: "clean v \<Longrightarrow> commit v = v"
  by (simp add: clean_def commit_def)

lemma rollback_clean: "clean v \<Longrightarrow> rollback (v\<lparr>work := d\<rparr>) = v"
  by (simp add: clean_def rollback_def)

lemma atom_txn_cases:
  assumes "atom_txn ev rws us v = (r, us', v')" "clean v"
  obtains (dup) e where "r = Inr Duplicate" "us' = us" "v' = v" "ins_event ev (work v) = Inl e"
  | (fail) e where "r = Inl e" "later us us'" "v' = v"
  | (ok) d1 d2 ap where "r = Inr (Applied ap)" "ins_event ev (work v) = Inr d1" "apply_rows rws us d1 = (Inr ap, us', d2)"
      "v' = commit (v\<lparr>work := d2\<rparr>)"
proof (cases "ins_event ev (work v)")
  case (Inl e)
  with assms show thesis by (intro dup) (auto simp: atom_txn_def)
next
  case d1: (Inr d1)
  obtain x us2 d2 where a: "apply_rows rws us d1 = (x, us2, d2)" by (metis prod_cases3)
  show thesis
  proof (cases x)
    case (Inl e)
    with assms d1 a apply_rows_frame [OF a] show thesis by (intro fail [of e]) (auto simp: atom_txn_def rollback_clean)
  next
    case (Inr ap)
    with assms d1 a show thesis by (intro ok [of ap d1 d2]) (auto simp: atom_txn_def)
  qed
qed

lemma applied_grown:
  assumes "ins_event ev d = Inr d1" "apply_rows rws us d1 = (Inr ap, us', d2)"
  shows "grown d d2" "event_key ev \<in> set (ledger d2)" "vault_inv d \<Longrightarrow> vault_inv d2" "later us us'"
    "ingest_events d2 = ingest_events d @ [ev]"
proof -
  from ins_vault_Inr(6) [OF assms(1)] have d1: "d1 = d\<lparr>ingest_events := ingest_events d @ [ev]\<rparr>" by simp
  note f = apply_rows_frame [OF assms(2)]
  show "ingest_events d2 = ingest_events d @ [ev]" using f by (simp add: d1 rows_frame_def)
  then show "grown d d2" "event_key ev \<in> set (ledger d2)" using f
    by (auto simp: d1 rows_frame_def grown_def ledger_def rows_of_def)
  show "vault_inv d \<Longrightarrow> vault_inv d2" "later us us'" using f ins_event_inv [OF _ assms(1)] by (auto simp: rows_frame_def)
qed

text \<open>A refused ledger insert under a fresh identifier means that the key is there.\<close>

lemma refused_seen:
  "ins_event ev d = Inl e \<Longrightarrow> evt_id ev \<notin> evt_id ` set (ingest_events d) \<Longrightarrow> event_key ev \<in> set (ledger d)"
  by (auto simp: ins_event_def ins_Inl ledger_def image_iff split: sum.splits)

lemma seen_refused: "event_key ev \<in> set (ledger d) \<Longrightarrow> \<exists>e. ins_event ev d = Inl e"
  using ledger_gate.refuses_seen [of "event_key ev" d ev] by (simp add: with_key_def event_key_def)

section \<open>Indexing and windows\<close>

lemma index_applied_frame:
  assumes "clean v"
  shows "clean (index_applied U ap v)" "grown (work v) (work (index_applied U ap v))"
    "ingest_events (work (index_applied U ap v)) = ingest_events (work v)"
    "messages (work (index_applied U ap v)) = messages (work v)"
    "vault_inv (work v) \<Longrightarrow> vault_inv (work (index_applied U ap v))"
    "index_ok (work v) \<Longrightarrow> index_ok (work (index_applied U ap v))"
    "ingest_state (work (index_applied U ap v)) = ingest_state (work v)"
proof -
  have i: "clean (index_message U m t v)" "grown (work v) (work (index_message U m t v))"
    "ingest_events (work (index_message U m t v)) = ingest_events (work v)"
    "messages (work (index_message U m t v)) = messages (work v)"
    "vault_inv (work v) \<Longrightarrow> vault_inv (work (index_message U m t v))"
    "index_ok (work v) \<Longrightarrow> index_ok (work (index_message U m t v))"
    "ingest_state (work (index_message U m t v)) = ingest_state (work v)" for m t
  proof -
    have "message_status_events (stage_message U m t d) = message_status_events d" for d
      by (simp add: stage_message_def Let_def split: option.split)
    then show "grown (work v) (work (index_message U m t v))"
      by (simp add: index_message_def grown_def ledger_def rows_of_def)
    show "vault_inv (work v) \<Longrightarrow> vault_inv (work (index_message U m t v))"
      by (erule vault_inv_grow) (simp_all add: index_message_def)
  qed (simp_all add: index_message_def stage_message_ok)
  show "clean (index_applied U ap v)" "grown (work v) (work (index_applied U ap v))"
    "ingest_events (work (index_applied U ap v)) = ingest_events (work v)"
    "messages (work (index_applied U ap v)) = messages (work v)"
    "vault_inv (work v) \<Longrightarrow> vault_inv (work (index_applied U ap v))"
    "index_ok (work v) \<Longrightarrow> index_ok (work (index_applied U ap v))"
    "ingest_state (work (index_applied U ap v)) = ingest_state (work v)"
    using i assms by (auto simp: index_applied_def split: option.split json.split)
qed

definition forward :: "control \<Rightarrow> control \<Rightarrow> bool" where
  "forward c c' \<longleftrightarrow> (windows_ok (work c) \<longrightarrow> windows_ok (work c') \<and> (\<forall>j. last_inbound (work c) j \<le> last_inbound (work c') j))"

lemma forward_refl [simp]: "forward c c"
  by (simp add: forward_def)

lemma forward_trans [trans]: "forward a b \<Longrightarrow> forward b c \<Longrightarrow> forward a c"
  by (meson forward_def order_trans)

lemma advance_forward: "advance_window i ms c = (r, c') \<Longrightarrow> forward c c'"
  unfolding forward_def by (auto elim: advance_window_total [of c i ms])

lemma project_cases:
  assumes "project E fam ap s = (r, s')"
  obtains (none) "r = Inr ()" "s' = s" "\<not> (fam = MESSAGE_INBOUND \<and> ap \<noteq> None)"
  | (stuck) a e c where "fam = MESSAGE_INBOUND" "ap = Some a" "r = Inl e"
      "advance_window (ap_conversation_id a) (ap_provider_ms a) (ctl_conn s) = (Inl e, c)" "s' = s\<lparr>ctl_conn := c\<rparr>"
  | (moved) a n c where "fam = MESSAGE_INBOUND" "ap = Some a" "r = Inr ()"
      "advance_window (ap_conversation_id a) (ap_provider_ms a) (ctl_conn s) = (Inr n, c)"
      "s' = s\<lparr>ctl_conn := c, vlt := index_applied (ie_unicode E) a (vlt s)\<rparr>"
  using assms by (cases fam; cases ap) (auto simp: project_def split: sum.splits prod.splits)

lemma project_frame:
  assumes "project E fam ap s = (r, s')" "clean (vlt s)"
  shows "clean (vlt s')" "grown (work (vlt s)) (work (vlt s'))" "ingest_events (work (vlt s')) = ingest_events (work (vlt s))"
    "vault_inv (work (vlt s)) \<Longrightarrow> vault_inv (work (vlt s'))" "fresh s' = fresh s" "forward (ctl_conn s) (ctl_conn s')"
  using assms(1) by (cases rule: project_cases; use assms(2) index_applied_frame in \<open>auto dest: advance_forward\<close>)+

section \<open>Atoms and payloads\<close>

definition ing_ok :: "ingest \<Rightarrow> bool" where
  "ing_ok s \<longleftrightarrow> clean (vlt s) \<and> vault_inv (work (vlt s)) \<and> fresh_ok (fresh s) (work (vlt s))"

text \<open>The key of an atom is in the ledger.\<close>

definition in_ledger :: "ingest_env \<Rightarrow> vault_db \<Rightarrow> atom \<Rightarrow> bool" where
  "in_ledger E d a \<longleftrightarrow> (\<exists>fam key. semantic_key (ie_crypto E) (ie_pint E) a = Inr (fam, key) \<and> (''meta'', key) \<in> set (ledger d))"

lemma in_ledger_grown: "grown d d' \<Longrightarrow> in_ledger E d a \<Longrightarrow> in_ledger E d' a"
  by (auto simp: grown_def in_ledger_def)

lemma ledger_row_Inr:
  assumes "ledger_row E eid a fam key rws raw now = Inr ev"
  shows "evt_id ev = eid \<and> event_key ev = (''meta'', key)"
  using assms by (auto simp: ledger_row_def event_key_def split: sum.splits if_splits)

text \<open>The stages of \<open>process_atom\<close>.\<close>

lemma process_atom_cases:
  assumes "process_atom E now fault a s = (r, s')" "clean (vlt s)"
  obtains (early) e where "r = Inl e" "s' = s"
  | (bind) e where "r = Inl e" "s' = s\<lparr>fresh := \<lambda>k. fresh s (Suc k)\<rparr>"
  | (txn) fam key rws raw ev x us' v where
      "semantic_key (ie_crypto E) (ie_pint E) a = Inr (fam, key)" "to_rows (ie_pint E) a = Inr rws"
      "utf8 (spaced (at_raw a)) = Inr raw" "ledger_row E (mk_id ''evt'' (fresh s 0)) a fam key rws raw now = Inr ev"
      "atom_txn ev rws (\<lambda>k. fresh s (Suc k)) (vlt s) = (x, us', v)"
      "(case x of Inl e \<Rightarrow> r = Inl e \<and> s' = s\<lparr>fresh := us', vlt := v\<rparr>
        | Inr Duplicate \<Rightarrow> r = Inr () \<and> s' = s\<lparr>fresh := us', vlt := v\<rparr>
        | Inr (Applied ap) \<Rightarrow> (let p = project E fam ap (s\<lparr>fresh := us', vlt := v\<rparr>) in s' = snd p \<and>
             r = (case fst p of Inl e \<Rightarrow> Inl e | Inr _ \<Rightarrow> (case fault of None \<Rightarrow> Inr () | Some e \<Rightarrow> Inl e))))"
proof (cases "semantic_key (ie_crypto E) (ie_pint E) a")
  case (Inl e)
  with assms show thesis by (intro early) (auto simp: process_atom_def)
next
  case k: (Inr fk)
  obtain fam key where fk: "fk = (fam, key)" by force
  show thesis
  proof (cases "to_rows (ie_pint E) a")
    case (Inl e)
    with k fk assms show thesis by (intro early) (auto simp: process_atom_def)
  next
    case rws: (Inr rws)
    show thesis
    proof (cases "utf8 (spaced (at_raw a))")
      case (Inl e)
      with k fk rws assms show thesis by (intro early) (auto simp: process_atom_def)
    next
      case raw: (Inr raw)
      show thesis
      proof (cases "ledger_row E (mk_id ''evt'' (fresh s 0)) a fam key rws raw now")
        case (Inl e)
        with k fk rws raw assms show thesis
          by (intro bind) (auto simp: process_atom_def mint_def rollback_def clean_def)
      next
        case ev: (Inr ev)
        obtain x us' v where t: "atom_txn ev rws (\<lambda>k. fresh s (Suc k)) (vlt s) = (x, us', v)" by (metis prod_cases3)
        show thesis
          by (rule txn [OF _ rws raw ev t])
            (use k fk rws raw ev t assms in \<open>auto simp: process_atom_def mint_def split: sum.split outcome.split sum.splits prod.splits\<close>)
      qed
    qed
  qed
qed


lemma process_atom_ok:
  assumes "ing_ok s" "process_atom E now fault a s = (r, s')"
  shows "ing_ok s'" "grown (work (vlt s)) (work (vlt s'))" "forward (ctl_conn s) (ctl_conn s')"
    "r = Inr () \<Longrightarrow> in_ledger E (work (vlt s')) a"
proof -
  have c: "clean (vlt s)" and inv: "vault_inv (work (vlt s))" and f: "fresh_ok (fresh s) (work (vlt s))"
    using assms(1) by (auto simp: ing_ok_def)
  let ?us = "\<lambda>k. fresh s (Suc k)"
  have l: "later (fresh s) ?us" by (auto simp: later_def intro: exI [of _ "Suc 0"])
  have "ing_ok s' \<and> grown (work (vlt s)) (work (vlt s')) \<and> forward (ctl_conn s) (ctl_conn s') \<and>
    (r = Inr () \<longrightarrow> in_ledger E (work (vlt s')) a)"
    using assms(2) c
  proof (cases rule: process_atom_cases)
    case (early e)
    then show ?thesis using assms(1) by simp
  next
    case (bind e)
    then show ?thesis using c inv fresh_ok_later [OF f l] by (simp add: ing_ok_def)
  next
    case (txn fam key rws raw ev x us' v)
    from ledger_row_Inr [OF txn(4)] have ev: "evt_id ev = mk_id ''evt'' (fresh s 0)" "event_key ev = (''meta'', key)" by auto
    show ?thesis using txn(5) c
    proof (cases rule: atom_txn_cases)
      case (dup e)
      have "evt_id ev \<notin> evt_id ` set (ingest_events (work (vlt s)))" using f ev(1) by (simp add: fresh_ok_def)
      from refused_seen [OF dup(4) this] show ?thesis
        using dup txn(1,6) ev c inv fresh_ok_later [OF f l] by (auto simp: ing_ok_def in_ledger_def)
    next
      case (fail e)
      then show ?thesis using txn(6) c inv fresh_ok_later [OF f later_trans [OF l]] by (auto simp: ing_ok_def)
    next
      case (ok d1 d2 ap)
      let ?s = "s\<lparr>fresh := us', vlt := v\<rparr>"
      obtain y where p: "project E fam ap ?s = (y, s')" "r = Inr () \<Longrightarrow> y = Inr ()"
        using txn(6) ok(1) by (cases "project E fam ap ?s") (auto simp: Let_def split: sum.splits)
      note g = applied_grown [OF ok(2,3)]
      have v: "work v = d2" "clean v" using ok(4) by auto
      have "fresh_ok us' d2"
        using fresh_ok_later [OF fresh_ok_used [OF f g(5) ev(1)] g(4)] by simp
      with project_frame [OF p(1)] v g(3) [OF inv] have "ing_ok s'"
        by (auto simp: ing_ok_def intro: fresh_ok_later [of us' d2])
      moreover have gr: "grown d2 (work (vlt s'))" using project_frame(2) [OF p(1)] v by simp
      then have "grown (work (vlt s)) (work (vlt s'))" using g(1) grown_trans by blast
      moreover have "in_ledger E d2 a" using g(2) ev(2) txn(1) by (auto simp: in_ledger_def)
      then have "in_ledger E (work (vlt s')) a" using in_ledger_grown gr by blast
      ultimately show ?thesis using project_frame(6) [OF p(1)] v(2) by simp
    qed
  qed
  then show "ing_ok s'" "grown (work (vlt s)) (work (vlt s'))" "forward (ctl_conn s) (ctl_conn s')"
    "r = Inr () \<Longrightarrow> in_ledger E (work (vlt s')) a" by auto
qed

lemma process_atoms_ok:
  assumes "ing_ok s" "process_atoms E now fault as s = (r, s')"
  shows "ing_ok s' \<and> grown (work (vlt s)) (work (vlt s')) \<and> forward (ctl_conn s) (ctl_conn s') \<and>
    (r = Inr () \<longrightarrow> list_all (in_ledger E (work (vlt s'))) as)"
  using assms
proof (induction as arbitrary: s)
  case Nil
  then show ?case by simp
next
  case (Cons a as)
  obtain x s1 where 1: "process_atom E now fault a s = (x, s1)" by force
  note ok = process_atom_ok [OF Cons.prems(1) 1]
  show ?case
  proof (cases x)
    case (Inl e)
    with 1 Cons.prems(2) ok show ?thesis by auto
  next
    case (Inr u)
    with 1 Cons.prems(2) have "process_atoms E now fault as s1 = (r, s')" by simp
    from Cons.IH [OF ok(1) this] ok Inr show ?thesis
      using grown_trans forward_trans in_ledger_grown [of "work (vlt s1)" "work (vlt s')" E a] by auto
  qed
qed

text \<open>All atoms of a payload are in the ledger.\<close>

definition payload_settled :: "ingest_env \<Rightarrow> vault_db \<Rightarrow> bytes \<Rightarrow> bool" where
  "payload_settled E d pt \<longleftrightarrow> (\<exists>as. atoms_of E pt = Inr as \<and> list_all (in_ledger E d) as)"

lemma process_payload_ok:
  assumes "ing_ok s" "process_payload E pt now fault s = (r, s')"
  shows "ing_ok s'" "grown (work (vlt s)) (work (vlt s'))" "forward (ctl_conn s) (ctl_conn s')"
    "r = Inr () \<Longrightarrow> payload_settled E (work (vlt s')) pt"
  using assms process_atoms_ok [OF assms(1)]
  by (auto simp: process_payload_def payload_settled_def split: sum.splits)


section \<open>Redelivery\<close>

text \<open>An atom whose key is there changes nothing but the supply, and raises only where it would have raised before.\<close>

lemma process_atom_seen:
  assumes "clean (vlt s)" "in_ledger E (work (vlt s)) a" "process_atom E now fault a s = (r, s')"
  shows "vlt s' = vlt s \<and> ctl_conn s' = ctl_conn s"
  using assms(3,1)
proof (cases rule: process_atom_cases)
  case (txn fam key rws raw ev x us' v)
  have "event_key ev \<in> set (ledger (work (vlt s)))"
    using ledger_row_Inr [OF txn(4)] assms(2) txn(1) by (auto simp: in_ledger_def)
  then obtain e where "ins_event ev (work (vlt s)) = Inl e" using seen_refused by blast
  with txn(5) assms(1) have "x = Inr Duplicate" "v = vlt s" by (auto simp: atom_txn_def)
  with txn(6) show ?thesis by simp
qed auto

text \<open>What an atom needs to get as far as the ledger does not depend on the state.\<close>

definition acceptable :: "ingest_env \<Rightarrow> atom \<Rightarrow> bool" where
  "acceptable E a \<longleftrightarrow> (\<exists>fam key rws raw ext. semantic_key (ie_crypto E) (ie_pint E) a = Inr (fam, key) \<and>
     to_rows (ie_pint E) a = Inr rws \<and> utf8 (spaced (at_raw a)) = Inr raw \<and>
     (case getk ''id'' (orelse (JObj []) (Some (at_raw a))) of Inl e \<Rightarrow> Inl e | Inr x \<Rightarrow> bind_text x) = Inr ext \<and>
     (case provider_ts rws of None \<Rightarrow> True | Some t \<Rightarrow> int64 t))"

lemma process_atom_acceptable:
  assumes "process_atom E now fault a s = (Inr (), s')" "clean (vlt s)"
  shows "acceptable E a"
  using assms
proof (cases rule: process_atom_cases)
  case (txn fam key rws raw ev x us' v)
  then show ?thesis unfolding acceptable_def ledger_row_def
    by (auto split: sum.splits if_splits option.splits)
qed auto

lemma process_atom_again:
  assumes "acceptable E a" "in_ledger E (work (vlt s)) a" "clean (vlt s)" "int64 now"
  shows "process_atom E now fault a s = (Inr (), s\<lparr>fresh := \<lambda>k. fresh s (Suc k)\<rparr>)"
proof -
  from assms(1) obtain fam key rws raw ext where a: "semantic_key (ie_crypto E) (ie_pint E) a = Inr (fam, key)"
    "to_rows (ie_pint E) a = Inr rws" "utf8 (spaced (at_raw a)) = Inr raw"
    "(case getk ''id'' (orelse (JObj []) (Some (at_raw a))) of Inl e \<Rightarrow> Inl e | Inr x \<Rightarrow> bind_text x) = Inr ext"
    "(case provider_ts rws of None \<Rightarrow> True | Some t \<Rightarrow> int64 t)"
    by (auto simp: acceptable_def)
  then obtain ev where ev: "ledger_row E (mk_id ''evt'' (fresh s 0)) a fam key rws raw now = Inr ev"
    using assms(4) by (auto simp: ledger_row_def split: sum.splits option.splits)
  have "event_key ev \<in> set (ledger (work (vlt s)))"
    using ledger_row_Inr [OF ev] assms(2) a(1) by (auto simp: in_ledger_def)
  then obtain e where "ins_event ev (work (vlt s)) = Inl e" using seen_refused by blast
  then show ?thesis using a(1-3) ev assms(3) by (simp add: process_atom_def mint_def atom_txn_def)
qed

lemma process_atoms_again:
  assumes "list_all (acceptable E) as" "list_all (in_ledger E (work (vlt s))) as" "clean (vlt s)" "int64 now"
  shows "\<exists>us. process_atoms E now fault as s = (Inr (), s\<lparr>fresh := us\<rparr>)"
  using assms
proof (induction as arbitrary: s)
  case Nil
  then show ?case by (auto intro: exI [of _ "fresh s"])
next
  case (Cons a as)
  let ?s = "s\<lparr>fresh := \<lambda>k. fresh s (Suc k)\<rparr>"
  have "process_atom E now fault a s = (Inr (), ?s)" using process_atom_again [of E a s now fault] Cons.prems by simp
  moreover obtain us where "process_atoms E now fault as ?s = (Inr (), ?s\<lparr>fresh := us\<rparr>)"
    using Cons.IH [of ?s] Cons.prems by auto
  ultimately show ?case by auto
qed

lemma process_atoms_acceptable:
  "process_atoms E now fault as s = (Inr (), s') \<Longrightarrow> ing_ok s \<Longrightarrow> list_all (acceptable E) as"
proof (induction as arbitrary: s)
  case (Cons a as)
  obtain x s1 where 1: "process_atom E now fault a s = (x, s1)" by force
  with Cons.prems(1) have x: "x = Inr ()" and r: "process_atoms E now fault as s1 = (Inr (), s')" by (cases x; simp)+
  have "clean (vlt s)" using Cons.prems(2) by (simp add: ing_ok_def)
  with 1 x have "acceptable E a" by (auto intro: process_atom_acceptable)
  moreover have "ing_ok s1" using process_atom_ok(1) [OF Cons.prems(2) 1] .
  ultimately show ?case using Cons.IH [OF r] by simp
qed simp

text \<open>A payload that was processed once is absorbed whole when it comes again, whatever happened meanwhile.\<close>

lemma redelivery:
  assumes "ing_ok s" "process_payload E pt now fault s = (Inr (), s1)"
    "clean (vlt s2)" "grown (work (vlt s1)) (work (vlt s2))" "int64 now'"
  shows "\<exists>us. process_payload E pt now' fault' s2 = (Inr (), s2\<lparr>fresh := us\<rparr>)"
proof -
  from assms(2) obtain as where as: "atoms_of E pt = Inr as" "process_atoms E now fault as s = (Inr (), s1)"
    by (auto simp: process_payload_def split: sum.splits)
  have "list_all (in_ledger E (work (vlt s1))) as" using process_atoms_ok [OF assms(1) as(2)] by simp
  then have "list_all (in_ledger E (work (vlt s2))) as"
    using in_ledger_grown [OF assms(4)] by (simp add: list_all_iff)
  moreover have "list_all (acceptable E) as" by (rule process_atoms_acceptable [OF as(2) assms(1)])
  ultimately show ?thesis using process_atoms_again [OF _ _ assms(3,5)] as(1) by (simp add: process_payload_def)
qed

section \<open>Draining\<close>

text \<open>A body is settled: quarantined, or opened and all its atoms in the ledger.\<close>

definition settled :: "ingest_env \<Rightarrow> vault_db \<Rightarrow> bytes \<Rightarrow> bool" where
  "settled E d b \<longleftrightarrow> b \<in> dlq_envelope ` set (ingest_dlq d) \<or>
     (\<exists>pt hdr. open_edge (ie_crypto E) (ie_sealing E) (ie_lookup E) b = Inr (pt, hdr) \<and> payload_settled E d pt)"

lemma settled_grown: "grown d d' \<Longrightarrow> settled E d b \<Longrightarrow> settled E d' b"
  using in_ledger_grown [of d d' E] by (auto simp: settled_def payload_settled_def grown_def list_all_iff)

text \<open>What one leased message does to everything but the queue, and which leases it marks.\<close>

definition marks :: "ingest_env \<Rightarrow> pystr \<times> bytes \<Rightarrow> 'q drain \<Rightarrow> 'q drain \<Rightarrow> bool" where
  "marks E lm D D' \<longleftrightarrow> to_ack D' = to_ack D \<or>
     (to_ack D' = to_ack D @ [fst lm] \<and> settled E (work (vlt (st D'))) (snd lm))"

lemma quarantine_lease_ok:
  assumes "ing_ok (st D)" "quarantine_lease E cls code now lm D = (r, D')"
  shows "ing_ok (st D') \<and> grown (work (vlt (st D))) (work (vlt (st D'))) \<and> ctl_conn (st D') = ctl_conn (st D) \<and>
    dq D' = dq D \<and> marks E lm D D'"
proof -
  let ?us = "fresh (st D)"
  obtain x v where q: "quarantine (ie_crypto E) (?us 0) (snd lm) cls code ''decrypt'' (Some (lit ''stage=decrypt'')) now
      (vlt (st D)) = (x, v)" by force
  have D': "D' = (let D1 = D\<lparr>cnt := (cnt D)\<lparr>n_poison := Suc (n_poison (cnt D))\<rparr>, st := (st D)\<lparr>vlt := v, fresh := \<lambda>k. ?us (Suc k)\<rparr>\<rparr>
      in case x of Inl e \<Rightarrow> D1 | Inr _ \<Rightarrow> D1\<lparr>to_ack := to_ack D1 @ [fst lm]\<rparr>)"
    using assms(2) q by (auto simp: quarantine_lease_def Let_def split: sum.splits)
  have l: "later ?us (\<lambda>k. ?us (Suc k))" by (auto simp: later_def intro: exI [of _ "Suc 0"])
  have i: "clean (vlt (st D))" "vault_inv (work (vlt (st D)))" "fresh_ok ?us (work (vlt (st D)))"
    using assms(1) by (auto simp: ing_ok_def)
  show ?thesis using q
  proof (cases rule: quarantine_cases)
    case (1 e)
    then show ?thesis using i fresh_ok_later [OF i(3) l] by (auto simp: D' ing_ok_def marks_def Let_def)
  next
    case (2 row)
    have "vault_inv (work v)" using i(2) by (rule vault_inv_grow) (simp_all add: 2)
    then show ?thesis using 2 fresh_ok_later [OF i(3) l]
      by (auto simp: D' ing_ok_def marks_def settled_def grown_def ledger_def rows_of_def Let_def)
  qed
qed

lemma trip_ok:
  assumes "ing_ok s"
  shows "ing_ok (s\<lparr>vlt := trip why now (vlt s)\<rparr>)" "grown (work (vlt s)) (work (trip why now (vlt s)))"
proof -
  have i: "vault_inv (work (vlt s))" "fresh_ok (fresh s) (work (vlt s))" using assms by (auto simp: ing_ok_def)
  have "vault_inv (work (trip why now (vlt s)))" using i(1) by (rule vault_inv_grow) (simp_all add: trip_def)
  then show "ing_ok (s\<lparr>vlt := trip why now (vlt s)\<rparr>)" using i(2) by (auto simp: ing_ok_def trip_def fresh_ok_def)
  show "grown (work (vlt s)) (work (trip why now (vlt s)))" by (simp add: trip_def grown_def ledger_def rows_of_def)
qed

lemma drain_one_ok:
  assumes "ing_ok (st D)" "drain_one nack E now fault lm D = (r, D')"
  shows "ing_ok (st D') \<and> grown (work (vlt (st D))) (work (vlt (st D'))) \<and> forward (ctl_conn (st D)) (ctl_conn (st D')) \<and>
    marks E lm D D' \<and> (dq D' = dq D \<or> (dq D' = nack [fst lm] (dq D) \<and> to_ack D' = to_ack D)) \<and> set (health D) \<subseteq> set (health D')"
proof (cases "open_edge (ie_crypto E) (ie_sealing E) (ie_lookup E) (snd lm)")
  case (Inr x)
  obtain pt hdr where x: "x = (pt, hdr)" by force
  obtain y s' where p: "process_payload E pt now fault (st D) = (y, s')" by force
  note ok = process_payload_ok [OF assms(1) p]
  show ?thesis using assms(2) Inr x p ok
    by (cases y) (auto simp: drain_one_def Let_def nack_lease_def marks_def settled_def)
next
  case (Inl e)
  consider "e = KeyUnavailable" | cls code where "(case quarantine_lease E cls code now lm D of
        (Inl e', D') \<Rightarrow> (Inl e', D') | (Inr _, D') \<Rightarrow> (Inr Next, D')) = (r, D')"
    | why where "st D' = (st D)\<lparr>vlt := trip why now (vlt (st D))\<rparr>" "dq D' = dq D" "to_ack D' = to_ack D" "health D' = health D"
    | "D' = D"
    using assms(2) Inl by (auto simp: drain_one_def Let_def split: if_splits)
  then show ?thesis
  proof cases
    case 1
    with assms Inl show ?thesis by (auto simp: drain_one_def nack_lease_def marks_def)
  next
    case (2 cls code)
    then obtain r' where q: "quarantine_lease E cls code now lm D = (r', D')" by (auto split: prod.splits sum.splits)
    have "health D' = health D" using q by (auto simp: quarantine_lease_def Let_def split: sum.splits prod.splits)
    then show ?thesis using quarantine_lease_ok [OF assms(1) q] by simp
  next
    case (3 why)
    then show ?thesis using trip_ok [OF assms(1)] by (simp add: marks_def)
  next
    case 4
    then show ?thesis using assms(1) by (simp add: marks_def)
  qed
qed


text \<open>The invariant of the loop over the leased messages \<open>l\<close>, started with the queue \<open>q\<close>.\<close>

context pull_queue
begin

definition loop_inv :: "ingest_env \<Rightarrow> 'q \<Rightarrow> (pystr \<times> bytes) list \<Rightarrow> 'q drain \<Rightarrow> bool" where
  "loop_inv E q l D \<longleftrightarrow> ing_ok (st D) \<and> ok (dq D) \<and> acked (dq D) = acked q \<and> bodies (dq D) = bodies q \<and>
     set (out (dq D)) \<subseteq> set (out q) \<and>
     (\<forall>i\<in>set (to_ack D). \<exists>b. (i, b) \<in> set l \<and> settled E (work (vlt (st D))) b)"

lemma loop_inv_step:
  assumes "loop_inv E q l D" "lm \<in> set l" "drain_one nack E now fault lm D = (r, D')"
  shows "loop_inv E q l D'"
proof -
  have i: "ing_ok (st D)" "ok (dq D)" using assms(1) by (auto simp: loop_inv_def)
  note o = drain_one_ok [OF i(1) assms(3)]
  have "ok (dq D') \<and> acked (dq D') = acked q \<and> bodies (dq D') = bodies q \<and> set (out (dq D')) \<subseteq> set (out q)"
    using o assms(1) nack_law [OF i(2)] nack_bodies [OF i(2)] by (auto simp: loop_inv_def)
  moreover have "\<forall>i\<in>set (to_ack D'). \<exists>b. (i, b) \<in> set l \<and> settled E (work (vlt (st D'))) b"
  proof
    fix i assume "i \<in> set (to_ack D')"
    then consider "i \<in> set (to_ack D)" | "i = fst lm" "settled E (work (vlt (st D'))) (snd lm)"
      using o unfolding marks_def by auto
    then show "\<exists>b. (i, b) \<in> set l \<and> settled E (work (vlt (st D'))) b"
    proof cases
      case 1
      then obtain b where "(i, b) \<in> set l" "settled E (work (vlt (st D))) b" using assms(1) unfolding loop_inv_def by blast
      then show ?thesis using settled_grown o by blast
    next
      case 2
      then show ?thesis using assms(2) by (intro exI [of _ "snd lm"]) simp
    qed
  qed
  ultimately show ?thesis using o unfolding loop_inv_def by simp
qed

lemma loop_inv_loop:
  "loop_inv E q l D \<Longrightarrow> set ls \<subseteq> set l \<Longrightarrow> drain_loop nack E now fault ls D = (r, D') \<Longrightarrow>
   loop_inv E q l D' \<and> grown (work (vlt (st D))) (work (vlt (st D'))) \<and> forward (ctl_conn (st D)) (ctl_conn (st D'))"
proof (induction ls arbitrary: D)
  case (Cons lm ls)
  obtain x D1 where 1: "drain_one nack E now fault lm D = (x, D1)" by force
  have i: "ing_ok (st D)" using Cons.prems(1) by (simp add: loop_inv_def)
  note o = drain_one_ok [OF i 1]
  have l: "loop_inv E q l D1" using loop_inv_step [OF Cons.prems(1) _ 1] Cons.prems(2) by simp
  show ?case
  proof (cases "x = Inr Next")
    case True
    with 1 Cons.prems(3) have "drain_loop nack E now fault ls D1 = (r, D')" by simp
    from Cons.IH [OF l _ this] Cons.prems(2) o show ?thesis using grown_trans forward_trans by auto
  next
    case False
    with 1 Cons.prems(3) have "D' = D1" by (auto split: sum.splits verdict.splits)
    with l o show ?thesis by simp
  qed
qed simp

lemma drain_once_ok:
  assumes "ok q" "ing_ok s" "drain_once lease ack nack E now fault m h q s = (r, D)"
  shows "ok (dq D)" "ing_ok (st D)" "bodies (dq D) = bodies q" "grown (work (vlt s)) (work (vlt (st D)))"
    "forward (ctl_conn s) (ctl_conn (st D))"
    "b \<in> set (acked (dq D)) \<Longrightarrow> b \<in> set (acked q) \<or> (settled E (work (vlt (st D))) b \<and> r = Inr (cnt D))"
proof -
  have "ok (dq D) \<and> ing_ok (st D) \<and> bodies (dq D) = bodies q \<and> grown (work (vlt s)) (work (vlt (st D))) \<and>
    forward (ctl_conn s) (ctl_conn (st D)) \<and>
    (b \<in> set (acked (dq D)) \<longrightarrow> b \<in> set (acked q) \<or> (settled E (work (vlt (st D))) b \<and> r = Inr (cnt D)))"
  proof (cases "circuit_state (work (vlt s)) = OPEN")
    case True
    with assms show ?thesis by (auto simp: drain_once_def)
  next
    case False
    obtain l q1 where l: "lease m q = (l, q1)" by force
    let ?D = "\<lparr>dq = q1, st = s, health = h, to_ack = [], cnt = no_counts (length l) CLOSED\<rparr>"
    obtain x D1 where d: "drain_loop nack E now fault l ?D = (x, D1)" by force
    note ll = lease_law [OF assms(1) l]
    have "loop_inv E q1 l ?D" using ll assms(2) by (simp add: loop_inv_def)
    from loop_inv_loop [OF this subset_refl d] have li: "loop_inv E q1 l D1"
      and g: "grown (work (vlt s)) (work (vlt (st D1)))" "forward (ctl_conn s) (ctl_conn (st D1))" by auto
    have b: "bodies q1 = bodies q" by (rule lease_bodies [OF assms(1) l])
    have ok1: "ok (dq D1)" using li by (simp add: loop_inv_def)
    show ?thesis
    proof (cases x)
      case (Inl e)
      with assms(3) False l d have "D = D1" "r = Inl e" by (auto simp: drain_once_def)
      with li g b ll show ?thesis by (auto simp: loop_inv_def)
    next
      case (Inr u)
      with assms(3) False l d have D: "dq D = ack (to_ack D1) (dq D1)" "st D = st D1" "r = Inr (cnt D)"
        by (auto simp: drain_once_def Let_def)
      have "settled E (work (vlt (st D))) b" if "b \<in> set (acked (dq D))" "b \<notin> set (acked q)"
      proof -
        have "acked (dq D1) = acked q" using li ll by (simp add: loop_inv_def)
        with ack_adds [OF ok1, of b "to_ack D1"] that D(1)
        obtain i where i: "i \<in> set (to_ack D1)" "(i, b) \<in> set (out (dq D1))" by auto
        then obtain b' where b': "(i, b') \<in> set l" "settled E (work (vlt (st D1))) b'" using li by (auto simp: loop_inv_def)
        have "(i, b) \<in> set (out q1)" "(i, b') \<in> set (out q1)" using i b' li ll by (auto simp: loop_inv_def)
        with ll have "b = b'" using out_unique by blast
        with b' D(2) show ?thesis by simp
      qed
      moreover have "ok (ack (to_ack D1) (dq D1))" using ack_law [OF ok1] by simp
      ultimately show ?thesis using D li g b ack_bodies [OF ok1, of "to_ack D1"] by (auto simp: loop_inv_def)
    qed
  qed
  then show "ok (dq D)" "ing_ok (st D)" "bodies (dq D) = bodies q" "grown (work (vlt s)) (work (vlt (st D)))"
    "forward (ctl_conn s) (ctl_conn (st D))"
    "b \<in> set (acked (dq D)) \<Longrightarrow> b \<in> set (acked q) \<or> (settled E (work (vlt (st D))) b \<and> r = Inr (cnt D))"
    by auto
qed

end

text \<open>With the breaker open nothing is leased.\<close>

lemma drain_once_open:
  "circuit_state (work (vlt s)) = OPEN \<Longrightarrow>
   drain_once lease ack nack E now fault m h q s =
     (Inr (no_counts 0 OPEN), \<lparr>dq = q, st = s, health = h, to_ack = [], cnt = no_counts 0 OPEN\<rparr>)"
  by (simp add: drain_once_def)

text \<open>An envelope that fails authentication under a key with no success so far opens the breaker, and is not marked.\<close>

lemma drain_one_systemic:
  assumes "open_edge (ie_crypto E) (ie_sealing E) (ie_lookup E) (snd lm) = Inl AeadAuthFailed"
    "parse_header (ie_crypto E) (snd lm) = Inr hdr" "eh_recipient_key_id hdr \<notin> set (health D)"
    "drain_one nack E now fault lm D = (r, D')"
  shows "r = Inr Break" "circuit_state (disk (vlt (st D'))) = OPEN" "to_ack D' = to_ack D" "dq D' = dq D"
  using assms by (auto simp: drain_one_def classify_decrypt_error_def)

end
