(* ===== verification/Query.thy ===== *)
theory Query
  imports Search_Index Json
begin

text \<open>
  Time intervals (\<open>timemodel.py\<close>) and the search queries (\<open>search/query.py\<close>). The FTS5 engine is a
  parameter: \<open>match t m\<close> lists the row ids of the table's entries that match the expression \<open>m\<close>, with
  their ranks, best first. \<open>unquote\<close> and \<open>read_phrases\<close> are FTS5's own reading of a string literal and of
  a sequence of them, against which the compiler is checked.
\<close>

section \<open>Intervals\<close>

record interval =
  iv_lower :: int
  iv_upper :: int
  iv_precision :: precision

definition mk_interval :: "int \<Rightarrow> int \<Rightarrow> precision \<Rightarrow> exc + interval" where
  "mk_interval l u p = (if u \<le> l then Inl ValueError else Inr \<lparr>iv_lower = l, iv_upper = u, iv_precision = p\<rparr>)"

definition from_provider_seconds :: "int \<Rightarrow> exc + interval" where
  "from_provider_seconds ts = mk_interval (ts * 1000) (ts * 1000 + 1000) P_s"

definition from_local_minute :: "int \<Rightarrow> exc + interval" where
  "from_local_minute ms = mk_interval ms (ms + 60000) P_min"

definition definitely_before :: "interval \<Rightarrow> interval \<Rightarrow> bool" where
  "definitely_before a b \<longleftrightarrow> iv_upper a \<le> iv_lower b"

definition temporal_overlap :: "interval \<Rightarrow> interval \<Rightarrow> bool" where
  "temporal_overlap a b \<longleftrightarrow> iv_lower a < iv_upper b \<and> iv_lower b < iv_upper a"

definition instants :: "interval \<Rightarrow> int set" where
  "instants a = {iv_lower a ..< iv_upper a}"

text \<open>Well-formed intervals overlap when they share an instant, and are otherwise strictly ordered.\<close>

lemma overlap_iff:
  assumes "iv_lower a < iv_upper a" "iv_lower b < iv_upper b"
  shows "temporal_overlap a b \<longleftrightarrow> instants a \<inter> instants b \<noteq> {}"
proof
  assume "temporal_overlap a b"
  then have "max (iv_lower a) (iv_lower b) \<in> instants a \<inter> instants b"
    using assms by (auto simp: temporal_overlap_def instants_def)
  then show "instants a \<inter> instants b \<noteq> {}" by blast
qed (auto simp: temporal_overlap_def instants_def)

lemma interval_trichotomy:
  assumes "iv_lower a < iv_upper a" "iv_lower b < iv_upper b"
  shows "definitely_before a b \<or> definitely_before b a \<or> temporal_overlap a b"
    "\<not> (definitely_before a b \<and> temporal_overlap a b)" "\<not> (definitely_before a b \<and> definitely_before b a)"
  using assms by (auto simp: definitely_before_def temporal_overlap_def)

section \<open>Queries\<close>

definition MAX_TERMS :: nat where "MAX_TERMS = 16"
definition MAX_QUERY_BYTES :: nat where "MAX_QUERY_BYTES = 512"
definition MAX_NEAR :: nat where "MAX_NEAR = 10"
definition MAX_LIMIT :: int where "MAX_LIMIT = 200"
definition DEFAULT_LIMIT :: int where "DEFAULT_LIMIT = 50"

record search_query =
  sq_terms :: "pystr list"
  sq_phrase :: "pystr option"
  sq_prefix :: "pystr option"
  sq_near :: "(pystr list \<times> int) option"
  sq_conversations :: "pystr list"
  sq_contacts :: "pystr list"
  sq_direction :: "pystr option"
  sq_from_ms :: "int option"
  sq_to_ms :: "int option"
  sq_origins :: "pystr list"
  sq_limit :: int

definition QUOTE :: nat where "QUOTE = 34"

definition quote :: "pystr \<Rightarrow> pystr" where
  "quote tok = [QUOTE] @ concat (map (\<lambda>c. if c = QUOTE then [QUOTE, QUOTE] else [c]) tok) @ [QUOTE]"

definition caps :: "search_query \<Rightarrow> exc + unit" where
  "caps q =
     (if length (sq_terms q) > MAX_TERMS then Inl QueryTooComplex
      else if (case sq_near q of None \<Rightarrow> False | Some (ts, _) \<Rightarrow> length ts > MAX_NEAR) then Inl QueryTooComplex
      else if sq_limit q > MAX_LIMIT then Inl QueryTooComplex
      else Inr ())"

definition guard_len :: "pystr \<Rightarrow> exc + pystr" where
  "guard_len m = (case utf8 m of Inl e \<Rightarrow> Inl e | Inr b \<Rightarrow> if length b > MAX_QUERY_BYTES then Inl QueryTooComplex else Inr m)"

definition lexical_term :: "unicode \<Rightarrow> pystr \<Rightarrow> pystr" where
  "lexical_term U t = strip U (fst (normalise_query U t))"

text \<open>The parts of one kind, empty when nothing is left after normalisation.\<close>

definition opt_part :: "unicode \<Rightarrow> (pystr \<Rightarrow> pystr) \<Rightarrow> pystr option \<Rightarrow> pystr list" where
  "opt_part U f v = (if truthy v \<and> lexical_term U (the v) \<noteq> [] then [f (lexical_term U (the v))] else [])"

definition near_part :: "unicode \<Rightarrow> (pystr list \<times> int) option \<Rightarrow> pystr list" where
  "near_part U v =
     (case v of
        None \<Rightarrow> []
      | Some (ts, dist) \<Rightarrow>
          (let toks = map (\<lambda>t. quote (lexical_term U t)) (filter (\<lambda>t. lexical_term U t \<noteq> []) ts) in
           if toks = [] then [] else [lit ''NEAR('' @ join [32] toks @ lit '', '' @ int_dec dist @ lit '')'']))"

definition compile_lexical :: "unicode \<Rightarrow> search_query \<Rightarrow> exc + pystr" where
  "compile_lexical U q =
     (case caps q of
        Inl e \<Rightarrow> Inl e
      | Inr _ \<Rightarrow>
          guard_len (join [32]
            (map quote (filter (\<lambda>s. s \<noteq> []) (map (lexical_term U) (sq_terms q))) @
             opt_part U quote (sq_phrase q) @ opt_part U (\<lambda>s. quote s @ lit ''*'') (sq_prefix q) @ near_part U (sq_near q))))"

definition compact_terms :: "unicode \<Rightarrow> search_query \<Rightarrow> pystr list" where
  "compact_terms U q =
     filter (\<lambda>c. 3 \<le> length c)
       (map (\<lambda>t. strip U (snd (normalise_query U t))) (sq_terms q @ (if truthy (sq_phrase q) then [the (sq_phrase q)] else [])))"

definition compile_compact :: "unicode \<Rightarrow> search_query \<Rightarrow> exc + pystr" where
  "compile_compact U q =
     (case caps q of Inl e \<Rightarrow> Inl e | Inr _ \<Rightarrow> guard_len (join [32] (map quote (compact_terms U q))))"

definition direction_name :: "direction \<Rightarrow> pystr" where
  "direction_name d = lit (case d of In \<Rightarrow> ''in'' | Out \<Rightarrow> ''out'')"

definition origin_name :: "origin \<Rightarrow> pystr" where
  "origin_name o' = lit (case o' of cloud_api \<Rightarrow> ''cloud_api'' | business_app_echo \<Rightarrow> ''business_app_echo''
     | history_sync \<Rightarrow> ''history_sync'' | manual_export \<Rightarrow> ''manual_export'')"

text \<open>The predicates of \<open>_filters\<close>, on the message of a row.\<close>

definition filters :: "search_query \<Rightarrow> message \<Rightarrow> bool" where
  "filters q m \<longleftrightarrow>
     (sq_conversations q \<noteq> [] \<longrightarrow> msg_conversation_id m \<in> set (sq_conversations q)) \<and>
     (sq_contacts q \<noteq> [] \<longrightarrow> (\<exists>c. msg_sender_contact_id m = Some c \<and> c \<in> set (sq_contacts q))) \<and>
     (truthy (sq_direction q) \<longrightarrow> direction_name (msg_direction m) = the (sq_direction q)) \<and>
     (sq_origins q \<noteq> [] \<longrightarrow> origin_name (msg_origin m) \<in> set (sq_origins q)) \<and>
     (case sq_from_ms q of None \<Rightarrow> True | Some t \<Rightarrow> t < msg_ts_upper_ms_exclusive m) \<and>
     (case sq_to_ms q of None \<Rightarrow> True | Some t \<Rightarrow> msg_ts_lower_ms m < t)"

datatype tier = Lexical | Compact

record 'r hit =
  h_message_id :: pystr
  h_text_original :: "pystr option"
  h_conversation_id :: pystr
  h_rank :: 'r
  h_tier :: tier

type_synonym 'r engine = "fts \<Rightarrow> pystr \<Rightarrow> (nat \<times> 'r) list"

definition fts_of :: "tier \<Rightarrow> vault_db \<Rightarrow> fts" where
  "fts_of t d = (case t of Lexical \<Rightarrow> fts_lexical d | Compact \<Rightarrow> fts_compact d)"

text \<open>\<open>LIMIT\<close>: a negative bound is none.\<close>

definition limit_rows :: "int \<Rightarrow> 'a list \<Rightarrow> 'a list" where
  "limit_rows n l = (if n < 0 then l else take (nat n) l)"

definition run_tier :: "'r engine \<Rightarrow> tier \<Rightarrow> pystr \<Rightarrow> search_query \<Rightarrow> int \<Rightarrow> vault_db \<Rightarrow> 'r hit list" where
  "run_tier match t m q lim d =
     limit_rows lim
       (concat (map (\<lambda>(rid, rank).
          concat (map (\<lambda>sd.
             map (\<lambda>x. \<lparr>h_message_id = sdc_message_id sd, h_text_original = msg_text_original x,
                       h_conversation_id = msg_conversation_id x, h_rank = rank, h_tier = t\<rparr>)
               (filter (\<lambda>x. msg_id x = sdc_message_id sd \<and> filters q x) (messages d)))
            (filter (\<lambda>sd. sdc_rowid sd = rid) (search_documents d))))
          (match (fts_of t d) m)))"

text \<open>The loop with the set \<open>seen\<close>: the first hit of a message is kept.\<close>

definition add_new :: "'r hit list \<Rightarrow> 'r hit list \<Rightarrow> 'r hit list" where
  "add_new rs hs = foldl (\<lambda>acc h. if h_message_id h \<in> h_message_id ` set acc then acc else acc @ [h]) rs hs"

text \<open>\<open>results[:lim]\<close>.\<close>

definition slice_to :: "int \<Rightarrow> 'a list \<Rightarrow> 'a list" where
  "slice_to n l = (if n < 0 then take (length l - nat (- n)) l else take (nat n) l)"

text \<open>\<open>min(q.limit or DEFAULT_LIMIT, MAX_LIMIT)\<close>.\<close>

definition row_limit :: "search_query \<Rightarrow> int" where
  "row_limit q = min (if sq_limit q = 0 then DEFAULT_LIMIT else sq_limit q) MAX_LIMIT"

definition run_search :: "unicode \<Rightarrow> 'r engine \<Rightarrow> search_query \<Rightarrow> vault_db \<Rightarrow> exc + 'r hit list" where
  "run_search U match q d =
     (let lim = row_limit q in
      case compile_lexical U q of
        Inl e \<Rightarrow> Inl e
      | Inr lx \<Rightarrow>
          (let r1 = (if lx \<noteq> [] then add_new [] (run_tier match Lexical lx q lim d) else []) in
           case compile_compact U q of
             Inl e \<Rightarrow> Inl e
           | Inr cp \<Rightarrow>
               Inr (slice_to lim
                 (if cp \<noteq> [] \<and> int (length r1) < lim then add_new r1 (run_tier match Compact cp q lim d) else r1))))"

section \<open>User text is never syntax\<close>

text \<open>FTS5's reading of a string literal: a quote, then characters up to a quote that is not doubled.\<close>

fun unquote_body :: "pystr \<Rightarrow> (pystr \<times> pystr) option" where
  "unquote_body [] = None"
| "unquote_body (c # r) =
     (if c \<noteq> QUOTE then (case unquote_body r of None \<Rightarrow> None | Some (t, u) \<Rightarrow> Some (c # t, u))
      else (case r of
          d # r' \<Rightarrow> if d = QUOTE then (case unquote_body r' of None \<Rightarrow> None | Some (t, u) \<Rightarrow> Some (QUOTE # t, u)) else Some ([], r)
        | [] \<Rightarrow> Some ([], [])))"

definition unquote :: "pystr \<Rightarrow> (pystr \<times> pystr) option" where
  "unquote s = (case s of [] \<Rightarrow> None | c # r \<Rightarrow> if c = QUOTE then unquote_body r else None)"

lemma unquote_body_quote:
  "(\<And>c u. r = c # u \<Longrightarrow> c \<noteq> QUOTE) \<Longrightarrow>
   unquote_body (concat (map (\<lambda>c. if c = QUOTE then [QUOTE, QUOTE] else [c]) tok) @ [QUOTE] @ r) = Some (tok, r)"
  by (induction tok) (auto split: list.split)

lemma unquote_quote: "(\<And>c u. r = c # u \<Longrightarrow> c \<noteq> QUOTE) \<Longrightarrow> unquote (quote tok @ r) = Some (tok, r)"
  using unquote_body_quote [of r tok] by (simp add: unquote_def quote_def)

text \<open>A sequence of phrases separated by blanks, by the number of phrases.\<close>

fun read_phrases :: "nat \<Rightarrow> pystr \<Rightarrow> pystr list option" where
  "read_phrases 0 s = (if s = [] then Some [] else None)"
| "read_phrases (Suc n) s =
     (case unquote s of
        None \<Rightarrow> None
      | Some (t, r) \<Rightarrow>
          (case r of
             [] \<Rightarrow> (if n = 0 then Some [t] else None)
           | c # r' \<Rightarrow> if c = 32 then map_option (Cons t) (read_phrases n r') else None))"

lemma join_Cons2: "join sep (x # y # zs) = x @ sep @ join sep (y # zs)"
  by simp

lemma read_phrases_join: "read_phrases (length toks) (join [32] (map quote toks)) = Some toks"
proof (induction toks)
  case (Cons t ts)
  show ?case
  proof (cases ts)
    case Nil
    then show ?thesis using unquote_quote [of "[]" t] by simp
  next
    case (Cons u us)
    have "unquote (join [32] (map quote (t # ts))) = Some (t, 32 # join [32] (map quote ts))"
      using unquote_quote [of "32 # join [32] (map quote ts)" t] unfolding Cons
      by (simp add: QUOTE_def del: join.simps) (simp add: join_Cons2 del: join.simps)
    with Cons.IH show ?thesis by (simp del: join.simps)
  qed
qed simp

lemma guard_len_Inr: "guard_len m = Inr r \<Longrightarrow> r = m \<and> (\<exists>b. utf8 m = Inr b \<and> length b \<le> MAX_QUERY_BYTES)"
  by (auto simp: guard_len_def split: sum.splits if_splits)

lemma compile_compact_reads:
  assumes "compile_compact U q = Inr m"
  shows "read_phrases (length (compact_terms U q)) m = Some (compact_terms U q)"
    "\<exists>b. utf8 m = Inr b \<and> length b \<le> MAX_QUERY_BYTES" "length (compact_terms U q) \<le> Suc MAX_TERMS"
proof -
  from assms have c: "caps q = Inr ()" and g: "guard_len (join [32] (map quote (compact_terms U q))) = Inr m"
    by (auto simp: compile_compact_def split: sum.splits)
  show "read_phrases (length (compact_terms U q)) m = Some (compact_terms U q)"
    using guard_len_Inr [OF g] read_phrases_join by simp
  show "\<exists>b. utf8 m = Inr b \<and> length b \<le> MAX_QUERY_BYTES" using guard_len_Inr [OF g] by blast
  have "length (compact_terms U q) \<le> length (sq_terms q @ (if truthy (sq_phrase q) then [the (sq_phrase q)] else []))"
    unfolding compact_terms_def by (metis length_filter_le length_map)
  also have "\<dots> \<le> Suc MAX_TERMS" using c by (auto simp: caps_def split: if_splits)
  finally show "length (compact_terms U q) \<le> Suc MAX_TERMS" .
qed

text \<open>The lexical form of a query of terms and a phrase.\<close>

definition lexical_terms :: "unicode \<Rightarrow> search_query \<Rightarrow> pystr list" where
  "lexical_terms U q = filter (\<lambda>s. s \<noteq> []) (map (lexical_term U) (sq_terms q)) @ opt_part U id (sq_phrase q)"

lemma compile_lexical_reads:
  assumes "compile_lexical U q = Inr m" "sq_prefix q = None" "sq_near q = None"
  shows "read_phrases (length (lexical_terms U q)) m = Some (lexical_terms U q)"
proof -
  have "map quote (lexical_terms U q) =
      map quote (filter (\<lambda>s. s \<noteq> []) (map (lexical_term U) (sq_terms q))) @ opt_part U quote (sq_phrase q)"
    by (simp add: lexical_terms_def opt_part_def)
  with assms have "guard_len (join [32] (map quote (lexical_terms U q))) = Inr m"
    by (auto simp: compile_lexical_def opt_part_def near_part_def split: sum.splits)
  then show ?thesis using guard_len_Inr read_phrases_join by fastforce
qed

section \<open>Results\<close>

lemma add_new_set: "set (add_new rs hs) \<subseteq> set rs \<union> set hs"
  unfolding add_new_def by (induction hs arbitrary: rs) (auto split: if_splits, fastforce+)

lemma add_new_distinct: "distinct (map h_message_id rs) \<Longrightarrow> distinct (map h_message_id (add_new rs hs))"
  unfolding add_new_def by (induction hs arbitrary: rs) auto

lemma set_slice_to: "set (slice_to n l) \<subseteq> set l"
  by (auto simp: slice_to_def dest: in_set_takeD)

lemma set_limit_rows: "set (limit_rows n l) \<subseteq> set l"
  by (auto simp: limit_rows_def dest: in_set_takeD)

lemma slice_to_map: "map f (slice_to n l) = slice_to n (map f l)"
  by (simp add: slice_to_def take_map)

lemma slice_to_distinct: "distinct l \<Longrightarrow> distinct (slice_to n l)"
  by (simp add: slice_to_def)

text \<open>A hit is a row of the database that passes the filters.\<close>

definition real_hit :: "search_query \<Rightarrow> vault_db \<Rightarrow> 'r hit \<Rightarrow> bool" where
  "real_hit q d h \<longleftrightarrow> (\<exists>m\<in>set (messages d). msg_id m = h_message_id h \<and> msg_text_original m = h_text_original h \<and>
     msg_conversation_id m = h_conversation_id h \<and> filters q m \<and> h_message_id h \<in> sdc_message_id ` set (search_documents d))"

lemma run_tier_real: "h \<in> set (run_tier match t m q lim d) \<Longrightarrow> real_hit q d h"
  unfolding run_tier_def real_hit_def
  by (drule subsetD [OF set_limit_rows]) (auto 0 3 simp: image_iff)

lemma run_search_ok:
  assumes "run_search U match q d = Inr hs"
  shows "h \<in> set hs \<Longrightarrow> real_hit q d h" "distinct (map h_message_id hs)"
    "0 \<le> sq_limit q \<Longrightarrow> int (length hs) \<le> row_limit q"
proof -
  let ?lim = "row_limit q"
  from assms obtain lx cp where hs: "hs = slice_to ?lim (let r1 = (if lx \<noteq> [] then add_new [] (run_tier match Lexical lx q ?lim d) else [])
      in if cp \<noteq> [] \<and> int (length r1) < ?lim then add_new r1 (run_tier match Compact cp q ?lim d) else r1)"
    by (auto simp: run_search_def Let_def split: sum.splits)
  show "real_hit q d h" if "h \<in> set hs"
  proof -
    let ?l = "run_tier match Lexical lx q ?lim d" and ?c = "run_tier match Compact cp q ?lim d"
    define r1 where "r1 = (if lx \<noteq> [] then add_new [] ?l else [])"
    define r2 where "r2 = (if cp \<noteq> [] \<and> int (length r1) < ?lim then add_new r1 ?c else r1)"
    have 1: "set r1 \<subseteq> set ?l" using add_new_set [of "[]" ?l] by (auto simp: r1_def)
    have 2: "set r2 \<subseteq> set r1 \<union> set ?c" using add_new_set [of r1 ?c] by (auto simp: r2_def)
    have "hs = slice_to ?lim r2" unfolding hs r2_def r1_def Let_def by (rule refl)
    then have "set hs \<subseteq> set ?l \<union> set ?c" using set_slice_to [of ?lim r2] 1 2 by blast
    then show ?thesis using that run_tier_real by blast
  qed
  show "distinct (map h_message_id hs)"
    unfolding hs slice_to_map by (rule slice_to_distinct) (auto simp: Let_def add_new_distinct)
  show "int (length hs) \<le> ?lim" if "0 \<le> sq_limit q"
    proof -
    have "0 \<le> ?lim" using that by (simp add: row_limit_def MAX_LIMIT_def DEFAULT_LIMIT_def)
    then show ?thesis unfolding hs slice_to_def by simp
  qed
qed

text \<open>The time filters keep the messages whose interval meets the interval asked for.\<close>

lemma filters_overlap:
  assumes "filters q m" "sq_from_ms q = Some a" "sq_to_ms q = Some b"
  shows "temporal_overlap \<lparr>iv_lower = msg_ts_lower_ms m, iv_upper = msg_ts_upper_ms_exclusive m, iv_precision = msg_ts_precision m\<rparr>
    \<lparr>iv_lower = a, iv_upper = b, iv_precision = P_ms\<rparr>"
  using assms by (simp add: filters_def temporal_overlap_def)

end
