(* ===== verification/Reads.thy ===== *)
theory Reads
  imports Query Webhook Windows
begin

text \<open>
  What the MCP surface may read: the visibility fence (\<open>mcp/acl.py\<close>), the presentation
  (\<open>mcp/present.py\<close>) and the queries (\<open>mcp/reads.py\<close>). \<open>rd_isdigit\<close> is \<open>str.isdigit\<close> on a character
  and \<open>rd_like\<close> SQLite's \<open>LIKE\<close>. The fence is stated as non-interference: what is read is what
  would be read if the fenced conversations and their messages were not there.
\<close>

record reader =
  rd_crypto :: crypto
  rd_unicode :: unicode
  rd_isdigit :: "nat \<Rightarrow> bool"
  rd_like :: "pystr \<Rightarrow> pystr \<Rightarrow> bool"

section \<open>The fence\<close>

definition visibility_of :: "pystr \<Rightarrow> visibility option" where
  "visibility_of s = (if s = lit ''ALLOW_MCP'' then Some ALLOW_MCP else if s = lit ''LOCAL_ONLY'' then Some LOCAL_ONLY else None)"

definition set_visibility :: "pystr \<Rightarrow> pystr \<Rightarrow> vault \<Rightarrow> (exc + unit) \<times> vault" where
  "set_visibility cid v c =
     (case visibility_of v of
        None \<Rightarrow> (Inl ValueError, c)
      | Some vis \<Rightarrow>
          (Inr (), commit (c\<lparr>work := (work c)\<lparr>conversations :=
             upd (\<lambda>r. cnv_id r = cid) (cnv_mcp_visibility_update (\<lambda>_. vis)) (conversations (work c))\<rparr>\<rparr>)))"

definition local_only_ids :: "vault_db \<Rightarrow> pystr list" where
  "local_only_ids d = map cnv_id (filter (\<lambda>r. cnv_mcp_visibility r = LOCAL_ONLY) (conversations d))"

section \<open>Presentation\<close>

definition BULLET :: nat where "BULLET = 0x2022"

definition mask_wa_id :: "reader \<Rightarrow> pystr option \<Rightarrow> pystr option" where
  "mask_wa_id R w =
     (if \<not> truthy w then None
      else (let digits = filter (rd_isdigit R) (the w);
                tl' = (if 4 \<le> length digits then drop (length digits - 4) digits else digits)
            in Some (replicate 4 BULLET @ tl')))"

definition opaque_ref :: "reader \<Rightarrow> pystr option \<Rightarrow> exc + pystr option" where
  "opaque_ref R v =
     (if \<not> truthy v then Inr None
      else (case utf8 (the v) of
          Inl e \<Rightarrow> Inl e | Inr b \<Rightarrow> Inr (Some (lit ''wref_'' @ take 16 (hex_of (sha256 (rd_crypto R) b))))))"

text \<open>\<open>{"_wv_untrusted": True, "text": text}\<close>.\<close>

datatype untrusted = Untrusted pystr

definition wrap :: "pystr option \<Rightarrow> untrusted option" where
  "wrap t = map_option Untrusted t"

record contact_view =
  cv_contact_id :: pystr
  cv_display_name :: "untrusted option"
  cv_push_name :: "untrusted option"
  cv_wa_tail :: "pystr option"

record message_view =
  mv_message_id :: pystr
  mv_conversation_id :: pystr
  mv_direction :: direction
  mv_ts_lower_ms :: int
  mv_ts_upper_ms_exclusive :: int
  mv_ts_precision :: precision
  mv_delivery_rank :: nat
  mv_reply_to_ref :: "pystr option"
  mv_body :: "untrusted option"
  mv_contact :: "contact_view option"

definition contact_ref :: "reader \<Rightarrow> contact option \<Rightarrow> contact_view option" where
  "contact_ref R row =
     map_option (\<lambda>r. \<lparr>cv_contact_id = cnt_id r, cv_display_name = wrap (cnt_display_name r), cv_push_name = wrap (cnt_push_name r),
                      cv_wa_tail = mask_wa_id R (cnt_wa_id r)\<rparr>) row"

definition present_message :: "reader \<Rightarrow> message \<Rightarrow> contact option \<Rightarrow> exc + message_view" where
  "present_message R m c =
     (case opaque_ref R (msg_reply_to_wamid m) of
        Inl e \<Rightarrow> Inl e
      | Inr ref \<Rightarrow>
          Inr \<lparr>mv_message_id = msg_id m, mv_conversation_id = msg_conversation_id m, mv_direction = msg_direction m,
               mv_ts_lower_ms = msg_ts_lower_ms m, mv_ts_upper_ms_exclusive = msg_ts_upper_ms_exclusive m,
               mv_ts_precision = msg_ts_precision m, mv_delivery_rank = msg_delivery_rank m, mv_reply_to_ref = ref,
               mv_body = wrap (msg_text_original m), mv_contact = contact_ref R c\<rparr>)"

section \<open>Reads\<close>

definition clamp :: "int \<Rightarrow> int" where
  "clamp n = max 1 (min n MAX_LIMIT)"

definition contact_of :: "vault_db \<Rightarrow> pystr option \<Rightarrow> contact option" where
  "contact_of d i = (if \<not> truthy i then None else List.find (\<lambda>r. cnt_id r = the i) (contacts d))"

definition view :: "reader \<Rightarrow> vault_db \<Rightarrow> message \<Rightarrow> exc + message_view" where
  "view R d m = present_message R m (contact_of d (msg_sender_contact_id m))"

text \<open>The search results that pass the fence, each with its message presented.\<close>

fun fenced_hits :: "reader \<Rightarrow> vault_db \<Rightarrow> 'r hit list \<Rightarrow> exc + (message_view \<times> 'r \<times> tier) list" where
  "fenced_hits R d [] = Inr []"
| "fenced_hits R d (h # hs) =
     (if h_conversation_id h \<in> set (local_only_ids d) then fenced_hits R d hs
      else (case List.find (\<lambda>m. msg_id m = h_message_id h) (messages d) of
          None \<Rightarrow> fenced_hits R d hs
        | Some m \<Rightarrow>
            (case view R d m of
               Inl e \<Rightarrow> Inl e
             | Inr v \<Rightarrow> (case fenced_hits R d hs of Inl e \<Rightarrow> Inl e | Inr vs \<Rightarrow> Inr ((v, h_rank h, h_tier h) # vs)))))"

definition search :: "reader \<Rightarrow> 'r engine \<Rightarrow> search_query \<Rightarrow> vault_db \<Rightarrow> exc + (message_view \<times> 'r \<times> tier) list" where
  "search R match q d =
     (case run_search (rd_unicode R) match q d of Inl e \<Rightarrow> Inl e | Inr hs \<Rightarrow> fenced_hits R d hs)"

definition in_range :: "int option \<Rightarrow> int option \<Rightarrow> message \<Rightarrow> bool" where
  "in_range from_ms to_ms m \<longleftrightarrow>
     (case from_ms of None \<Rightarrow> True | Some t \<Rightarrow> t < msg_ts_upper_ms_exclusive m) \<and>
     (case to_ms of None \<Rightarrow> True | Some t \<Rightarrow> msg_ts_lower_ms m < t)"

definition get_messages :: "reader \<Rightarrow> pystr \<Rightarrow> int option \<Rightarrow> int option \<Rightarrow> int \<Rightarrow> vault_db \<Rightarrow> exc + message_view list" where
  "get_messages R cid from_ms to_ms limit d =
     (case List.find (\<lambda>r. cnv_id r = cid) (conversations d) of
        None \<Rightarrow> Inr []
      | Some r \<Rightarrow>
          if cnv_mcp_visibility r = LOCAL_ONLY then Inr []
          else mapM (view R d)
            (limit_rows (clamp limit)
              (sort_key (\<lambda>m. (msg_ts_lower_ms m, msg_id m))
                (filter (\<lambda>m. msg_conversation_id m = cid \<and> in_range from_ms to_ms m) (messages d)))))"

record chat_view =
  ch_conversation_id :: pystr
  ch_type :: string
  ch_subject :: "untrusted option"
  ch_last_message_ms :: "int option"

text \<open>\<open>ORDER BY last_message_ms DESC\<close>: \<open>NULL\<close> comes last.\<close>

definition recency :: "conversation \<Rightarrow> int \<times> int" where
  "recency r = (case cnv_last_message_ms r of None \<Rightarrow> (1, 0) | Some t \<Rightarrow> (0, - t))"

definition list_chats :: "reader \<Rightarrow> pystr option \<Rightarrow> int \<Rightarrow> vault_db \<Rightarrow> chat_view list" where
  "list_chats R query limit d =
     map (\<lambda>r. \<lparr>ch_conversation_id = cnv_id r, ch_type = cnv_type r, ch_subject = wrap (cnv_subject r),
               ch_last_message_ms = cnv_last_message_ms r\<rparr>)
       (limit_rows (clamp limit)
         (sort_key recency
           (filter (\<lambda>r. cnv_mcp_visibility r \<noteq> LOCAL_ONLY \<and>
              (truthy query \<longrightarrow> (case cnv_subject r of None \<Rightarrow> False
                 | Some s \<Rightarrow> rd_like R (lit ''%'' @ the query @ lit ''%'') s))) (conversations d))))"

definition no_status :: status_view where
  "no_status = \<lparr>sv_delivery_rank = 0, sv_failed_at_ms = None, sv_deleted_at_ms = None, sv_unknown = []\<rparr>"

definition get_message_status :: "pystr \<Rightarrow> vault_db \<Rightarrow> status_view option" where
  "get_message_status mid d =
     (case List.find (\<lambda>m. msg_id m = mid) (messages d) of
        None \<Rightarrow> None
      | Some m \<Rightarrow>
          if msg_conversation_id m \<in> set (local_only_ids d) then None
          else if \<not> truthy (msg_wamid m) then Some no_status
          else Some (reduce_status (map (\<lambda>r. (ste_status r, ste_provider_ts_ms r))
                 (filter (\<lambda>r. ste_wamid r = the (msg_wamid m)) (message_status_events d)))))"

record window_view =
  wv_open :: bool
  wv_last_inbound_ms :: int
  wv_closes_at_ms :: int

definition READ_WINDOW_MS :: int where "READ_WINDOW_MS = 24 * 3600 * 1000"

definition get_conversation_window :: "control_db \<Rightarrow> vault_db \<Rightarrow> pystr \<Rightarrow> int \<Rightarrow> window_view" where
  "get_conversation_window k d cid now_ms =
     (if cid \<in> set (local_only_ids d) then \<lparr>wv_open = False, wv_last_inbound_ms = 0, wv_closes_at_ms = READ_WINDOW_MS\<rparr>
      else (let last' = last_inbound k cid; closes = last' + READ_WINDOW_MS in
        \<lparr>wv_open = (0 < last' \<and> now_ms < closes), wv_last_inbound_ms = last', wv_closes_at_ms = closes\<rparr>))"

text \<open>The templates, or the note that the table is not there yet.\<close>

definition list_templates :: "bool \<Rightarrow> control_db \<Rightarrow> (pystr \<times> pystr \<times> pystr \<times> pystr option \<times> pystr) list option" where
  "list_templates exists k =
     (if \<not> exists then None
      else Some (map (\<lambda>r. (tpl_id r, tpl_name r, tpl_language r, tpl_category r, tpl_status r)) (templates k)))"

section \<open>Non-interference\<close>

definition hide :: "vault_db \<Rightarrow> vault_db" where
  "hide d = d\<lparr>conversations := filter (\<lambda>r. cnv_mcp_visibility r \<noteq> LOCAL_ONLY) (conversations d),
     messages := filter (\<lambda>m. msg_conversation_id m \<notin> set (local_only_ids d)) (messages d)\<rparr>"

definition hide_windows :: "vault_db \<Rightarrow> control_db \<Rightarrow> control_db" where
  "hide_windows d k = k\<lparr>conversation_windows := filter (\<lambda>r. win_conversation_id r \<notin> set (local_only_ids d)) (conversation_windows k)\<rparr>"

lemma local_only_iff:
  assumes "distinct (map cnv_id (conversations d))" "r \<in> set (conversations d)"
  shows "cnv_id r \<in> set (local_only_ids d) \<longleftrightarrow> cnv_mcp_visibility r = LOCAL_ONLY"
  using assms by (auto simp: local_only_ids_def distinct_map dest: inj_onD)

lemma hide_local [simp]: "local_only_ids (hide d) = []"
  by (simp add: local_only_ids_def hide_def filter_empty_conv)

lemma find_filter_distinct:
  assumes "distinct (map k t)"
  shows "List.find (\<lambda>r. k r = v) (filter P t) = (case List.find (\<lambda>r. k r = v) t of None \<Rightarrow> None | Some r \<Rightarrow> if P r then Some r else None)"
  using assms
proof (induction t)
  case (Cons a t)
  show ?case
  proof (cases "k a = v")
    case True
    with Cons.prems have "List.find (\<lambda>r. k r = v) (filter P t) = None" by (auto simp: find_None image_iff)
    with True show ?thesis by simp
  next
    case False
    with Cons show ?thesis by simp
  qed
qed simp

lemma view_hide [simp]: "view R (hide d) = view R d"
  by (simp add: view_def contact_of_def hide_def fun_eq_iff)

lemma get_messages_hide:
  assumes "distinct (map cnv_id (conversations d))"
  shows "get_messages R cid a b n d = get_messages R cid a b n (hide d)"
proof (cases "List.find (\<lambda>r. cnv_id r = cid) (conversations d)")
  case None
  then have "List.find (\<lambda>r. cnv_id r = cid) (conversations (hide d)) = None"
    by (simp add: hide_def find_filter_distinct [OF assms])
  with None show ?thesis by (simp add: get_messages_def)
next
  case (Some r)
  have r: "r \<in> set (conversations d)" "cnv_id r = cid" using find_SomeD [OF Some] by auto
  have f: "List.find (\<lambda>r. cnv_id r = cid) (conversations (hide d)) = (if cnv_mcp_visibility r \<noteq> LOCAL_ONLY then Some r else None)"
    using Some by (simp add: hide_def find_filter_distinct [OF assms])
  show ?thesis
  proof (cases "cnv_mcp_visibility r = LOCAL_ONLY")
    case True
    with Some f show ?thesis by (simp add: get_messages_def)
  next
    case False
    with local_only_iff [OF assms r(1)] r(2) have "cid \<notin> set (local_only_ids d)" by simp
    then have "filter (\<lambda>m. msg_conversation_id m = cid \<and> in_range a b m) (messages (hide d)) =
        filter (\<lambda>m. msg_conversation_id m = cid \<and> in_range a b m) (messages d)"
      unfolding hide_def by (auto intro: filter_cong)
    with Some f False show ?thesis by (simp add: get_messages_def)
  qed
qed

lemma list_chats_hide: "list_chats R query n d = list_chats R query n (hide d)"
  by (simp add: list_chats_def hide_def conj_commute conj_left_commute)

lemma get_message_status_hide:
  assumes "distinct (map msg_id (messages d))"
  shows "get_message_status mid d = get_message_status mid (hide d)"
proof -
  have "List.find (\<lambda>m. msg_id m = mid) (messages (hide d)) =
      (case List.find (\<lambda>m. msg_id m = mid) (messages d) of None \<Rightarrow> None
       | Some m \<Rightarrow> if msg_conversation_id m \<notin> set (local_only_ids d) then Some m else None)"
    by (simp add: hide_def find_filter_distinct [OF assms])
  moreover have "message_status_events (hide d) = message_status_events d" by (simp add: hide_def)
  ultimately show ?thesis by (auto simp: get_message_status_def split: option.split)
qed

lemma window_hide: "get_conversation_window k d cid now = get_conversation_window (hide_windows d k) (hide d) cid now"
proof -
  have "last_inbound (hide_windows d k) cid = (if cid \<in> set (local_only_ids d) then 0 else last_inbound k cid)"
  proof (cases "cid \<in> set (local_only_ids d)")
    case True
    then have "List.find (\<lambda>r. win_conversation_id r = cid) (filter (\<lambda>r. win_conversation_id r \<notin> set (local_only_ids d)) (conversation_windows k)) = None"
      by (auto simp: find_None)
    with True show ?thesis by (simp add: last_inbound_def hide_windows_def)
  next
    case False
    have "List.find (\<lambda>r. win_conversation_id r = cid) (filter (\<lambda>r. win_conversation_id r \<notin> set (local_only_ids d)) t) =
        List.find (\<lambda>r. win_conversation_id r = cid) t" for t :: "window_row list"
      using False by (induction t) auto
    with False show ?thesis by (simp add: last_inbound_def hide_windows_def)
  qed
  then show ?thesis by (simp add: get_conversation_window_def Let_def READ_WINDOW_MS_def)
qed

section \<open>Search behind the fence\<close>

lemma fenced_hits_ok:
  assumes "fenced_hits R d hs = Inr vs" "(v, rank, t) \<in> set vs"
    "\<And>h. h \<in> set hs \<Longrightarrow> real_hit q d h" "distinct (map msg_id (messages d))"
  shows "\<exists>m\<in>set (messages d). view R d m = Inr v \<and> filters q m \<and> msg_conversation_id m \<notin> set (local_only_ids d)"
  using assms(1-3)
proof (induction hs arbitrary: vs)
  case (Cons h hs)
  show ?case
  proof (cases "h_conversation_id h \<in> set (local_only_ids d) \<or> List.find (\<lambda>m. msg_id m = h_message_id h) (messages d) = None")
    case True
    with Cons.prems(1) have "fenced_hits R d hs = Inr vs" by (auto split: if_splits)
    with Cons.IH Cons.prems show ?thesis by simp
  next
    case False
    then obtain m where m: "List.find (\<lambda>m. msg_id m = h_message_id h) (messages d) = Some m" by auto
    with False Cons.prems(1) obtain v' vs' where v': "view R d m = Inr v'" "fenced_hits R d hs = Inr vs'"
      "vs = (v', h_rank h, h_tier h) # vs'" by (auto split: sum.splits)
    show ?thesis
    proof (cases "(v, rank, t) \<in> set vs'")
      case True
      with Cons.IH [OF v'(2)] Cons.prems(3) show ?thesis by simp
    next
      case f: False
      with Cons.prems(2) v'(3) have "v = v'" by simp
      have "real_hit q d h" using Cons.prems(3) by simp
      then obtain m' where m': "m' \<in> set (messages d)" "msg_id m' = h_message_id h"
        "msg_conversation_id m' = h_conversation_id h" "filters q m'" by (auto simp: real_hit_def)
      have "m' = m" using find_distinct [OF assms(4) m'(1)] m m'(2) by simp
      with m' False v'(1) \<open>v = v'\<close> show ?thesis by auto
    qed
  qed
qed simp

lemma search_ok:
  assumes "search R match q d = Inr vs" "(v, rank, t) \<in> set vs" "distinct (map msg_id (messages d))"
  shows "\<exists>m\<in>set (messages d). view R d m = Inr v \<and> filters q m \<and> msg_conversation_id m \<notin> set (local_only_ids d)"
proof -
  from assms(1) obtain hs where hs: "run_search (rd_unicode R) match q d = Inr hs" "fenced_hits R d hs = Inr vs"
    by (auto simp: search_def split: sum.splits)
  show ?thesis by (rule fenced_hits_ok [OF hs(2) assms(2) run_search_ok(1) [OF hs(1)] assms(3)])
qed

section \<open>Redaction\<close>

lemma mask_wa_id_short:
  "mask_wa_id R w = Some s \<Longrightarrow> \<exists>tl'. s = replicate 4 BULLET @ tl' \<and> length tl' \<le> 4"
  by (auto simp: mask_wa_id_def Let_def split: if_splits)

lemma clamp_bounds: "1 \<le> clamp n \<and> clamp n \<le> MAX_LIMIT"
  by (simp add: clamp_def MAX_LIMIT_def)

lemma mapM_length: "mapM f xs = Inr ys \<Longrightarrow> length ys = length xs"
  by (induction xs arbitrary: ys) (auto split: sum.splits)

lemma get_messages_bound: "get_messages R cid a b n d = Inr vs \<Longrightarrow> length vs \<le> 200"
  using clamp_bounds [of n]
  by (auto simp: get_messages_def limit_rows_def MAX_LIMIT_def split: option.splits if_splits dest!: mapM_length)

lemma list_chats_bound: "length (list_chats R q n d) \<le> 200"
  using clamp_bounds [of n] by (auto simp: list_chats_def limit_rows_def MAX_LIMIT_def)

end
