(* ===== verification/Keystore.thy ===== *)
theory Keystore
  imports Devices
begin

text \<open>
  Key storage (\<open>crypto/keystore.py\<close>). The locale \<open>key_store\<close> is the protocol \<open>KeyStore\<close> with the contract
  its clients rely on: a key is created once, loaded ever after, never replaced. The in-memory store is
  an instance, and so is the macOS one over any password store that keeps what it is given.
  \<open>os.urandom(n)\<close> is the first \<open>n\<close> bytes of a stream.
\<close>

section \<open>The protocol\<close>

locale key_store =
  fixes provision :: "string \<Rightarrow> nat \<Rightarrow> 's \<Rightarrow> (exc + bytes) \<times> 's"
    and require :: "string \<Rightarrow> nat \<Rightarrow> 's \<Rightarrow> exc + bytes"
  assumes provision_ok: "provision n k s = (Inr b, s') \<Longrightarrow> require n k s' = Inr b \<and> length b = k"
    and provision_new: "provision n k s = (Inr b, s') \<Longrightarrow> require n j s = Inl KeyMissing"
    and provision_other: "provision n k s = (r, s') \<Longrightarrow> m \<noteq> n \<Longrightarrow> require m j s' = require m j s"
    and provision_refused: "provision n k s = (Inl e, s') \<Longrightarrow> s' = s"
    and provision_missing: "require n k s = Inl KeyMissing \<Longrightarrow> \<exists>b s'. provision n k s = (Inr b, s')"
    and require_length: "require n k s = Inr b \<Longrightarrow> length b = k"
begin

text \<open>A key that can be loaded is never replaced, whatever is provisioned.\<close>

lemma provision_keeps:
  assumes "require n k s = Inr b" "provision m j s = (r, s')" shows "require n k s' = Inr b"
proof (cases "m = n")
  case True
  with assms provision_new have "\<And>x. r \<noteq> Inr x" by fastforce
  then obtain e where "r = Inl e" by (cases r) auto
  with assms provision_refused show ?thesis by blast
next
  case False
  with provision_other [OF assms(2), of n] assms(1) show ?thesis by simp
qed

lemma provision_twice: "provision n k s = (Inr b, s') \<Longrightarrow> \<exists>e. provision n j s' = (Inl e, s')"
proof -
  assume 1: "provision n k s = (Inr b, s')"
  obtain r s2 where 2: "provision n j s' = (r, s2)" by force
  show ?thesis
  proof (cases r)
    case (Inl e)
    with 2 provision_refused show ?thesis by blast
  next
    case (Inr x)
    with 2 provision_new [of n j s' x s2 k] provision_ok [OF 1] show ?thesis by simp
  qed
qed

end

section \<open>MemoryKeyStore\<close>

type_synonym memory_keys = "string \<rightharpoonup> bytes"

definition urandom :: "(nat \<Rightarrow> byte) \<Rightarrow> nat \<Rightarrow> bytes" where
  "urandom rnd n = map rnd [0..<n]"

definition check_length :: "nat \<Rightarrow> bytes \<Rightarrow> exc + bytes" where
  "check_length nbytes key = (if length key \<noteq> nbytes then Inl ValueError else Inr key)"

definition mem_provision :: "(nat \<Rightarrow> byte) \<Rightarrow> string \<Rightarrow> nat \<Rightarrow> memory_keys \<Rightarrow> (exc + bytes) \<times> memory_keys" where
  "mem_provision rnd name nbytes d =
     (if d name \<noteq> None then (Inl KeyExists, d)
      else (let key = urandom rnd nbytes in (Inr key, d(name \<mapsto> key))))"

definition mem_require :: "string \<Rightarrow> nat \<Rightarrow> memory_keys \<Rightarrow> exc + bytes" where
  "mem_require name nbytes d = (case d name of None \<Rightarrow> Inl KeyMissing | Some key \<Rightarrow> check_length nbytes key)"

lemma check_length_simps [simp]: "length k = n \<Longrightarrow> check_length n k = Inr k" "check_length n k \<noteq> Inl KeyMissing"
  by (auto simp: check_length_def)

lemma check_length_Inr: "check_length n k = Inr b \<Longrightarrow> b = k \<and> length b = n"
  by (auto simp: check_length_def split: if_splits)

lemma length_urandom [simp]: "length (urandom rnd n) = n"
  by (simp add: urandom_def)

interpretation mem: key_store "mem_provision rnd" mem_require for rnd
  by unfold_locales
    (auto simp: mem_provision_def mem_require_def Let_def split: if_splits option.splits dest: check_length_Inr)

section \<open>KeyringKeyStore\<close>

lemma fromhex_error: "fromhex s = Inl e \<Longrightarrow> e = ValueError"
  by (induction s rule: fromhex.induct) (auto split: if_splits list.splits option.splits sum.splits prod.splits)


text \<open>
  The package \<open>keyring\<close> is a pair of operations on a state of its own, restricted to the service
  \<open>whatsvault\<close>. What the store relies on is that a password reads back, and no other changes.
\<close>

definition keyring_ok :: "(string \<Rightarrow> 'k \<Rightarrow> pystr option) \<Rightarrow> (string \<Rightarrow> pystr \<Rightarrow> 'k \<Rightarrow> 'k) \<Rightarrow> bool" where
  "keyring_ok get put \<longleftrightarrow> (\<forall>n v k m. get m (put n v k) = (if m = n then Some v else get m k))"

text \<open>The backend check of the constructor: the module name contains \<open>macOS\<close>, or \<open>keychain\<close> in any case.\<close>

definition contains :: "pystr \<Rightarrow> pystr \<Rightarrow> bool" where
  "contains p s \<longleftrightarrow> list_ex (\<lambda>i. take (length p) (drop i s) = p) [0..<Suc (length s)]"

definition keyring_init :: "(pystr \<Rightarrow> pystr) \<Rightarrow> pystr \<Rightarrow> exc + unit" where
  "keyring_init lower backend =
     (if \<not> contains (lit ''macOS'') backend \<and> \<not> contains (lit ''keychain'') (lower backend) then Inl KeyStoreError
      else Inr ())"

definition kr_provision ::
  "(string \<Rightarrow> 'k \<Rightarrow> pystr option) \<Rightarrow> (string \<Rightarrow> pystr \<Rightarrow> 'k \<Rightarrow> 'k) \<Rightarrow> (nat \<Rightarrow> byte) \<Rightarrow> string \<Rightarrow> nat \<Rightarrow> 'k \<Rightarrow> (exc + bytes) \<times> 'k" where
  "kr_provision get put rnd name nbytes k =
     (if get name k \<noteq> None then (Inl KeyExists, k)
      else (let key = urandom rnd nbytes in (Inr key, put name (hex_of key) k)))"

definition kr_require :: "(string \<Rightarrow> 'k \<Rightarrow> pystr option) \<Rightarrow> string \<Rightarrow> nat \<Rightarrow> 'k \<Rightarrow> exc + bytes" where
  "kr_require get name nbytes k =
     (case get name k of
        None \<Rightarrow> Inl KeyMissing
      | Some v \<Rightarrow> (case fromhex v of Inl e \<Rightarrow> Inl e | Inr key \<Rightarrow> check_length nbytes key))"


lemma keyring_key_store:
  assumes "keyring_ok get put"
  shows "key_store (kr_provision get put rnd) (kr_require get)"
proof
  have gs: "get m (put n v k) = (if m = n then Some v else get m k)" for m n v k
    using assms by (simp add: keyring_ok_def)
  have none: "kr_require get n k s = Inl KeyMissing \<longleftrightarrow> get n s = None" for n k s
    by (auto simp: kr_require_def split: option.splits sum.splits dest: fromhex_error)
  show "kr_require get n k s' = Inr b \<and> length b = k" if "kr_provision get put rnd n k s = (Inr b, s')" for n k s b s'
    using that by (auto simp: kr_provision_def kr_require_def gs Let_def fromhex_hex_of split: if_splits)
  show "kr_require get n j s = Inl KeyMissing" if "kr_provision get put rnd n k s = (Inr b, s')" for n k s b s' j
    using that by (auto simp: none kr_provision_def split: if_splits)
  show "kr_require get m j s' = kr_require get m j s" if "kr_provision get put rnd n k s = (r, s')" "m \<noteq> n" for n k s r s' m j
    using that by (auto simp: kr_provision_def kr_require_def gs Let_def split: if_splits)
  show "s' = s" if "kr_provision get put rnd n k s = (Inl e, s')" for n k s e s'
    using that by (auto simp: kr_provision_def Let_def split: if_splits)
  show "\<exists>b s'. kr_provision get put rnd n k s = (Inr b, s')" if "kr_require get n k s = Inl KeyMissing" for n k s
    using that by (auto simp: none kr_provision_def Let_def)
  show "length b = k" if "kr_require get n k s = Inr b" for n k s b
    using that by (auto simp: kr_require_def split: option.splits sum.splits dest: check_length_Inr)
qed

end
