(* ===== verification/Migrations.thy ===== *)
theory Migrations
  imports Prelude
begin

text \<open>
  The migration runner (\<open>db/migrations/__init__.py\<close>). The state is what \<open>PRAGMA user_version\<close> reports
  together with the database; \<open>run_script\<close> executes one SQL asset, and a failing script is rolled back.
\<close>

definition MIGRATIONS :: "string \<Rightarrow> (nat \<times> string) list option" where
  "MIGRATIONS lane =
     (if lane = ''vault'' then Some
        [(1, ''vault/0001_initial.sql''), (2, ''vault/0002_import_provenance.sql''), (3, ''vault/0003_search.sql''),
         (4, ''vault/0004_mcp_visibility.sql''), (5, ''vault/0005_ingest_ops.sql''), (6, ''vault/0006_status_callback.sql'')]
      else if lane = ''control'' then Some
        [(1, ''control/0001_initial.sql''), (2, ''control/0002_device_agreement.sql''), (3, ''control/0003_phase5.sql''),
         (4, ''control/0004_oauth.sql''), (5, ''control/0005_oauth_families.sql'')]
      else None)"

record 'd versioned =
  user_version :: nat
  content :: 'd

primrec run_steps :: "(string \<Rightarrow> 'd \<Rightarrow> exc + 'd) \<Rightarrow> (nat \<times> string) list \<Rightarrow> 'd versioned \<Rightarrow> (exc + nat) \<times> 'd versioned" where
  "run_steps run_script [] c = (Inr (user_version c), c)"
| "run_steps run_script (m # ms) c =
     (if fst m \<le> user_version c then run_steps run_script ms c
      else (case run_script (snd m) (content c) of
          Inl e \<Rightarrow> (Inl e, c)
        | Inr d \<Rightarrow> run_steps run_script ms \<lparr>user_version = fst m, content = d\<rparr>))"

definition migrate :: "(string \<Rightarrow> 'd \<Rightarrow> exc + 'd) \<Rightarrow> string \<Rightarrow> 'd versioned \<Rightarrow> (exc + nat) \<times> 'd versioned" where
  "migrate run_script lane c =
     (case MIGRATIONS lane of None \<Rightarrow> (Inl ValueError, c) | Some ms \<Rightarrow> run_steps run_script ms c)"

definition latest :: "string \<Rightarrow> nat" where
  "latest lane = (case MIGRATIONS lane of None \<Rightarrow> 0 | Some ms \<Rightarrow> foldr max (map fst ms) 0)"

lemma latest_simps [simp]: "latest ''vault'' = 6" "latest ''control'' = 5"
  by (simp_all add: latest_def MIGRATIONS_def)

section \<open>Forward only, atomic, idempotent\<close>

text \<open>The scripts a database still lacks, and their composition up to the first failure.\<close>

lemma run_steps_forward:
  assumes "run_steps run_script ms c = (r, c')"
  shows "user_version c \<le> user_version c'"
  using assms
proof (induction ms arbitrary: c)
  case (Cons m ms)
  then show ?case by (fastforce split: if_splits sum.splits)
qed simp

lemma run_steps_done:
  assumes "sorted (map fst ms)" "run_steps run_script ms c = (Inr v, c')"
  shows "v = user_version c'" "user_version c' = max (user_version c) (foldr max (map fst ms) 0)"
proof -
  have "v = user_version c' \<and> user_version c' = max (user_version c) (foldr max (map fst ms) 0)"
    using assms
  proof (induction ms arbitrary: c)
    case (Cons m ms)
    show ?case
    proof (cases "fst m \<le> user_version c")
      case True
      with Cons.IH [of c] Cons.prems show ?thesis by (auto simp: max_def)
    next
      case False
      with Cons.prems(2) obtain d where d: "run_script (snd m) (content c) = Inr d"
        "run_steps run_script ms \<lparr>user_version = fst m, content = d\<rparr> = (Inr v, c')"
        by (auto split: sum.splits)
      from Cons.IH [OF _ d(2)] Cons.prems(1) False show ?thesis by (auto simp: max_def)
    qed
  qed simp
  then show "v = user_version c'" "user_version c' = max (user_version c) (foldr max (map fst ms) 0)" by auto
qed

lemma migrations_sorted: "MIGRATIONS lane = Some ms \<Longrightarrow> sorted (map fst ms)"
  by (auto simp: MIGRATIONS_def split: if_splits)

lemma migrate_done:
  assumes "migrate run_script lane c = (Inr v, c')"
  shows "v = max (user_version c) (latest lane)" "user_version c' = v"
proof -
  from assms obtain ms where ms: "MIGRATIONS lane = Some ms" "run_steps run_script ms c = (Inr v, c')"
    by (auto simp: migrate_def split: option.splits)
  from run_steps_done [OF migrations_sorted [OF ms(1)] ms(2)] ms(1)
  show "v = max (user_version c) (latest lane)" "user_version c' = v" by (simp_all add: latest_def)
qed

lemma run_steps_current:
  "(\<And>m. m \<in> set ms \<Longrightarrow> fst m \<le> user_version c) \<Longrightarrow> run_steps run_script ms c = (Inr (user_version c), c)"
  by (induction ms) auto

lemma latest_bound: "MIGRATIONS lane = Some ms \<Longrightarrow> m \<in> set ms \<Longrightarrow> fst m \<le> latest lane"
  by (auto simp: MIGRATIONS_def latest_def split: if_splits)

text \<open>A database at or past the shipped schema is left alone.\<close>

lemma migrate_current:
  assumes "lane = ''vault'' \<or> lane = ''control''" "latest lane \<le> user_version c"
  shows "migrate run_script lane c = (Inr (user_version c), c)"
proof -
  obtain ms where ms: "MIGRATIONS lane = Some ms" using assms(1) by (auto simp: MIGRATIONS_def)
  have "run_steps run_script ms c = (Inr (user_version c), c)"
    by (rule run_steps_current) (use latest_bound [OF ms] assms(2) in fastforce)
  then show ?thesis by (simp add: migrate_def ms)
qed

text \<open>A failed migration leaves the database as the last completed script left it.\<close>

lemma run_steps_failed:
  assumes "run_steps run_script ms c = (Inl e, c')"
  shows "\<exists>pre m post d. ms = pre @ m # post \<and> run_steps run_script pre c = (Inr (user_version c'), c') \<and>
    user_version c' < fst m \<and> run_script (snd m) (content c') = Inl e"
  using assms
proof (induction ms arbitrary: c)
  case (Cons m ms)
  show ?case
  proof (cases "fst m \<le> user_version c")
    case True
    with Cons obtain pre n post where "ms = pre @ n # post" "run_steps run_script pre c = (Inr (user_version c'), c')"
      "user_version c' < fst n" "run_script (snd n) (content c') = Inl e" by fastforce
    with True show ?thesis by (intro exI [of _ "m # pre"]) auto
  next
    case False
    show ?thesis
    proof (cases "run_script (snd m) (content c)")
      case (Inl x)
      with Cons.prems False show ?thesis by (intro exI [of _ "[]"]) auto
    next
      case (Inr d)
      with Cons.prems False have "run_steps run_script ms \<lparr>user_version = fst m, content = d\<rparr> = (Inl e, c')" by simp
      from Cons.IH [OF this] obtain pre n post where "ms = pre @ n # post"
        "run_steps run_script pre \<lparr>user_version = fst m, content = d\<rparr> = (Inr (user_version c'), c')"
        "user_version c' < fst n" "run_script (snd n) (content c') = Inl e" by fastforce
      with False Inr show ?thesis by (intro exI [of _ "m # pre"]) auto
    qed
  qed
qed simp

end
