(* ===== verification/Bootstrap.thy ===== *)
theory Bootstrap
  imports Keystore Migrations
begin

text \<open>
  First run: \<open>ops/bootstrap.py\<close> with \<open>ops/paths.py\<close>, \<open>ops/fsperms.py\<close>, and the openers of
  \<open>db/connection.py\<close>. The key store is any with the protocol of \<open>key_store\<close>; its two operations are
  arguments. The file system maps a path to a directory with its mode or to a database file with its
  mode, the key it is encrypted under, and its content. A connection that opens a path where
  nothing is creates the file; a wrong key is found by the eager read and raises.
\<close>

section \<open>Paths and permissions\<close>

record paths =
  home :: string

definition path_join :: "string \<Rightarrow> string \<Rightarrow> string" where
  "path_join a b = (if a \<noteq> [] \<and> last a = CHR ''/'' then a @ b else if a = [] then b else a @ ''/'' @ b)"

definition vault_db_path :: "paths \<Rightarrow> string" where "vault_db_path p = path_join (home p) ''vault.db''"
definition control_db_path :: "paths \<Rightarrow> string" where "control_db_path p = path_join (home p) ''control.db''"
definition blobs_dir :: "paths \<Rightarrow> string" where "blobs_dir p = path_join (home p) ''blobs''"
definition run_dir :: "paths \<Rightarrow> string" where "run_dir p = path_join (home p) ''run''"
definition logs_dir :: "paths \<Rightarrow> string" where "logs_dir p = path_join (home p) ''logs''"

definition all_dirs :: "paths \<Rightarrow> string list" where
  "all_dirs p = [home p, blobs_dir p, run_dir p, logs_dir p]"

definition secret_files :: "paths \<Rightarrow> string list" where
  "secret_files p = [vault_db_path p, control_db_path p]"

record 'd dbfile =
  f_mode :: nat
  f_key :: bytes
  f_db :: "'d versioned"

datatype 'd entry = Dir nat | File "'d dbfile"

type_synonym 'd fs = "string \<rightharpoonup> 'd entry"

definition isfile :: "'d fs \<Rightarrow> string \<Rightarrow> bool" where
  "isfile f p = (case f p of Some (File _) \<Rightarrow> True | _ \<Rightarrow> False)"

text \<open>\<open>0o700\<close> and \<open>0o600\<close>.\<close>

definition DIR_MODE :: nat where "DIR_MODE = 448"
definition FILE_MODE :: nat where "FILE_MODE = 384"

definition ensure_dir :: "string \<Rightarrow> 'd fs \<Rightarrow> exc + 'd fs" where
  "ensure_dir p f = (if isfile f p then Inl OSError else Inr (f(p \<mapsto> Dir DIR_MODE)))"

primrec ensure_dirs :: "string list \<Rightarrow> 'd fs \<Rightarrow> (exc + unit) \<times> 'd fs" where
  "ensure_dirs [] f = (Inr (), f)"
| "ensure_dirs (p # ps) f = (case ensure_dir p f of Inl e \<Rightarrow> (Inl e, f) | Inr f' \<Rightarrow> ensure_dirs ps f')"

text \<open>\<open>ensure_secret_file\<close> as \<open>init_vault\<close> calls it: on files that are there.\<close>

definition ensure_secret_file :: "string \<Rightarrow> 'd fs \<Rightarrow> 'd fs" where
  "ensure_secret_file p f = (case f p of Some (File x) \<Rightarrow> f(p \<mapsto> File (x\<lparr>f_mode := FILE_MODE\<rparr>)) | _ \<Rightarrow> f)"

section \<open>Opening databases\<close>

definition DB_KEY_NAMES :: "string \<Rightarrow> string option" where
  "DB_KEY_NAMES kind = (if kind = ''vault'' then Some ''whatsvault.vault.key.v1''
     else if kind = ''control'' then Some ''whatsvault.control.key.v1'' else None)"

text \<open>A keyed connection is the key and the content it was opened with; the empty database is \<open>d0\<close>.\<close>

definition open_db :: "'d \<Rightarrow> string \<Rightarrow> bytes \<Rightarrow> 'd fs \<Rightarrow> exc + 'd versioned" where
  "open_db d0 p key f =
     (case f p of
        None \<Rightarrow> Inr \<lparr>user_version = 0, content = d0\<rparr>
      | Some (Dir _) \<Rightarrow> Inl DatabaseError
      | Some (File x) \<Rightarrow> if f_key x = key then Inr (f_db x) else Inl DatabaseError)"

text \<open>What a committed change leaves on disk; a new file has the mode of the process's umask.\<close>

definition save_db :: "string \<Rightarrow> bytes \<Rightarrow> 'd versioned \<Rightarrow> 'd fs \<Rightarrow> 'd fs" where
  "save_db p key v f = f(p \<mapsto> File \<lparr>f_mode = (case f p of Some (File x) \<Rightarrow> f_mode x | _ \<Rightarrow> FILE_MODE), f_key = key, f_db = v\<rparr>)"

record ('s, 'd) host =
  keys_of :: 's
  files :: "'d fs"

type_synonym 's prov = "string \<Rightarrow> nat \<Rightarrow> 's \<Rightarrow> (exc + bytes) \<times> 's"
type_synonym 's req = "string \<Rightarrow> nat \<Rightarrow> 's \<Rightarrow> exc + bytes"

definition provision_db :: "'s prov \<Rightarrow> 'd \<Rightarrow> string \<Rightarrow> string \<Rightarrow> ('s, 'd) host \<Rightarrow> (exc + bytes \<times> 'd versioned) \<times> ('s, 'd) host" where
  "provision_db prov d0 kind p h =
     (case DB_KEY_NAMES kind of
        None \<Rightarrow> (Inl ValueError, h)
      | Some name \<Rightarrow>
          (case prov name 32 (keys_of h) of
             (Inl e, s') \<Rightarrow> (Inl e, h\<lparr>keys_of := s'\<rparr>)
           | (Inr key, s') \<Rightarrow>
               ((case open_db d0 p key (files h) of Inl e \<Rightarrow> Inl e | Inr v \<Rightarrow> Inr (key, v)), h\<lparr>keys_of := s'\<rparr>)))"

definition open_existing :: "'s req \<Rightarrow> 'd \<Rightarrow> string \<Rightarrow> string \<Rightarrow> ('s, 'd) host \<Rightarrow> exc + bytes \<times> 'd versioned" where
  "open_existing req d0 kind p h =
     (case DB_KEY_NAMES kind of
        None \<Rightarrow> Inl ValueError
      | Some name \<Rightarrow>
          (case req name 32 (keys_of h) of
             Inl e \<Rightarrow> Inl e
           | Inr key \<Rightarrow> (case open_db d0 p key (files h) of Inl e \<Rightarrow> Inl e | Inr v \<Rightarrow> Inr (key, v))))"

section \<open>Bootstrap\<close>

definition TOKEN_KEY_NAME :: string where "TOKEN_KEY_NAME = ''whatsvault.mcp.token.v1''"
definition AUDIT_KEY_NAME :: string where "AUDIT_KEY_NAME = ''whatsvault.mcp.audit.v1''"

definition SERVICE_KEYS :: "string list" where
  "SERVICE_KEYS = [TOKEN_KEY_NAME, AUDIT_KEY_NAME]"

definition has_key :: "'s req \<Rightarrow> 's \<Rightarrow> string \<Rightarrow> bool" where
  "has_key req s name = (case req name 32 s of Inl _ \<Rightarrow> False | Inr _ \<Rightarrow> True)"

definition db_paths :: "paths \<Rightarrow> (string \<times> string) list" where
  "db_paths p = [(''vault'', vault_db_path p), (''control'', control_db_path p)]"

definition key_name :: "string \<Rightarrow> string" where
  "key_name kind = (case DB_KEY_NAMES kind of None \<Rightarrow> [] | Some n \<Rightarrow> n)"

definition stranded :: "'s req \<Rightarrow> paths \<Rightarrow> ('s, 'd) host \<Rightarrow> string list" where
  "stranded req p h = map fst (filter (\<lambda>(kind, path). isfile (files h) path \<and> \<not> has_key req (keys_of h) (key_name kind)) (db_paths p))"

datatype db_state = Created | Migrated | Current

text \<open>Close the connection after a migration: what was committed is in the file, also when a later script failed.\<close>

definition migrate_file ::
  "(string \<Rightarrow> 'd \<Rightarrow> exc + 'd) \<Rightarrow> string \<Rightarrow> string \<Rightarrow> bytes \<Rightarrow> 'd versioned \<Rightarrow> ('s, 'd) host \<Rightarrow> (exc + nat) \<times> ('s, 'd) host" where
  "migrate_file run_script kind path key v h =
     (case migrate run_script kind v of
        (r, v') \<Rightarrow> (r, h\<lparr>files := (if v' = v then files h else save_db path key v' (files h))\<rparr>))"

definition ensure_database ::
  "'s prov \<Rightarrow> 's req \<Rightarrow> 'd \<Rightarrow> (string \<Rightarrow> 'd \<Rightarrow> exc + 'd) \<Rightarrow> string \<Rightarrow> string \<Rightarrow> ('s, 'd) host \<Rightarrow>
   (exc + db_state \<times> string option) \<times> ('s, 'd) host" where
  "ensure_database prov req d0 run_script kind path h =
     (if isfile (files h) path then
        (case open_existing req d0 kind path h of
           Inl e \<Rightarrow> (Inl e, h)
         | Inr (key, v) \<Rightarrow>
             (case migrate_file run_script kind path key v h of
                (Inl e, h') \<Rightarrow> (Inl e, h')
              | (Inr after, h') \<Rightarrow> (Inr (if after \<noteq> user_version v then Migrated else Current, None), h')))
      else if has_key req (keys_of h) (key_name kind) then
        (case open_existing req d0 kind path h of
           Inl e \<Rightarrow> (Inl e, h)
         | Inr (key, v) \<Rightarrow>
             (case migrate_file run_script kind path key v h of
                (Inl e, h') \<Rightarrow> (Inl e, h') | (Inr _, h') \<Rightarrow> (Inr (Created, None), h')))
      else
        (case provision_db prov d0 kind path h of
           (Inl e, h1) \<Rightarrow> (Inl e, h1)
         | (Inr (key, v), h1) \<Rightarrow>
             (case migrate_file run_script kind path key v h1 of
                (Inl e, h') \<Rightarrow> (Inl e, h') | (Inr _, h') \<Rightarrow> (Inr (Created, Some (key_name kind)), h'))))"

record report =
  rp_created :: "string list"
  rp_already :: "string list"
  rp_migrated :: "string list"
  rp_provisioned :: "string list"

definition file_state :: "string \<Rightarrow> db_state \<Rightarrow> string option \<Rightarrow> report \<Rightarrow> report" where
  "file_state kind state key r =
     (let r1 = (case key of None \<Rightarrow> r | Some k \<Rightarrow> r\<lparr>rp_provisioned := rp_provisioned r @ [k]\<rparr>) in
      case state of
        Created \<Rightarrow> r1\<lparr>rp_created := rp_created r1 @ [kind]\<rparr>
      | Current \<Rightarrow> r1\<lparr>rp_already := rp_already r1 @ [kind]\<rparr>
      | Migrated \<Rightarrow> r1\<lparr>rp_migrated := rp_migrated r1 @ [kind], rp_already := rp_already r1 @ [kind]\<rparr>)"

primrec ensure_databases ::
  "'s prov \<Rightarrow> 's req \<Rightarrow> 'd \<Rightarrow> (string \<Rightarrow> 'd \<Rightarrow> exc + 'd) \<Rightarrow> (string \<times> string) list \<Rightarrow> report \<Rightarrow> ('s, 'd) host \<Rightarrow>
   (exc + report) \<times> ('s, 'd) host" where
  "ensure_databases prov req d0 run_script [] r h = (Inr r, h)"
| "ensure_databases prov req d0 run_script (kp # kps) r h =
     (case ensure_database prov req d0 run_script (fst kp) (snd kp) h of
        (Inl e, h') \<Rightarrow> (Inl e, h')
      | (Inr (state, key), h') \<Rightarrow> ensure_databases prov req d0 run_script kps (file_state (fst kp) state key r) h')"

primrec ensure_keys :: "'s prov \<Rightarrow> 's req \<Rightarrow> string list \<Rightarrow> report \<Rightarrow> 's \<Rightarrow> (exc + report) \<times> 's" where
  "ensure_keys prov req [] r s = (Inr r, s)"
| "ensure_keys prov req (n # ns) r s =
     (if has_key req s n then ensure_keys prov req ns r s
      else (case prov n 32 s of
          (Inl e, s') \<Rightarrow> (Inl e, s')
        | (Inr _, s') \<Rightarrow> ensure_keys prov req ns (r\<lparr>rp_provisioned := rp_provisioned r @ [n]\<rparr>) s'))"

text \<open>The result: the stranded databases, or the report with the token when it was asked for.\<close>

datatype init_result = Stranded "string list" | Ready report "pystr option"

definition init_vault ::
  "'s prov \<Rightarrow> 's req \<Rightarrow> 'd \<Rightarrow> (string \<Rightarrow> 'd \<Rightarrow> exc + 'd) \<Rightarrow> paths \<Rightarrow> bool \<Rightarrow> ('s, 'd) host \<Rightarrow> (exc + init_result) \<times> ('s, 'd) host" where
  "init_vault prov req d0 run_script p reveal h =
     (if stranded req p h \<noteq> [] then (Inr (Stranded (stranded req p h)), h)
      else
        (case ensure_dirs (all_dirs p) (files h) of
           (Inl e, f) \<Rightarrow> (Inl e, h\<lparr>files := f\<rparr>)
         | (Inr _, f) \<Rightarrow>
        (case ensure_databases prov req d0 run_script (db_paths p)
                \<lparr>rp_created = [], rp_already = [], rp_migrated = [], rp_provisioned = []\<rparr> (h\<lparr>files := f\<rparr>) of
           (Inl e, h1) \<Rightarrow> (Inl e, h1)
         | (Inr r, h1) \<Rightarrow>
        (case ensure_keys prov req SERVICE_KEYS r (keys_of h1) of
           (Inl e, s) \<Rightarrow> (Inl e, h1\<lparr>keys_of := s\<rparr>)
         | (Inr r', s) \<Rightarrow>
             (let h2 = h1\<lparr>keys_of := s, files := fold ensure_secret_file (secret_files p) (files h1)\<rparr> in
              if reveal then
                (case req TOKEN_KEY_NAME 32 s of
                   Inl e \<Rightarrow> (Inl e, h2) | Inr t \<Rightarrow> (Inr (Ready r' (Some (hex_of t))), h2))
              else (Inr (Ready r' None), h2))))))"


section \<open>Files\<close>

text \<open>What no step ever does: drop a database file, or put it under another key.\<close>

definition keeps_files :: "'d fs \<Rightarrow> 'd fs \<Rightarrow> bool" where
  "keeps_files f f' \<longleftrightarrow> (\<forall>p x. f p = Some (File x) \<longrightarrow> (\<exists>y. f' p = Some (File y) \<and> f_key y = f_key x))"

lemma keeps_files_refl [simp]: "keeps_files f f"
  by (simp add: keeps_files_def)

lemma keeps_files_trans: "keeps_files f g \<Longrightarrow> keeps_files g h \<Longrightarrow> keeps_files f h"
  unfolding keeps_files_def by metis

lemma ensure_dirs_keeps: "ensure_dirs ps f = (r, f') \<Longrightarrow> keeps_files f f'"
proof (induction ps arbitrary: f)
  case (Cons p ps)
  show ?case
  proof (cases "isfile f p")
    case True
    with Cons.prems show ?thesis by (auto simp: ensure_dir_def)
  next
    case False
    with Cons.prems have "ensure_dirs ps (f(p \<mapsto> Dir DIR_MODE)) = (r, f')" by (simp add: ensure_dir_def)
    from Cons.IH [OF this] False show ?thesis
      unfolding keeps_files_def isfile_def by (metis (mono_tags, lifting) entry.simps(6) fun_upd_apply option.simps(5))
  qed
qed simp

lemma secret_keeps: "keeps_files f (ensure_secret_file p f)"
  by (auto simp: keeps_files_def ensure_secret_file_def split: option.split entry.split)

lemma secrets_keep: "keeps_files f (fold ensure_secret_file ps f)"
proof (induction ps arbitrary: f)
  case (Cons p ps)
  show ?case using keeps_files_trans [OF secret_keeps [of f p] Cons.IH] by simp
qed simp

lemma save_keeps: "(\<And>x. f p = Some (File x) \<Longrightarrow> f_key x = key) \<Longrightarrow> keeps_files f (save_db p key v f)"
  by (auto simp: keeps_files_def save_db_def)

lemma open_db_key: "open_db d0 p key f = Inr v \<Longrightarrow> f p = Some (File x) \<Longrightarrow> f_key x = key"
  by (auto simp: open_db_def split: if_splits)

lemma migrate_file_keeps:
  assumes "open_db d0 path key (files h) = Inr v" "migrate_file rs kind path key v h = (r, h')"
  shows "keeps_files (files h) (files h')" "keys_of h' = keys_of h"
proof -
  have "keeps_files (files h) (save_db path key v' (files h))" for v'
    by (rule save_keeps) (rule open_db_key [OF assms(1)])
  then show "keeps_files (files h) (files h')" using assms(2) by (auto simp: migrate_file_def split: prod.splits)
  show "keys_of h' = keys_of h" using assms(2) by (auto simp: migrate_file_def split: prod.splits)
qed

section \<open>Nothing is stranded\<close>

context key_store
begin

definition keeps_keys :: "'s \<Rightarrow> 's \<Rightarrow> bool" where
  "keeps_keys s s' \<longleftrightarrow> (\<forall>n k b. require n k s = Inr b \<longrightarrow> require n k s' = Inr b)"

lemma keeps_keys_refl [simp]: "keeps_keys s s"
  by (simp add: keeps_keys_def)

lemma keeps_keys_trans: "keeps_keys s t \<Longrightarrow> keeps_keys t u \<Longrightarrow> keeps_keys s u"
  by (simp add: keeps_keys_def)

lemma provision_keeps_keys: "provision n k s = (r, s') \<Longrightarrow> keeps_keys s s'"
  unfolding keeps_keys_def using provision_keeps by blast

definition keeps :: "('s, 'd) host \<Rightarrow> ('s, 'd) host \<Rightarrow> bool" where
  "keeps h h' \<longleftrightarrow> keeps_files (files h) (files h') \<and> keeps_keys (keys_of h) (keys_of h')"

lemma keeps_refl [simp]: "keeps h h"
  by (simp add: keeps_def)

lemma keeps_trans: "keeps h i \<Longrightarrow> keeps i j \<Longrightarrow> keeps h j"
  unfolding keeps_def using keeps_files_trans keeps_keys_trans by blast

lemma ensure_database_keeps:
  assumes "ensure_database provision require d0 rs kind path h = (r, h')"
  shows "keeps h h'"
proof -
  have oe: "keeps h h'" if "open_existing require d0 kind path h = Inr (key, v)" "migrate_file rs kind path key v h = (x, h')" for key v x
  proof -
    from that(1) have "open_db d0 path key (files h) = Inr v"
      by (auto simp: open_existing_def split: option.splits sum.splits)
    from migrate_file_keeps [OF this that(2)] show ?thesis by (simp add: keeps_def)
  qed
  have pd: "keeps h h1 \<and> (\<forall>key v. x = Inr (key, v) \<longrightarrow> open_db d0 path key (files h1) = Inr v)"
    if "provision_db provision d0 kind path h = (x, h1)" for x h1
    using that by (auto simp: provision_db_def keeps_def split: option.splits sum.splits prod.splits dest: provision_keeps_keys)
  consider "h' = h" | key v x where "open_existing require d0 kind path h = Inr (key, v)" "migrate_file rs kind path key v h = (x, h')"
    | x where "provision_db provision d0 kind path h = (x, h')"
    | key v h1 x where "provision_db provision d0 kind path h = (Inr (key, v), h1)" "migrate_file rs kind path key v h1 = (x, h')"
    using assms by (auto simp: ensure_database_def split: if_splits sum.splits prod.splits)
  then show ?thesis
  proof cases
    case (2 key v x)
    then show ?thesis by (rule oe)
  next
    case (3 x)
    then show ?thesis using pd by blast
  next
    case (4 key v h1 x)
    then have "open_db d0 path key (files h1) = Inr v" "keeps h h1" using pd by blast+
    from migrate_file_keeps [OF this(1) 4(2)] this(2) keeps_trans [of h h1 h'] show ?thesis by (simp add: keeps_def)
  qed simp
qed

lemma ensure_databases_keeps: "ensure_databases provision require d0 rs kps r h = (x, h') \<Longrightarrow> keeps h h'"
proof (induction kps arbitrary: r h)
  case (Cons kp kps)
  obtain y h1 where 1: "ensure_database provision require d0 rs (fst kp) (snd kp) h = (y, h1)" by force
  note k = ensure_database_keeps [OF 1]
  show ?case
  proof (cases y)
    case (Inl e)
    with Cons.prems 1 k show ?thesis by auto
  next
    case (Inr sk)
    obtain state key where "sk = (state, key)" by force
    with Inr Cons.prems 1 have "ensure_databases provision require d0 rs kps (file_state (fst kp) state key r) h1 = (x, h')" by simp
    from keeps_trans [OF k Cons.IH [OF this]] show ?thesis .
  qed
qed simp

lemma ensure_keys_keeps: "ensure_keys provision require ns r s = (x, s') \<Longrightarrow> keeps_keys s s'"
proof (induction ns arbitrary: r s)
  case (Cons n ns)
  obtain y s1 where 1: "provision n 32 s = (y, s1)" by force
  note k = provision_keeps_keys [OF 1]
  consider "has_key require s n" | e where "\<not> has_key require s n" "y = Inl e" | b where "\<not> has_key require s n" "y = Inr b"
    by (cases y) auto
  then show ?case
  proof cases
    case 1
    with Cons show ?thesis by simp
  next
    case (2 e)
    with Cons.prems 1 k show ?thesis by simp
  next
    case (3 b)
    with Cons.prems 1 have "ensure_keys provision require ns (r\<lparr>rp_provisioned := rp_provisioned r @ [n]\<rparr>) s1 = (x, s')" by simp
    from keeps_keys_trans [OF k Cons.IH [OF this]] show ?thesis .
  qed
qed simp

text \<open>Whatever the outcome of \<open>init\<close>, every database file keeps its key and every loadable key stays loadable.\<close>

lemma init_keeps:
  assumes "init_vault provision require d0 rs p reveal h = (r, h')"
  shows "keeps h h'"
proof (cases "stranded require p h = []")
  case False
  with assms show ?thesis by (simp add: init_vault_def)
next
  case True
  obtain y f where 1: "ensure_dirs (all_dirs p) (files h) = (y, f)" by force
  have k1: "keeps h (h\<lparr>files := f\<rparr>)" using ensure_dirs_keeps [OF 1] by (simp add: keeps_def)
  show ?thesis
  proof (cases y)
    case (Inl e)
    with assms True 1 k1 show ?thesis by (simp add: init_vault_def)
  next
    case y: (Inr u)
    let ?r0 = "\<lparr>rp_created = [], rp_already = [], rp_migrated = [], rp_provisioned = []\<rparr>"
    obtain z h1 where 2: "ensure_databases provision require d0 rs (db_paths p) ?r0 (h\<lparr>files := f\<rparr>) = (z, h1)" by force
    have k2: "keeps h h1" using keeps_trans [OF k1 ensure_databases_keeps [OF 2]] .
    show ?thesis
    proof (cases z)
      case (Inl e)
      with assms True 1 y 2 k2 show ?thesis by (simp add: init_vault_def)
    next
      case z: (Inr r1)
      obtain w s where 3: "ensure_keys provision require SERVICE_KEYS r1 (keys_of h1) = (w, s)" by force
      have k3: "keeps_keys (keys_of h1) s" by (rule ensure_keys_keeps [OF 3])
      have "h' = h1\<lparr>keys_of := s\<rparr> \<or> h' = h1\<lparr>keys_of := s, files := fold ensure_secret_file (secret_files p) (files h1)\<rparr>"
        using assms True 1 y 2 z 3 by (cases w) (auto simp: init_vault_def Let_def split: if_splits sum.splits)
      then have "keeps h1 h'" using k3 secrets_keep by (auto simp: keeps_def)
      then show ?thesis using keeps_trans [OF k2] by blast
    qed
  qed
qed

text \<open>So a database that could be opened can be opened afterwards, under the same key.\<close>

lemma still_opens:
  assumes "keeps h h'" "isfile (files h) path" "open_existing require d0 kind path h = Inr (key, v)"
  shows "\<exists>v'. open_existing require d0 kind path h' = Inr (key, v')"
proof -
  from assms(3) obtain name where n: "DB_KEY_NAMES kind = Some name" "require name 32 (keys_of h) = Inr key"
    "open_db d0 path key (files h) = Inr v"
    by (auto simp: open_existing_def split: option.splits sum.splits)
  obtain x where x: "files h path = Some (File x)" using assms(2) by (auto simp: isfile_def split: option.splits entry.splits)
  then obtain y where "files h' path = Some (File y)" "f_key y = f_key x" using assms(1) unfolding keeps_def keeps_files_def by blast
  moreover have "f_key x = key" by (rule open_db_key [OF n(3) x])
  moreover have "require name 32 (keys_of h') = Inr key" using assms(1) n(2) unfolding keeps_def keeps_keys_def by blast
  ultimately show ?thesis by (simp add: open_existing_def n(1) open_db_def)
qed

lemma has_key_keeps: "keeps_keys s s' \<Longrightarrow> has_key require s n \<Longrightarrow> has_key require s' n"
  unfolding keeps_keys_def has_key_def by (auto split: sum.splits)

lemma has_key_open: "open_existing require d0 kind path h = Inr kv \<Longrightarrow> has_key require (keys_of h) (key_name kind)"
  by (auto simp: open_existing_def has_key_def key_name_def split: option.splits sum.splits)

lemma has_key_provision: "provision n 32 s = (Inr b, s') \<Longrightarrow> has_key require s' n"
  using provision_ok by (simp add: has_key_def)

lemma ensure_database_key:
  assumes "ensure_database provision require d0 rs kind path h = (Inr x, h')"
  shows "has_key require (keys_of h') (key_name kind)"
proof -
  have k: "keys_of h2 = keys_of h1" if "migrate_file rs kind path key v h1 = (y, h2)" for key v y h1 h2
    using that by (auto simp: migrate_file_def split: prod.splits)
  consider kv where "open_existing require d0 kind path h = Inr kv" "keys_of h' = keys_of h"
    | key v h1 where "provision_db provision d0 kind path h = (Inr (key, v), h1)" "keys_of h' = keys_of h1"
    using assms by (auto simp: ensure_database_def split: if_splits sum.splits prod.splits dest: k)
  then show ?thesis
  proof cases
    case (1 kv)
    then show ?thesis using has_key_open by metis
  next
    case (2 key v h1)
    then show ?thesis
      by (auto simp: provision_db_def key_name_def split: option.splits sum.splits prod.splits dest: has_key_provision)
  qed
qed

lemma ensure_databases_keys:
  "ensure_databases provision require d0 rs kps r h = (Inr x, h') \<Longrightarrow> kp \<in> set kps \<Longrightarrow> has_key require (keys_of h') (key_name (fst kp))"
proof (induction kps arbitrary: r h)
  case (Cons q kps)
  obtain y h1 where 1: "ensure_database provision require d0 rs (fst q) (snd q) h = (y, h1)" by force
  with Cons.prems(1) obtain state key where y: "y = Inr (state, key)"
    and 2: "ensure_databases provision require d0 rs kps (file_state (fst q) state key r) h1 = (Inr x, h')"
    by (auto split: sum.splits)
  show ?case
  proof (cases "kp = q")
    case True
    have "has_key require (keys_of h1) (key_name (fst q))" by (rule ensure_database_key) (use 1 y in simp)
    then show ?thesis using True has_key_keeps ensure_databases_keeps [OF 2] unfolding keeps_def by blast
  next
    case False
    then show ?thesis using Cons.IH [OF 2] Cons.prems(2) by simp
  qed
qed simp

lemma ensure_keys_all:
  "ensure_keys provision require ns r s = (Inr x, s') \<Longrightarrow> n \<in> set ns \<Longrightarrow> has_key require s' n"
proof (induction ns arbitrary: r s)
  case (Cons m ns)
  show ?case
  proof (cases "has_key require s m")
    case True
    with Cons.prems(1) have 1: "ensure_keys provision require ns r s = (Inr x, s')" by simp
    then show ?thesis using Cons True has_key_keeps ensure_keys_keeps by fastforce
  next
    case False
    with Cons.prems(1) obtain b s1 where 1: "provision m 32 s = (Inr b, s1)"
      "ensure_keys provision require ns (r\<lparr>rp_provisioned := rp_provisioned r @ [m]\<rparr>) s1 = (Inr x, s')"
      by (auto split: sum.splits prod.splits)
    then show ?thesis using Cons has_key_provision has_key_keeps ensure_keys_keeps by fastforce
  qed
qed simp

text \<open>When \<open>init\<close> reports success, the four keys are there.\<close>

lemma init_ready_keys:
  assumes "init_vault provision require d0 rs p reveal h = (Inr (Ready r t), h')"
    "n \<in> {''whatsvault.vault.key.v1'', ''whatsvault.control.key.v1'', TOKEN_KEY_NAME, AUDIT_KEY_NAME}"
  shows "has_key require (keys_of h') n"
proof -
  from assms(1) obtain f r0 h0 r1 h1 s where
    2: "ensure_databases provision require d0 rs (db_paths p) r0 h0 = (Inr r1, h1)" and
    3: "ensure_keys provision require SERVICE_KEYS r1 (keys_of h1) = (Inr r, s)" and s: "keys_of h' = s"
    by (auto simp: init_vault_def Let_def split: if_splits sum.splits prod.splits)
  have "has_key require (keys_of h1) (key_name k)" if "k = ''vault'' \<or> k = ''control''" for k
    using that ensure_databases_keys [OF 2, of "(''vault'', vault_db_path p)"] ensure_databases_keys [OF 2, of "(''control'', control_db_path p)"]
    by (auto simp: db_paths_def)
  then have "has_key require s (key_name k)" if "k = ''vault'' \<or> k = ''control''" for k
    using that has_key_keeps ensure_keys_keeps [OF 3] by blast
  from this [of "''vault''"] this [of "''control''"] ensure_keys_all [OF 3, of n] assms(2) s
  show ?thesis by (auto simp: key_name_def DB_KEY_NAMES_def SERVICE_KEYS_def)
qed

end

end
