(* ===== verification/Doctor.thy ===== *)
theory Doctor
  imports Consumer_Safety Reads Bootstrap
begin

text \<open>
  The integrity checks (\<open>doctor.py\<close>) and their roll-up (\<open>ops/health.py\<close>). Answers of SQLite's own
  pragmas are parameters. The second half relates the windows of \<open>control.db\<close> to the evidence of
  \<open>vault.db\<close>: the live path never opens a window that the evidence does not, and the doctor makes them
  equal.
\<close>

section \<open>Windows and evidence\<close>

definition evidence :: "vault_db \<Rightarrow> pystr \<Rightarrow> int list" where
  "evidence d cid = map msg_ts_lower_ms (filter (\<lambda>m. msg_conversation_id m = cid \<and> msg_direction m = In \<and> msg_window_eligible m) (messages d))"

text \<open>\<open>COALESCE(MAX(ts_lower_ms), 0)\<close>.\<close>

definition evidence_ms :: "vault_db \<Rightarrow> pystr \<Rightarrow> int" where
  "evidence_ms d cid = (case evidence d cid of [] \<Rightarrow> 0 | t # ts \<Rightarrow> foldl max t ts)"

definition rebuild_window_from_evidence :: "vault_db \<Rightarrow> pystr \<Rightarrow> control \<Rightarrow> (exc + int \<times> int \<times> bool) \<times> control" where
  "rebuild_window_from_evidence d cid c = repair_window cid (evidence_ms d cid) c"

section \<open>Checks\<close>

record finding =
  fd_check :: string
  fd_ok :: bool
  fd_detail :: pystr

record pragmas =
  pg_integrity :: pystr
  pg_foreign_keys :: nat
  pg_cipher :: nat
  pg_fts :: "string \<Rightarrow> pystr option"

definition counted :: "string \<Rightarrow> nat \<Rightarrow> string \<Rightarrow> finding" where
  "counted check n what = \<lparr>fd_check = check, fd_ok = (n = 0), fd_detail = nat_dec n @ lit what\<rparr>"

definition check_vault :: "pragmas \<Rightarrow> vault_db \<Rightarrow> finding list" where
  "check_vault P d =
     (let bad = rowcount (\<lambda>m. validate (lit ''msg'') (msg_id m) \<noteq> Inr (msg_id m)) (messages d) in
      [counted ''message_id_prefix'' bad '' message id(s) fail prefix/ULID validation'',
       \<lparr>fd_check = ''integrity_check'', fd_ok = (pg_integrity P = lit ''ok''), fd_detail = pg_integrity P\<rparr>,
       counted ''foreign_key_check'' (pg_foreign_keys P) '' foreign-key violation(s)'',
       counted ''cipher_integrity_check'' (pg_cipher P) '' encrypted-page HMAC failure(s)''])"

definition fts_finding :: "pragmas \<Rightarrow> string \<Rightarrow> finding" where
  "fts_finding P t = (case pg_fts P t of
     None \<Rightarrow> \<lparr>fd_check = t @ ''_integrity'', fd_ok = True, fd_detail = lit ''ok''\<rparr>
   | Some err \<Rightarrow> \<lparr>fd_check = t @ ''_integrity'', fd_ok = False, fd_detail = err\<rparr>)"

definition orphans :: "vault_db \<Rightarrow> nat" where
  "orphans d = rowcount (\<lambda>r. \<not> list_ex (\<lambda>m. msg_id m = sdc_message_id r) (messages d)) (search_documents d)"

definition missing :: "vault_db \<Rightarrow> nat" where
  "missing d = rowcount (\<lambda>m. msg_text_original m \<noteq> None \<and> \<not> list_ex (\<lambda>r. sdc_message_id r = msg_id m) (search_documents d)) (messages d)"

definition stale :: "vault_db \<Rightarrow> nat" where
  "stale d = rowcount (\<lambda>r. sdc_normaliser_version r \<noteq> NORMALISER_VERSION) (search_documents d)"

definition check_search :: "pragmas \<Rightarrow> vault_db \<Rightarrow> finding list" where
  "check_search P d =
     [fts_finding P ''fts_lexical'', fts_finding P ''fts_compact'',
      counted ''search_orphans'' (orphans d) '' search_documents row(s) with no message'',
      counted ''search_missing'' (missing d) '' message(s) with text not indexed'',
      counted ''search_normaliser_stale'' (stale d) '' row(s) at a stale normaliser_version'']"

definition min_ms :: "int list \<Rightarrow> int option" where
  "min_ms l = (case l of [] \<Rightarrow> None | t # ts \<Rightarrow> Some (foldl min t ts))"

definition check_ingest :: "vault_db \<Rightarrow> finding list" where
  "check_ingest d =
     (let oldest = min_ms (map dlq_first_seen_ms (ingest_dlq d)); s = ingest_state d in
      [counted ''dlq_depth'' (length (ingest_dlq d)) '' DLQ row(s)'',
       \<lparr>fd_check = ''dlq_oldest_first_seen_ms'', fd_ok = (oldest = None),
        fd_detail = (case oldest of None \<Rightarrow> lit ''None'' | Some t \<Rightarrow> int_dec t)\<rparr>,
       \<lparr>fd_check = ''circuit_breaker'', fd_ok = (ist_circuit_state s = CLOSED),
        fd_detail = lit (case ist_circuit_state s of CLOSED \<Rightarrow> ''CLOSED'' | OPEN \<Rightarrow> ''OPEN'') @
          (case ist_reason s of Some r \<Rightarrow> if r \<noteq> [] then lit '': '' @ r else [] | None \<Rightarrow> [])\<rparr>])"

text \<open>What \<open>check_mcp\<close> asks of the two schemas, and the key store it may be given.\<close>

record schema_facts =
  sf_columns :: "string list"
  sf_audit_log :: bool
  sf_triggers :: "string list"
  sf_vault_version :: nat
  sf_control_version :: nat

definition lane_behind :: "schema_facts \<Rightarrow> (string \<times> nat \<times> nat) option" where
  "lane_behind F =
     (if sf_vault_version F < latest ''vault'' then Some (''vault'', sf_vault_version F, latest ''vault'')
      else if sf_control_version F < latest ''control'' then Some (''control'', sf_control_version F, latest ''control'')
      else None)"

definition list_repr :: "string list \<Rightarrow> pystr" where
  "list_repr ss = [91] @ join [44, 32] (map (\<lambda>s. [39] @ lit s @ [39]) ss) @ [93]"

definition key_finding :: "(string \<Rightarrow> exc + bytes) \<Rightarrow> (exc \<Rightarrow> string) \<Rightarrow> string \<times> string \<Rightarrow> finding" where
  "key_finding req exc_name cn =
     (case req (snd cn) of
        Inr _ \<Rightarrow> \<lparr>fd_check = fst cn, fd_ok = True, fd_detail = lit (snd cn)\<rparr>
      | Inl e \<Rightarrow> \<lparr>fd_check = fst cn, fd_ok = False,
                  fd_detail = lit (snd cn @ '': '' @ exc_name e @ '' (run `whatsvault mcp-provision`)'')\<rparr>)"

definition check_mcp :: "schema_facts \<Rightarrow> (exc \<Rightarrow> string) \<Rightarrow> (string \<Rightarrow> exc + bytes) option \<Rightarrow> vault_db \<Rightarrow> finding list" where
  "check_mcp F exc_name ks d =
     (let visible = (''mcp_visibility'' \<in> set (sf_columns F));
          absent = filter (\<lambda>t. t \<notin> set (sf_triggers F)) [''trg_audit_no_delete'', ''trg_audit_no_update''] in
      [\<lparr>fd_check = ''mcp_visibility_column'', fd_ok = visible, fd_detail = lit ''vault.conversations.mcp_visibility (LOCAL_ONLY fence)''\<rparr>,
       \<lparr>fd_check = ''audit_log_present'', fd_ok = sf_audit_log F, fd_detail = lit ''control.audit_log''\<rparr>,
       \<lparr>fd_check = ''audit_log_append_only'', fd_ok = (absent = []), fd_detail = lit ''missing='' @ list_repr absent\<rparr>] @
      (if visible then [\<lparr>fd_check = ''mcp_local_only_conversations'', fd_ok = True,
         fd_detail = nat_dec (length (local_only_ids d)) @ lit '' conversation(s) fenced from MCP''\<rparr>] else []) @
      (case lane_behind F of
         None \<Rightarrow> [\<lparr>fd_check = ''schema_current'', fd_ok = True, fd_detail = lit ''vault and control current''\<rparr>]
       | Some (lane, have', shipped) \<Rightarrow> [\<lparr>fd_check = ''schema_current'', fd_ok = False,
           fd_detail = lit (lane @ ''.db is at schema '') @ nat_dec have' @ lit '', shipped is '' @ nat_dec shipped @
             lit ''; run `whatsvault init` to migrate''\<rparr>]) @
      (case ks of None \<Rightarrow> []
       | Some req \<Rightarrow> map (key_finding req exc_name)
           [(''mcp_token_provisioned'', TOKEN_KEY_NAME), (''mcp_audit_key_provisioned'', AUDIT_KEY_NAME)]))"

record health =
  hl_ok :: bool
  hl_checks :: "finding list"
  hl_dlq_depth :: nat
  hl_circuit :: circuit

definition health_status :: "pragmas \<Rightarrow> vault_db \<Rightarrow> health" where
  "health_status P d =
     (let checks = check_vault P d @ check_search P d @ check_ingest d in
      \<lparr>hl_ok = list_all fd_ok checks, hl_checks = checks, hl_dlq_depth = length (ingest_dlq d), hl_circuit = circuit_state d\<rparr>)"

section \<open>What the checks mean\<close>

lemma counted_ok [simp]: "fd_ok (counted c n w) \<longleftrightarrow> n = 0"
  by (simp add: counted_def)

lemma foldl_max_ge: "x \<in> insert a (set l) \<Longrightarrow> x \<le> foldl max (a::int) l"
proof (induction l arbitrary: a x)
  case (Cons b l)
  have "max a b \<le> foldl max (max a b) l" by (rule Cons.IH) simp
  with Cons.IH [of x "max a b"] Cons.prems show ?case by auto
qed simp

lemma foldl_max_le: "a \<le> b \<Longrightarrow> (\<And>x. x \<in> set l \<Longrightarrow> x \<le> b) \<Longrightarrow> foldl max (a::int) l \<le> b"
  by (induction l arbitrary: a) auto

text \<open>A green health report: every identifier valid, the index complete, current and without orphans,
  no dead letters, the breaker closed.\<close>

lemma health_ok_iff:
  "hl_ok (health_status P d) \<longleftrightarrow>
     pg_integrity P = lit ''ok'' \<and> pg_foreign_keys P = 0 \<and> pg_cipher P = 0 \<and>
     pg_fts P ''fts_lexical'' = None \<and> pg_fts P ''fts_compact'' = None \<and>
     (\<forall>m\<in>set (messages d). \<exists>u. is_ulid u \<and> msg_id m = mk_id ''msg'' u) \<and>
     sdc_message_id ` set (search_documents d) \<subseteq> msg_id ` set (messages d) \<and>
     msg_id ` set (with_text d) \<subseteq> sdc_message_id ` set (search_documents d) \<and>
     (\<forall>r\<in>set (search_documents d). sdc_normaliser_version r = NORMALISER_VERSION) \<and>
     ingest_dlq d = [] \<and> circuit_state d = CLOSED"
proof -
  have v: "validate (lit ''msg'') i = Inr i \<longleftrightarrow> (\<exists>u. is_ulid u \<and> i = mk_id ''msg'' u)" for i
    using validate_iff [of "lit ''msg''" i i] new_id_mk [of "''msg''"] by (auto simp: PREFIXES_def)
  have f: "fd_ok (fts_finding P t) \<longleftrightarrow> pg_fts P t = None" for t by (simp add: fts_finding_def split: option.split)
  have 1: "orphans d = 0 \<longleftrightarrow> sdc_message_id ` set (search_documents d) \<subseteq> msg_id ` set (messages d)"
    unfolding orphans_def rowcount_zero list_ex_iff image_subset_iff image_iff by metis
  have 2: "missing d = 0 \<longleftrightarrow> msg_id ` set (with_text d) \<subseteq> sdc_message_id ` set (search_documents d)"
  proof -
    have "missing d = 0 \<longleftrightarrow> (\<forall>m\<in>set (with_text d). \<exists>r\<in>set (search_documents d). sdc_message_id r = msg_id m)"
      by (auto simp: missing_def rowcount_zero list_ex_iff with_text_def)
    then show ?thesis unfolding image_subset_iff image_iff by metis
  qed
  have 3: "stale d = 0 \<longleftrightarrow> (\<forall>r\<in>set (search_documents d). sdc_normaliser_version r = NORMALISER_VERSION)"
    by (simp add: stale_def rowcount_zero)
  have m: "min_ms (map dlq_first_seen_ms (ingest_dlq d)) = None \<longleftrightarrow> ingest_dlq d = []"
    by (auto simp: min_ms_def split: list.splits)
  have r: "rowcount (\<lambda>m. validate (lit ''msg'') (msg_id m) \<noteq> Inr (msg_id m)) (messages d) = 0 \<longleftrightarrow>
      (\<forall>m\<in>set (messages d). \<exists>u. is_ulid u \<and> msg_id m = mk_id ''msg'' u)"
    by (simp add: rowcount_zero v)
  show ?thesis
    by (simp add: health_status_def check_vault_def check_search_def check_ingest_def Let_def f 1 2 3 r m circuit_state_def conj_ac)
qed

text \<open>A rebuild clears the three search findings.\<close>

lemma list_all2_covers:
  "list_all2 P xs ys \<Longrightarrow> y \<in> set ys \<Longrightarrow> \<exists>x\<in>set xs. P x y" "list_all2 P xs ys \<Longrightarrow> x \<in> set xs \<Longrightarrow> \<exists>y\<in>set ys. P x y"
  by (induction rule: list_all2_induct) auto

lemma rebuild_clears:
  assumes "distinct (map msg_id (messages (work c)))" "rebuild_all U c = (n, c')"
  shows "orphans (work c') = 0" "missing (work c') = 0" "stale (work c') = 0"
proof -
  note e = rebuild_all_exact [OF assms]
  have w: "with_text (work c') = with_text (work c)" by (simp add: with_text_def e(3))
  have p: "\<exists>m\<in>set (with_text (work c)). indexed U (msg_id m) (msg_text_original m) r" if "r \<in> set (search_documents (work c'))" for r
    by (rule list_all2_covers(1) [OF e(5) that])
  have q: "\<exists>r\<in>set (search_documents (work c')). indexed U (msg_id m) (msg_text_original m) r" if "m \<in> set (with_text (work c))" for m
    by (rule list_all2_covers(2) [OF e(5) that])
  show "orphans (work c') = 0"
    unfolding orphans_def rowcount_zero list_ex_iff e(3)
  proof
    fix r assume "r \<in> set (search_documents (work c'))"
    from p [OF this] obtain m where m: "m \<in> set (with_text (work c))" "indexed U (msg_id m) (msg_text_original m) r" by blast
    then have "m \<in> set (messages (work c))" by (simp add: with_text_def)
    then show "\<not> \<not> (\<exists>m\<in>set (messages (work c)). msg_id m = sdc_message_id r)" using indexed_id [OF m(2)] by auto
  qed
  have "\<exists>r\<in>set (search_documents (work c')). sdc_message_id r = msg_id m"
    if "m \<in> set (messages (work c'))" "msg_text_original m \<noteq> None" for m
    using q [of m] that indexed_id by (fastforce simp: with_text_def e(3))
  then show "missing (work c') = 0" unfolding missing_def rowcount_zero list_ex_iff by blast
  have "sdc_normaliser_version r = NORMALISER_VERSION" if "indexed U i t r" for r i t
    using that by (auto simp: indexed_def new_doc_def Let_def)
  with p show "stale (work c') = 0" unfolding stale_def rowcount_zero by blast
qed

section \<open>The live path stays within the evidence\<close>

lemma evidence_ms_ge: "t \<in> set (evidence d cid) \<Longrightarrow> t \<le> evidence_ms d cid"
  by (cases "evidence d cid") (auto simp: evidence_ms_def intro: foldl_max_ge)

lemma evidence_ms_le: "0 \<le> b \<Longrightarrow> (\<And>t. t \<in> set (evidence d cid) \<Longrightarrow> t \<le> b) \<Longrightarrow> evidence_ms d cid \<le> b"
  by (cases "evidence d cid") (auto simp: evidence_ms_def intro: foldl_max_le)

definition window_sound :: "vault_db \<Rightarrow> control_db \<Rightarrow> bool" where
  "window_sound d k \<longleftrightarrow> (\<forall>j. last_inbound k j \<le> max 0 (evidence_ms d j))"

lemma evidence_mono: "set (messages d) \<subseteq> set (messages d') \<Longrightarrow> max 0 (evidence_ms d j) \<le> max 0 (evidence_ms d' j)"
proof -
  assume s: "set (messages d) \<subseteq> set (messages d')"
  have "evidence_ms d j \<le> max 0 (evidence_ms d' j)"
  proof (rule evidence_ms_le)
    fix t assume "t \<in> set (evidence d j)"
    then have "t \<in> set (evidence d' j)" using s by (auto simp: evidence_def)
    then show "t \<le> max 0 (evidence_ms d' j)" using evidence_ms_ge by fastforce
  qed simp
  then show ?thesis by simp
qed

lemma window_sound_grow: "window_sound d k \<Longrightarrow> set (messages d) \<subseteq> set (messages d') \<Longrightarrow> window_sound d' k"
  unfolding window_sound_def using evidence_mono order_trans by blast

lemma window_sound_advance:
  assumes "window_sound d (work c)" "windows_ok (work c)" "ms \<in> set (evidence d cid)" "advance_window cid ms c = (r, c')"
  shows "window_sound d (work c')"
proof -
  obtain c2 where c2: "advance_window cid ms c = (Inr (max (last_inbound (work c) cid) ms), c2)"
    by (rule advance_window_total [OF assms(2)])
  then obtain w where w: "upsert_window cid (max (last_inbound (work c) cid) ms) (work c) = Inr w" "c2 = commit (c\<lparr>work := w\<rparr>)"
    by (auto simp: advance_window_def Let_def split: sum.splits)
  have "work c' = w" using c2 w(2) assms(4) by simp
  moreover have "last_inbound w j \<le> max 0 (evidence_ms d j)" for j
    using upsert_window_lookup [OF w(1), of j] assms(1) evidence_ms_ge [OF assms(3)] by (auto simp: window_sound_def)
  ultimately show ?thesis by (simp add: window_sound_def)
qed

text \<open>The message that a window is advanced for is evidence of its conversation.\<close>

lemma to_rows_inbound:
  assumes "to_rows pint a = Inr rws" "classify a = MESSAGE_INBOUND"
  shows "case rws of MessageRows f m \<Rightarrow> f = MESSAGE_INBOUND \<and> \<not> mr_echo m \<and> mr_window_eligible m | _ \<Rightarrow> False"
  using assms unfolding to_rows_def by (simp split: sum.splits) auto

lemma applied_evidence:
  assumes "apply_rows rws us d = (Inr (Some ap), us', d')" "to_rows pint a = Inr rws" "classify a = MESSAGE_INBOUND"
  shows "ap_provider_ms ap \<in> set (evidence d' (ap_conversation_id ap))"
proof -
  from assms(2,3) obtain m where rws: "rws = MessageRows MESSAGE_INBOUND m" "\<not> mr_echo m" "mr_window_eligible m"
    using to_rows_inbound [OF assms(2,3)] by (cases rws) auto
  from assms(1) [unfolded rws(1)] show ?thesis
  proof (cases rule: apply_message_cases)
    case (stored aid cid vid d3 us3 row)
    from stored(4) have row: "msg_direction row = In" "msg_window_eligible row" "msg_conversation_id row = vid"
      "msg_ts_lower_ms row = mr_ts_lower_ms m"
      using rws(2,3) by (auto simp: message_row_def split: sum.splits prod.splits if_splits option.splits)
    from ins_vault_Inr(4) [OF stored(5)] have "row \<in> set (messages d')" by simp
    then show ?thesis using row stored(6) by (auto simp: evidence_def image_iff intro!: bexI [of _ row])
  qed simp
qed

lemma process_atom_sound:
  assumes "ing_ok s" "process_atom E now fault a s = (r, s')"
    "window_sound (work (vlt s)) (work (ctl_conn s))" "windows_ok (work (ctl_conn s))"
  shows "window_sound (work (vlt s')) (work (ctl_conn s'))"
proof -
  have c: "clean (vlt s)" using assms(1) by (simp add: ing_ok_def)
  have g: "set (messages (work (vlt s))) \<subseteq> set (messages (work (vlt s')))"
    using process_atom_ok(2) [OF assms(1,2)] by (simp add: grown_def)
  have same: "window_sound (work (vlt s')) (work (ctl_conn s'))" if "ctl_conn s' = ctl_conn s"
    using window_sound_grow [OF assms(3) g] that by simp
  show ?thesis using assms(2) c
  proof (cases rule: process_atom_cases)
    case (txn fam key rws raw ev x us' v)
    show ?thesis using txn(5) c
    proof (cases rule: atom_txn_cases)
      case (ok d1 d2 ap)
      let ?s = "s\<lparr>fresh := us', vlt := v\<rparr>"
      obtain y where p: "project E fam ap ?s = (y, s')"
        using txn(6) ok(1) by (cases "project E fam ap ?s") (auto simp: Let_def)
      show ?thesis using p
      proof (cases rule: project_cases)
        case none
        then show ?thesis using same by simp
      next
        case (stuck b e cc)
        obtain c2 where "advance_window (ap_conversation_id b) (ap_provider_ms b) (ctl_conn ?s) =
            (Inr (max (last_inbound (work (ctl_conn ?s)) (ap_conversation_id b)) (ap_provider_ms b)), c2)"
          by (rule advance_window_total [of "ctl_conn ?s"]) (use assms(4) in auto)
        with stuck(4) show ?thesis by simp
      next
        case (moved b n cc)
        have "fam = classify a" using txn(1) by (auto simp: semantic_key_def split: sum.splits)
        then have ev: "ap_provider_ms b \<in> set (evidence d2 (ap_conversation_id b))"
          using applied_evidence ok(3) txn(2) moved(1,2) by blast
        have m: "messages (work (vlt s')) = messages d2"
          using moved(5) ok(4) index_applied_frame(4) [of "commit (vlt s\<lparr>work := d2\<rparr>)"] by simp
        have "evidence (work (vlt s')) = evidence d2" by (simp add: evidence_def m fun_eq_iff)
        with ev have ev': "ap_provider_ms b \<in> set (evidence (work (vlt s')) (ap_conversation_id b))" by simp
        have "window_sound (work (vlt s')) (work (ctl_conn s))" by (rule window_sound_grow [OF assms(3) g])
        from window_sound_advance [OF this assms(4) ev', of "Inr n" cc] moved(4,5) show ?thesis by simp
      qed
    qed (use txn(6) same in auto)
  qed (use same in auto)
qed

lemma process_atoms_sound:
  "ing_ok s \<Longrightarrow> process_atoms E now fault as s = (r, s') \<Longrightarrow> window_sound (work (vlt s)) (work (ctl_conn s)) \<Longrightarrow>
   windows_ok (work (ctl_conn s)) \<Longrightarrow> window_sound (work (vlt s')) (work (ctl_conn s'))"
proof (induction as arbitrary: s)
  case (Cons a as)
  obtain x s1 where 1: "process_atom E now fault a s = (x, s1)" by force
  note ok = process_atom_ok [OF Cons.prems(1) 1] process_atom_sound [OF Cons.prems(1) 1 Cons.prems(3,4)]
  have w: "windows_ok (work (ctl_conn s1))" using ok(3) Cons.prems(4) by (simp add: forward_def)
  show ?case
  proof (cases x)
    case (Inl e)
    with 1 Cons.prems(2) ok(5) show ?thesis by simp
  next
    case (Inr u)
    with 1 Cons.prems(2) have "process_atoms E now fault as s1 = (r, s')" by simp
    from Cons.IH [OF ok(1) this ok(5) w] show ?thesis .
  qed
qed simp

lemma process_payload_sound:
  assumes "ing_ok s" "process_payload E pt now fault s = (r, s')"
    "window_sound (work (vlt s)) (work (ctl_conn s))" "windows_ok (work (ctl_conn s))"
  shows "window_sound (work (vlt s')) (work (ctl_conn s'))"
  using assms process_atoms_sound [OF assms(1) _ assms(3,4)] by (auto simp: process_payload_def split: sum.splits)

text \<open>The doctor makes a window equal to its evidence, or reports that the evidence is no window.\<close>

lemma rebuild_window_exact:
  assumes "rebuild_window_from_evidence d cid c = (Inr x, c')"
  shows "last_inbound (work c') cid = evidence_ms d cid"
    "j \<noteq> cid \<Longrightarrow> last_inbound (work c') j = last_inbound (work c) j"
  using repair_window_exact assms by (auto simp: rebuild_window_from_evidence_def)

end
