(* ===== verification/Transcript.thy ===== *)
theory Transcript
  imports Search_Text
begin

text \<open>
  Transcripts of a WhatsApp export: the header grammar and the whole-file date check
  (\<open>importers/grammar.py\<close>), the parser (\<open>importers/parse.py\<close>) and the daylight-saving classification of
  \<open>timemodel.py\<close>.

  A regular expression is a matcher: from a string it gives the list of its matches, each
  with the rest of the string, in the order in which the backtracking engine tries them, so that
  the match of \<open>re\<close> is the head of the list. The character tables (\<open>\d\<close>, \<open>\s\<close>, \<open>str.lower\<close>, \<open>int\<close> of a
  string) and the time zones are parameters.
\<close>

record tables = unicode +
  is_digit :: "nat \<Rightarrow> bool"
  lower :: "pystr \<Rightarrow> pystr"
  pint :: "pystr \<Rightarrow> exc + int"

section \<open>Matchers\<close>

type_synonym 'a matcher = "pystr \<Rightarrow> ('a \<times> pystr) list"

definition one :: "(nat \<Rightarrow> bool) \<Rightarrow> pystr matcher" where
  "one P s = (case s of [] \<Rightarrow> [] | c # r \<Rightarrow> if P c then [([c], r)] else [])"

definition run_length :: "nat \<Rightarrow> (nat \<Rightarrow> bool) \<Rightarrow> pystr \<Rightarrow> nat" where
  "run_length hi P s = length (takeWhile P (take hi s))"

text \<open>\<open>P{lo,hi}\<close> and \<open>P{lo,hi}?\<close> on one class of characters; \<open>P*\<close> and \<open>P+\<close> have no upper bound.\<close>

definition greedy :: "nat \<Rightarrow> nat \<Rightarrow> (nat \<Rightarrow> bool) \<Rightarrow> pystr matcher" where
  "greedy lo hi P s = map (\<lambda>k. (take k s, drop k s)) (rev [lo..<Suc (run_length hi P s)])"

definition lazy :: "nat \<Rightarrow> nat \<Rightarrow> (nat \<Rightarrow> bool) \<Rightarrow> pystr matcher" where
  "lazy lo hi P s = map (\<lambda>k. (take k s, drop k s)) [lo..<Suc (run_length hi P s)]"

definition many :: "nat \<Rightarrow> (nat \<Rightarrow> bool) \<Rightarrow> pystr matcher" where
  "many lo P s = greedy lo (length s) P s"

definition andthen :: "'a matcher \<Rightarrow> ('a \<Rightarrow> 'b matcher) \<Rightarrow> 'b matcher" where
  "andthen m f s = concat (map (\<lambda>(a, r). f a r) (m s))"

definition unit_m :: "'a \<Rightarrow> 'a matcher" where
  "unit_m a s = [(a, s)]"

definition perhaps :: "pystr matcher \<Rightarrow> pystr matcher" where
  "perhaps m s = m s @ [([], s)]"

definition also_m :: "pystr matcher \<Rightarrow> pystr matcher \<Rightarrow> pystr matcher" where
  "also_m m n = andthen m (\<lambda>a. andthen n (\<lambda>b. unit_m (a @ b)))"

definition first_match :: "'a matcher \<Rightarrow> pystr \<Rightarrow> 'a option" where
  "first_match m s = (case m s of [] \<Rightarrow> None | (a, r) # _ \<Rightarrow> Some a)"

definition is_char :: "char \<Rightarrow> nat \<Rightarrow> bool" where
  "is_char ch c \<longleftrightarrow> c = of_char ch"

definition is_in :: "string \<Rightarrow> nat \<Rightarrow> bool" where
  "is_in s c \<longleftrightarrow> c \<in> set (lit s)"

section \<open>The header grammar\<close>

definition FAMILIES :: "string list" where "FAMILIES = [''DMY'', ''MDY'', ''YMD'']"

definition date_sep :: "nat \<Rightarrow> bool" where "date_sep = is_in ''/.-''"

definition date_m :: "tables \<Rightarrow> pystr matcher" where
  "date_m T = also_m (greedy 1 4 (is_digit T)) (also_m (one date_sep)
     (also_m (greedy 1 2 (is_digit T)) (also_m (one date_sep) (greedy 1 4 (is_digit T)))))"

definition ampm_m :: "tables \<Rightarrow> pystr matcher" where
  "ampm_m T = also_m (many 0 (isspace T)) (also_m (one (is_in ''APap'')) (also_m (perhaps (one (is_char CHR ''.'')))
     (also_m (one (is_in ''Mm'')) (perhaps (one (is_char CHR ''.''))))))"

definition time_m :: "tables \<Rightarrow> pystr matcher" where
  "time_m T = also_m (greedy 1 2 (is_digit T)) (also_m (one (is_char CHR '':''))
     (also_m (greedy 2 2 (is_digit T)) (also_m (perhaps (also_m (one (is_char CHR '':'')) (greedy 2 2 (is_digit T))))
       (perhaps (ampm_m T)))))"

definition dash :: "nat \<Rightarrow> bool" where "dash c \<longleftrightarrow> c = of_char CHR ''-'' \<or> c = 0x2013"

text \<open>What both expressions begin with: the stamp, in brackets or not, and the dash.\<close>

definition stamp_m :: "tables \<Rightarrow> (pystr \<times> pystr) matcher" where
  "stamp_m T = andthen (perhaps (one (is_char CHR ''[''))) (\<lambda>_. andthen (date_m T) (\<lambda>d.
     andthen (perhaps (one (is_char CHR '',''))) (\<lambda>_. andthen (many 1 (isspace T)) (\<lambda>_. andthen (time_m T) (\<lambda>t.
     andthen (perhaps (one (is_char CHR '']''))) (\<lambda>_. andthen (many 0 (isspace T)) (\<lambda>_.
     andthen (perhaps (one dash)) (\<lambda>_. andthen (many 0 (isspace T)) (\<lambda>_. unit_m (d, t))))))))))"

definition header_m :: "tables \<Rightarrow> (pystr \<times> pystr \<times> pystr) matcher" where
  "header_m T = andthen (stamp_m T) (\<lambda>(d, t). andthen (lazy 1 100 (Not \<circ> is_char CHR '':'')) (\<lambda>s.
     andthen (one (is_char CHR '':'')) (\<lambda>_. andthen (one (isspace T)) (\<lambda>_. unit_m (d, t, s)))))"

text \<open>\<open>.*$\<close>: the line up to its end or to one last newline.\<close>

definition dot_end :: "pystr matcher" where
  "dot_end s = (let a = takeWhile (\<lambda>c. c \<noteq> 10) s; r = dropWhile (\<lambda>c. c \<noteq> 10) s in
     if r = [] \<or> r = [10] then [(a, r)] else [])"

definition entry_m :: "tables \<Rightarrow> (pystr \<times> pystr \<times> pystr) matcher" where
  "entry_m T = andthen (stamp_m T) (\<lambda>(d, t). andthen dot_end (\<lambda>r. unit_m (d, t, r)))"

definition sender_m :: "tables \<Rightarrow> (pystr \<times> pystr) matcher" where
  "sender_m T = andthen (lazy 1 100 (\<lambda>c. \<not> is_char CHR '':'' c \<and> c \<noteq> 10)) (\<lambda>s.
     andthen (one (is_char CHR '':'')) (\<lambda>_. andthen (one (isspace T)) (\<lambda>_ r. [((s, r), [])])))"

definition header_match :: "tables \<Rightarrow> pystr \<Rightarrow> (pystr \<times> pystr \<times> pystr) option" where
  "header_match T = first_match (header_m T)"

definition entry_match :: "tables \<Rightarrow> pystr \<Rightarrow> (pystr \<times> pystr \<times> pystr) option" where
  "entry_match T = first_match (entry_m T)"

section \<open>Dates\<close>

definition is_leap :: "int \<Rightarrow> bool" where
  "is_leap y \<longleftrightarrow> y mod 4 = 0 \<and> (y mod 100 \<noteq> 0 \<or> y mod 400 = 0)"

definition days_in_month :: "int \<Rightarrow> int \<Rightarrow> int" where
  "days_in_month y m = (if m = 2 then if is_leap y then 29 else 28 else if m \<in> {4, 6, 9, 11} then 30 else 31)"

fun split_on :: "(nat \<Rightarrow> bool) \<Rightarrow> pystr \<Rightarrow> pystr list" where
  "split_on P [] = [[]]"
| "split_on P (c # s) = (if P c then [] # split_on P s else (case split_on P s of [] \<Rightarrow> [[c]] | w # ws \<Rightarrow> (c # w) # ws))"

definition valid_ymd :: "int \<Rightarrow> int \<Rightarrow> int \<Rightarrow> bool" where
  "valid_ymd y m d \<longleftrightarrow> 1970 \<le> y \<and> y \<le> 2100 \<and> 1 \<le> m \<and> m \<le> 12 \<and> 1 \<le> d \<and> d \<le> days_in_month y m"

definition order_ymd :: "string \<Rightarrow> int \<Rightarrow> int \<Rightarrow> int \<Rightarrow> int \<times> int \<times> int" where
  "order_ymd family a b c = (if family = ''DMY'' then (c, b, a) else if family = ''MDY'' then (c, a, b) else (a, b, c))"

definition parse_date :: "tables \<Rightarrow> pystr \<Rightarrow> string \<Rightarrow> (int \<times> int \<times> int) option" where
  "parse_date T s family =
     (case split_on date_sep s of
        [p, q, r] \<Rightarrow>
          (case (pint T p, pint T q, pint T r) of
             (Inr a, Inr b, Inr c) \<Rightarrow>
               (let (y0, m, d) = order_ymd family a b c; y = (if y0 < 100 then y0 + 2000 else y0) in
                if valid_ymd y m d then Some (y, m, d) else None)
           | _ \<Rightarrow> None)
      | _ \<Rightarrow> None)"

section \<open>Lines\<close>

definition line_break :: "nat \<Rightarrow> bool" where
  "line_break c \<longleftrightarrow> c \<in> {10, 11, 12, 13, 28, 29, 30, 0x85, 0x2028, 0x2029}"

definition crlf :: "nat \<Rightarrow> pystr \<Rightarrow> bool" where
  "crlf c s \<longleftrightarrow> c = 13 \<and> s \<noteq> [] \<and> hd s = 10"

text \<open>\<open>str.splitlines(keepends=True)\<close>, and without the line ends.\<close>

fun splitlines_keep :: "pystr \<Rightarrow> pystr list" where
  "splitlines_keep [] = []"
| "splitlines_keep (c # s) =
     (if crlf c s then [13, 10] # splitlines_keep (tl s)
      else if line_break c then [c] # splitlines_keep s
      else (case splitlines_keep s of [] \<Rightarrow> [[c]] | l # ls \<Rightarrow> (c # l) # ls))"

definition chop_break :: "pystr \<Rightarrow> pystr" where
  "chop_break l = (if 2 \<le> length l \<and> drop (length l - 2) l = [13, 10] then butlast (butlast l)
     else if l \<noteq> [] \<and> line_break (last l) then butlast l else l)"

definition splitlines :: "pystr \<Rightarrow> pystr list" where
  "splitlines s = map chop_break (splitlines_keep s)"

definition rstrip_char :: "nat \<Rightarrow> pystr \<Rightarrow> pystr" where
  "rstrip_char c s = rev (dropWhile (\<lambda>x. x = c) (rev s))"

definition bare :: "pystr \<Rightarrow> pystr" where
  "bare raw = rstrip_char 13 (rstrip_char 10 raw)"

section \<open>The whole-file check\<close>

record family_check =
  fc_ok :: bool
  fc_header_count :: nat
  fc_first_bad_line :: "nat option"

definition header_dates :: "tables \<Rightarrow> pystr \<Rightarrow> (nat \<times> pystr) list" where
  "header_dates T s = List.map_filter (\<lambda>(i, l). map_option (\<lambda>(d, _). (i, d)) (header_match T l)) (enumerate 1 (splitlines s))"

definition validate_family :: "tables \<Rightarrow> pystr \<Rightarrow> string \<Rightarrow> exc + family_check" where
  "validate_family T s family =
     (if family \<notin> set FAMILIES then Inl ValueError
      else
       (let hs = header_dates T s;
            bad = map_option fst (List.find (\<lambda>(i, d). parse_date T d family = None) hs) in
        Inr \<lparr>fc_ok = (hs \<noteq> [] \<and> bad = None), fc_header_count = length hs, fc_first_bad_line = bad\<rparr>))"

definition suggest_families :: "tables \<Rightarrow> pystr \<Rightarrow> string list" where
  "suggest_families T s = filter (\<lambda>f. case validate_family T s f of Inr v \<Rightarrow> fc_ok v | Inl _ \<Rightarrow> False) FAMILIES"

section \<open>Wall-clock times and zones\<close>

text \<open>A zone of \<open>zoneinfo\<close>: the offset of a local time (in seconds since 1970, with \<open>fold\<close>), and the local time of an instant.\<close>

record zone =
  utcoffset :: "int \<Rightarrow> int \<Rightarrow> int"
  fromutc :: "int \<Rightarrow> int"

datatype dst_class = UNAMBIGUOUS | FOLD | NONEXISTENT

record wall =
  w_year :: int
  w_month :: int
  w_day :: int
  w_hour :: int
  w_minute :: int
  w_second :: int

definition days_before_month :: "int \<Rightarrow> int \<Rightarrow> int" where
  "days_before_month y m = sum_list (map (days_in_month y \<circ> int) [1..<nat m])"

definition toordinal :: "int \<Rightarrow> int \<Rightarrow> int \<Rightarrow> int" where
  "toordinal y m d = (y - 1) * 365 + (y - 1) div 4 - (y - 1) div 100 + (y - 1) div 400 + days_before_month y m + d"

definition wall_seconds :: "wall \<Rightarrow> int" where
  "wall_seconds w = (toordinal (w_year w) (w_month w) (w_day w) - toordinal 1970 1 1) * 86400 +
     w_hour w * 3600 + w_minute w * 60 + w_second w"

text \<open>The constructor \<open>datetime\<close> refuses an hour, minute or second out of range.\<close>

definition time_ok :: "wall \<Rightarrow> bool" where
  "time_ok w \<longleftrightarrow> 0 \<le> w_hour w \<and> w_hour w \<le> 23 \<and> 0 \<le> w_minute w \<and> w_minute w \<le> 59 \<and> 0 \<le> w_second w \<and> w_second w \<le> 59"

definition classify_local :: "zone \<Rightarrow> int \<Rightarrow> dst_class" where
  "classify_local z l =
     (if fromutc z (l - utcoffset z l 0) \<noteq> l then NONEXISTENT
      else if utcoffset z l 0 \<noteq> utcoffset z l 1 then FOLD else UNAMBIGUOUS)"

definition time_parts_m :: "tables \<Rightarrow> (pystr \<times> pystr \<times> pystr \<times> pystr) matcher" where
  "time_parts_m T = andthen (greedy 1 2 (is_digit T)) (\<lambda>h. andthen (one (is_char CHR '':'')) (\<lambda>_.
     andthen (greedy 2 2 (is_digit T)) (\<lambda>m.
     andthen (perhaps (andthen (one (is_char CHR '':'')) (\<lambda>_. greedy 2 2 (is_digit T)))) (\<lambda>s.
     andthen (many 0 (isspace T)) (\<lambda>_. andthen (perhaps (one (is_in ''APap''))) (\<lambda>ap.
     andthen (perhaps (one (is_char CHR ''.''))) (\<lambda>_. andthen (perhaps (one (is_in ''Mm''))) (\<lambda>_.
     unit_m (h, m, s, ap)))))))))"

definition half_day :: "tables \<Rightarrow> pystr \<Rightarrow> int \<Rightarrow> int" where
  "half_day T ap hh = (if ap = [] then hh
     else if lower T ap = lit ''p'' \<and> hh \<noteq> 12 then hh + 12
     else if lower T ap = lit ''a'' \<and> hh = 12 then 0 else hh)"

definition parse_time :: "tables \<Rightarrow> pystr \<Rightarrow> exc + int \<times> int \<times> int" where
  "parse_time T s =
     (case first_match (time_parts_m T) s of
        None \<Rightarrow> Inl AttributeError
      | Some (h, m, sec, ap) \<Rightarrow>
          (case (pint T h, pint T m, if sec = [] then Inr 0 else pint T sec) of
             (Inr hh, Inr mm, Inr ss) \<Rightarrow> Inr (half_day T ap hh, mm, ss)
           | (Inl e, _, _) \<Rightarrow> Inl e | (_, Inl e, _) \<Rightarrow> Inl e | (_, _, Inl e) \<Rightarrow> Inl e))"

section \<open>Records\<close>

definition MEDIA_MARKERS :: "string list" where
  "MEDIA_MARKERS = [''<media omitted>'', ''image omitted'', ''video omitted'', ''audio omitted'', ''sticker omitted'',
     ''gif omitted'', ''document omitted'', ''contact card omitted'']"

definition KNOWN_SYSTEM :: "string list" where
  "KNOWN_SYSTEM = [''end-to-end encrypted'', ''created group'', ''added'', ''left'', ''removed'', ''changed the subject'',
     ''changed this group'', ''changed their phone number'', ''you deleted this message'', ''this message was deleted'',
     ''changed to'', ''missed voice call'', ''missed video call'', ''security code changed'', ''joined using'',
     ''changed the group description'']"

fun occurs_in :: "pystr \<Rightarrow> pystr \<Rightarrow> bool" where
  "occurs_in p [] \<longleftrightarrow> p = []"
| "occurs_in p (c # s) \<longleftrightarrow> take (length p) (c # s) = p \<or> occurs_in p s"

definition is_media :: "tables \<Rightarrow> pystr \<Rightarrow> bool" where
  "is_media T body = list_ex (\<lambda>m. occurs_in (lit m) (lower T (strip (unicode.truncate T) body))) MEDIA_MARKERS"

definition is_known_system :: "tables \<Rightarrow> pystr \<Rightarrow> bool" where
  "is_known_system T txt = list_ex (\<lambda>m. occurs_in (lit m) (lower T txt)) KNOWN_SYSTEM"

datatype content =
    Message (sender: pystr) (said: pystr) (media: bool)
  | System (known: bool) (said: pystr)

record entry =
  en_start :: nat
  en_end :: nat
  en_wall :: wall
  en_dst :: dst_class
  en_content :: content

datatype rec =
    Entry entry
  | Boundary (b_text: pystr) (b_start: nat) (b_end: nat)

definition add_line :: "pystr \<Rightarrow> pystr \<Rightarrow> pystr" where
  "add_line t line = (if t = [] then line else t @ [10] @ line)"

definition append_content :: "pystr \<Rightarrow> content \<Rightarrow> content" where
  "append_content line c = (case c of Message s b m \<Rightarrow> Message s (add_line b line) m | System k t \<Rightarrow> System k (add_line t line))"

definition append_body :: "entry \<Rightarrow> pystr \<Rightarrow> nat \<Rightarrow> entry" where
  "append_body r line e = r\<lparr>en_content := append_content line (en_content r), en_end := e\<rparr>"

definition content_of :: "tables \<Rightarrow> pystr \<Rightarrow> content" where
  "content_of T rest =
     (case first_match (sender_m T) rest of
        Some (s, body) \<Rightarrow> Message s body (is_media T body)
      | None \<Rightarrow> System (is_known_system T rest) rest)"

definition new_entry :: "tables \<Rightarrow> (pystr \<Rightarrow> exc + zone) \<Rightarrow> pystr \<Rightarrow> nat \<Rightarrow> nat \<Rightarrow> int \<times> int \<times> int \<Rightarrow> pystr \<Rightarrow> pystr \<Rightarrow> exc + entry" where
  "new_entry T zones tz start e ymd tm rest =
     (case parse_time T tm of
        Inl x \<Rightarrow> Inl x
      | Inr (hh, mm, ss) \<Rightarrow>
          (let (y, m, d) = ymd;
               w = \<lparr>w_year = y, w_month = m, w_day = d, w_hour = hh, w_minute = mm, w_second = ss\<rparr> in
           if \<not> time_ok w then Inl ValueError
           else
            (case zones tz of
               Inl x \<Rightarrow> Inl x
             | Inr z \<Rightarrow>
                 Inr \<lparr>en_start = start, en_end = e, en_wall = w, en_dst = classify_local z (wall_seconds w),
                      en_content = content_of T rest\<rparr>)))"

record parsing =
  ps_records :: "rec list"
  ps_cur :: "entry option"
  ps_offset :: nat

definition flush :: "parsing \<Rightarrow> rec list" where
  "flush p = ps_records p @ (case ps_cur p of None \<Rightarrow> [] | Some r \<Rightarrow> [Entry r])"

definition parse_line :: "tables \<Rightarrow> (pystr \<Rightarrow> exc + zone) \<Rightarrow> string \<Rightarrow> pystr \<Rightarrow> pystr \<Rightarrow> parsing \<Rightarrow> exc + parsing" where
  "parse_line T zones family tz raw p =
     (let line = bare raw; start = ps_offset p; e = start + length raw;
          continued = map_option (\<lambda>r. append_body r line e) (ps_cur p) in
      case entry_match T line of
        None \<Rightarrow> Inr (p\<lparr>ps_cur := continued, ps_offset := e\<rparr>)
      | Some (dt, tm, rest) \<Rightarrow>
          (case parse_date T dt family of
             None \<Rightarrow> Inr (p\<lparr>ps_records := ps_records p @ [Boundary line start e], ps_cur := continued, ps_offset := e\<rparr>)
           | Some ymd \<Rightarrow>
               (case new_entry T zones tz start e ymd tm rest of
                  Inl x \<Rightarrow> Inl x
                | Inr r \<Rightarrow> Inr \<lparr>ps_records = flush p, ps_cur = Some r, ps_offset = e\<rparr>)))"

primrec parse_lines :: "tables \<Rightarrow> (pystr \<Rightarrow> exc + zone) \<Rightarrow> string \<Rightarrow> pystr \<Rightarrow> pystr list \<Rightarrow> parsing \<Rightarrow> exc + parsing" where
  "parse_lines T zones family tz [] p = Inr p"
| "parse_lines T zones family tz (l # ls) p =
     (case parse_line T zones family tz l p of Inl x \<Rightarrow> Inl x | Inr p' \<Rightarrow> parse_lines T zones family tz ls p')"

text \<open>The ordinal of a record is its place in the list.\<close>

definition parse_transcript :: "tables \<Rightarrow> (pystr \<Rightarrow> exc + zone) \<Rightarrow> pystr \<Rightarrow> string \<Rightarrow> pystr \<Rightarrow> exc + (nat \<times> rec) list" where
  "parse_transcript T zones s family tz =
     (case parse_lines T zones family tz (splitlines_keep s) \<lparr>ps_records = [], ps_cur = None, ps_offset = 0\<rparr> of
        Inl x \<Rightarrow> Inl x
      | Inr p \<Rightarrow> Inr (enumerate 0 (flush p)))"

section \<open>The two header expressions agree on the date\<close>

text \<open>What is relied on of the tables: digits and white space are disjoint and neither is one of the marks of the grammar.\<close>

definition tables_ok :: "tables \<Rightarrow> bool" where
  "tables_ok T \<longleftrightarrow> (\<forall>c. is_digit T c \<longrightarrow> \<not> isspace T c) \<and>
     (\<forall>c\<in>set (lit ''/.-,:[''). \<not> is_digit T c \<and> \<not> isspace T c)"

definition textual :: "(nat \<Rightarrow> bool) \<Rightarrow> pystr matcher \<Rightarrow> bool" where
  "textual Q m \<longleftrightarrow> (\<forall>s a r. (a, r) \<in> set (m s) \<longrightarrow> s = a @ r \<and> (\<forall>c\<in>set a. Q c))"

lemma textual_mono: "textual Q m \<Longrightarrow> (\<And>c. Q c \<Longrightarrow> R c) \<Longrightarrow> textual R m"
  unfolding textual_def by blast

lemma textual_one: "textual P (one P)"
  by (auto simp: textual_def one_def split: list.splits if_splits)

lemma take_run: "c \<in> set (take k s) \<Longrightarrow> k \<le> run_length hi P s \<Longrightarrow> P c"
proof -
  assume k: "c \<in> set (take k s)" "k \<le> run_length hi P s"
  have "takeWhile P (take hi s) = take (run_length hi P s) (take hi s)"
    unfolding run_length_def by (rule takeWhile_eq_take)
  then have "take k (takeWhile P (take hi s)) = take k (take hi s)" using k(2) by (simp add: min_def)
  moreover have "k \<le> hi" using k(2) length_takeWhile_le [of P "take hi s"] by (simp add: run_length_def)
  ultimately have "take k s = take k (takeWhile P (take hi s))" by (simp add: min_def)
  with k(1) show ?thesis by (metis in_set_takeD set_takeWhileD)
qed

lemma textual_greedy: "textual P (greedy lo hi P)"
proof -
  have "s = a @ r \<and> (\<forall>c\<in>set a. P c)" if m: "(a, r) \<in> set (greedy lo hi P s)" for s a r
  proof -
    obtain k where "k < Suc (run_length hi P s)" "a = take k s" "r = drop k s" using m
      by (auto simp: greedy_def simp del: upt_Suc)
    then show ?thesis using take_run [of _ k s hi P] by simp
  qed
  then show ?thesis unfolding textual_def by blast
qed

lemma textual_also: "textual Q m \<Longrightarrow> textual Q n \<Longrightarrow> textual Q (also_m m n)"
  unfolding textual_def also_m_def andthen_def unit_m_def by fastforce

lemma textual_date: "textual (\<lambda>c. is_digit T c \<or> date_sep c) (date_m T)"
  unfolding date_m_def
  by (intro textual_also) (auto intro: textual_mono [OF textual_greedy] textual_mono [OF textual_one])

text \<open>The date of a stamp is what the line holds of digits and separators after an opening bracket.\<close>

definition date_of :: "tables \<Rightarrow> pystr \<Rightarrow> pystr" where
  "date_of T l = takeWhile (\<lambda>c. is_digit T c \<or> date_sep c) (if l \<noteq> [] \<and> is_char CHR ''['' (hd l) then tl l else l)"

lemma not_date_char:
  assumes "tables_ok T" "c = of_char CHR '','' \<or> isspace T c"
  shows "\<not> (is_digit T c \<or> date_sep c)"
  using assms unfolding tables_ok_def date_sep_def is_in_def by (auto simp: lit_def)

lemma after_date:
  assumes "tables_ok T" "(x, r1) \<in> set (perhaps (one (is_char CHR '','')) r)" "(y, r2) \<in> set (many 1 (isspace T) r1)"
  shows "r \<noteq> [] \<and> \<not> (is_digit T (hd r) \<or> date_sep (hd r))"
proof -
  obtain k where k: "1 \<le> k" "k \<le> run_length (length r1) (isspace T) r1"
    using assms(3) by (auto simp: many_def greedy_def)
  then have ne: "r1 \<noteq> []" by (auto simp: run_length_def)
  then have "hd r1 \<in> set (take k r1)" using k(1) by (cases r1; cases k) auto
  then have "isspace T (hd r1)" using take_run k(2) by blast
  with ne assms(2) have "r \<noteq> [] \<and> (hd r = of_char CHR '','' \<or> isspace T (hd r))"
    by (auto simp: perhaps_def one_def is_char_def split: list.splits if_splits)
  then show ?thesis using not_date_char [OF assms(1)] by blast
qed

lemma stamp_date:
  assumes ok: "tables_ok T" and m: "((d, t), r) \<in> set (stamp_m T l)"
  shows "d = date_of T l"
proof -
  obtain b l1 r1 c r2 w r3 where
      b: "(b, l1) \<in> set (perhaps (one (is_char CHR ''['')) l)" and d: "(d, r1) \<in> set (date_m T l1)"
      and c: "(c, r2) \<in> set (perhaps (one (is_char CHR '','')) r1)" and w: "(w, r3) \<in> set (many 1 (isspace T) r2)"
    using m unfolding stamp_m_def andthen_def unit_m_def by fastforce
  have l1: "l1 = d @ r1" "\<forall>c\<in>set d. is_digit T c \<or> date_sep c"
    using d textual_date unfolding textual_def by blast+
  have "takeWhile (\<lambda>c. is_digit T c \<or> date_sep c) l1 = d"
    using l1 after_date [OF ok c w] by (cases r1) (auto simp: takeWhile_append2)
  moreover have "l1 = (if l \<noteq> [] \<and> is_char CHR ''['' (hd l) then tl l else l)"
  proof (cases "l \<noteq> [] \<and> is_char CHR ''['' (hd l)")
    case True
    have "l1 \<noteq> l"
    proof
      assume "l1 = l"
      then have "hd l1 = of_char CHR ''[''" "l1 \<noteq> []" using True by (auto simp: is_char_def)
      moreover have "\<not> is_digit T (of_char CHR ''['')" using ok by (simp add: tables_ok_def lit_def)
      moreover have "(d, r1) \<in> set (date_m T l1)" by (rule d)
      ultimately show False
        by (auto simp: date_m_def also_m_def andthen_def greedy_def run_length_def neq_Nil_conv)
    qed
    then show ?thesis using b True by (auto simp: perhaps_def one_def neq_Nil_conv split: if_splits)
  next
    case False
    then show ?thesis using b by (auto simp: perhaps_def one_def split: list.splits if_splits)
  qed
  ultimately show ?thesis unfolding date_of_def by simp
qed

lemma in_andthen: "x \<in> set (andthen m f s) \<longleftrightarrow> (\<exists>a r. (a, r) \<in> set (m s) \<and> x \<in> set (f a r))"
  unfolding andthen_def by force

lemma first_match_in: "first_match m s = Some a \<Longrightarrow> \<exists>r. (a, r) \<in> set (m s)"
  unfolding first_match_def by (cases "m s") auto

lemma first_match_total: "first_match m s = None \<longleftrightarrow> m s = []"
  by (auto simp: first_match_def split: list.split)

lemma header_match_date: "tables_ok T \<Longrightarrow> header_match T l = Some (d, t, s) \<Longrightarrow> \<exists>r. ((d, t), r) \<in> set (stamp_m T l)"
  unfolding header_match_def using first_match_in [of "header_m T" l "(d, t, s)"]
  by (auto simp: header_m_def in_andthen unit_m_def)

lemma entry_match_date: "tables_ok T \<Longrightarrow> entry_match T l = Some (d, t, s) \<Longrightarrow> \<exists>r. ((d, t), r) \<in> set (stamp_m T l)"
  unfolding entry_match_def using first_match_in [of "entry_m T" l "(d, t, s)"]
  by (auto simp: entry_m_def in_andthen unit_m_def)

text \<open>No matcher invents text: what it leaves is part of what it was given.\<close>

definition consuming :: "'a matcher \<Rightarrow> bool" where
  "consuming m \<longleftrightarrow> (\<forall>s a r. (a, r) \<in> set (m s) \<longrightarrow> set r \<subseteq> set s)"

lemma consuming_textual: "textual Q m \<Longrightarrow> consuming m"
  unfolding textual_def consuming_def by fastforce

lemma consuming_andthen: "consuming m \<Longrightarrow> (\<And>a. consuming (f a)) \<Longrightarrow> consuming (andthen m f)"
  unfolding consuming_def in_andthen by blast

lemma consuming_perhaps: "consuming m \<Longrightarrow> consuming (perhaps m)"
  unfolding consuming_def perhaps_def by auto

lemma consuming_many: "consuming (many lo P)"
  unfolding consuming_def many_def greedy_def by (auto dest: in_set_dropD)

lemma consuming_unit: "consuming (unit_m x)"
  unfolding consuming_def unit_m_def by auto

lemmas consuming_intros = consuming_andthen consuming_perhaps consuming_many consuming_unit
  consuming_textual [OF textual_one] consuming_textual [OF textual_greedy]

lemma stamp_suffix: "(x, r) \<in> set (stamp_m T l) \<Longrightarrow> set r \<subseteq> set l"
proof -
  have "consuming (stamp_m T)"
    unfolding stamp_m_def date_m_def time_m_def ampm_m_def also_m_def by (intro consuming_intros)
  then show "(x, r) \<in> set (stamp_m T l) \<Longrightarrow> set r \<subseteq> set l" unfolding consuming_def by blast
qed

text \<open>Where the check of the whole file sees a header, the parser sees an entry with the same date.\<close>

lemma header_is_entry:
  assumes ok: "tables_ok T" and h: "header_match T l = Some (d, t, s)" and n: "10 \<notin> set l"
  shows "\<exists>t' r. entry_match T l = Some (d, t', r)"
proof -
  obtain r where st: "((d, t), r) \<in> set (stamp_m T l)" using header_match_date [OF ok h] by blast
  have dot: "dot_end u \<noteq> []" if "10 \<notin> set u" for u
  proof -
    have "takeWhile (\<lambda>c. c \<noteq> 10) u = u" using that by (auto simp: takeWhile_eq_all_conv)
    moreover have "dropWhile (\<lambda>c. c \<noteq> 10) u = []" using that by (auto simp: dropWhile_eq_Nil_conv)
    ultimately show ?thesis by (simp add: dot_end_def)
  qed
  have sub: "set r \<subseteq> set l" by (rule stamp_suffix [OF st])
  then have "dot_end r \<noteq> []" using dot n by blast
  then obtain a u where "(a, u) \<in> set (dot_end r)" by (cases "dot_end r") auto
  then have "((d, t, a), u) \<in> set (entry_m T l)" using st by (force simp: entry_m_def in_andthen unit_m_def)
  then have "entry_m T l \<noteq> []" by auto
  then obtain d' t' r' where e: "entry_match T l = Some (d', t', r')"
    unfolding entry_match_def using first_match_total [of "entry_m T" l] by (cases "first_match (entry_m T) l") auto
  have "d' = d"
    using entry_match_date [OF ok e] header_match_date [OF ok h] stamp_date [OF ok] by metis
  with e show ?thesis by blast
qed

section \<open>The parser against the grouping of the lines\<close>

lemma concat_splitlines: "concat (splitlines_keep s) = s"
proof (induction s rule: splitlines_keep.induct)
  case (2 c s)
  have "s = 10 # tl s" if "crlf c s" using that by (cases s) (auto simp: crlf_def)
  then show ?case using 2 by (auto simp: crlf_def split: list.split)
qed simp

text \<open>The lines that open a record, and those that look like one but whose date is not of the family.\<close>

definition opens :: "tables \<Rightarrow> string \<Rightarrow> pystr \<Rightarrow> bool" where
  "opens T family raw = (case entry_match T (bare raw) of None \<Rightarrow> False | Some (d, _, _) \<Rightarrow> parse_date T d family \<noteq> None)"

definition doubtful :: "tables \<Rightarrow> string \<Rightarrow> pystr \<Rightarrow> bool" where
  "doubtful T family raw = (case entry_match T (bare raw) of None \<Rightarrow> False | Some (d, _, _) \<Rightarrow> parse_date T d family = None)"

fun entries :: "rec list \<Rightarrow> entry list" where
  "entries [] = []"
| "entries (Entry r # rs) = r # entries rs"
| "entries (Boundary _ _ _ # rs) = entries rs"

fun boundaries :: "rec list \<Rightarrow> (pystr \<times> nat \<times> nat) list" where
  "boundaries [] = []"
| "boundaries (Entry _ # rs) = boundaries rs"
| "boundaries (Boundary t a b # rs) = (t, a, b) # boundaries rs"

lemma entries_append [simp]: "entries (a @ b) = entries a @ entries b"
  by (induction a rule: entries.induct) auto

lemma boundaries_append [simp]: "boundaries (a @ b) = boundaries a @ boundaries b"
  by (induction a rule: boundaries.induct) auto

text \<open>
  A group of lines is the evidence of an entry: the first opens it and gives its stamp and its first
  line, the others open nothing and are its further lines; the offsets cut exactly the group out of
  the source.
\<close>

definition shows_entry :: "tables \<Rightarrow> string \<Rightarrow> pystr list \<Rightarrow> entry \<Rightarrow> bool" where
  "shows_entry T family g r \<longleftrightarrow>
     (\<exists>raw ms dt tm rest. g = raw # ms \<and> entry_match T (bare raw) = Some (dt, tm, rest) \<and>
        parse_date T dt family = Some (w_year (en_wall r), w_month (en_wall r), w_day (en_wall r)) \<and>
        parse_time T tm = Inr (w_hour (en_wall r), w_minute (en_wall r), w_second (en_wall r)) \<and> time_ok (en_wall r) \<and>
        (\<forall>l\<in>set ms. \<not> opens T family l) \<and>
        en_content r = fold append_content (map bare ms) (content_of T rest))"

definition located :: "nat \<Rightarrow> pystr list \<Rightarrow> entry \<Rightarrow> bool" where
  "located k g r \<longleftrightarrow> en_start r = k \<and> en_end r = k + length (concat g)"

fun located_all :: "nat \<Rightarrow> pystr list list \<Rightarrow> entry list \<Rightarrow> bool" where
  "located_all k [] [] = True"
| "located_all k (g # gs) (r # rs) = (located k g r \<and> located_all (k + length (concat g)) gs rs)"
| "located_all k _ _ = False"

lemma located_all_snoc:
  "located_all k gs rs \<Longrightarrow> located_all k (gs @ [g]) (rs @ [r]) = located (k + length (concat (concat gs))) g r"
  by (induction k gs rs rule: located_all.induct) (auto simp: add.assoc)

lemma located_all_unsnoc:
  "located_all k (gs @ [g]) (rs @ [r]) \<Longrightarrow> located_all k gs rs \<and> located (k + length (concat (concat gs))) g r"
  by (induction k gs rs rule: located_all.induct) (auto simp: add.assoc elim: located_all.elims)

definition grouped :: "tables \<Rightarrow> string \<Rightarrow> pystr list \<Rightarrow> parsing \<Rightarrow> pystr list \<Rightarrow> pystr list list \<Rightarrow> bool" where
  "grouped T family ls p noise gs \<longleftrightarrow>
     ls = noise @ concat gs \<and> (\<forall>l\<in>set noise. \<not> opens T family l) \<and> (gs = [] \<longleftrightarrow> ps_cur p = None) \<and>
     list_all2 (shows_entry T family) gs (entries (flush p)) \<and> located_all (length (concat noise)) gs (entries (flush p)) \<and>
     ps_offset p = length (concat ls) \<and>
     map fst (boundaries (ps_records p)) = map bare (filter (doubtful T family) ls)"

lemma shows_more:
  "shows_entry T family g r \<Longrightarrow> \<not> opens T family raw \<Longrightarrow> shows_entry T family (g @ [raw]) (append_body r (bare raw) e)"
  unfolding shows_entry_def append_body_def by fastforce

lemma new_entry_shows:
  assumes "entry_match T (bare raw) = Some (dt, tm, rest)" "parse_date T dt family = Some ymd"
    "new_entry T zones tz k (k + length raw) ymd tm rest = Inr r"
  shows "shows_entry T family [raw] r" "located k [raw] r"
  using assms unfolding shows_entry_def located_def new_entry_def
  by (auto simp: Let_def split: sum.splits prod.splits if_splits)

lemma grouped_continue:
  assumes p: "grouped T family ls p noise gs" and o: "\<not> opens T family raw"
    and q: "ps_cur q = map_option (\<lambda>r. append_body r (bare raw) (ps_offset p + length raw)) (ps_cur p)"
      "ps_offset q = ps_offset p + length raw" "entries (ps_records q) = entries (ps_records p)"
      "map fst (boundaries (ps_records q)) = map fst (boundaries (ps_records p)) @ (if doubtful T family raw then [bare raw] else [])"
  shows "\<exists>noise gs. grouped T family (ls @ [raw]) q noise gs"
proof (cases "ps_cur p")
  case None
  then have "entries (flush q) = []" "gs = []" using p q(1,3) by (auto simp: flush_def grouped_def)
  then have "grouped T family (ls @ [raw]) q (noise @ [raw]) []"
    using None p o q(1,2,4) by (simp add: grouped_def)
  then show ?thesis by blast
next
  case (Some r)
  let ?r = "append_body r (bare raw) (ps_offset p + length raw)"
  have es: "entries (flush p) = entries (ps_records p) @ [r]" "entries (flush q) = entries (ps_records p) @ [?r]"
    using Some q by (simp_all add: flush_def)
  have ev: "list_all2 (shows_entry T family) gs (entries (ps_records p) @ [r])"
    and loc: "located_all (length (concat noise)) gs (entries (ps_records p) @ [r])"
    using p unfolding grouped_def es by blast+
  obtain gs0 h where gs: "gs = gs0 @ [h]" and ev0: "list_all2 (shows_entry T family) gs0 (entries (ps_records p))"
    and h: "shows_entry T family h r"
    using ev by (auto simp: list_all2_append2 list_all2_Cons2)
  have loc0: "located_all (length (concat noise)) gs0 (entries (ps_records p))"
    "located (length (concat noise) + length (concat (concat gs0))) h r"
    using located_all_unsnoc loc unfolding gs by blast+
  have "located (length (concat noise) + length (concat (concat gs0))) (h @ [raw]) ?r"
    using loc0(2) p by (simp add: located_def append_body_def gs grouped_def)
  then have "located_all (length (concat noise)) (gs0 @ [h @ [raw]]) (entries (flush q))"
    unfolding es using located_all_snoc [OF loc0(1)] by blast
  moreover have "list_all2 (shows_entry T family) (gs0 @ [h @ [raw]]) (entries (flush q))"
    unfolding es using ev0 shows_more [OF h o] by (simp add: list_all2_appendI)
  ultimately have "grouped T family (ls @ [raw]) q noise (gs0 @ [h @ [raw]])"
    using Some p q(1,2,4) by (simp add: grouped_def gs)
  then show ?thesis by blast
qed

lemma parse_line_grouped:
  assumes p: "grouped T family ls p noise gs" and l: "parse_line T zones family tz raw p = Inr q"
  shows "\<exists>noise gs. grouped T family (ls @ [raw]) q noise gs"
proof (cases "opens T family raw")
  case False
  then show ?thesis using l
    by (intro grouped_continue [OF p])
       (auto simp: parse_line_def Let_def opens_def doubtful_def split: option.splits sum.splits)
next
  case True
  then obtain dt tm rest ymd r where m: "entry_match T (bare raw) = Some (dt, tm, rest)" "parse_date T dt family = Some ymd"
    and r: "new_entry T zones tz (ps_offset p) (ps_offset p + length raw) ymd tm rest = Inr r"
    and q: "q = \<lparr>ps_records = flush p, ps_cur = Some r, ps_offset = ps_offset p + length raw\<rparr>"
    using l by (auto simp: parse_line_def Let_def opens_def split: option.splits sum.splits)
  have es: "entries (flush q) = entries (flush p) @ [r]" "boundaries (flush p) = boundaries (ps_records p)"
    by (simp_all add: flush_def q split: option.split)
  have nd: "\<not> doubtful T family raw" using m by (simp add: doubtful_def)
  have "list_all2 (shows_entry T family) (gs @ [[raw]]) (entries (flush q))"
    unfolding es using p new_entry_shows(1) [OF m r] by (simp add: list_all2_appendI grouped_def)
  moreover have "located_all (length (concat noise)) (gs @ [[raw]]) (entries (flush q))"
    unfolding es using p new_entry_shows(2) [OF m r] by (simp add: located_all_snoc grouped_def)
  ultimately have "grouped T family (ls @ [raw]) q noise (gs @ [[raw]])"
    using p nd es(2) by (simp add: grouped_def q)
  then show ?thesis by blast
qed

lemma parse_lines_grouped:
  "grouped T family ls p noise gs \<Longrightarrow> parse_lines T zones family tz todo p = Inr q \<Longrightarrow>
   \<exists>noise gs. grouped T family (ls @ todo) q noise gs"
proof (induction todo arbitrary: ls p noise gs)
  case (Cons raw todo)
  then obtain p1 where p1: "parse_line T zones family tz raw p = Inr p1" "parse_lines T zones family tz todo p1 = Inr q"
    by (auto split: sum.splits)
  from parse_line_grouped [OF Cons.prems(1) p1(1)] Cons.IH [OF _ p1(2)] show ?case by fastforce
qed auto

text \<open>
  Refinement: the transcript is a preamble that opens nothing followed by one group of lines per
  entry, and the entries are what their groups show, with the offsets of the groups. Every line
  that looks like a header but has no date of the family is reported as a boundary, in order.
\<close>

theorem parse_transcript_groups:
  assumes "parse_transcript T zones s family tz = Inr rs"
  shows "\<exists>noise gs. splitlines_keep s = noise @ concat gs \<and> (\<forall>l\<in>set noise. \<not> opens T family l) \<and>
     list_all2 (shows_entry T family) gs (entries (map snd rs)) \<and>
     located_all (length (concat noise)) gs (entries (map snd rs)) \<and>
     map fst (boundaries (map snd rs)) = map bare (filter (doubtful T family) (splitlines_keep s)) \<and>
     map fst rs = [0..<length rs]"
proof -
  let ?p = "\<lparr>ps_records = [], ps_cur = None, ps_offset = 0\<rparr>"
  obtain p where p: "parse_lines T zones family tz (splitlines_keep s) ?p = Inr p" and rs: "rs = enumerate 0 (flush p)"
    using assms by (auto simp: parse_transcript_def split: sum.splits)
  have "grouped T family [] ?p [] []" by (simp add: grouped_def flush_def)
  from parse_lines_grouped [OF this p] obtain noise gs where "grouped T family (splitlines_keep s) p noise gs" by auto
  moreover have "boundaries (flush p) = boundaries (ps_records p)" by (simp add: flush_def split: option.split)
  ultimately show ?thesis unfolding grouped_def rs by (auto simp: map_fst_enumerate)
qed

section \<open>When the parser fails, and what the whole-file check rules out\<close>

text \<open>A line that opens a record must also have a time of day, and the zone must exist.\<close>

definition usable :: "tables \<Rightarrow> (pystr \<Rightarrow> exc + zone) \<Rightarrow> pystr \<Rightarrow> pystr \<Rightarrow> bool" where
  "usable T zones tz raw =
     (case entry_match T (bare raw) of
        None \<Rightarrow> True
      | Some (_, tm, _) \<Rightarrow>
          (case parse_time T tm of
             Inl _ \<Rightarrow> False
           | Inr (h, m, s) \<Rightarrow> 0 \<le> h \<and> h \<le> 23 \<and> 0 \<le> m \<and> m \<le> 59 \<and> 0 \<le> s \<and> s \<le> 59 \<and> isl (zones tz) = False))"

lemma parse_line_iff:
  "(\<exists>q. parse_line T zones family tz raw p = Inr q) \<longleftrightarrow> (opens T family raw \<longrightarrow> usable T zones tz raw)"
  by (auto simp: parse_line_def Let_def opens_def usable_def new_entry_def time_ok_def split: option.split sum.split prod.split)

theorem parse_transcript_iff:
  "(\<exists>rs. parse_transcript T zones s family tz = Inr rs) \<longleftrightarrow>
     (\<forall>raw\<in>set (splitlines_keep s). opens T family raw \<longrightarrow> usable T zones tz raw)"
proof -
  have "(\<exists>q. parse_lines T zones family tz ls p = Inr q) \<longleftrightarrow> (\<forall>raw\<in>set ls. opens T family raw \<longrightarrow> usable T zones tz raw)" for ls p
  proof (induction ls arbitrary: p)
    case (Cons raw ls)
    show ?case using parse_line_iff [of T zones family tz raw p] Cons.IH by (auto split: sum.split)
  qed simp
  from this [of "splitlines_keep s" "\<lparr>ps_records = [], ps_cur = None, ps_offset = 0\<rparr>"]
  show ?thesis unfolding parse_transcript_def by (auto split: sum.split)
qed

lemma suggested_iff:
  "family \<in> set (suggest_families T s) \<longleftrightarrow> family \<in> set FAMILIES \<and> header_dates T s \<noteq> [] \<and>
     (\<forall>(i, d)\<in>set (header_dates T s). parse_date T d family \<noteq> None)"
  by (auto simp: suggest_families_def validate_family_def Let_def find_None_iff split: sum.splits)

lemma header_dates_in:
  assumes "l \<in> set (splitlines s)" "header_match T l = Some (d, t, x)"
  shows "\<exists>i. (i, d) \<in> set (header_dates T s)"
proof -
  obtain k where "k < length (splitlines s)" "l = splitlines s ! k" using assms(1) by (auto simp: in_set_conv_nth)
  then have "(Suc k, l) \<in> set (enumerate 1 (splitlines s))" by (simp add: in_set_enumerate_eq)
  then show ?thesis using assms(2) unfolding header_dates_def by (force simp: List.map_filter_def image_iff)
qed

lemma line_shape:
  "raw \<in> set (splitlines_keep s) \<Longrightarrow>
   \<exists>b e. raw = b @ e \<and> (\<forall>c\<in>set b. \<not> line_break c) \<and> (e = [] \<or> e = [13, 10] \<or> (\<exists>c. e = [c] \<and> line_break c))"
proof (induction s arbitrary: raw rule: splitlines_keep.induct)
  case (2 c s)
  consider "crlf c s" | "\<not> crlf c s" "line_break c" | "\<not> crlf c s" "\<not> line_break c" by blast
  then show ?case
  proof cases
    case 1
    then have "raw = [13, 10] \<or> raw \<in> set (splitlines_keep (tl s))" using 2(4) by simp
    then show ?thesis
    proof
      assume "raw = [13, 10]" then show ?thesis by (intro exI [of _ "[]"] exI [of _ "[13, 10]"]) simp
    qed (use 2(1) [OF 1] in blast)
  next
    case brk: 2
    then have "raw = [c] \<or> raw \<in> set (splitlines_keep s)" using 2(4) by simp
    then show ?thesis
    proof
      assume "raw = [c]" then show ?thesis using brk(2) by (intro exI [of _ "[]"] exI [of _ "[c]"]) simp
    qed (use 2(2) [OF brk] in blast)
  next
    case 3
    show ?thesis
    proof (cases "splitlines_keep s")
      case Nil
      then have "raw = [c]" using 2(4) 3 by simp
      then show ?thesis using 3(2) by (intro exI [of _ "[c]"] exI [of _ "[]"]) simp
    next
      case (Cons l ls)
      then have "raw = c # l \<or> raw \<in> set ls" using 2(4) 3 by simp
      then show ?thesis
      proof
        assume r: "raw = c # l"
        obtain b e where "l = b @ e" "\<forall>c\<in>set b. \<not> line_break c" "e = [] \<or> e = [13, 10] \<or> (\<exists>c. e = [c] \<and> line_break c)"
          using 2(3) [OF 3, of l] Cons by auto
        then show ?thesis using r 3(2) by (intro exI [of _ "c # b"] exI [of _ e]) auto
      qed (use 2(3) [OF 3, of raw] Cons in auto)
    qed
  qed
qed simp

lemma chop_break_free: "raw \<in> set (splitlines_keep s) \<Longrightarrow> c \<in> set (chop_break raw) \<Longrightarrow> \<not> line_break c"
proof -
  assume r: "raw \<in> set (splitlines_keep s)" and c: "c \<in> set (chop_break raw)"
  obtain b e where be: "raw = b @ e" "\<forall>c\<in>set b. \<not> line_break c" "e = [] \<or> e = [13, 10] \<or> (\<exists>c. e = [c] \<and> line_break c)"
    using line_shape [OF r] by blast
  have lb: "line_break 10" "line_break 13" by (simp_all add: line_break_def)
  from be(3) have "chop_break raw = b"
  proof (elim disjE exE conjE)
    assume "e = []"
    moreover have "\<not> (2 \<le> length b \<and> drop (length b - 2) b = [13, 10])"
    proof
      assume "2 \<le> length b \<and> drop (length b - 2) b = [13, 10]"
      then have "10 \<in> set b" by (metis in_set_dropD list.set_intros(1,2))
      then show False using be(2) lb(1) by blast
    qed
    moreover have "\<not> (b \<noteq> [] \<and> line_break (last b))" using be(2) by auto
    ultimately show ?thesis using be(1) unfolding chop_break_def by auto
  next
    assume "e = [13, 10]" then show ?thesis using be(1) by (simp add: chop_break_def butlast_append)
  next
    fix x assume x: "e = [x]" "line_break x"
    have "\<not> (2 \<le> length raw \<and> drop (length raw - 2) raw = [13, 10])"
    proof
      assume a: "2 \<le> length raw \<and> drop (length raw - 2) raw = [13, 10]"
      then have "b \<noteq> []" using be(1) x(1) by auto
      then have "drop (length raw - 2) raw = [last b, x]"
        using be(1) x(1) by (simp add: append_butlast_last_id [symmetric] del: append_butlast_last_id)
           (metis One_nat_def append_butlast_last_id append_eq_conv_conj length_butlast)
      then have "13 \<in> set b" using a \<open>b \<noteq> []\<close> by (metis last_in_set list.inject)
      then show False using be(2) lb(2) by blast
    qed
    then have "chop_break raw = (if raw \<noteq> [] \<and> line_break (last raw) then butlast raw else raw)"
      unfolding chop_break_def by (rule if_not_P)
    then show ?thesis using be(1) x by simp
  qed
  then show ?thesis using be(2) c by blast
qed

text \<open>
  Under a family that the check of the whole file lets through, a line with a sender is never
  taken for a boundary: it opens a record. (For lines that end in a newline or a carriage return, where
  both functions cut the same end off.)
\<close>

theorem suggested_headers_open:
  assumes ok: "tables_ok T" and f: "family \<in> set (suggest_families T s)"
    and raw: "raw \<in> set (splitlines_keep s)" "chop_break raw = bare raw" and h: "header_match T (bare raw) = Some (d, t, x)"
  shows "opens T family raw \<and> \<not> doubtful T family raw"
proof -
  have "bare raw \<in> set (splitlines s)" using raw imageI [of raw "set (splitlines_keep s)" chop_break] by (simp add: splitlines_def)
  then obtain i where "(i, d) \<in> set (header_dates T s)" using header_dates_in h by blast
  then have d: "parse_date T d family \<noteq> None" using f unfolding suggested_iff by blast
  have "10 \<notin> set (bare raw)" using chop_break_free [OF raw(1)] raw(2) by (auto simp: line_break_def)
  then obtain t' r where "entry_match T (bare raw) = Some (d, t', r)" using header_is_entry [OF ok h] by blast
  with d show ?thesis by (simp add: opens_def doubtful_def)
qed

section \<open>Daylight saving\<close>

text \<open>
  What is relied on of a zone (PEP 495): a local time that some instant has is the local time of the instant
  that either value of \<open>fold\<close> names; a time skipped by a transition is the local time of none.
\<close>

definition zone_ok :: "zone \<Rightarrow> bool" where
  "zone_ok z \<longleftrightarrow> (\<forall>u f. f \<in> {0, 1} \<longrightarrow> fromutc z (fromutc z u - utcoffset z (fromutc z u) f) = fromutc z u)"

theorem classify_nonexistent_iff:
  assumes "zone_ok z"
  shows "classify_local z l = NONEXISTENT \<longleftrightarrow> (\<nexists>u. fromutc z u = l)"
  using assms by (auto simp: classify_local_def zone_ok_def)

theorem classify_fold_two:
  assumes "zone_ok z" "classify_local z l = FOLD"
  shows "fromutc z (l - utcoffset z l 0) = l \<and> fromutc z (l - utcoffset z l 1) = l \<and> l - utcoffset z l 0 \<noteq> l - utcoffset z l 1"
proof -
  have l: "fromutc z (l - utcoffset z l 0) = l" "utcoffset z l 0 \<noteq> utcoffset z l 1"
    using assms(2) by (auto simp: classify_local_def split: if_splits)
  have "fromutc z (l - utcoffset z l 1) = l"
    using assms(1) l(1) unfolding zone_ok_def by (metis insertI1 insertI2)
  with l show ?thesis by simp
qed

end
