(* ===== verification/Import.thy ===== *)
theory Import
  imports Transcript Consumer Query
begin

text \<open>
  The export importer: fingerprints (\<open>importers/fingerprint.py\<close>), the write path, its undo, the stored source
  and the reparse of it (\<open>importers/whatsapp_export.py\<close>). An empty string stands for a missing
  argument, as the gates treat both alike. The columns of \<open>messages\<close> that no code reads (the zone and its basis)
  are left out of the row.
\<close>

section \<open>Fingerprints\<close>

definition content_fingerprint :: "crypto \<Rightarrow> pystr \<Rightarrow> pystr option \<Rightarrow> exc + pystr" where
  "content_fingerprint C message_type original =
     (case utf8 (case original of None \<Rightarrow> [] | Some s \<Rightarrow> s) of
        Inl e \<Rightarrow> Inl e
      | Inr body \<Rightarrow>
     (case utf8 message_type of
        Inl e \<Rightarrow> Inl e
      | Inr mt \<Rightarrow>
     (case lp_all [mt, body] of
        Inl e \<Rightarrow> Inl e
      | Inr b \<Rightarrow> Inr (hex_of (sha256 C (ascii ''WHATSVAULT-CONTENT-V1'' @ [10] @ b))))))"

text \<open>\<open>n.to_bytes(8, "big", signed=True)\<close>.\<close>

definition to_bytes_signed :: "nat \<Rightarrow> int \<Rightarrow> exc + bytes" where
  "to_bytes_signed k i = (if - (128 * 256 ^ (k - 1)) \<le> i \<and> i < 128 * 256 ^ (k - 1) then Inr (be_bytes k (nat (i mod 256 ^ k))) else Inl OverflowError)"

definition import_chunks :: "int \<Rightarrow> pystr \<Rightarrow> int \<Rightarrow> pystr \<Rightarrow> pystr \<Rightarrow> pystr \<Rightarrow> nat \<Rightarrow> exc + bytes list" where
  "import_chunks version conv bucket sender_key message_type content_fp occurrence =
     (case to_bytes_be 4 version of
        Inl e \<Rightarrow> Inl e
      | Inr v \<Rightarrow>
     (case utf8 conv of
        Inl e \<Rightarrow> Inl e
      | Inr c \<Rightarrow>
     (case to_bytes_signed 8 bucket of
        Inl e \<Rightarrow> Inl e
      | Inr b \<Rightarrow>
     (case utf8_all [sender_key, message_type, content_fp] of
        Inl e \<Rightarrow> Inl e
      | Inr l \<Rightarrow>
     (case to_bytes_be 4 (int occurrence) of
        Inl e \<Rightarrow> Inl e
      | Inr n \<Rightarrow> Inr ([v, c, b] @ l @ [n]))))))"

definition import_fingerprint :: "crypto \<Rightarrow> int \<Rightarrow> pystr \<Rightarrow> int \<Rightarrow> pystr \<Rightarrow> pystr \<Rightarrow> pystr \<Rightarrow> nat \<Rightarrow> exc + pystr" where
  "import_fingerprint C version conv bucket sender_key message_type content_fp occurrence =
     (case import_chunks version conv bucket sender_key message_type content_fp occurrence of
        Inl e \<Rightarrow> Inl e
      | Inr cs \<Rightarrow>
     (case lp_all cs of
        Inl e \<Rightarrow> Inl e
      | Inr b \<Rightarrow> Inr (hex_of (sha256 C (ascii ''WHATSVAULT-IMPORT-FP-V1'' @ [10] @ b)))))"

section \<open>Arguments\<close>

definition FINGERPRINT_VERSION :: int where "FINGERPRINT_VERSION = 1"

record import_env =
  im_crypto :: crypto
  im_tables :: tables
  im_zones :: "pystr \<Rightarrow> exc + zone"

record import_args =
  ia_text :: pystr
  ia_source_sha256 :: pystr
  ia_date_format :: string
  ia_tz_name :: pystr
  ia_conversation_id :: pystr
  ia_account_id :: pystr
  ia_self_label :: pystr
  ia_dst :: "nat \<Rightarrow> int option"
  ia_artifact :: "(pystr \<times> pystr) option"

definition is_message :: "entry \<Rightarrow> bool" where
  "is_message r = (case en_content r of Message _ _ _ \<Rightarrow> True | System _ _ \<Rightarrow> False)"

fun import_messages_of :: "(nat \<times> rec) list \<Rightarrow> (nat \<times> entry) list" where
  "import_messages_of [] = []"
| "import_messages_of ((i, Entry r) # rs) = (if is_message r then (i, r) # import_messages_of rs else import_messages_of rs)"
| "import_messages_of ((i, Boundary _ _ _) # rs) = import_messages_of rs"

fun system_lines :: "(nat \<times> rec) list \<Rightarrow> nat" where
  "system_lines [] = 0"
| "system_lines ((i, Entry r) # rs) = (if is_message r then system_lines rs else Suc (system_lines rs))"
| "system_lines ((i, Boundary _ _ _) # rs) = system_lines rs"

definition dst_case :: "entry \<Rightarrow> bool" where
  "dst_case r \<longleftrightarrow> en_dst r = FOLD \<or> en_dst r = NONEXISTENT"

definition minute_epoch_ms :: "import_env \<Rightarrow> import_args \<Rightarrow> nat \<Rightarrow> entry \<Rightarrow> exc + int" where
  "minute_epoch_ms E A i r =
     (case (if dst_case r then (case ia_dst A i of None \<Rightarrow> Inl KeyError | Some f \<Rightarrow> Inr f) else Inr 0) of
        Inl e \<Rightarrow> Inl e
      | Inr f \<Rightarrow>
     (case im_zones E (ia_tz_name A) of
        Inl e \<Rightarrow> Inl e
      | Inr z \<Rightarrow>
          (if f \<noteq> 0 \<and> f \<noteq> 1 then Inl ValueError
           else (let l = wall_seconds ((en_wall r)\<lparr>w_second := 0\<rparr>) in Inr ((l - utcoffset z l f) * 1000)))))"

section \<open>Dry run\<close>

record dry_report =
  dr_would_add :: nat
  dr_suggested :: "string list"
  dr_format_ok :: bool
  dr_dst_cases :: "(nat \<times> dst_class) list"
  dr_unlinked :: "pystr list"
  dr_system_lines :: nat
  dr_boundaries :: "(nat \<times> nat) list"
  dr_self_resolved :: bool

definition senders :: "(nat \<times> entry) list \<Rightarrow> pystr list" where
  "senders ms = fold (\<lambda>(i, r) acc. if sender (en_content r) \<in> set acc then acc else acc @ [sender (en_content r)]) ms []"

definition stripped_text :: "import_env \<Rightarrow> pystr \<Rightarrow> pystr" where
  "stripped_text E s = strip (unicode.truncate (im_tables E)) s"

definition families_of :: "import_env \<Rightarrow> pystr \<Rightarrow> string list" where
  "families_of E txt = (if txt = [] then [] else suggest_families (im_tables E) txt)"

definition dry_run :: "import_env \<Rightarrow> pystr \<Rightarrow> string \<Rightarrow> pystr \<Rightarrow> pystr option \<Rightarrow> exc + dry_report" where
  "dry_run E txt fmt tz label =
     (case (if fmt \<noteq> [] \<and> tz \<noteq> [] then parse_transcript (im_tables E) (im_zones E) txt fmt tz else Inr []) of
        Inl e \<Rightarrow> Inl e
      | Inr rs \<Rightarrow>
          (let ms = import_messages_of rs; self = stripped_text E (case label of None \<Rightarrow> [] | Some s \<Rightarrow> s) in
           Inr \<lparr>dr_would_add = length ms, dr_suggested = families_of E txt,
                dr_format_ok = (fmt \<noteq> [] \<and> fmt \<in> set (families_of E txt)),
                dr_dst_cases = map (\<lambda>(i, r). (i, en_dst r)) (filter (\<lambda>(i, r). dst_case r) ms),
                dr_unlinked = senders ms, dr_system_lines = system_lines rs,
                dr_boundaries = map snd (boundaries (map snd rs)),
                dr_self_resolved = (self \<noteq> [] \<and> list_ex (\<lambda>s. stripped_text E s = self) (senders ms))\<rparr>))"

section \<open>The write path\<close>

definition bind_all :: "pystr list \<Rightarrow> exc + unit" where
  "bind_all ss = (case utf8_all ss of Inl e \<Rightarrow> Inl e | Inr _ \<Rightarrow> Inr ())"

definition batch_row :: "import_args \<Rightarrow> pystr \<Rightarrow> (nat \<times> rec) list \<Rightarrow> batch" where
  "batch_row A bid rs =
     \<lparr>bat_id = bid, bat_source_sha256 = ia_source_sha256 A, bat_source_artifact_path = map_option fst (ia_artifact A),
      bat_source_artifact_sha256 = map_option snd (ia_artifact A), bat_declared_date_format = ia_date_format A,
      bat_declared_timezone = ia_tz_name A, bat_self_participant_label = ia_self_label A,
      bat_message_count = length (import_messages_of rs), bat_system_event_count = system_lines rs, bat_undone_at_ms = None\<rparr>"

definition insert_batch :: "import_args \<Rightarrow> pystr \<Rightarrow> (nat \<times> rec) list \<Rightarrow> vault_db \<Rightarrow> exc + vault_db" where
  "insert_batch A bid rs d =
     (case bind_all ([ia_source_sha256 A] @ (case ia_artifact A of None \<Rightarrow> [] | Some (p, h) \<Rightarrow> [p, h]) @ [ia_tz_name A, ia_self_label A]) of
        Inl e \<Rightarrow> Inl e | Inr _ \<Rightarrow> ins_batch (batch_row A bid rs) d)"

primrec add_participants :: "pystr \<Rightarrow> (nat \<times> entry) list \<Rightarrow> (pystr \<times> pystr) list \<Rightarrow> ulids \<Rightarrow> vault_db \<Rightarrow>
    exc + (pystr \<times> pystr) list \<times> ulids \<times> vault_db" where
  "add_participants bid [] parts us d = Inr (parts, us, d)"
| "add_participants bid (m # ms) parts us d =
     (let s = sender (en_content (snd m)) in
      if s \<in> fst ` set parts then add_participants bid ms parts us d
      else
       (let (pid, us') = mint ''imp'' us in
        case bind_all [s] of
          Inl e \<Rightarrow> Inl e
        | Inr _ \<Rightarrow>
            (case ins_participant \<lparr>imp_id = pid, imp_batch_id = bid, imp_raw_display_name = s\<rparr> d of
               Inl e \<Rightarrow> Inl e
             | Inr d' \<Rightarrow> add_participants bid ms (parts @ [(s, pid)]) us' d')))"

type_synonym bucket = "pystr \<times> int \<times> pystr \<times> pystr \<times> pystr"

record ident =
  id_bucket :: bucket
  id_interval :: interval
  id_type :: pystr
  id_content_fp :: pystr
  id_import_fp :: pystr

definition message_type :: "entry \<Rightarrow> pystr" where
  "message_type r = lit (if media (en_content r) then ''media'' else ''text'')"

definition identify :: "import_env \<Rightarrow> import_args \<Rightarrow> (bucket \<Rightarrow> nat) \<Rightarrow> nat \<Rightarrow> entry \<Rightarrow> exc + ident" where
  "identify E A occ i r =
     (case minute_epoch_ms E A i r of
        Inl e \<Rightarrow> Inl e
      | Inr ms \<Rightarrow>
     (case from_local_minute ms of
        Inl e \<Rightarrow> Inl e
      | Inr iv \<Rightarrow>
     (case content_fingerprint (im_crypto E) (message_type r) (Some (said (en_content r))) of
        Inl e \<Rightarrow> Inl e
      | Inr cfp \<Rightarrow>
          (let b = (ia_conversation_id A, ms, sender (en_content r), message_type r, cfp) in
           case import_fingerprint (im_crypto E) FINGERPRINT_VERSION (ia_conversation_id A) ms (sender (en_content r)) (message_type r) cfp (occ b) of
             Inl e \<Rightarrow> Inl e
           | Inr fp \<Rightarrow> Inr \<lparr>id_bucket = b, id_interval = iv, id_type = message_type r, id_content_fp = cfp, id_import_fp = fp\<rparr>))))"

definition import_row :: "import_env \<Rightarrow> import_args \<Rightarrow> pystr \<Rightarrow> entry \<Rightarrow> ident \<Rightarrow> message" where
  "import_row E A mid r x =
     \<lparr>msg_id = mid, msg_account_id = ia_account_id A, msg_conversation_id = ia_conversation_id A, msg_sender_contact_id = None,
       msg_direction = (if stripped_text E (sender (en_content r)) = stripped_text E (ia_self_label A) then Out else In),
       msg_ts_lower_ms = iv_lower (id_interval x), msg_ts_upper_ms_exclusive = iv_upper (id_interval x), msg_ts_precision = iv_precision (id_interval x),
       msg_type = id_type x, msg_text_original = Some (said (en_content r)), msg_reply_to_wamid = None, msg_origin = manual_export,
       msg_window_eligible = False, msg_wamid = None, msg_import_fingerprint = Some (id_import_fp x), msg_delivery_rank = 0\<rparr>"

record importing =
  ip_occ :: "bucket \<Rightarrow> nat"
  ip_us :: ulids
  ip_db :: vault_db
  ip_added :: nat

definition by_fingerprint :: "pystr \<Rightarrow> message \<Rightarrow> bool" where
  "by_fingerprint fp m \<longleftrightarrow> msg_import_fingerprint m = Some fp"

text \<open>The message of a record: the one that has its fingerprint already, or a new row, indexed in the same transaction.\<close>

definition resolve_message :: "import_env \<Rightarrow> import_args \<Rightarrow> entry \<Rightarrow> ident \<Rightarrow> importing \<Rightarrow> exc + pystr \<times> importing" where
  "resolve_message E A r x ip =
     (case List.find (by_fingerprint (id_import_fp x)) (messages (ip_db ip)) of
        Some m \<Rightarrow> Inr (msg_id m, ip)
      | None \<Rightarrow>
          (let (mid, us') = mint ''msg'' (ip_us ip) in
           case bind_all [ia_account_id A] of
             Inl e \<Rightarrow> Inl e
           | Inr _ \<Rightarrow>
               (case ins_message (import_row E A mid r x) (ip_db ip) of
                  Inl e \<Rightarrow> Inl e
                | Inr d \<Rightarrow>
                    Inr (mid, ip\<lparr>ip_us := us', ip_db := stage_message (unicode.truncate (im_tables E)) mid (Some (said (en_content r))) d,
                                 ip_added := Suc (ip_added ip)\<rparr>))))"

definition import_one :: "import_env \<Rightarrow> import_args \<Rightarrow> pystr \<Rightarrow> (pystr \<times> pystr) list \<Rightarrow> nat \<times> entry \<Rightarrow> importing \<Rightarrow> exc + importing" where
  "import_one E A bid parts m ip =
     (let (i, r) = m in
      case identify E A (ip_occ ip) i r of
        Inl e \<Rightarrow> Inl e
      | Inr x \<Rightarrow>
     (case resolve_message E A r x (ip\<lparr>ip_occ := (ip_occ ip)(id_bucket x := Suc (ip_occ ip (id_bucket x)))\<rparr>) of
        Inl e \<Rightarrow> Inl e
      | Inr (mid, ip1) \<Rightarrow>
     (case map_of parts (sender (en_content r)) of
        None \<Rightarrow> Inl KeyError
      | Some pid \<Rightarrow>
          (case ins_observation \<lparr>obs_batch_id = bid, obs_message_id = mid, obs_participant_id = Some pid, obs_source_ordinal = i,
                    obs_start_offset = Some (en_start r), obs_end_offset = Some (en_end r), obs_source_fingerprint = id_content_fp x\<rparr>
                  (ip_db ip1) of
             Inl e \<Rightarrow> Inl e
           | Inr d \<Rightarrow> Inr (ip1\<lparr>ip_db := d\<rparr>)))))"

primrec import_all :: "import_env \<Rightarrow> import_args \<Rightarrow> pystr \<Rightarrow> (pystr \<times> pystr) list \<Rightarrow> (nat \<times> entry) list \<Rightarrow> importing \<Rightarrow> exc + importing" where
  "import_all E A bid parts [] ip = Inr ip"
| "import_all E A bid parts (m # ms) ip =
     (case import_one E A bid parts m ip of Inl e \<Rightarrow> Inl e | Inr ip' \<Rightarrow> import_all E A bid parts ms ip')"

record import_result =
  ir_batch_id :: pystr
  ir_added :: nat
  ir_observations :: nat
  ir_participants :: nat

definition import_gates :: "import_env \<Rightarrow> import_args \<Rightarrow> exc + (nat \<times> rec) list" where
  "import_gates E A =
     (if ia_self_label A = [] then Inl (ImportRefused ''MISSING_SELF'')
      else if ia_date_format A = [] then Inl (ImportRefused ''MISSING_FORMAT'')
      else if ia_tz_name A = [] then Inl (ImportRefused ''MISSING_TZ'')
      else if ia_date_format A \<notin> set (suggest_families (im_tables E) (ia_text A)) then Inl (ImportRefused ''FORMAT_MISMATCH'')
      else
       (case parse_transcript (im_tables E) (im_zones E) (ia_text A) (ia_date_format A) (ia_tz_name A) of
          Inl e \<Rightarrow> Inl e
        | Inr rs \<Rightarrow>
            (if list_ex (\<lambda>(i, r). dst_case r \<and> ia_dst A i = None) (import_messages_of rs) then Inl (ImportRefused ''DST_UNRESOLVED'')
             else Inr rs)))"

definition import_txn :: "import_env \<Rightarrow> import_args \<Rightarrow> (nat \<times> rec) list \<Rightarrow> ulids \<Rightarrow> vault_db \<Rightarrow> exc + import_result \<times> vault_db" where
  "import_txn E A rs us d =
     (let ms = import_messages_of rs; (bid, us1) = mint ''bat'' us in
      case insert_batch A bid rs d of
        Inl e \<Rightarrow> Inl e
      | Inr d1 \<Rightarrow>
     (case add_participants bid ms [] us1 d1 of
        Inl e \<Rightarrow> Inl e
      | Inr (parts, us2, d2) \<Rightarrow>
     (case import_all E A bid parts ms \<lparr>ip_occ = (\<lambda>_. 0), ip_us = us2, ip_db = d2, ip_added = 0\<rparr> of
        Inl e \<Rightarrow> Inl e
      | Inr ip \<Rightarrow>
     (case bind_all [ia_conversation_id A, ia_account_id A] of
        Inl e \<Rightarrow> Inl e
      | Inr _ \<Rightarrow>
     (case ins_source \<lparr>src_id = fst (mint ''src'' (ip_us ip)), src_conversation_id = ia_conversation_id A, src_source_kind = ''manual_export'',
              src_write_capable = False, src_account_id = Some (ia_account_id A), src_import_batch_id = Some bid\<rparr> (ip_db ip) of
        Inl e \<Rightarrow> Inl e
      | Inr d' \<Rightarrow>
          Inr (\<lparr>ir_batch_id = bid, ir_added = ip_added ip, ir_observations = length ms, ir_participants = length (senders ms)\<rparr>, d'))))))"

definition import_batch :: "import_env \<Rightarrow> import_args \<Rightarrow> ulids \<Rightarrow> vault \<Rightarrow> (exc + import_result) \<times> vault" where
  "import_batch E A us c =
     (case import_gates E A of
        Inl e \<Rightarrow> (Inl e, c)
      | Inr rs \<Rightarrow>
     (case import_txn E A rs us (work c) of
        Inl e \<Rightarrow> (Inl e, rollback c)
      | Inr (res, d) \<Rightarrow> (Inr res, commit (c\<lparr>work := d\<rparr>))))"

section \<open>Undo\<close>

record undo_result =
  ur_observations_deleted :: nat
  ur_messages_deleted :: nat

definition undo_message :: "pystr \<Rightarrow> nat \<times> vault_db \<Rightarrow> nat \<times> vault_db" where
  "undo_message mid nd =
     (let (n, d) = nd in
      if rowcount (\<lambda>r. obs_message_id r = mid) (message_import_observations d) = 0 \<and>
         (case List.find (\<lambda>m. msg_id m = mid) (messages d) of None \<Rightarrow> False | Some m \<Rightarrow> msg_wamid m = None)
      then (Suc n, d\<lparr>messages := del (\<lambda>m. msg_id m = mid) (messages d)\<rparr>) else (n, d))"

text \<open>A participant that an observation still names cannot be deleted: the foreign key raises.\<close>

definition drop_participants :: "pystr \<Rightarrow> vault_db \<Rightarrow> exc + vault_db" where
  "drop_participants bid d =
     (if list_ex (\<lambda>r. list_ex (\<lambda>p. imp_batch_id p = bid \<and> obs_participant_id r = Some (imp_id p)) (import_participants d))
           (message_import_observations d)
      then Inl IntegrityError
      else Inr (d\<lparr>import_participants := del (\<lambda>p. imp_batch_id p = bid) (import_participants d)\<rparr>))"

definition undo_txn :: "pystr \<Rightarrow> int \<Rightarrow> vault_db \<Rightarrow> exc + undo_result \<times> vault_db" where
  "undo_txn bid now_ms d =
     (let mids = map obs_message_id (filter (\<lambda>r. obs_batch_id r = bid) (message_import_observations d));
          d1 = d\<lparr>message_import_observations := del (\<lambda>r. obs_batch_id r = bid) (message_import_observations d)\<rparr>;
          (n, d2) = fold undo_message mids (0, d1) in
      case drop_participants bid d2 of
        Inl e \<Rightarrow> Inl e
      | Inr d3 \<Rightarrow>
          Inr (\<lparr>ur_observations_deleted = length mids, ur_messages_deleted = n\<rparr>,
               d3\<lparr>conversation_sources := del (\<lambda>r. src_import_batch_id r = Some bid) (conversation_sources d3),
                  import_batches := upd (\<lambda>b. bat_id b = bid) (\<lambda>b. b\<lparr>bat_undone_at_ms := Some now_ms\<rparr>) (import_batches d3)\<rparr>))"

definition undo_batch :: "pystr \<Rightarrow> int \<Rightarrow> vault \<Rightarrow> (exc + undo_result) \<times> vault" where
  "undo_batch bid now_ms c =
     (case undo_txn bid now_ms (work c) of
        Inl e \<Rightarrow> (Inl e, rollback c)
      | Inr (res, d) \<Rightarrow> (Inr res, commit (c\<lparr>work := d\<rparr>)))"

section \<open>The stored source\<close>

text \<open>Files are their bytes. \<open>fault\<close> is what the operating system raises while the sealed bytes are written and renamed.\<close>

type_synonym files = "pystr \<Rightarrow> bytes option"

definition SRC_AAD_PREFIX :: bytes where "SRC_AAD_PREFIX = ascii ''WHATSVAULT-IMPORT-SRC-V1'' @ [10]"

definition encode_ascii :: "pystr \<Rightarrow> exc + bytes" where
  "encode_ascii s = (if list_all (\<lambda>c. c < 128) s then Inr (map of_nat s) else Inl UnicodeEncodeError)"

definition join_path :: "pystr \<Rightarrow> pystr \<Rightarrow> pystr" where
  "join_path dir name = (if dir = [] \<or> last dir = of_char CHR ''/'' then dir @ name else dir @ lit ''/'' @ name)"

definition store_source_artifact :: "sealing \<Rightarrow> crypto \<Rightarrow> exc option \<Rightarrow> bytes \<Rightarrow> pystr \<Rightarrow> pystr \<Rightarrow> bytes \<Rightarrow> bytes \<Rightarrow> files \<Rightarrow>
    (exc + pystr \<times> pystr) \<times> files" where
  "store_source_artifact S C fault nonce dest source_sha256 raw key fs =
     (case encode_ascii source_sha256 of
        Inl e \<Rightarrow> (Inl e, fs)
      | Inr sha \<Rightarrow>
     (case seal_blob S nonce key raw 0 (SRC_AAD_PREFIX @ sha) of
        Inl e \<Rightarrow> (Inl e, fs)
      | Inr sealed \<Rightarrow>
     (case fault of
        Some e \<Rightarrow> (Inl e, fs)
      | None \<Rightarrow>
          (let sealed_sha = hex_of (sha256 C sealed); final = join_path dest (source_sha256 @ lit ''.wvblob'');
               fs' = fs(final := Some sealed) in
           case fs' final of
             None \<Rightarrow> (Inl FileNotFoundError, fs')
           | Some on_disk \<Rightarrow> if hex_of (sha256 C on_disk) \<noteq> sealed_sha then (Inl OSError, fs') else (Inr (final, sealed_sha), fs')))))"

definition reparse :: "import_env \<Rightarrow> sealing \<Rightarrow> files \<Rightarrow> pystr \<Rightarrow> bytes \<Rightarrow> vault_db \<Rightarrow> exc + dry_report" where
  "reparse E S fs bid key d =
     (case List.find (\<lambda>b. bat_id b = bid) (import_batches d) of
        None \<Rightarrow> Inl ValueError
      | Some b \<Rightarrow>
          (if \<not> truthy (bat_source_artifact_path b) then Inl ValueError
           else
            (case fs (the (bat_source_artifact_path b)) of
               None \<Rightarrow> Inl FileNotFoundError
             | Some sealed \<Rightarrow>
            (case encode_ascii (bat_source_sha256 b) of
               Inl e \<Rightarrow> Inl e
             | Inr sha \<Rightarrow>
            (case open_blob S key sealed (SRC_AAD_PREFIX @ sha) of
               Inl e \<Rightarrow> Inl e
             | Inr raw \<Rightarrow>
            (case utf8_decode raw of
               None \<Rightarrow> Inl UnicodeDecodeError
             | Some txt \<Rightarrow>
                 dry_run E txt (bat_declared_date_format b) (bat_declared_timezone b) (Some (bat_self_participant_label b))))))))"

section \<open>Round trip of the stored source\<close>

lemma store_artifact_cases:
  assumes "store_source_artifact S C fault nonce dest sha raw key fs = (r, fs')"
  shows "(\<exists>e. r = Inl e \<and> fs' = fs) \<or>
    (\<exists>sha' sealed path. encode_ascii sha = Inr sha' \<and> seal_blob S nonce key raw 0 (SRC_AAD_PREFIX @ sha') = Inr sealed \<and>
       path = join_path dest (sha @ lit ''.wvblob'') \<and> r = Inr (path, hex_of (sha256 C sealed)) \<and> fs' = fs(path := Some sealed))"
  using assms by (auto simp: store_source_artifact_def Let_def split: sum.splits option.splits)

lemma join_path_not_Nil: "name \<noteq> [] \<Longrightarrow> join_path dir name \<noteq> []"
  by (simp add: join_path_def)

theorem store_then_reparse:
  assumes "gcm_opens S" "length nonce = 12" "utf8 txt = Inr raw"
    "store_source_artifact S C None nonce dest sha raw key fs = (Inr (path, sealed_sha), fs')"
    "List.find (\<lambda>b. bat_id b = bid) (import_batches d) = Some b" "bat_source_sha256 b = sha" "bat_source_artifact_path b = Some path"
  shows "reparse E S fs' bid key d = dry_run E txt (bat_declared_date_format b) (bat_declared_timezone b) (Some (bat_self_participant_label b))"
proof -
  obtain sha' sealed where s: "encode_ascii sha = Inr sha'" "seal_blob S nonce key raw 0 (SRC_AAD_PREFIX @ sha') = Inr sealed"
    and p: "path = join_path dest (sha @ lit ''.wvblob'')" "fs' = fs(path := Some sealed)"
    using store_artifact_cases [OF assms(4)] by auto
  have "open_blob S key sealed (SRC_AAD_PREFIX @ sha') = Inr raw" by (rule open_seal_blob [OF assms(1,2) s(2)])
  moreover have "utf8_decode raw = Some txt" using assms(3) by (rule utf8_roundtrip)
  moreover have "path \<noteq> []" unfolding p(1) by (rule join_path_not_Nil) simp
  ultimately show ?thesis using assms(5-7) s(1) p(2) by (simp add: reparse_def)
qed

end
