(* ===== verification/Import_Safety.thy ===== *)
theory Import_Safety
  imports Import
begin

text \<open>
  What an import guarantees: it is all or nothing, it writes evidence only (never a window, the ledger,
  or the directory), importing the same source again adds nothing, and undoing an import
  restores the evidence as it was.
\<close>

lemma ins_observation_iff:
  "ins_observation ro d = Inr d' \<longleftrightarrow> d' = d\<lparr>message_import_observations := message_import_observations d @ [ro]\<rparr> \<and> observation_ok d ro \<and>
     (\<forall>x\<in>set (message_import_observations d). \<not> observation_clash ro x)"
  by (auto simp: ins_observation_def ins_Inr ins_Inl split: sum.splits)

section \<open>One record\<close>

definition next_occ :: "ident \<Rightarrow> (bucket \<Rightarrow> nat) \<Rightarrow> bucket \<Rightarrow> nat" where
  "next_occ x occ = occ(id_bucket x := Suc (occ (id_bucket x)))"

definition obs_row :: "pystr \<Rightarrow> pystr \<Rightarrow> pystr \<Rightarrow> nat \<Rightarrow> entry \<Rightarrow> ident \<Rightarrow> observation" where
  "obs_row bid mid pid i r x =
     \<lparr>obs_batch_id = bid, obs_message_id = mid, obs_participant_id = Some pid, obs_source_ordinal = i,
      obs_start_offset = Some (en_start r), obs_end_offset = Some (en_end r), obs_source_fingerprint = id_content_fp x\<rparr>"

definition indexed_message :: "import_env \<Rightarrow> message \<Rightarrow> vault_db \<Rightarrow> vault_db" where
  "indexed_message E m d = stage_message (unicode.truncate (im_tables E)) (msg_id m) (msg_text_original m) (d\<lparr>messages := messages d @ [m]\<rparr>)"

lemma resolve_message_cases:
  assumes "resolve_message E A r x ip = Inr (mid, ip')"
  obtains m where "List.find (by_fingerprint (id_import_fp x)) (messages (ip_db ip)) = Some m" "mid = msg_id m" "ip' = ip"
  | m where "List.find (by_fingerprint (id_import_fp x)) (messages (ip_db ip)) = None" "m = import_row E A mid r x"
      "mid = mk_id ''msg'' (ip_us ip 0)" "message_ok (ip_db ip) m" "\<forall>y\<in>set (messages (ip_db ip)). \<not> message_clash m y"
      "ip' = ip\<lparr>ip_us := (\<lambda>k. ip_us ip (Suc k)), ip_db := indexed_message E m (ip_db ip), ip_added := Suc (ip_added ip)\<rparr>"
proof (cases "List.find (by_fingerprint (id_import_fp x)) (messages (ip_db ip))")
  case None
  then obtain d where d: "ins_message (import_row E A mid r x) (ip_db ip) = Inr d" and mid: "mid = mk_id ''msg'' (ip_us ip 0)"
    and ip': "ip' = ip\<lparr>ip_us := (\<lambda>k. ip_us ip (Suc k)),
        ip_db := stage_message (unicode.truncate (im_tables E)) mid (Some (said (en_content r))) d, ip_added := Suc (ip_added ip)\<rparr>"
    using assms by (auto simp: resolve_message_def mint_def split: sum.splits)
  show thesis
    by (rule that(2) [OF None refl mid]) (use ins_vault_Inr(4) [OF d] ip' in \<open>simp_all add: indexed_message_def import_row_def\<close>)
next
  case (Some m)
  then show thesis using assms by (intro that(1) [OF Some]) (simp_all add: resolve_message_def)
qed

lemma import_one_cases:
  assumes "import_one E A bid parts (i, r) ip = Inr ip'"
  obtains x mid pid ip1 where "identify E A (ip_occ ip) i r = Inr x" "map_of parts (sender (en_content r)) = Some pid"
    "resolve_message E A r x (ip\<lparr>ip_occ := next_occ x (ip_occ ip)\<rparr>) = Inr (mid, ip1)"
    "observation_ok (ip_db ip1) (obs_row bid mid pid i r x)"
    "\<forall>y\<in>set (message_import_observations (ip_db ip1)). \<not> observation_clash (obs_row bid mid pid i r x) y"
    "ip' = ip1\<lparr>ip_db := (ip_db ip1)\<lparr>message_import_observations := message_import_observations (ip_db ip1) @ [obs_row bid mid pid i r x]\<rparr>\<rparr>"
  using assms unfolding import_one_def next_occ_def [symmetric] obs_row_def [symmetric]
  by (auto simp: ins_observation_iff Let_def split: sum.splits option.splits prod.splits)

section \<open>What an import changes\<close>

text \<open>The tables that an import leaves alone, in every one of its steps.\<close>

definition same_tables :: "vault_db \<Rightarrow> vault_db \<Rightarrow> bool" where
  "same_tables d d' \<longleftrightarrow> accounts d' = accounts d \<and> contacts d' = contacts d \<and> conversations d' = conversations d \<and>
     message_status_events d' = message_status_events d \<and> ingest_events d' = ingest_events d \<and> ingest_dlq d' = ingest_dlq d \<and>
     ingest_state d' = ingest_state d"

lemma same_tables_refl [simp, intro]: "same_tables d d"
  by (simp add: same_tables_def)

lemma same_tables_trans [trans]: "same_tables a b \<Longrightarrow> same_tables b c \<Longrightarrow> same_tables a c"
  by (simp add: same_tables_def)

definition imported_row :: "import_args \<Rightarrow> message \<Rightarrow> bool" where
  "imported_row A m \<longleftrightarrow> msg_origin m = manual_export \<and> \<not> msg_window_eligible m \<and> msg_wamid m = None \<and>
     msg_import_fingerprint m \<noteq> None \<and> msg_conversation_id m = ia_conversation_id A \<and> msg_account_id m = ia_account_id A"

definition loop_frame :: "import_args \<Rightarrow> pystr \<Rightarrow> importing \<Rightarrow> importing \<Rightarrow> message list \<Rightarrow> observation list \<Rightarrow> bool" where
  "loop_frame A bid ip ip' ms os \<longleftrightarrow>
     same_tables (ip_db ip) (ip_db ip') \<and> import_batches (ip_db ip') = import_batches (ip_db ip) \<and>
     import_participants (ip_db ip') = import_participants (ip_db ip) \<and> conversation_sources (ip_db ip') = conversation_sources (ip_db ip) \<and>
     messages (ip_db ip') = messages (ip_db ip) @ ms \<and> list_all (imported_row A) ms \<and> ip_added ip' = ip_added ip + length ms \<and>
     message_import_observations (ip_db ip') = message_import_observations (ip_db ip) @ os \<and> list_all (\<lambda>r. obs_batch_id r = bid) os \<and>
     (index_ok (ip_db ip) \<longrightarrow> index_ok (ip_db ip')) \<and> (vault_inv (ip_db ip) \<longrightarrow> vault_inv (ip_db ip'))"

lemma stage_status [simp]: "message_status_events (stage_message U mid txt d) = message_status_events d"
  by (simp add: stage_message_def Let_def split: option.split)

lemma indexed_message_frame:
  "same_tables d (indexed_message E m d)" "messages (indexed_message E m d) = messages d @ [m]"
  "import_batches (indexed_message E m d) = import_batches d" "import_participants (indexed_message E m d) = import_participants d"
  "conversation_sources (indexed_message E m d) = conversation_sources d"
  "message_import_observations (indexed_message E m d) = message_import_observations d"
  by (simp_all add: indexed_message_def same_tables_def)

lemma same_tables_cong_obs [simp]: "same_tables d (d'\<lparr>message_import_observations := t\<rparr>) = same_tables d d'"
  by (simp add: same_tables_def)

lemma index_ok_cong:
  "search_documents d' = search_documents d \<Longrightarrow> fts_lexical d' = fts_lexical d \<Longrightarrow> fts_compact d' = fts_compact d \<Longrightarrow> index_ok d' = index_ok d"
  by (simp add: index_ok_def)

lemma indexed_message_ok: "index_ok d \<Longrightarrow> index_ok (indexed_message E m d)"
  unfolding indexed_message_def by (rule stage_message_ok) (simp add: index_ok_def)

lemma vault_inv_cong:
  "messages d' = messages d \<Longrightarrow> same_tables d d' \<Longrightarrow> vault_inv d \<Longrightarrow> vault_inv d'"
  by (rule vault_inv_grow) (auto simp: same_tables_def)

lemma indexed_message_inv:
  assumes "vault_inv d" "message_ok d m" "\<forall>y\<in>set (messages d). \<not> message_clash m y"
  shows "vault_inv (indexed_message E m d)"
proof -
  have "ins_message m d = Inr (d\<lparr>messages := messages d @ [m]\<rparr>)" using assms(2,3)
    by (auto simp: ins_message_def ins_Inr ins_Inl split: sum.splits)
  from ins_message_inv [OF assms(1) this] show ?thesis
    by (rule vault_inv_cong [rotated 2]) (simp_all add: indexed_message_def same_tables_def)
qed

lemma import_one_frame:
  assumes "import_one E A bid parts (i, r) ip = Inr ip'"
  shows "\<exists>ms o1. loop_frame A bid ip ip' ms [o1] \<and> obs_source_ordinal o1 = i"
  using assms
proof (cases rule: import_one_cases)
  case (1 x mid pid ip1)
  from 1(3) show ?thesis
  proof (cases rule: resolve_message_cases)
    case (1 m)
    then have "loop_frame A bid ip ip' [] [obs_row bid mid pid i r x]"
      using \<open>ip' = _\<close> by (auto simp: loop_frame_def same_tables_def obs_row_def index_ok_def intro: vault_inv_cong)
    then show ?thesis by (force simp: obs_row_def)
  next
    case (2 m)
    have "imported_row A m" by (simp add: 2 imported_row_def import_row_def)
    moreover have "index_ok (ip_db ip) \<Longrightarrow> index_ok (ip_db ip')" "vault_inv (ip_db ip) \<Longrightarrow> vault_inv (ip_db ip')"
      using \<open>ip' = _\<close> 2 indexed_message_ok [of "ip_db ip" E m] indexed_message_inv [of "ip_db ip" m E]
        vault_inv_cong [of "ip_db ip'" "indexed_message E m (ip_db ip)"]
      by (auto simp: index_ok_def same_tables_def)
    ultimately have "loop_frame A bid ip ip' [m] [obs_row bid mid pid i r x]"
      using \<open>ip' = _\<close> 2 by (simp add: loop_frame_def obs_row_def indexed_message_frame same_tables_cong_obs)
    then show ?thesis by (force simp: obs_row_def)
  qed
qed

lemma import_all_frame:
  "import_all E A bid parts ms ip = Inr ip' \<Longrightarrow> \<exists>new os. loop_frame A bid ip ip' new os \<and> map obs_source_ordinal os = map fst ms"
proof (induction ms arbitrary: ip)
  case Nil
  then show ?case by (auto simp: loop_frame_def intro: exI [of _ "[]"])
next
  case (Cons m ms)
  obtain i r where m: "m = (i, r)" by (cases m)
  obtain ip1 where s: "import_one E A bid parts (i, r) ip = Inr ip1" "import_all E A bid parts ms ip1 = Inr ip'"
    using Cons.prems by (auto simp: m split: sum.splits)
  obtain n1 o1 where f1: "loop_frame A bid ip ip1 n1 [o1]" "obs_source_ordinal o1 = i" using import_one_frame [OF s(1)] by blast
  obtain n2 o2 where f2: "loop_frame A bid ip1 ip' n2 o2" "map obs_source_ordinal o2 = map fst ms" using Cons.IH [OF s(2)] by blast
  have "loop_frame A bid ip ip' (n1 @ n2) (o1 # o2)"
    using f1(1) f2(1) by (auto simp: loop_frame_def intro: same_tables_trans)
  moreover have "map obs_source_ordinal (o1 # o2) = map fst (m # ms)" using f1(2) f2(2) by (simp add: m)
  ultimately show ?case by blast
qed

section \<open>The participants\<close>

lemma ins_participant_iff:
  "ins_participant rp d = Inr d' \<longleftrightarrow> d' = d\<lparr>import_participants := import_participants d @ [rp]\<rparr> \<and>
     (\<exists>b\<in>set (import_batches d). bat_id b = imp_batch_id rp) \<and> imp_id rp \<notin> imp_id ` set (import_participants d)"
  by (auto simp: ins_participant_def ins_Inr ins_Inl list_ex_iff split: sum.splits)

definition speaker :: "nat \<times> entry \<Rightarrow> pystr" where
  "speaker m = sender (en_content (snd m))"

lemma add_participants_frame:
  assumes "add_participants bid ms parts us d = Inr (parts', us', d')"
  shows "\<exists>ps. d' = d\<lparr>import_participants := import_participants d @ ps\<rparr> \<and> list_all (\<lambda>p. imp_batch_id p = bid) ps \<and>
    imp_id ` set ps \<inter> imp_id ` set (import_participants d) = {} \<and>
    fst ` set parts' = fst ` set parts \<union> speaker ` set ms \<and> snd ` set parts' = snd ` set parts \<union> imp_id ` set ps"
  using assms
proof (induction ms arbitrary: parts us d)
  case Nil
  then show ?case by (auto intro: exI [of _ "[]"])
next
  case (Cons m ms)
  show ?case
  proof (cases "speaker m \<in> fst ` set parts")
    case True
    then have "add_participants bid ms parts us d = Inr (parts', us', d')" using Cons.prems by (simp add: speaker_def)
    from Cons.IH [OF this] True show ?thesis by (auto simp: insert_absorb)
  next
    case False
    let ?p = "\<lparr>imp_id = mk_id ''imp'' (us 0), imp_batch_id = bid, imp_raw_display_name = speaker m\<rparr>"
    let ?d = "d\<lparr>import_participants := import_participants d @ [?p]\<rparr>"
    have n: "imp_id ?p \<notin> imp_id ` set (import_participants d)"
      and r: "add_participants bid ms (parts @ [(speaker m, imp_id ?p)]) (\<lambda>k. us (Suc k)) ?d = Inr (parts', us', d')"
      using Cons.prems False by (auto simp: speaker_def mint_def ins_participant_iff Let_def split: sum.splits)
    obtain ps where ps: "d' = ?d\<lparr>import_participants := import_participants ?d @ ps\<rparr>" "list_all (\<lambda>p. imp_batch_id p = bid) ps"
        "imp_id ` set ps \<inter> imp_id ` set (import_participants ?d) = {}"
        "fst ` set parts' = fst ` set (parts @ [(speaker m, imp_id ?p)]) \<union> speaker ` set ms"
        "snd ` set parts' = snd ` set (parts @ [(speaker m, imp_id ?p)]) \<union> imp_id ` set ps"
      using Cons.IH [OF r] by (elim exE conjE) (rule that)
    have "imp_id ` set (?p # ps) \<inter> imp_id ` set (import_participants d) = {}" using ps(3) n by auto
    then show ?thesis by (intro exI [of _ "?p # ps"]) (simp add: ps(1,2,4,5) insert_commute)
  qed
qed

section \<open>The whole import\<close>

definition import_effect :: "import_args \<Rightarrow> import_result \<Rightarrow> vault_db \<Rightarrow> vault_db \<Rightarrow> message list \<Rightarrow> observation list \<Rightarrow> bool" where
  "import_effect A res d d' new os \<longleftrightarrow>
     same_tables d d' \<and> messages d' = messages d @ new \<and> list_all (imported_row A) new \<and> ir_added res = length new \<and>
     message_import_observations d' = message_import_observations d @ os \<and> list_all (\<lambda>r. obs_batch_id r = ir_batch_id res) os \<and>
     ir_observations res = length os \<and>
     (\<exists>b ps s. import_batches d' = import_batches d @ [b] \<and> bat_id b = ir_batch_id res \<and> bat_id b \<notin> bat_id ` set (import_batches d) \<and>
        import_participants d' = import_participants d @ ps \<and> list_all (\<lambda>p. imp_batch_id p = ir_batch_id res) ps \<and>
        imp_id ` set ps \<inter> imp_id ` set (import_participants d) = {} \<and>
        conversation_sources d' = conversation_sources d @ [s] \<and> \<not> src_write_capable s \<and> src_import_batch_id s = Some (ir_batch_id res))"

lemma ins_source_iff_frame:
  "ins_source rs d = Inr d' \<Longrightarrow> d' = d\<lparr>conversation_sources := conversation_sources d @ [rs]\<rparr>"
  by (rule ins_import_Inr(4))

lemma import_txn_parts:
  assumes "import_txn E A rs us d = Inr (res, d')"
  obtains bid parts us2 d2 ip s where "bid = mk_id ''bat'' (us 0)" "ir_batch_id res = bid" "bid \<notin> bat_id ` set (import_batches d)"
    "add_participants bid (import_messages_of rs) [] (\<lambda>k. us (Suc k)) (d\<lparr>import_batches := import_batches d @ [batch_row A bid rs]\<rparr>) = Inr (parts, us2, d2)"
    "import_all E A bid parts (import_messages_of rs) \<lparr>ip_occ = (\<lambda>_. 0), ip_us = us2, ip_db = d2, ip_added = 0\<rparr> = Inr ip"
    "ir_added res = ip_added ip" "ir_observations res = length (import_messages_of rs)"
    "s = \<lparr>src_id = mk_id ''src'' (ip_us ip 0), src_conversation_id = ia_conversation_id A, src_source_kind = ''manual_export'',
       src_write_capable = False, src_account_id = Some (ia_account_id A), src_import_batch_id = Some bid\<rparr>"
    "ins_source s (ip_db ip) = Inr d'"
proof -
  obtain d1 parts us2 d2 ip where 1: "insert_batch A (mk_id ''bat'' (us 0)) rs d = Inr d1"
    and 2: "add_participants (mk_id ''bat'' (us 0)) (import_messages_of rs) [] (\<lambda>k. us (Suc k)) d1 = Inr (parts, us2, d2)"
    and 3: "import_all E A (mk_id ''bat'' (us 0)) parts (import_messages_of rs) \<lparr>ip_occ = (\<lambda>_. 0), ip_us = us2, ip_db = d2, ip_added = 0\<rparr> = Inr ip"
    and 4: "ir_batch_id res = mk_id ''bat'' (us 0)" "ir_added res = ip_added ip" "ir_observations res = length (import_messages_of rs)"
    and 5: "ins_source \<lparr>src_id = mk_id ''src'' (ip_us ip 0), src_conversation_id = ia_conversation_id A, src_source_kind = ''manual_export'',
       src_write_capable = False, src_account_id = Some (ia_account_id A), src_import_batch_id = Some (mk_id ''bat'' (us 0))\<rparr> (ip_db ip) = Inr d'"
    using assms by (auto simp: import_txn_def mint_def Let_def split: sum.splits prod.splits)
  from 1 have "ins_batch (batch_row A (mk_id ''bat'' (us 0)) rs) d = Inr d1" by (auto simp: insert_batch_def split: sum.splits)
  from ins_import_Inr(1) [OF this] have d1: "d1 = d\<lparr>import_batches := import_batches d @ [batch_row A (mk_id ''bat'' (us 0)) rs]\<rparr>"
    and n: "mk_id ''bat'' (us 0) \<notin> bat_id ` set (import_batches d)" by (auto simp: batch_row_def)
  show thesis by (rule that [OF refl 4(1) n 2 [unfolded d1] 3 4(2,3) refl 5])
qed

lemma import_txn_effect:
  assumes "import_txn E A rs us d = Inr (res, d')"
  shows "\<exists>new os. import_effect A res d d' new os \<and> map obs_source_ordinal os = map fst (import_messages_of rs)"
    "index_ok d \<Longrightarrow> index_ok d'" "vault_inv d \<Longrightarrow> vault_inv d'"
proof -
  from assms obtain bid parts us2 d2 ip s where "bid = mk_id ''bat'' (us 0)" and bid: "ir_batch_id res = bid" "bid \<notin> bat_id ` set (import_batches d)"
    and add: "add_participants bid (import_messages_of rs) [] (\<lambda>k. us (Suc k)) (d\<lparr>import_batches := import_batches d @ [batch_row A bid rs]\<rparr>) = Inr (parts, us2, d2)"
    and all: "import_all E A bid parts (import_messages_of rs) \<lparr>ip_occ = (\<lambda>_. 0), ip_us = us2, ip_db = d2, ip_added = 0\<rparr> = Inr ip"
    and res: "ir_added res = ip_added ip" "ir_observations res = length (import_messages_of rs)"
    and s0: "s = \<lparr>src_id = mk_id ''src'' (ip_us ip 0), src_conversation_id = ia_conversation_id A, src_source_kind = ''manual_export'',
       src_write_capable = False, src_account_id = Some (ia_account_id A), src_import_batch_id = Some bid\<rparr>"
      "ins_source s (ip_db ip) = Inr d'"
    by (rule import_txn_parts)
  have s: "src_write_capable s = False" "src_import_batch_id s = Some bid" "ins_source s (ip_db ip) = Inr d'" using s0 by simp_all
  obtain ps where ps: "d2 = d\<lparr>import_batches := import_batches d @ [batch_row A bid rs], import_participants := import_participants d @ ps\<rparr>"
    "list_all (\<lambda>p. imp_batch_id p = bid) ps" "imp_id ` set ps \<inter> imp_id ` set (import_participants d) = {}"
    using add_participants_frame [OF add] by auto
  obtain new os where f: "loop_frame A bid \<lparr>ip_occ = (\<lambda>_. 0), ip_us = us2, ip_db = d2, ip_added = 0\<rparr> ip new os"
    and o: "map obs_source_ordinal os = map fst (import_messages_of rs)"
    using import_all_frame [OF all] by blast
  have d': "d' = (ip_db ip)\<lparr>conversation_sources := conversation_sources (ip_db ip) @ [s]\<rparr>" by (rule ins_source_iff_frame [OF s(3)])
  have "length os = length (import_messages_of rs)" using arg_cong [OF o, of length] by simp
  then have "import_effect A res d d' new os"
    using f bid res s(1,2) ps by (auto simp: import_effect_def loop_frame_def d' same_tables_def batch_row_def)
  with o show "\<exists>new os. import_effect A res d d' new os \<and> map obs_source_ordinal os = map fst (import_messages_of rs)" by blast
  show "index_ok d'" if "index_ok d" using that f by (simp add: loop_frame_def d' index_ok_def ps(1))
  show "vault_inv d'" if "vault_inv d"
  proof -
    have "vault_inv d2" by (rule vault_inv_cong [OF _ _ that]) (simp_all add: ps(1) same_tables_def)
    then have "vault_inv (ip_db ip)" using f by (simp add: loop_frame_def)
    then show ?thesis by (rule vault_inv_cong [rotated 2]) (simp_all add: d' same_tables_def)
  qed
qed

section \<open>Importing the same source again\<close>

text \<open>
  A second run over the messages that a first run left, under another batch: it counts occurrences
  alike, knows a participant for every sender, and has observed under its own batch no more than the first
  had under its.
\<close>

definition follows :: "pystr \<Rightarrow> pystr \<Rightarrow> (pystr \<times> pystr) list \<Rightarrow> (pystr \<times> pystr) list \<Rightarrow> message list \<Rightarrow> importing \<Rightarrow> importing \<Rightarrow> bool" where
  "follows bid bid2 parts parts2 fin ip ip2 \<longleftrightarrow>
     ip_occ ip2 = ip_occ ip \<and> messages (ip_db ip2) = fin \<and> bid2 \<in> bat_id ` set (import_batches (ip_db ip2)) \<and>
     (\<forall>s pid. map_of parts s = Some pid \<longrightarrow> (\<exists>pid2. map_of parts2 s = Some pid2 \<and> pid2 \<in> imp_id ` set (import_participants (ip_db ip2)))) \<and>
     (\<forall>y\<in>set (message_import_observations (ip_db ip2)). obs_batch_id y = bid2 \<longrightarrow>
        (\<exists>z\<in>set (message_import_observations (ip_db ip)). obs_batch_id z = bid \<and> obs_message_id z = obs_message_id y \<and>
           obs_source_ordinal z = obs_source_ordinal y))"

lemma resolved_found:
  assumes "resolve_message E A r x ip = Inr (mid, ip')"
  shows "\<exists>m. List.find (by_fingerprint (id_import_fp x)) (messages (ip_db ip')) = Some m \<and> msg_id m = mid"
    "message_import_observations (ip_db ip') = message_import_observations (ip_db ip)" "ip_occ ip' = ip_occ ip"
  using assms
  by (cases rule: resolve_message_cases; auto simp: indexed_message_frame find_append_None by_fingerprint_def import_row_def)+

lemma import_one_follows:
  assumes s: "import_one E A bid parts (i, r) ip = Inr ip'" and fin: "fin = messages (ip_db ip') @ l"
    and f: "follows bid bid2 parts parts2 fin ip ip2"
  shows "\<exists>ip2'. import_one E A bid2 parts2 (i, r) ip2 = Inr ip2' \<and> follows bid bid2 parts parts2 fin ip' ip2' \<and>
    ip_added ip2' = ip_added ip2 \<and> ip_us ip2' = ip_us ip2 \<and> same_tables (ip_db ip2) (ip_db ip2') \<and>
    conversation_sources (ip_db ip2') = conversation_sources (ip_db ip2)"
  using s
proof (cases rule: import_one_cases)
  case (1 x mid pid ip1)
  note found = resolved_found [OF 1(3)]
  obtain m where m: "List.find (by_fingerprint (id_import_fp x)) fin = Some m" "msg_id m = mid"
    using found(1) fin 1(6) by (auto dest: find_append_Some)
  let ?ip2 = "ip2\<lparr>ip_occ := next_occ x (ip_occ ip2)\<rparr>"
  have occ: "ip_occ ip2 = ip_occ ip" "messages (ip_db ip2) = fin" using f by (simp_all add: follows_def)
  have r2: "resolve_message E A r x ?ip2 = Inr (mid, ?ip2)" using m occ(2) by (simp add: resolve_message_def)
  obtain pid2 where p2: "map_of parts2 (sender (en_content r)) = Some pid2" "pid2 \<in> imp_id ` set (import_participants (ip_db ip2))"
    using f 1(2) unfolding follows_def by blast
  let ?o = "obs_row bid2 mid pid2 i r x"
  have "m \<in> set fin" using find_SomeD [OF m(1)] by blast
  then have ok: "observation_ok (ip_db ip2) ?o"
    using f m(2) p2(2) occ(2) by (auto simp: observation_ok_def obs_row_def follows_def list_ex_iff)
  have no: "\<forall>y\<in>set (message_import_observations (ip_db ip2)). \<not> observation_clash ?o y"
  proof
    fix y assume y: "y \<in> set (message_import_observations (ip_db ip2))"
    show "\<not> observation_clash ?o y"
    proof
      assume c: "observation_clash ?o y"
      then obtain z where "z \<in> set (message_import_observations (ip_db ip))" "obs_batch_id z = bid"
          "obs_message_id z = obs_message_id y" "obs_source_ordinal z = obs_source_ordinal y"
        using f y unfolding follows_def by (auto simp: observation_clash_def obs_row_def)
      then show False using 1(5) c found(2) by (auto simp: observation_clash_def obs_row_def)
    qed
  qed
  let ?ip2' = "?ip2\<lparr>ip_db := (ip_db ip2)\<lparr>message_import_observations := message_import_observations (ip_db ip2) @ [?o]\<rparr>\<rparr>"
  have "ins_observation ?o (ip_db ip2) =
      Inr ((ip_db ip2)\<lparr>message_import_observations := message_import_observations (ip_db ip2) @ [?o]\<rparr>)"
    using ok no by (simp add: ins_observation_iff)
  then have one: "import_one E A bid2 parts2 (i, r) ip2 = Inr ?ip2'"
    using 1(1) r2 p2(1) unfolding import_one_def occ(1) next_occ_def [symmetric] obs_row_def [symmetric] by simp
  have "follows bid bid2 parts parts2 fin ip' ?ip2'"
    using f 1(6) found(2,3) by (auto simp: follows_def obs_row_def)
  with one show ?thesis by (auto simp: same_tables_def)
qed

lemma import_all_follows:
  assumes "import_all E A bid parts ms ip = Inr ip'" "fin = messages (ip_db ip')" "follows bid bid2 parts parts2 fin ip ip2"
  shows "\<exists>ip2'. import_all E A bid2 parts2 ms ip2 = Inr ip2' \<and> follows bid bid2 parts parts2 fin ip' ip2' \<and>
    ip_added ip2' = ip_added ip2 \<and> ip_us ip2' = ip_us ip2 \<and> same_tables (ip_db ip2) (ip_db ip2') \<and>
    conversation_sources (ip_db ip2') = conversation_sources (ip_db ip2)"
  using assms
proof (induction ms arbitrary: ip ip2)
  case (Cons m ms)
  obtain i r where m: "m = (i, r)" by (cases m)
  obtain ip1 where s: "import_one E A bid parts (i, r) ip = Inr ip1" "import_all E A bid parts ms ip1 = Inr ip'"
    using Cons.prems(1) by (auto simp: m split: sum.splits)
  obtain l where "messages (ip_db ip') = messages (ip_db ip1) @ l"
    using import_all_frame [OF s(2)] by (auto simp: loop_frame_def)
  then obtain ip3 where a: "import_one E A bid2 parts2 (i, r) ip2 = Inr ip3" "follows bid bid2 parts parts2 fin ip1 ip3"
    "ip_added ip3 = ip_added ip2" "ip_us ip3 = ip_us ip2" "same_tables (ip_db ip2) (ip_db ip3)"
    "conversation_sources (ip_db ip3) = conversation_sources (ip_db ip2)"
    using import_one_follows [OF s(1) _ Cons.prems(3)] Cons.prems(2) by blast
  from Cons.IH [OF s(2) Cons.prems(2) a(2)] obtain ip2' where
    b: "import_all E A bid2 parts2 ms ip3 = Inr ip2'" "follows bid bid2 parts parts2 fin ip' ip2'"
    "ip_added ip2' = ip_added ip3" "ip_us ip2' = ip_us ip3" "same_tables (ip_db ip3) (ip_db ip2')"
    "conversation_sources (ip_db ip2') = conversation_sources (ip_db ip3)" by blast
  have "import_all E A bid2 parts2 (m # ms) ip2 = Inr ip2'" using a(1) b(1) by (simp add: m)
  then show ?case using a b same_tables_trans by fastforce
qed auto

text \<open>The participants of a second batch can be added whenever their identifiers are new.\<close>

definition fresh_ids :: "ulids \<Rightarrow> vault_db \<Rightarrow> bool" where
  "fresh_ids us d \<longleftrightarrow> inj us \<and> (\<forall>k. mk_id ''bat'' (us k) \<notin> bat_id ` set (import_batches d) \<and>
     mk_id ''imp'' (us k) \<notin> imp_id ` set (import_participants d) \<and> mk_id ''src'' (us k) \<notin> src_id ` set (conversation_sources d))"

lemma fresh_ids_Suc: "fresh_ids us d \<Longrightarrow> fresh_ids (\<lambda>k. us (Suc k)) d"
  by (auto simp: fresh_ids_def inj_def)

lemma add_participants_total:
  assumes "\<exists>b\<in>set (import_batches d). bat_id b = bid" "\<forall>m\<in>set ms. bind_all [speaker m] = Inr ()" "fresh_ids us d"
  shows "\<exists>parts' us' d'. add_participants bid ms parts us d = Inr (parts', us', d') \<and> (\<exists>k. us' = (\<lambda>i. us (i + k)))"
  using assms
proof (induction ms arbitrary: parts us d)
  case (Cons m ms)
  show ?case
  proof (cases "speaker m \<in> fst ` set parts")
    case True
    then show ?thesis using Cons.IH [of d us parts] Cons.prems by (simp add: speaker_def)
  next
    case False
    let ?p = "\<lparr>imp_id = mk_id ''imp'' (us 0), imp_batch_id = bid, imp_raw_display_name = speaker m\<rparr>"
    let ?d = "d\<lparr>import_participants := import_participants d @ [?p]\<rparr>"
    have i: "ins_participant ?p d = Inr ?d" using Cons.prems(1,3) by (simp add: ins_participant_iff fresh_ids_def)
    have "us (Suc k) \<noteq> us 0" for k using Cons.prems(3) by (simp add: fresh_ids_def inj_eq)
    then have "fresh_ids (\<lambda>k. us (Suc k)) ?d" using fresh_ids_Suc [OF Cons.prems(3)] by (simp add: fresh_ids_def)
    then obtain parts' us' d' k where "add_participants bid ms (parts @ [(speaker m, mk_id ''imp'' (us 0))]) (\<lambda>k. us (Suc k)) ?d = Inr (parts', us', d')"
        "us' = (\<lambda>i. us (Suc (i + k)))"
      using Cons.IH [of ?d "\<lambda>k. us (Suc k)"] Cons.prems by force
    then show ?thesis using False i Cons.prems(2)
      by (auto simp: speaker_def mint_def Let_def intro: exI [of _ "Suc k"])
  qed
qed (auto intro: exI [of _ 0])

lemma add_participants_bound:
  "add_participants bid ms parts us d = Inr r \<Longrightarrow> \<forall>m\<in>set ms. speaker m \<in> fst ` set parts \<or> bind_all [speaker m] = Inr ()"
proof (induction ms arbitrary: parts us d)
  case (Cons m ms)
  show ?case
  proof (cases "speaker m \<in> fst ` set parts")
    case True
    then show ?thesis using Cons by (simp add: speaker_def)
  next
    case False
    then obtain d' where "bind_all [speaker m] = Inr ()"
      "add_participants bid ms (parts @ [(speaker m, mk_id ''imp'' (us 0))]) (\<lambda>k. us (Suc k)) d' = Inr r"
      using Cons.prems by (auto simp: speaker_def mint_def Let_def split: sum.splits)
    then show ?thesis using Cons.IH by fastforce
  qed
qed simp

section \<open>The provenance invariant\<close>

text \<open>Observations name rows that exist, and a message known only from exports is observed by some batch.\<close>

definition provenance :: "vault_db \<Rightarrow> bool" where
  "provenance d \<longleftrightarrow>
     (\<forall>r\<in>set (message_import_observations d). obs_batch_id r \<in> bat_id ` set (import_batches d) \<and>
        obs_message_id r \<in> msg_id ` set (messages d) \<and> set_option (obs_participant_id r) \<subseteq> imp_id ` set (import_participants d)) \<and>
     (\<forall>m\<in>set (messages d). msg_import_fingerprint m \<noteq> None \<and> msg_wamid m = None \<longrightarrow>
        msg_id m \<in> obs_message_id ` set (message_import_observations d)) \<and>
     (\<forall>p\<in>set (import_participants d). imp_batch_id p \<in> bat_id ` set (import_batches d)) \<and>
     (\<forall>r\<in>set (conversation_sources d). set_option (src_import_batch_id r) \<subseteq> bat_id ` set (import_batches d))"

lemma provenance_empty: "provenance empty_vault"
  by (simp add: provenance_def empty_vault_def)

lemma observation_ok_sets:
  "observation_ok d r \<Longrightarrow> obs_batch_id r \<in> bat_id ` set (import_batches d) \<and> obs_message_id r \<in> msg_id ` set (messages d) \<and>
     set_option (obs_participant_id r) \<subseteq> imp_id ` set (import_participants d)"
  unfolding observation_ok_def list_ex_iff by (force split: option.splits)

lemma import_one_provenance:
  assumes "import_one E A bid parts (i, r) ip = Inr ip'" "provenance (ip_db ip)"
  shows "provenance (ip_db ip')"
  using assms(1)
proof (cases rule: import_one_cases)
  case (1 x mid pid ip1)
  let ?o = "obs_row bid mid pid i r x"
  have o: "obs_message_id ?o = mid" by (simp add: obs_row_def)
  from 1(3) show ?thesis
  proof (cases rule: resolve_message_cases)
    case a: (1 m)
    then show ?thesis using assms(2) observation_ok_sets [OF 1(4)] by (auto simp: provenance_def 1(6))
  next
    case b: (2 m)
    have "msg_id m = mid" using b(2) by (simp add: import_row_def)
    then show ?thesis using assms(2) observation_ok_sets [OF 1(4)] b(6) o
      by (auto simp: provenance_def 1(6) indexed_message_frame)
  qed
qed

lemma import_all_provenance:
  "import_all E A bid parts ms ip = Inr ip' \<Longrightarrow> provenance (ip_db ip) \<Longrightarrow> provenance (ip_db ip')"
proof (induction ms arbitrary: ip)
  case (Cons m ms)
  then show ?case using import_one_provenance [of E A bid parts "fst m" "snd m" ip] by (auto split: sum.splits)
qed simp

lemma provenance_grow:
  assumes "provenance d" "list_all (\<lambda>p. imp_batch_id p = bat_id b) ps"
  shows "provenance (d\<lparr>import_batches := import_batches d @ [b], import_participants := import_participants d @ ps\<rparr>)"
  using assms unfolding provenance_def list_all_iff by (simp add: image_Un) blast

lemma import_txn_provenance:
  assumes "import_txn E A rs us d = Inr (res, d')" "provenance d"
  shows "provenance d'"
  using assms(1)
proof (cases rule: import_txn_parts)
  case (1 bid parts us2 d2 ip s)
  obtain ps where ps: "d2 = d\<lparr>import_batches := import_batches d @ [batch_row A bid rs], import_participants := import_participants d @ ps\<rparr>"
    "list_all (\<lambda>p. imp_batch_id p = bid) ps"
    using add_participants_frame [OF 1(4)] by auto
  have "provenance d2" unfolding ps(1) by (rule provenance_grow [OF assms(2)]) (use ps(2) in \<open>simp add: batch_row_def\<close>)
  then have p: "provenance (ip_db ip)" using import_all_provenance [OF 1(5)] by simp
  have "import_batches (ip_db ip) = import_batches d2" using import_all_frame [OF 1(5)] by (auto simp: loop_frame_def)
  then have "bid \<in> bat_id ` set (import_batches (ip_db ip))" by (simp add: ps(1) batch_row_def)
  with p show ?thesis by (auto simp: provenance_def ins_source_iff_frame [OF 1(9)] 1(8))
qed

section \<open>Re-import\<close>

lemma ins_source_iff:
  "ins_source s d = Inr d' \<longleftrightarrow> d' = d\<lparr>conversation_sources := conversation_sources d @ [s]\<rparr> \<and>
     src_conversation_id s \<in> cnv_id ` set (conversations d) \<and> set_option (src_account_id s) \<subseteq> acc_id ` set (accounts d) \<and>
     src_id s \<notin> src_id ` set (conversation_sources d)"
  unfolding ins_source_def by (cases "src_account_id s") (auto simp: ins_Inr ins_Inl list_ex_iff image_iff split: sum.splits; metis)+

lemma ins_source_again:
  assumes "ins_source s d = Inr d'" "same_tables d e" "src_id s' \<notin> src_id ` set (conversation_sources e)"
    "src_conversation_id s' = src_conversation_id s" "src_account_id s' = src_account_id s"
  shows "ins_source s' e = Inr (e\<lparr>conversation_sources := conversation_sources e @ [s']\<rparr>)"
  using assms by (simp add: ins_source_iff same_tables_def)

lemma import_txn_again:
  assumes first: "import_txn E A rs us d = Inr (res, d1)" and prov: "provenance d" and fresh: "fresh_ids us2 d1"
  shows "\<exists>res2 d2. import_txn E A rs us2 d1 = Inr (res2, d2) \<and> ir_added res2 = 0 \<and> ir_observations res2 = ir_observations res \<and>
    messages d2 = messages d1"
  using first
proof (cases rule: import_txn_parts)
  case (1 bid parts usx dx ip s)
  let ?ms = "import_messages_of rs" and ?bid = "mk_id ''bat'' (us2 0)"
  let ?b = "batch_row A ?bid rs" and ?start = "\<lparr>ip_occ = (\<lambda>_. 0), ip_us = usx, ip_db = dx, ip_added = 0\<rparr>"
  note d1 = ins_source_iff_frame [OF 1(9)]
  have b: "insert_batch A ?bid rs d1 = Inr (d1\<lparr>import_batches := import_batches d1 @ [?b]\<rparr>)"
    using first fresh by (auto simp: import_txn_def mint_def insert_batch_def ins_batch_def ins_def batch_row_def fresh_ids_def list_ex_iff
        Let_def split: sum.splits if_splits)
  let ?d = "d1\<lparr>import_batches := import_batches d1 @ [?b]\<rparr>"
  have "fresh_ids (\<lambda>k. us2 (Suc k)) ?d"
  proof -
    have "us2 (Suc k) \<noteq> us2 0" for k using fresh by (simp add: fresh_ids_def inj_eq)
    then show ?thesis using fresh_ids_Suc [OF fresh] by (simp add: fresh_ids_def batch_row_def)
  qed
  moreover have "\<forall>m\<in>set ?ms. bind_all [speaker m] = Inr ()" using add_participants_bound [OF 1(4)] by simp
  ultimately obtain parts2 usy dy k where
    add: "add_participants ?bid ?ms [] (\<lambda>k. us2 (Suc k)) ?d = Inr (parts2, usy, dy)" and usy: "usy = (\<lambda>i. us2 (Suc (i + k)))"
    using add_participants_total [of ?d ?bid ?ms "\<lambda>k. us2 (Suc k)" "[]"] by (force simp: batch_row_def)
  obtain ps where dy: "dy = ?d\<lparr>import_participants := import_participants d1 @ ps\<rparr>"
    and p2: "fst ` set parts2 = speaker ` set ?ms" "snd ` set parts2 = imp_id ` set ps"
    using add_participants_frame [OF add] by auto
  have p1: "fst ` set parts = speaker ` set ?ms" using add_participants_frame [OF 1(4)] by auto
  let ?start2 = "\<lparr>ip_occ = (\<lambda>_. 0), ip_us = usy, ip_db = dy, ip_added = 0\<rparr>"
  have "follows bid ?bid parts parts2 (messages (ip_db ip)) ?start ?start2"
  proof -
    have "\<exists>pid2. map_of parts2 x = Some pid2 \<and> pid2 \<in> imp_id ` set (import_participants dy)" if "map_of parts x = Some pid" for x pid
    proof -
      have "x \<in> fst ` set parts2" using that p1 p2(1) by (metis map_of_SomeD fst_conv imageI)
      then obtain pid2 where "map_of parts2 x = Some pid2" by (metis map_of_eq_None_iff not_Some_eq)
      moreover have "pid2 \<in> snd ` set parts2" using map_of_SomeD [OF calculation] by force
      ultimately show ?thesis unfolding dy p2(2) by auto
    qed
    moreover have "obs_batch_id y \<noteq> ?bid" if "y \<in> set (message_import_observations dy)" for y
    proof -
      have "obs_batch_id y \<in> bat_id ` set (import_batches d1)"
        using that import_txn_provenance [OF first prov] unfolding dy provenance_def by simp
      moreover have "?bid \<notin> bat_id ` set (import_batches d1)" using fresh unfolding fresh_ids_def by blast
      ultimately show ?thesis by metis
    qed
    ultimately show ?thesis by (auto simp: follows_def dy batch_row_def d1)
  qed
  from import_all_follows [OF 1(5) refl this] obtain ip2 where
    all: "import_all E A ?bid parts2 ?ms ?start2 = Inr ip2" "follows bid ?bid parts parts2 (messages (ip_db ip)) ip ip2"
    "ip_added ip2 = 0" "ip_us ip2 = usy" "same_tables dy (ip_db ip2)" "conversation_sources (ip_db ip2) = conversation_sources dy" by auto
  let ?s = "s\<lparr>src_id := mk_id ''src'' (ip_us ip2 0), src_import_batch_id := Some ?bid\<rparr>"
  have tab: "same_tables (ip_db ip) (ip_db ip2)" using all(5) by (simp add: same_tables_def dy d1)
  have "src_id ?s \<notin> src_id ` set (conversation_sources (ip_db ip2))" using fresh unfolding all(6) all(4) usy dy by (simp add: fresh_ids_def)
  from ins_source_again [OF 1(9) tab this] have "ins_source ?s (ip_db ip2) = Inr ((ip_db ip2)\<lparr>conversation_sources := conversation_sources (ip_db ip2) @ [?s]\<rparr>)" by simp
  moreover have "bind_all [ia_conversation_id A, ia_account_id A] = Inr ()"
    using first by (auto simp: import_txn_def mint_def Let_def split: sum.splits prod.splits)
  ultimately have "import_txn E A rs us2 d1 =
      Inr (\<lparr>ir_batch_id = ?bid, ir_added = 0, ir_observations = length ?ms, ir_participants = length (senders ?ms)\<rparr>,
           (ip_db ip2)\<lparr>conversation_sources := conversation_sources (ip_db ip2) @ [?s]\<rparr>)"
    using b add all(1,3) 1(8) by (simp add: import_txn_def mint_def Let_def)
  then show ?thesis using all(2) 1(7) by (simp add: follows_def d1)
qed

lemma import_batch_Inr:
  assumes "import_batch E A us c = (Inr res, c')"
  obtains rs d where "import_gates E A = Inr rs" "import_txn E A rs us (work c) = Inr (res, d)" "c' = commit (c\<lparr>work := d\<rparr>)"
  using assms by (auto simp: import_batch_def split: sum.splits)

theorem reimport_adds_nothing:
  assumes "import_batch E A us c = (Inr res, c1)" "provenance (work c)" "fresh_ids us2 (work c1)"
  shows "\<exists>res2 c2. import_batch E A us2 c1 = (Inr res2, c2) \<and> ir_added res2 = 0 \<and> ir_observations res2 = ir_observations res \<and>
    messages (work c2) = messages (work c1)"
  using assms(1)
proof (cases rule: import_batch_Inr)
  case (1 rs d)
  then have "work c1 = d" by simp
  then obtain res2 d2 where "import_txn E A rs us2 (work c1) = Inr (res2, d2)" "ir_added res2 = 0" "ir_observations res2 = ir_observations res"
      "messages d2 = messages (work c1)"
    using import_txn_again [OF 1(2) assms(2)] assms(3) by blast
  then show ?thesis using 1(1) by (simp add: import_batch_def)
qed

section \<open>Undo\<close>

lemma undo_message_kept:
  assumes "mid \<in> obs_message_id ` set (message_import_observations d) \<or> (\<exists>m. List.find (\<lambda>m. msg_id m = mid) (messages d) = Some m \<and> msg_wamid m \<noteq> None)"
  shows "undo_message mid (n, d) = (n, d)"
  using assms by (auto simp: undo_message_def rowcount_zero)

lemma undo_count:
  "distinct (map msg_id new) \<Longrightarrow> m \<in> set new \<Longrightarrow> msg_id m \<notin> set mids \<Longrightarrow>
   length (filter (\<lambda>x. msg_id x = msg_id m \<or> msg_id x \<in> set mids) new) =
   Suc (length (filter (\<lambda>x. msg_id x \<in> set mids) (filter (\<lambda>x. msg_id x \<noteq> msg_id m) new)))"
proof (induction new)
  case (Cons a new)
  show ?case
  proof (cases "a = m")
    case True
    then have "\<forall>x\<in>set new. msg_id x \<noteq> msg_id m" using Cons.prems(1) by (auto simp: image_iff)
    then show ?thesis using True by (auto simp: filter_filter intro!: arg_cong [of _ _ length] filter_cong)
  next
    case False
    then show ?thesis using Cons by (auto simp: image_iff)
  qed
qed simp

text \<open>
  Undoing over the observed messages \<open>mids\<close>: those of \<open>old\<close> stay, being observed elsewhere or known from the
  provider; those of \<open>new\<close> go.
\<close>

lemma undo_messages:
  assumes "distinct (map msg_id (old @ new))" "set (map msg_id new) \<inter> obs_message_id ` set obs = {}" "\<forall>m\<in>set new. msg_wamid m = None"
    "\<forall>mid\<in>set mids. mid \<in> msg_id ` set new \<or> (\<exists>m\<in>set old. msg_id m = mid \<and> (mid \<in> obs_message_id ` set obs \<or> msg_wamid m \<noteq> None))"
    "distinct mids" "messages d = old @ new" "message_import_observations d = obs"
  shows "fold undo_message mids (n, d) =
    (n + length (filter (\<lambda>m. msg_id m \<in> set mids) new), d\<lparr>messages := old @ filter (\<lambda>m. msg_id m \<notin> set mids) new\<rparr>)"
  using assms
proof (induction mids arbitrary: n new d)
  case Nil
  show ?case by (simp add: Nil.prems(6) [symmetric])
next
  case (Cons mid mids)
  show ?case
  proof (cases "mid \<in> msg_id ` set new")
    case True
    then obtain m where m: "m \<in> set new" "msg_id m = mid" by auto
    have dm: "distinct (map msg_id (messages d))" using Cons.prems(1,6) by simp
    have fm: "List.find (\<lambda>m. msg_id m = mid) (messages d) = Some m"
      using find_distinct [OF dm, of m] m Cons.prems(6) by auto
    have no: "mid \<notin> obs_message_id ` set obs" using Cons.prems(2) m by auto
    have nold: "mid \<notin> msg_id ` set old" using Cons.prems(1) m by auto
    let ?new = "filter (\<lambda>m. msg_id m \<noteq> mid) new"
    let ?d = "d\<lparr>messages := old @ ?new\<rparr>"
    have old: "filter (\<lambda>m. msg_id m \<noteq> mid) old = old" using nold by (auto simp: filter_id_conv)
    have u: "undo_message mid (n, d) = (Suc n, ?d)"
      using fm no Cons.prems(3,6,7) m(1) old by (auto simp: undo_message_def rowcount_zero del_def)
    have "fold undo_message mids (Suc n, ?d) =
        (Suc n + length (filter (\<lambda>m. msg_id m \<in> set mids) ?new), ?d\<lparr>messages := old @ filter (\<lambda>m. msg_id m \<notin> set mids) ?new\<rparr>)"
    proof (rule Cons.IH)
      show "distinct (map msg_id (old @ ?new))" using Cons.prems(1) by (auto simp: distinct_map_filter)
      show "set (map msg_id ?new) \<inter> obs_message_id ` set obs = {}" using Cons.prems(2) by auto
      show "\<forall>x\<in>set mids. x \<in> msg_id ` set ?new \<or> (\<exists>m\<in>set old. msg_id m = x \<and> (x \<in> obs_message_id ` set obs \<or> msg_wamid m \<noteq> None))"
      proof
        fix x assume x: "x \<in> set mids"
        then have "x \<noteq> mid" using Cons.prems(5) by auto
        then have "x \<in> msg_id ` set new \<Longrightarrow> x \<in> msg_id ` set ?new" by auto
        then show "x \<in> msg_id ` set ?new \<or> (\<exists>m\<in>set old. msg_id m = x \<and> (x \<in> obs_message_id ` set obs \<or> msg_wamid m \<noteq> None))"
          using Cons.prems(4) x by (meson list.set_intros(2))
      qed
    qed (use Cons.prems(3,5,7) in simp_all)
    moreover have "length (filter (\<lambda>m. msg_id m \<in> set (mid # mids)) new) = Suc (length (filter (\<lambda>m. msg_id m \<in> set mids) ?new))"
      using undo_count [OF _ m(1)] Cons.prems(1,5) m(2) by simp
    ultimately show ?thesis by (simp add: u filter_filter conj_commute insert_iff)
  next
    case False
    then obtain m where m: "m \<in> set old" "msg_id m = mid" "mid \<in> obs_message_id ` set obs \<or> msg_wamid m \<noteq> None"
      using Cons.prems(4) by auto
    have dm: "distinct (map msg_id (messages d))" using Cons.prems(1,6) by simp
    have "List.find (\<lambda>m. msg_id m = mid) (messages d) = Some m"
      using find_distinct [OF dm, of m] m Cons.prems(6) by auto
    then have u: "undo_message mid (n, d) = (n, d)" using m(3) Cons.prems(7) by (intro undo_message_kept) auto
    have "fold undo_message mids (n, d) =
        (n + length (filter (\<lambda>m. msg_id m \<in> set mids) new), d\<lparr>messages := old @ filter (\<lambda>m. msg_id m \<notin> set mids) new\<rparr>)"
      by (rule Cons.IH [OF Cons.prems(1-3)]) (use Cons.prems(4-7) in simp_all)
    moreover have "filter (\<lambda>m. msg_id m \<in> set (mid # mids)) new = filter (\<lambda>m. msg_id m \<in> set mids) new"
      "filter (\<lambda>m. msg_id m \<notin> set (mid # mids)) new = filter (\<lambda>m. msg_id m \<notin> set mids) new"
      using False by (auto intro: filter_cong)
    ultimately show ?thesis by (simp add: u)
  qed
qed

text \<open>The observations of the running batch are of distinct messages, each with a fingerprint.\<close>

definition observed_ok :: "pystr \<Rightarrow> vault_db \<Rightarrow> bool" where
  "observed_ok bid d \<longleftrightarrow>
     distinct (map obs_message_id (filter (\<lambda>r. obs_batch_id r = bid) (message_import_observations d))) \<and>
     (\<forall>r\<in>set (message_import_observations d). obs_batch_id r = bid \<longrightarrow>
        (\<exists>m\<in>set (messages d). msg_id m = obs_message_id r \<and> msg_import_fingerprint m \<noteq> None))"

lemma import_one_observed:
  assumes "import_one E A bid parts (i, r) ip = Inr ip'" "observed_ok bid (ip_db ip)"
  shows "observed_ok bid (ip_db ip')"
  using assms(1)
proof (cases rule: import_one_cases)
  case (1 x mid pid ip1)
  note f = resolved_found [OF 1(3)]
  obtain m where m: "m \<in> set (messages (ip_db ip1))" "msg_id m = mid" "msg_import_fingerprint m \<noteq> None"
    using f(1) find_SomeD by (fastforce simp: by_fingerprint_def)
  have sub: "set (messages (ip_db ip)) \<subseteq> set (messages (ip_db ip1))"
    using 1(3) by (cases rule: resolve_message_cases) (auto simp: indexed_message_frame)
  have "mid \<notin> obs_message_id ` {r \<in> set (message_import_observations (ip_db ip)). obs_batch_id r = bid}"
    using 1(5) f(2) by (auto simp: observation_clash_def obs_row_def)
  moreover have "\<forall>y\<in>set (message_import_observations (ip_db ip)). obs_batch_id y = bid \<longrightarrow>
      (\<exists>m\<in>set (messages (ip_db ip1)). msg_id m = obs_message_id y \<and> msg_import_fingerprint m \<noteq> None)"
    using assms(2) sub unfolding observed_ok_def by blast
  ultimately show ?thesis using assms(2) m f(2) unfolding 1(6) observed_ok_def by (auto simp: obs_row_def)
qed

lemma import_all_observed:
  "import_all E A bid parts ms ip = Inr ip' \<Longrightarrow> observed_ok bid (ip_db ip) \<Longrightarrow> observed_ok bid (ip_db ip')"
proof (induction ms arbitrary: ip)
  case (Cons m ms)
  then show ?case using import_one_observed [of E A bid parts "fst m" "snd m" ip] by (auto split: sum.splits)
qed simp

lemma import_txn_observed:
  assumes "import_txn E A rs us d = Inr (res, d')" "provenance d"
  shows "observed_ok (ir_batch_id res) d'"
  using assms(1)
proof (cases rule: import_txn_parts)
  case (1 bid parts us2 d2 ip s)
  obtain ps where ps: "d2 = d\<lparr>import_batches := import_batches d @ [batch_row A bid rs], import_participants := import_participants d @ ps\<rparr>"
    using add_participants_frame [OF 1(4)] by auto
  have "\<forall>r\<in>set (message_import_observations d). obs_batch_id r \<noteq> bid" using assms(2) 1(3) unfolding provenance_def by metis
  then have "observed_ok bid d2" by (simp add: observed_ok_def ps cong: filter_cong)
  then have "observed_ok bid (ip_db ip)" using import_all_observed [OF 1(5)] by simp
  then show ?thesis by (simp add: observed_ok_def ins_source_iff_frame [OF 1(9)] 1(2))
qed

lemma del_append_all: "\<forall>x\<in>set a. \<not> P x \<Longrightarrow> \<forall>x\<in>set b. P x \<Longrightarrow> del P (a @ b) = a"
  by (simp add: del_def)

lemma undo_after_import:
  assumes txn: "import_txn E A rs us d = Inr (res, d')" and prov: "provenance d" and inv: "vault_inv d"
  shows "\<exists>ur d''. undo_txn (ir_batch_id res) now d' = Inr (ur, d'') \<and> same_tables d d'' \<and> messages d'' = messages d \<and>
    message_import_observations d'' = message_import_observations d \<and> import_participants d'' = import_participants d \<and>
    conversation_sources d'' = conversation_sources d \<and> ur_messages_deleted ur = ir_added res \<and>
    ur_observations_deleted ur = ir_observations res"
proof -
  let ?b = "ir_batch_id res"
  obtain new os b ps s where e: "same_tables d d'" "messages d' = messages d @ new" "list_all (imported_row A) new" "ir_added res = length new"
      "message_import_observations d' = message_import_observations d @ os" "list_all (\<lambda>r. obs_batch_id r = ?b) os" "ir_observations res = length os"
      "?b \<notin> bat_id ` set (import_batches d)" "import_participants d' = import_participants d @ ps"
      "list_all (\<lambda>p. imp_batch_id p = ?b) ps" "imp_id ` set ps \<inter> imp_id ` set (import_participants d) = {}"
      "conversation_sources d' = conversation_sources d @ [s]" "src_import_batch_id s = Some ?b"
    using import_txn_effect(1) [OF txn] unfolding import_effect_def by metis
  have others: "\<forall>r\<in>set (message_import_observations d). obs_batch_id r \<noteq> ?b" "\<forall>p\<in>set (import_participants d). imp_batch_id p \<noteq> ?b"
      "\<forall>r\<in>set (conversation_sources d). src_import_batch_id r \<noteq> Some ?b"
    using prov e(8) unfolding provenance_def by (metis, metis, auto)
  note prov' = import_txn_provenance [OF txn prov] and obs' = import_txn_observed [OF txn prov]
  have dist: "distinct (map msg_id (messages d @ new))" using import_txn_effect(3) [OF txn inv] e(2) by (simp add: vault_inv_def)
  have os: "filter (\<lambda>r. obs_batch_id r = ?b) (message_import_observations d') = os"
    using others(1) e(5,6) by (simp add: list_all_iff)
  let ?mids = "map obs_message_id os"
  have apart: "set (map msg_id new) \<inter> obs_message_id ` set (message_import_observations d) = {}"
    using prov dist unfolding provenance_def by fastforce
  have seen: "\<forall>m\<in>set new. msg_id m \<in> set ?mids"
  proof
    fix m assume m: "m \<in> set new"
    then have "msg_id m \<in> obs_message_id ` set (message_import_observations d')"
      using prov' e(2,3) by (auto simp: provenance_def imported_row_def list_all_iff)
    moreover have "msg_id m \<notin> obs_message_id ` set (message_import_observations d)" using apart m by auto
    ultimately show "msg_id m \<in> set ?mids" by (auto simp: e(5))
  qed
  have known: "\<forall>mid\<in>set ?mids. mid \<in> msg_id ` set new \<or>
      (\<exists>m\<in>set (messages d). msg_id m = mid \<and> (mid \<in> obs_message_id ` set (message_import_observations d) \<or> msg_wamid m \<noteq> None))"
  proof
    fix mid assume "mid \<in> set ?mids"
    then obtain r where r: "r \<in> set os" "obs_message_id r = mid" by auto
    then have "r \<in> set (message_import_observations d')" "obs_batch_id r = ?b" using e(5,6) by (simp_all add: list_all_iff)
    then obtain m where m: "m \<in> set (messages d @ new)" "msg_id m = mid" "msg_import_fingerprint m \<noteq> None"
      using obs' r(2) e(2) unfolding observed_ok_def by metis
    then show "mid \<in> msg_id ` set new \<or>
        (\<exists>m\<in>set (messages d). msg_id m = mid \<and> (mid \<in> obs_message_id ` set (message_import_observations d) \<or> msg_wamid m \<noteq> None))"
      using prov unfolding provenance_def by (metis Un_iff imageI set_append)
  qed
  let ?d1 = "d'\<lparr>message_import_observations := message_import_observations d\<rparr>"
  have "distinct ?mids" using obs' os by (simp add: observed_ok_def)
  moreover have "\<forall>m\<in>set new. msg_wamid m = None" using e(3) by (simp add: list_all_iff imported_row_def)
  ultimately have "fold undo_message ?mids (0, ?d1) =
      (0 + length (filter (\<lambda>m. msg_id m \<in> set ?mids) new), ?d1\<lparr>messages := messages d @ filter (\<lambda>m. msg_id m \<notin> set ?mids) new\<rparr>)"
    by (intro undo_messages [OF dist apart _ known]) (simp_all add: e(2))
  moreover have "filter (\<lambda>m. msg_id m \<in> set ?mids) new = new" "filter (\<lambda>m. msg_id m \<notin> set ?mids) new = []"
    using seen by (auto simp: filter_id_conv filter_empty_conv)
  ultimately have fold: "fold undo_message ?mids (0, ?d1) = (length new, ?d1\<lparr>messages := messages d\<rparr>)" by simp
  have "\<not> list_ex (\<lambda>r. list_ex (\<lambda>p. imp_batch_id p = ?b \<and> obs_participant_id r = Some (imp_id p)) (import_participants d'))
      (message_import_observations d)"
  proof -
    have "imp_batch_id p \<noteq> ?b" if "r \<in> set (message_import_observations d)" "p \<in> set (import_participants d')" "obs_participant_id r = Some (imp_id p)" for r p
    proof -
      have "set_option (obs_participant_id r) \<subseteq> imp_id ` set (import_participants d)" using prov that(1) unfolding provenance_def by blast
      then have "imp_id p \<in> imp_id ` set (import_participants d)" using that(3) by simp
      then have "p \<notin> set ps" using e(11) by blast
      then show ?thesis using that(2) others(2) by (auto simp: e(9))
    qed
    then show ?thesis unfolding list_ex_iff by blast
  qed
  then have drop: "drop_participants ?b (?d1\<lparr>messages := messages d\<rparr>) = Inr (?d1\<lparr>messages := messages d, import_participants := import_participants d\<rparr>)"
    using others(2) e(10) by (simp add: drop_participants_def e(9) list_all_iff del_append_all)
  have "del (\<lambda>r. obs_batch_id r = ?b) (message_import_observations d') = message_import_observations d"
    "del (\<lambda>r. src_import_batch_id r = Some ?b) (conversation_sources d') = conversation_sources d"
    using others e(6,13) by (simp_all add: e(5,12) del_append_all list_all_iff)
  then show ?thesis using e(1,4,7) fold drop by (simp add: undo_txn_def os Let_def same_tables_def)
qed

theorem undo_restores:
  assumes "import_batch E A us c = (Inr res, c1)" "provenance (work c)" "vault_inv (work c)"
  shows "\<exists>ur c2. undo_batch (ir_batch_id res) now c1 = (Inr ur, c2) \<and> clean c2 \<and> same_tables (work c) (work c2) \<and>
    messages (work c2) = messages (work c) \<and> message_import_observations (work c2) = message_import_observations (work c) \<and>
    import_participants (work c2) = import_participants (work c) \<and> conversation_sources (work c2) = conversation_sources (work c) \<and>
    ur_messages_deleted ur = ir_added res \<and> ur_observations_deleted ur = ir_observations res"
  using assms(1)
proof (cases rule: import_batch_Inr)
  case (1 rs d)
  then have d: "work c1 = d" by simp
  obtain ur d'' where "undo_txn (ir_batch_id res) now d = Inr (ur, d'')" "same_tables (work c) d''" "messages d'' = messages (work c)"
      "message_import_observations d'' = message_import_observations (work c)" "import_participants d'' = import_participants (work c)"
      "conversation_sources d'' = conversation_sources (work c)" "ur_messages_deleted ur = ir_added res" "ur_observations_deleted ur = ir_observations res"
    using undo_after_import [OF 1(2) assms(2,3), of now] by blast
  then show ?thesis by (simp add: undo_batch_def d clean_def)
qed

section \<open>All or nothing\<close>

theorem import_batch_atomic:
  "case import_batch E A us c of
     (Inl e, c') \<Rightarrow> c' = c \<or> c' = rollback c
   | (Inr res, c') \<Rightarrow> disk c' = work c' \<and> (\<exists>new os. import_effect A res (work c) (work c') new os)"
proof (cases "import_batch E A us c")
  case (Pair r c')
  show ?thesis
  proof (cases r)
    case (Inl e)
    then show ?thesis using Pair by (auto simp: import_batch_def split: sum.splits)
  next
    case (Inr res)
    then obtain rs d where "import_txn E A rs us (work c) = Inr (res, d)" "c' = commit (c\<lparr>work := d\<rparr>)"
      using Pair by (auto elim: import_batch_Inr)
    then show ?thesis using Pair Inr import_txn_effect(1) by fastforce
  qed
qed

lemma import_batch_keeps:
  assumes "import_batch E A us c = (Inr res, c')"
  shows "vault_inv (work c) \<Longrightarrow> vault_inv (work c')" "index_ok (work c) \<Longrightarrow> index_ok (work c')" "provenance (work c) \<Longrightarrow> provenance (work c')"
  using assms import_txn_effect(2,3) import_txn_provenance by (auto elim!: import_batch_Inr)

section \<open>Fingerprints tell records apart\<close>

lemma to_bytes_signed_inject:
  assumes "to_bytes_signed 8 i = Inr b" "to_bytes_signed 8 j = Inr b"
  shows "i = j"
proof -
  let ?m = "2 ^ 64 :: int"
  have r: "- (2 ^ 63) \<le> i" "i < 2 ^ 63" "- (2 ^ 63) \<le> j" "j < 2 ^ 63" "be_bytes 8 (nat (i mod ?m)) = be_bytes 8 (nat (j mod ?m))"
    using assms by (auto simp: to_bytes_signed_def split: if_splits)
  have "nat (k mod ?m) < 256 ^ 8" for k using pos_mod_bound [of ?m k] by simp
  then have "nat (i mod ?m) = nat (j mod ?m)" using r(5) be_bytes_inject by blast
  then have "i mod ?m = j mod ?m" by (simp add: eq_nat_nat_iff)
  then have "?m dvd i - j" by (simp add: mod_eq_dvd_iff)
  moreover have "\<bar>i - j\<bar> < ?m" using r by simp
  ultimately show ?thesis using zdvd_imp_le [of ?m "\<bar>i - j\<bar>"] by force
qed

theorem import_chunks_inject:
  assumes "import_chunks v c b s t f n = Inr x" "import_chunks v' c' b' s' t' f' n' = Inr x"
  shows "(v, c, b, s, t, f, n) = (v', c', b', s', t', f', n')"
proof -
  from assms(1) obtain v1 c1 b1 l n1 where 1: "to_bytes_be 4 v = Inr v1" "utf8 c = Inr c1" "to_bytes_signed 8 b = Inr b1"
      "utf8_all [s, t, f] = Inr l" "to_bytes_be 4 (int n) = Inr n1" "x = [v1, c1, b1] @ l @ [n1]"
    by (auto simp: import_chunks_def simp del: utf8_all.simps split: sum.splits)
  from assms(2) obtain v2 c2 b2 l2 n2 where 2: "to_bytes_be 4 v' = Inr v2" "utf8 c' = Inr c2" "to_bytes_signed 8 b' = Inr b2"
      "utf8_all [s', t', f'] = Inr l2" "to_bytes_be 4 (int n') = Inr n2" "x = [v2, c2, b2] @ l2 @ [n2]"
    by (auto simp: import_chunks_def simp del: utf8_all.simps split: sum.splits)
  from 1(6) 2(6) have eq: "v1 = v2" "c1 = c2" "b1 = b2" "l = l2" "n1 = n2" by simp_all
  have "[s, t, f] = [s', t', f']" using 1(4) 2(4) eq(4) utf8_all_inject by blast
  moreover have "v = v'" "int n = int n'" using 1(1,5) 2(1,5) eq(1,5) to_bytes_be_inject by blast+
  moreover have "b = b'" using 1(3) 2(3) eq(3) to_bytes_signed_inject by blast
  moreover have "c = c'" using utf8_roundtrip [OF 1(2)] utf8_roundtrip [OF 2(2)] eq(2) by simp
  ultimately show ?thesis by simp
qed

text \<open>Equal fingerprints are of equal records, or exhibit a collision of the hash.\<close>

theorem import_fingerprint_inject:
  assumes "import_fingerprint C v c b s t f n = Inr fp" "import_fingerprint C v' c' b' s' t' f' n' = Inr fp"
  shows "(v, c, b, s, t, f, n) = (v', c', b', s', t', f', n') \<or> (\<exists>p q. p \<noteq> q \<and> sha256 C p = sha256 C q)"
proof -
  let ?tag = "ascii ''WHATSVAULT-IMPORT-FP-V1'' @ [10]"
  obtain x y where 1: "import_chunks v c b s t f n = Inr x" "lp_all x = Inr y" "fp = hex_of (sha256 C (?tag @ y))"
    using assms(1) by (auto simp: import_fingerprint_def split: sum.splits)
  obtain x' y' where 2: "import_chunks v' c' b' s' t' f' n' = Inr x'" "lp_all x' = Inr y'" "fp = hex_of (sha256 C (?tag @ y'))"
    using assms(2) by (auto simp: import_fingerprint_def split: sum.splits)
  have h: "sha256 C (?tag @ y) = sha256 C (?tag @ y')" using 1(3) 2(3) by (simp add: hex_of_inject)
  show ?thesis
  proof (cases "y = y'")
    case True
    then have "x = x'" using 1(2) 2(2) lp_all_inject by blast
    then show ?thesis using import_chunks_inject 1(1) 2(1) by blast
  next
    case False
    then have "?tag @ y \<noteq> ?tag @ y'" by simp
    then show ?thesis by (intro disjI2 exI [of _ "?tag @ y"] exI [of _ "?tag @ y'"] conjI h)
  qed
qed

end
