(* ===== verification/Window_Safety.thy ===== *)
theory Window_Safety
  imports Send_Safety Doctor Import_Safety
begin

text \<open>
  Who moves a window and who stores evidence, over both databases. On the control side no operation but
  \<open>advance_window\<close> and \<open>repair_window\<close> touches the windows; on the vault side a drain of the
  queue only adds evidence, and an import or its undo neither adds nor removes any.
\<close>

section \<open>The control database\<close>

abbreviation wins :: "control \<Rightarrow> window_row list" where
  "wins c \<equiv> conversation_windows (work c)"

lemma last_inbound_cong: "conversation_windows d' = conversation_windows d \<Longrightarrow> last_inbound d' = last_inbound d"
  by (simp add: last_inbound_def fun_eq_iff)

lemma wins_ins:
  "ins_draft r1 d = Inr d' \<Longrightarrow> conversation_windows d' = conversation_windows d"
  "ins_approval r2 d = Inr d' \<Longrightarrow> conversation_windows d' = conversation_windows d"
  "ins_grant r3 d = Inr d' \<Longrightarrow> conversation_windows d' = conversation_windows d"
  "ins_candidate r4 d = Inr d' \<Longrightarrow> conversation_windows d' = conversation_windows d"
  "ins_job r5 d = Inr d' \<Longrightarrow> conversation_windows d' = conversation_windows d"
  "ins_run r6 d = Inr d' \<Longrightarrow> conversation_windows d' = conversation_windows d"
  "ins_attempt r7 d = Inr d' \<Longrightarrow> conversation_windows d' = conversation_windows d"
  "ins_device r8 d = Inr d' \<Longrightarrow> conversation_windows d' = conversation_windows d"
  "consume i t n d = Inr d' \<Longrightarrow> conversation_windows d' = conversation_windows d"
  by (auto simp: consume_Inr dest!: ins_draft_Inr ins_approval_Inr ins_grant_Inr ins_candidate_Inr ins_job_Inr ins_run_Inr
      ins_attempt_Inr ins_device_Inr)

lemma wins_prepare: "wins (snd (prepare C u n a c)) = wins c"
  using prepare_cases [of C u n a c "fst (prepare C u n a c)" "snd (prepare C u n a c)"] wins_ins(1) by auto

lemma wins_prepare_template: "wins (snd (prepare_template C u n cv ac pn ti ps now c)) = wins c"
  using prepare_template_cases [of C u n cv ac pn ti ps now c, OF surjective_pairing] wins_ins(1) by auto

lemma wins_sync: "wins (snd (upsert_from_sync rows c)) = wins c"
proof -
  have "conversation_windows (fold (\<lambda>r d. replace_template (synced_template r) d) rows d) = conversation_windows d" for d
    by (induction rows arbitrary: d) (simp_all add: replace_template_def)
  then show ?thesis by (simp add: upsert_from_sync_def)
qed

lemma wins_enroll: "wins (snd (enroll u name s a t c)) = wins c"
  by (auto simp: enroll_def Let_def wins_ins(8) split: sum.split)

lemma wins_accept: "wins (snd (accept_envelope u raw env c)) = wins c"
proof -
  consider "snd (accept_envelope u raw env c) = c"
    | row where "ins_approval row (work c) = Inr (work (snd (accept_envelope u raw env c)))"
    using accept_cases [OF surjective_pairing] by blast
  then show ?thesis by cases (auto dest: wins_ins(2))
qed

lemma wins_store_grant: "wins (snd (store_grant C f sig c)) = wins c"
proof -
  consider "snd (store_grant C f sig c) = c" | row where "ins_grant row (work c) = Inr (work (snd (store_grant C f sig c)))"
    using store_grant_cases [OF surjective_pairing] by blast
  then show ?thesis by cases (auto dest: wins_ins(3))
qed

lemma wins_use_grant: "control_inv (work c) \<Longrightarrow> wins (snd (verify_and_consume C action conv now c)) = wins c"
  using verify_and_consume_cases [of c C action conv now, OF _ surjective_pairing] by fastforce

lemma wins_status: "wins (snd (on_status_event u e now c)) = wins c"
proof -
  have "status_frame (work c) (work (snd (on_status_event u e now c)))" by (rule on_status_frame [OF surjective_pairing])
  then show ?thesis by (cases "work c"; cases "work (snd (on_status_event u e now c))"; simp add: status_frame_def)
qed

lemma wins_persist: "wins (snd (persist_job u j c)) = wins c"
  by (auto simp: persist_job_def Let_def wins_ins(5) split: sum.split)

lemma wins_fire: "wins (snd (fire u job pre (prepare_id C u' n a) now c)) = wins c"
proof -
  have p: "wins (snd (prepare_id C u' n a c)) = wins c" by (simp add: prepare_id_def wins_prepare)
  obtain x c1 where e: "prepare_id C u' n a c = (x, c1)" by force
  with p have "wins c1 = wins c" by simp
  then show ?thesis
    by (auto simp: fire_def Let_def e wins_ins(6) split: sum.split)
qed

definition moves_window :: "call \<Rightarrow> bool" where
  "moves_window k = (case k of ADVANCE_WINDOW cid ms \<Rightarrow> True | REPAIR_WINDOW cid ms \<Rightarrow> True | _ \<Rightarrow> False)"

lemma wins_call: "\<not> moves_window k \<Longrightarrow> control_inv (work c) \<Longrightarrow> wins (run_call C k c) = wins c"
  by (cases k) (simp_all add: moves_window_def wins_prepare wins_prepare_template wins_sync wins_enroll wins_accept wins_store_grant
      wins_use_grant wins_status wins_persist wins_fire revoke_work set_enabled_def resolve_def recover_startup_def Let_def)

lemma wins_permission:
  assumes "permission C now u env c = (x, c')" shows "wins c' = wins c"
proof -
  consider "c' = c" | w1 where "consume (env_draft_id env) now (env_nonce env) (work c) = Inr w1" "c' = c\<lparr>work := w1\<rparr>"
    | w1 row where "consume (env_draft_id env) now (env_nonce env) (work c) = Inr w1" "ins_attempt row w1 = Inr (work c')"
    using assms by (auto simp: permission_def Let_def split: sum.splits)
  then show ?thesis by cases (auto simp: wins_ins dest!: wins_ins(7))
qed

lemma wins_recorded: "wins (snd (recorded now aid rep c)) = wins c"
  by (cases rep) (simp_all add: finish_def)

lemma wins_posting: "posting C n u env w = Some (dr, aid, c1, b) \<Longrightarrow> wins c1 = wins (ctl w)"
  using posting_Some(3) wins_permission by blast

lemma wins_sending:
  assumes "sending C send_text s s'" "conn_inv C (ctl (wld s))"
    "conversation_windows (disk (ctl (wld s))) = wins (ctl (wld s))"
  shows "wins (ctl (wld s')) = wins (ctl (wld s))" "conversation_windows (disk (ctl (wld s'))) = wins (ctl (wld s))"
proof -
  have "wins (ctl (wld s')) = wins (ctl (wld s)) \<and> conversation_windows (disk (ctl (wld s'))) = wins (ctl (wld s))"
    using assms(1)
  proof cases
    case die
    then show ?thesis using assms(3) by (simp add: restart_def)
  next
    case (refuse n u env r w')
    have "wins (ctl w') = wins (ctl (wld s))" using execute_silent [OF refuse(2,3)] wins_permission by auto
    moreover have "disk (ctl w') = disk (ctl (wld s)) \<or> disk (ctl w') = work (ctl w')"
      using execute_silent_ok [OF refuse(2,3)] by (simp add: op_ok_def)
    ultimately show ?thesis using assms(3) by (auto simp: refuse(1))
  next
    case (send n u env dr aid c1 b r w')
    obtain rep where rep: "ctl w' = snd (recorded n aid rep c1)" by (rule execute_posting_ctl [OF send(2,3)])
    note pc = posting_conn(2) [OF send(2) assms(2)] wins_posting [OF send(2)]
    have "disk (ctl w') = disk c1 \<or> disk (ctl w') = work (ctl w')" using recorded_ok [of C c1 n aid rep] by (simp add: op_ok_def rep)
    moreover have "wins (ctl w') = wins (ctl (wld s))" using pc(2) by (simp add: rep wins_recorded)
    ultimately show ?thesis using pc by (auto simp: send(1) clean_disk)
  next
    case (die_before_post n u env dr aid c1 b)
    then show ?thesis using posting_conn(2) [OF die_before_post(2) assms(2)] wins_posting by (simp add: restart_def clean_disk)
  next
    case (die_after_post n u env dr aid c1 b rep p')
    then show ?thesis using posting_conn(2) [OF die_after_post(2) assms(2)] wins_posting by (simp add: restart_def clean_disk)
  qed
  then show "wins (ctl (wld s')) = wins (ctl (wld s))" "conversation_windows (disk (ctl (wld s'))) = wins (ctl (wld s))" by auto
qed

section \<open>The consumer on the control database\<close>

text \<open>The consumer writes to the control database through \<open>advance_window\<close> only.\<close>

definition advances :: "control \<Rightarrow> control \<Rightarrow> bool" where
  "advances c c' \<longleftrightarrow> (\<exists>l. c' = fold (\<lambda>(cid, ms) c. snd (advance_window cid ms c)) l c)"

lemma advances_refl [simp, intro]: "advances c c"
  unfolding advances_def by (rule exI [of _ "[]"]) simp

lemma advances_trans [trans]: "advances a b \<Longrightarrow> advances b c \<Longrightarrow> advances a c"
  unfolding advances_def by (metis fold_append o_apply)

lemma advances_one: "advance_window cid ms c = (r, c') \<Longrightarrow> advances c c'"
  unfolding advances_def by (rule exI [of _ "[(cid, ms)]"]) simp

lemma advances_clean: "advances c c' \<Longrightarrow> clean c \<Longrightarrow> clean c'"
proof -
  have "clean (fold (\<lambda>(cid, ms) c. snd (advance_window cid ms c)) l c)" if "clean c" for l c
    using that
  proof (induction l arbitrary: c)
    case (Cons x l)
    have "clean (snd (advance_window (fst x) (snd x) c))" using Cons.prems
      by (simp add: advance_window_def Let_def split: sum.split)
    from Cons.IH [OF this] show ?case by (simp add: split_beta)
  qed simp
  then show "advances c c' \<Longrightarrow> clean c \<Longrightarrow> clean c'" by (auto simp: advances_def)
qed

section \<open>What the vault knows of imports\<close>

text \<open>
  A message with an import fingerprint is no evidence, and only such messages are observed. A step of
  the consumer adds messages without a fingerprint and leaves the observations alone.
\<close>

definition imports_plain :: "vault_db \<Rightarrow> bool" where
  "imports_plain d \<longleftrightarrow>
     (\<forall>m\<in>set (messages d). msg_import_fingerprint m \<noteq> None \<longrightarrow> \<not> msg_window_eligible m) \<and>
     (\<forall>r\<in>set (message_import_observations d). \<exists>m\<in>set (messages d). msg_id m = obs_message_id r \<and> msg_import_fingerprint m \<noteq> None)"

definition live_rows :: "vault_db \<Rightarrow> vault_db \<Rightarrow> bool" where
  "live_rows d d' \<longleftrightarrow> message_import_observations d' = message_import_observations d \<and>
     (\<exists>new. messages d' = messages d @ new \<and> (\<forall>m\<in>set new. msg_import_fingerprint m = None))"

lemma live_rowsI:
  "message_import_observations d' = message_import_observations d \<Longrightarrow> messages d' = messages d \<Longrightarrow> live_rows d d'"
  by (simp add: live_rows_def)

lemma live_rows_refl [simp, intro]: "live_rows d d"
  by (simp add: live_rowsI)

lemma live_rows_trans [trans]: "live_rows a b \<Longrightarrow> live_rows b c \<Longrightarrow> live_rows a c"
  by (fastforce simp: live_rows_def)

lemma live_rows_plain: "live_rows d d' \<Longrightarrow> imports_plain d \<Longrightarrow> imports_plain d'"
  unfolding live_rows_def imports_plain_def by (elim exE conjE) (simp add: ball_Un, blast)

lemma imports_plain_cong:
  "messages d' = messages d \<Longrightarrow> message_import_observations d' = message_import_observations d \<Longrightarrow> imports_plain d' = imports_plain d"
  by (simp add: imports_plain_def)

lemma live_rows_lookup:
  "get_account p us d = (r1, us1, d1) \<Longrightarrow> live_rows d d1" "get_contact w n us d = (r1, us1, d1) \<Longrightarrow> live_rows d d1"
  "get_conversation a w us d = (r1, us1, d1) \<Longrightarrow> live_rows d d1"
  by (auto simp: get_account_def get_contact_def get_conversation_def mint_def intro!: live_rowsI
      split: sum.splits option.splits prod.splits dest!: ins_vault_Inr(1) ins_vault_Inr(2) ins_vault_Inr(3))

lemma message_row_live: "message_row i aid cid vid m = Inr row \<Longrightarrow> msg_import_fingerprint row = None"
  by (auto simp: message_row_def split: sum.splits prod.splits if_splits option.splits)

lemma live_rows_message: "ins_message row d = Inr d' \<Longrightarrow> msg_import_fingerprint row = None \<Longrightarrow> live_rows d d'"
  by (auto simp: live_rows_def dest!: ins_vault_Inr(4))

lemma apply_rows_live:
  assumes "apply_rows rws us d = (r, us', d')" shows "live_rows d d'"
proof (cases rws)
  case (MessageRows fam m)
  obtain r1 us1 d1 where 1: "get_account (mr_phone_number_id m) us d = (r1, us1, d1)" by (metis prod_cases3)
  note l1 = live_rows_lookup(1) [OF 1]
  show ?thesis
  proof (cases r1)
    case (Inl e)
    with assms MessageRows 1 l1 show ?thesis by auto
  next
    case r1: (Inr aid)
    obtain r2 us2 d2 where 2: "get_contact (mr_from m) (mr_name m) us1 d1 = (r2, us2, d2)" by (metis prod_cases3)
    then have l2: "live_rows d d2" using live_rows_lookup(2) l1 live_rows_trans by blast
    show ?thesis
    proof (cases r2)
      case (Inl e)
      with assms MessageRows 1 2 r1 l2 show ?thesis by auto
    next
      case r2: (Inr cid)
      obtain r3 us3 d3 where 3: "get_conversation aid (mr_from m) us2 d2 = (r3, us3, d3)" by (metis prod_cases3)
      then have "live_rows d d3" using live_rows_lookup(3) l2 live_rows_trans by blast
      then show ?thesis using assms MessageRows 1 2 3 r1 r2
        by (auto simp: mint_def split: sum.splits dest!: message_row_live intro: live_rows_trans live_rows_message)
    qed
  qed
qed (use assms in \<open>auto simp: mint_def intro!: live_rowsI split: sum.splits dest!: ins_vault_Inr(5)\<close>)

lemma index_applied_live: "live_rows (work v) (work (index_applied U ap v))"
  by (auto simp: index_applied_def index_message_def intro!: live_rowsI split: option.split json.split)

text \<open>Both databases under the consumer.\<close>

definition consumes :: "ingest \<Rightarrow> ingest \<Rightarrow> bool" where
  "consumes i i' \<longleftrightarrow> live_rows (work (vlt i)) (work (vlt i')) \<and> advances (ctl_conn i) (ctl_conn i')"

lemma consumes_refl [simp, intro]: "consumes i i"
  by (simp add: consumes_def)

lemma consumes_trans [trans]: "consumes a b \<Longrightarrow> consumes b c \<Longrightarrow> consumes a c"
  unfolding consumes_def using live_rows_trans advances_trans by blast

lemma consumes_same: "vlt i' = vlt i \<Longrightarrow> ctl_conn i' = ctl_conn i \<Longrightarrow> consumes i i'"
  by (simp add: consumes_def)

lemma atom_txn_live:
  assumes "atom_txn ev rws us v = (x, us', v')" "clean v" shows "live_rows (work v) (work v')"
  using assms
proof (cases rule: atom_txn_cases)
  case (ok d1 d2 ap)
  have "live_rows (work v) d1" by (rule live_rowsI) (use ins_vault_Inr(6) [OF ok(2)] in simp_all)
  also have "live_rows d1 d2" by (rule apply_rows_live [OF ok(3)])
  finally show ?thesis by (simp add: ok(4))
qed simp_all

lemma project_consumes: "project E fam ap i = (r, i') \<Longrightarrow> consumes i i'"
  by (erule project_cases) (auto simp: consumes_def index_applied_live dest: advances_one)

lemma process_atom_consumes:
  assumes "process_atom E now fault a i = (r, i')" "clean (vlt i)" shows "consumes i i'"
  using assms
proof (cases rule: process_atom_cases)
  case (txn fam key rws raw ev x us' v)
  let ?i = "i\<lparr>fresh := us', vlt := v\<rparr>"
  have 1: "consumes i ?i" using atom_txn_live [OF txn(5) assms(2)] by (simp add: consumes_def)
  have 2: "consumes ?i (snd (project E fam ap ?i))" for ap by (rule project_consumes [OF surjective_pairing])
  from txn(6) have "i' = ?i \<or> (\<exists>ap. i' = snd (project E fam ap ?i))"
    by (cases x) (auto simp: Let_def split: outcome.splits)
  then show ?thesis using 1 consumes_trans [OF 1 2] by blast
qed (simp_all add: consumes_same)

text \<open>The invariant of the consumer, and every run of it.\<close>

definition ingest_sound :: "ingest \<Rightarrow> bool" where
  "ingest_sound i \<longleftrightarrow> ing_ok i \<and> windows_ok (work (ctl_conn i)) \<and> window_sound (work (vlt i)) (work (ctl_conn i))"

definition drained_ok :: "ingest \<Rightarrow> ingest \<Rightarrow> bool" where
  "drained_ok i i' \<longleftrightarrow> ingest_sound i' \<and> consumes i i'"

lemma good_refl: "ingest_sound i \<Longrightarrow> drained_ok i i"
  by (simp add: drained_ok_def)

lemma good_trans: "drained_ok i j \<Longrightarrow> drained_ok j k \<Longrightarrow> drained_ok i k"
  unfolding drained_ok_def using consumes_trans by blast

lemma process_atom_good:
  assumes "ingest_sound i" "process_atom E now fault a i = (r, i')" shows "drained_ok i i'"
  using assms process_atom_ok [of i E now fault a r i'] process_atom_sound [of i E now fault a r i']
    process_atom_consumes [OF assms(2)]
  by (auto simp: drained_ok_def ingest_sound_def forward_def ing_ok_def)

lemma process_atoms_good: "ingest_sound i \<Longrightarrow> process_atoms E now fault as i = (r, i') \<Longrightarrow> drained_ok i i'"
proof (induction as arbitrary: i)
  case (Cons a as)
  obtain x j where 1: "process_atom E now fault a i = (x, j)" by force
  note g = process_atom_good [OF Cons.prems(1) 1]
  then have "x = Inr u \<Longrightarrow> drained_ok j i'" for u using Cons.IH [of j] Cons.prems(2) 1 by (simp add: drained_ok_def)
  then show ?case using Cons.prems(2) 1 g good_trans by (cases x) auto
qed (simp add: good_refl)

lemma process_payload_good: "ingest_sound i \<Longrightarrow> process_payload E pt now fault i = (r, i') \<Longrightarrow> drained_ok i i'"
  by (auto simp: process_payload_def good_refl dest: process_atoms_good split: sum.splits)

lemma quarantine_lease_good:
  assumes "ingest_sound (st D)" "quarantine_lease E cls code now lm D = (r, D')" shows "drained_ok (st D) (st D')"
proof -
  have i: "ing_ok (st D)" using assms(1) by (simp add: ingest_sound_def)
  note q = quarantine_lease_ok [OF i assms(2)]
  obtain x v where x: "quarantine (ie_crypto E) (fresh (st D) 0) (snd lm) cls code ''decrypt'' (Some (lit ''stage=decrypt'')) now
      (vlt (st D)) = (x, v)" by force
  then have l: "live_rows (work (vlt (st D))) (work v)" by (cases rule: quarantine_cases) (simp_all add: live_rowsI)
  have "vlt (st D') = v" using assms(2) x by (auto simp: quarantine_lease_def Let_def split: sum.splits)
  with q l assms(1) show ?thesis
    by (auto simp: drained_ok_def ingest_sound_def consumes_def grown_def intro: window_sound_grow)
qed

lemma drain_one_good:
  assumes "ingest_sound (st D)" "drain_one nack E now fault lm D = (r, D')" shows "drained_ok (st D) (st D')"
proof (cases "open_edge (ie_crypto E) (ie_sealing E) (ie_lookup E) (snd lm)")
  case (Inr x)
  obtain pt hdr where x: "x = (pt, hdr)" by force
  obtain y s' where p: "process_payload E pt now fault (st D) = (y, s')" by force
  have "st D' = s'" using assms(2) Inr x p by (cases y) (auto simp: drain_one_def Let_def nack_lease_def)
  with process_payload_good [OF assms(1) p] show ?thesis by simp
next
  case (Inl e)
  consider "st D' = st D" | cls code where "(case quarantine_lease E cls code now lm D of
        (Inl e', D') \<Rightarrow> (Inl e', D') | (Inr _, D') \<Rightarrow> (Inr Next, D')) = (r, D')"
    | why where "st D' = (st D)\<lparr>vlt := trip why now (vlt (st D))\<rparr>"
    using assms(2) Inl by (auto simp: drain_one_def nack_lease_def Let_def split: if_splits)
  then show ?thesis
  proof cases
    case (2 cls code)
    then obtain r' where "quarantine_lease E cls code now lm D = (r', D')" by (auto split: prod.splits sum.splits)
    then show ?thesis by (rule quarantine_lease_good [OF assms(1)])
  next
    case (3 why)
    have i: "ing_ok (st D)" using assms(1) by (simp add: ingest_sound_def)
    from 3 trip_ok [OF i, of why now] assms(1) show ?thesis
      by (auto simp: drained_ok_def ingest_sound_def consumes_def trip_def grown_def intro!: live_rowsI intro: window_sound_grow)
  qed (simp add: assms(1) good_refl)
qed

lemma drain_loop_good: "ingest_sound (st D) \<Longrightarrow> drain_loop nack E now fault ls D = (r, D') \<Longrightarrow> drained_ok (st D) (st D')"
proof (induction ls arbitrary: D)
  case (Cons lm ls)
  obtain x D1 where 1: "drain_one nack E now fault lm D = (x, D1)" by force
  note g = drain_one_good [OF Cons.prems(1) 1]
  show ?case
  proof (cases "x = Inr Next")
    case True
    with 1 Cons.prems(2) have "drain_loop nack E now fault ls D1 = (r, D')" by simp
    moreover have "ingest_sound (st D1)" using g by (simp add: drained_ok_def)
    ultimately show ?thesis using good_trans [OF g Cons.IH] by blast
  next
    case False
    with 1 Cons.prems(2) have "D' = D1" by (auto split: sum.splits verdict.splits)
    with g show ?thesis by simp
  qed
qed (simp add: good_refl)

lemma drain_once_good:
  assumes "ingest_sound i" "drain_once lease ack nack E now fault m h q i = (r, D)" shows "drained_ok i (st D)"
proof (cases "circuit_state (work (vlt i)) = OPEN")
  case True
  with assms show ?thesis by (auto simp: drain_once_def good_refl)
next
  case False
  obtain l q1 where l: "lease m q = (l, q1)" by force
  obtain x D1 where d: "drain_loop nack E now fault l
      \<lparr>dq = q1, st = i, health = h, to_ack = [], cnt = no_counts (length l) CLOSED\<rparr> = (x, D1)" by force
  have "st D = st D1" using assms(2) False l d by (cases x) (auto simp: drain_once_def Let_def)
  with drain_loop_good [OF _ d] assms(1) show ?thesis by simp
qed

end
