(* ===== verification/Vault_Calls.thy ===== *)
theory Vault_Calls
  imports Window_Safety
begin

text \<open>
  The operations of the command line on the vault, beside the consumer: visibility, the breaker, the search
  index, imports and their undo. None of them adds evidence, and none removes any.
\<close>

datatype vault_call =
    SET_VISIBILITY pystr pystr
  | RESET_BREAKER
  | REBUILD_INDEX unicode
  | REINDEX_STALE unicode
  | IMPORT import_env import_args ulids
  | UNDO pystr int

fun run_vault :: "vault_call \<Rightarrow> vault \<Rightarrow> vault" where
  "run_vault (SET_VISIBILITY cid v) c = snd (set_visibility cid v c)"
| "run_vault RESET_BREAKER c = reset c"
| "run_vault (REBUILD_INDEX U) c = snd (rebuild_all U c)"
| "run_vault (REINDEX_STALE U) c = snd (reindex_stale U c)"
| "run_vault (IMPORT E A us) c = snd (import_batch E A us c)"
| "run_vault (UNDO bid now) c = snd (undo_batch bid now c)"

definition vault_ok :: "vault_db \<Rightarrow> bool" where
  "vault_ok d \<longleftrightarrow> vault_inv d \<and> imports_plain d"

definition keeps_evidence :: "vault_db \<Rightarrow> vault_db \<Rightarrow> bool" where
  "keeps_evidence d d' \<longleftrightarrow> set (filter msg_window_eligible (messages d)) \<subseteq> set (messages d')"

lemma keeps_evidence_sub: "set (messages d) \<subseteq> set (messages d') \<Longrightarrow> keeps_evidence d d'"
  by (auto simp: keeps_evidence_def)

lemma window_sound_keeps:
  assumes "window_sound d k" "keeps_evidence d d'" shows "window_sound d' k"
proof -
  have "max 0 (evidence_ms d j) \<le> max 0 (evidence_ms d' j)" for j
  proof -
    have "evidence_ms d j \<le> max 0 (evidence_ms d' j)"
    proof (rule evidence_ms_le)
      fix t assume "t \<in> set (evidence d j)"
      then have "t \<in> set (evidence d' j)" using assms(2) by (auto simp: evidence_def keeps_evidence_def)
      then show "t \<le> max 0 (evidence_ms d' j)" using evidence_ms_ge by fastforce
    qed simp
    then show ?thesis by simp
  qed
  with assms(1) show ?thesis unfolding window_sound_def using order_trans by blast
qed

section \<open>Imports\<close>

lemma import_one_plain:
  assumes "import_one E A bid parts (i, r) ip = Inr ip'" "imports_plain (ip_db ip)"
  shows "imports_plain (ip_db ip')"
  using assms(1)
proof (cases rule: import_one_cases)
  case (1 x mid pid ip1)
  have o: "obs_message_id (obs_row bid mid pid i r x) = mid" by (simp add: obs_row_def)
  from 1(3) show ?thesis
  proof (cases rule: resolve_message_cases)
    case a: (1 m)
    then have "m \<in> set (messages (ip_db ip))" "msg_import_fingerprint m \<noteq> None"
      using find_SomeD [OF a(1)] by (auto simp: by_fingerprint_def)
    then show ?thesis using assms(2) a(2,3) o by (auto simp: imports_plain_def 1(6))
  next
    case b: (2 m)
    have "msg_id m = mid" "msg_import_fingerprint m \<noteq> None" "\<not> msg_window_eligible m" using b(2) by (simp_all add: import_row_def)
    then show ?thesis using assms(2) b(6) o unfolding imports_plain_def 1(6) by (fastforce simp: indexed_message_frame)
  qed
qed

lemma import_all_plain:
  "import_all E A bid parts ms ip = Inr ip' \<Longrightarrow> imports_plain (ip_db ip) \<Longrightarrow> imports_plain (ip_db ip')"
proof (induction ms arbitrary: ip)
  case (Cons m ms)
  then show ?case using import_one_plain [of E A bid parts "fst m" "snd m" ip] by (auto split: sum.splits)
qed simp

lemma import_txn_plain:
  assumes "import_txn E A rs us d = Inr (res, d')" "imports_plain d" shows "imports_plain d'"
  using assms(1)
proof (cases rule: import_txn_parts)
  case (1 bid parts us2 d2 ip s)
  obtain ps where "d2 = d\<lparr>import_batches := import_batches d @ [batch_row A bid rs], import_participants := import_participants d @ ps\<rparr>"
    using add_participants_frame [OF 1(4)] by auto
  then have "imports_plain d2" using assms(2) by (simp add: imports_plain_def)
  then have "imports_plain (ip_db ip)" using import_all_plain [OF 1(5)] by simp
  then show ?thesis by (simp add: imports_plain_def ins_source_iff_frame [OF 1(9)])
qed

section \<open>Undo\<close>

lemma undo_message_step:
  assumes "undo_message mid (n, d) = (n', d')"
  shows "d' = d\<lparr>messages := messages d'\<rparr>"
    "set (messages d') \<subseteq> set (messages d)" "distinct (map msg_id (messages d)) \<Longrightarrow> distinct (map msg_id (messages d'))"
    "m \<in> set (messages d) \<Longrightarrow> msg_id m \<noteq> mid \<or> msg_id m \<in> obs_message_id ` set (message_import_observations d) \<Longrightarrow> m \<in> set (messages d')"
  using assms by (auto simp: undo_message_def rowcount_zero del_def distinct_map_filter split: if_splits)

lemma undo_messages_step:
  assumes "fold undo_message mids (n, d) = (n', d')"
  shows "d' = d\<lparr>messages := messages d'\<rparr> \<and> set (messages d') \<subseteq> set (messages d) \<and>
    (distinct (map msg_id (messages d)) \<longrightarrow> distinct (map msg_id (messages d'))) \<and>
    (\<forall>m\<in>set (messages d). msg_id m \<notin> set mids \<or> msg_id m \<in> obs_message_id ` set (message_import_observations d) \<longrightarrow> m \<in> set (messages d'))"
  using assms
proof (induction mids arbitrary: n d)
  case (Cons mid mids)
  obtain n1 d1 where 1: "undo_message mid (n, d) = (n1, d1)" by force
  note s = undo_message_step [OF 1]
  have "fold undo_message mids (n1, d1) = (n', d')" using Cons.prems 1 by simp
  note ih = Cons.IH [OF this]
  have o: "message_import_observations d1 = message_import_observations d" by (subst s(1)) simp
  have "d' = d\<lparr>messages := messages d'\<rparr>" using ih s(1) by (cases d; cases d1; cases d') simp
  moreover have "m \<in> set (messages d')"
    if "m \<in> set (messages d)" "msg_id m \<notin> set (mid # mids) \<or> msg_id m \<in> obs_message_id ` set (message_import_observations d)" for m
    using that ih s(4) [of m] o by auto
  ultimately show ?case using ih s(2,3) by blast
qed simp

lemma undo_txn_ok:
  assumes "undo_txn bid now d = Inr (res, d')" "vault_ok d"
  shows "vault_ok d'" "keeps_evidence d d'"
proof -
  let ?mids = "map obs_message_id (filter (\<lambda>r. obs_batch_id r = bid) (message_import_observations d))"
  let ?d1 = "d\<lparr>message_import_observations := del (\<lambda>r. obs_batch_id r = bid) (message_import_observations d)\<rparr>"
  obtain n d2 where f: "fold undo_message ?mids (0, ?d1) = (n, d2)" by force
  note u = undo_messages_step [OF f]
  have d2: "d2 = ?d1\<lparr>messages := messages d2\<rparr>" using u by blast
  have inv: "distinct (map msg_id (messages d))" "list_all (message_ok d) (messages d)" "distinct (ledger d)" "imports_plain d"
    using assms(2) by (auto simp: vault_ok_def vault_inv_def)
  have d': "messages d' = messages d2" "message_import_observations d' = message_import_observations ?d1"
    "accounts d' = accounts d" "contacts d' = contacts d" "conversations d' = conversations d" "ingest_events d' = ingest_events d"
    using assms(1) f by (auto simp: undo_txn_def drop_participants_def split: if_splits) (subst d2; simp)+
  have "message_ok d' = message_ok d" by (simp add: message_ok_def fun_eq_iff d' split: option.split)
  then have "vault_inv d'" using inv u by (auto simp: vault_inv_def d' ledger_def list_all_iff)
  moreover have sub: "set (message_import_observations ?d1) \<subseteq> set (message_import_observations d)" by (auto simp: del_def)
  have "imports_plain d'"
  proof -
    have "\<exists>m\<in>set (messages d2). msg_id m = obs_message_id r \<and> msg_import_fingerprint m \<noteq> None"
      if "r \<in> set (message_import_observations ?d1)" for r
    proof -
      from subsetD [OF sub that] obtain m where "m \<in> set (messages d)" "msg_id m = obs_message_id r" "msg_import_fingerprint m \<noteq> None"
        using inv(4) unfolding imports_plain_def by blast
      then show ?thesis using u that by (intro bexI [of _ m]) auto
    qed
    moreover have "set (messages d2) \<subseteq> set (messages d)" using u by simp
    ultimately show ?thesis using inv(4) unfolding imports_plain_def d' by blast
  qed
  ultimately show "vault_ok d'" by (simp add: vault_ok_def)
  show "keeps_evidence d d'"
  proof -
    have "m \<in> set (messages d2)" if m: "m \<in> set (messages d)" "msg_window_eligible m" for m
    proof -
      have "msg_id m \<notin> set ?mids"
      proof
        assume "msg_id m \<in> set ?mids"
        then obtain m' where "m' \<in> set (messages d)" "msg_id m' = msg_id m" "msg_import_fingerprint m' \<noteq> None"
          using inv(4) unfolding imports_plain_def by fastforce
        moreover then have "m' = m" using inv(1) m(1) by (metis inj_on_contraD distinct_map)
        ultimately show False using m inv(4) unfolding imports_plain_def by blast
      qed
      then show ?thesis using u m(1) by auto
    qed
    then show ?thesis by (auto simp: keeps_evidence_def d')
  qed
qed

section \<open>All operations\<close>

lemma fold_stage_frame:
  "messages (fold (\<lambda>x d. stage_message U (f x d) (g x d) d) l d) = messages d \<and>
   accounts (fold (\<lambda>x d. stage_message U (f x d) (g x d) d) l d) = accounts d \<and>
   contacts (fold (\<lambda>x d. stage_message U (f x d) (g x d) d) l d) = contacts d \<and>
   conversations (fold (\<lambda>x d. stage_message U (f x d) (g x d) d) l d) = conversations d \<and>
   ingest_events (fold (\<lambda>x d. stage_message U (f x d) (g x d) d) l d) = ingest_events d \<and>
   message_import_observations (fold (\<lambda>x d. stage_message U (f x d) (g x d) d) l d) = message_import_observations d"
  by (induction l arbitrary: d) simp_all

lemma vault_ok_same:
  assumes "vault_ok d" "messages d' = messages d" "accounts d' = accounts d" "contacts d' = contacts d"
    "cnv_id ` set (conversations d') = cnv_id ` set (conversations d)" "ingest_events d' = ingest_events d"
    "message_import_observations d' = message_import_observations d"
  shows "vault_ok d' \<and> keeps_evidence d d'"
proof -
  have c: "list_ex (\<lambda>v. cnv_id v = i) (conversations d') = list_ex (\<lambda>v. cnv_id v = i) (conversations d)" for i
  proof -
    have k: "list_ex (\<lambda>v. cnv_id v = i) l \<longleftrightarrow> i \<in> cnv_id ` set l" for l by (auto simp: list_ex_iff)
    show ?thesis unfolding k assms(5) ..
  qed
  have "message_ok d' = message_ok d" by (simp add: message_ok_def fun_eq_iff assms c split: option.split)
  with assms show ?thesis
    by (auto simp: vault_ok_def vault_inv_def ledger_def imports_plain_cong [OF assms(2,7)] keeps_evidence_def)
qed

lemma run_vault_ok:
  assumes "vault_ok (work c)" "clean c"
  shows "clean (run_vault k c) \<and> vault_ok (work (run_vault k c)) \<and> keeps_evidence (work c) (work (run_vault k c))"
proof (cases k)
  case (SET_VISIBILITY cid v)
  have "cnv_id ` set (upd (\<lambda>r. cnv_id r = cid) (cnv_mcp_visibility_update (\<lambda>_. x)) t) = cnv_id ` set t" for x and t :: "conversation list"
  proof -
    have "map cnv_id (upd (\<lambda>r. cnv_id r = cid) (cnv_mcp_visibility_update (\<lambda>_. x)) t) = map cnv_id t"
      by (rule map_upd_key) simp
    from arg_cong [OF this, of set] show ?thesis by simp
  qed
  with SET_VISIBILITY assms show ?thesis
    by (auto simp: set_visibility_def keeps_evidence_sub vault_ok_same split: option.split)
next
  case RESET_BREAKER
  with assms show ?thesis by (simp add: reset_def vault_ok_same)
next
  case (REBUILD_INDEX U)
  note f = fold_stage_frame [of U "\<lambda>m d. msg_id m" "\<lambda>m d. msg_text_original m"]
  from REBUILD_INDEX assms show ?thesis by (simp add: rebuild_all_def vault_ok_same f clear_index_def)
next
  case (REINDEX_STALE U)
  note f = fold_stage_frame [of U "\<lambda>m d. m" "\<lambda>m d. text_of d m"]
  from REINDEX_STALE assms show ?thesis by (simp add: reindex_stale_def vault_ok_same f)
next
  case (IMPORT E A us)
  show ?thesis
  proof (cases "\<exists>rs res d. import_gates E A = Inr rs \<and> import_txn E A rs us (work c) = Inr (res, d)")
    case True
    then obtain rs res d where t: "import_gates E A = Inr rs" "import_txn E A rs us (work c) = Inr (res, d)" by blast
    have "vault_ok d" using assms(1) import_txn_effect(3) [OF t(2)] import_txn_plain [OF t(2)] by (simp add: vault_ok_def)
    moreover have "set (messages (work c)) \<subseteq> set (messages d)" using import_txn_effect(1) [OF t(2)] by (auto simp: import_effect_def)
    ultimately show ?thesis using t IMPORT by (simp add: import_batch_def keeps_evidence_sub)
  next
    case False
    then have "snd (import_batch E A us c) \<in> {c, rollback c}" by (auto simp: import_batch_def split: sum.split)
    moreover have "rollback c = c" using rollback_clean [OF assms(2), of "work c"] by simp
    ultimately show ?thesis using assms IMPORT by (simp add: keeps_evidence_sub)
  qed
next
  case (UNDO bid now)
  show ?thesis
  proof (cases "undo_txn bid now (work c)")
    case (Inl e)
    moreover have "rollback c = c" using rollback_clean [OF assms(2), of "work c"] by simp
    ultimately show ?thesis using assms UNDO by (simp add: undo_batch_def keeps_evidence_sub)
  next
    case (Inr x)
    then show ?thesis using undo_txn_ok [of bid now "work c" "fst x" "snd x"] assms UNDO
      by (cases x) (auto simp: undo_batch_def)
  qed
qed

end
