(* ===== verification/Operations.thy ===== *)
theory Operations
  imports Doctor Approval_System
begin

text \<open>
  The daemons and what they share: content-free logging (\<open>ops/structlog.py\<close>), startup recovery
  (\<open>ops/recovery.py\<close>), the entry points \<open>run\<close> of the dispatcher, the scheduler and the consumer, the read
  receipts of the sender (\<open>sender.mark_read\<close>) and the process topology (\<open>ops/topology.py\<close>).
\<close>

section \<open>Content-free logging\<close>

definition FORBIDDEN_KEYS :: "string list" where
  "FORBIDDEN_KEYS = [''text'', ''body'', ''caption'', ''message'', ''text_original'', ''display_text'', ''subject'']"

definition carries_content :: "pystr \<times> json \<Rightarrow> bool" where
  "carries_content kv \<longleftrightarrow> fst kv \<in> lit ` set FORBIDDEN_KEYS \<or>
     (case snd kv of JObj m \<Rightarrow> (case jget (lit ''_wv_untrusted'') m of None \<Rightarrow> False | Some v \<Rightarrow> jtrue v) | _ \<Rightarrow> False)"

definition log_event :: "(pystr \<times> json) list \<Rightarrow> exc + (pystr \<times> json) list" where
  "log_event fs = (if list_ex carries_content fs then Inl ContentInLogError else Inr fs)"

lemma log_event_clean: "log_event fs = Inr r \<Longrightarrow> r = fs \<and> (\<forall>kv\<in>set r. \<not> carries_content kv)"
  by (auto simp: log_event_def list_ex_iff split: if_splits)

section \<open>Startup recovery\<close>

record startup =
  su_recovered :: nat
  su_jobs :: nat
  su_circuit :: circuit
  su_pending :: nat

definition pending_approvals :: "control_db \<Rightarrow> nat" where
  "pending_approvals k = rowcount (\<lambda>a. case apv_nonce a of None \<Rightarrow> False | Some n \<Rightarrow> n \<notin> set (consumed k)) (approvals k)"

definition run_startup :: "int \<Rightarrow> vault_db \<Rightarrow> control \<Rightarrow> startup \<times> control" where
  "run_startup now_ms d c =
     (let (n, c') = recover_startup now_ms c in
      (\<lparr>su_recovered = n, su_jobs = rowcount (\<lambda>r. job_enabled r = 1) (scheduled_jobs (work c')),
        su_circuit = circuit_state d, su_pending = pending_approvals (work c')\<rparr>, c'))"

text \<open>Recovery closes every attempt that was in flight and touches nothing else: no nonce is freed, nothing is sent.\<close>

lemma run_startup_frame:
  assumes "run_startup now d c = (s, c')"
  shows "clean c'" "\<forall>a\<in>set (send_attempts (work c')). atm_state a \<noteq> SUBMITTING"
    "work c' = (work c)\<lparr>send_attempts := send_attempts (work c')\<rparr>" "consumed (work c') = consumed (work c)"
    "su_pending s = pending_approvals (work c)" "su_circuit s = circuit_state d"
proof -
  obtain n where r: "recover_startup now c = (n, c')" using assms by (auto simp: run_startup_def split: prod.splits)
  note f = recover_startup_state [OF r]
  show "clean c'" "\<forall>a\<in>set (send_attempts (work c')). atm_state a \<noteq> SUBMITTING"
    "work c' = (work c)\<lparr>send_attempts := send_attempts (work c')\<rparr>" using f by blast+
  have n: "approval_nonces (work c') = approval_nonces (work c)" "approvals (work c') = approvals (work c)"
    using r by (auto simp: recover_startup_def)
  then show k: "consumed (work c') = consumed (work c)" by (simp add: consumed_def)
  have "pending_approvals (work c') = pending_approvals (work c)" unfolding pending_approvals_def k n ..
  then show "su_pending s = pending_approvals (work c)" "su_circuit s = circuit_state d"
    using assms r by (auto simp: run_startup_def)
qed

section \<open>Entry points\<close>

definition circuit_name :: "circuit \<Rightarrow> pystr" where
  "circuit_name c = lit (case c of OPEN \<Rightarrow> ''OPEN'' | CLOSED \<Rightarrow> ''CLOSED'')"

definition field :: "string \<Rightarrow> json \<Rightarrow> pystr \<times> json" where
  "field k v = (lit k, v)"

definition jtext :: "string \<Rightarrow> json" where "jtext s = JStr (lit s)"
definition jnat :: "nat \<Rightarrow> json" where "jnat n = JInt (int n)"

definition DISPATCHER_DETAIL :: string where
  "DISPATCHER_DETAIL = ''whatsvault-meta is not built and live Meta is Phase-0-gated (Gates 1-2); '' @
     ''approval envelopes are surfaced for an operator, never auto-dispatched''"

definition SCHEDULER_DETAIL :: string where
  "SCHEDULER_DETAIL = ''scheduled_jobs carries no body / recipient_wa_id / phone_number_id column, '' @
     ''so drafts.prepare() cannot be called from a job row; fire() is complete and '' @
     ''prepare-only, but there is nothing for it to prepare''"

definition INGEST_DETAIL :: string where
  "INGEST_DETAIL = ''no real queue client exists: CloudflarePullConsumer is Phase-0-gated '' @
     ''(Gate 3, Cloudflare); only FakeQueue is available and it is test-only''"

definition dispatcher_run :: "int \<Rightarrow> vault_db \<Rightarrow> control \<Rightarrow> (exc + (pystr \<times> json) list) \<times> control" where
  "dispatcher_run now_ms d c =
     (let (s, c') = run_startup now_ms d c in
      (log_event
        [field ''service'' (jtext ''dispatcher''), field ''status'' (jtext ''not_started''),
         field ''blocked_on'' (jtext ''whatsvault_meta_daemon''),
         field ''detail'' (jtext DISPATCHER_DETAIL),
         field ''pending_approvals'' (jnat (su_pending s)), field ''submitting_recovered'' (jnat (su_recovered s))], c'))"

definition scheduler_run :: "control_db \<Rightarrow> exc + (pystr \<times> json) list" where
  "scheduler_run k =
     log_event
       [field ''service'' (jtext ''scheduler''), field ''status'' (jtext ''not_started''),
        field ''blocked_on'' (jtext ''job_payload_schema''),
        field ''detail'' (jtext SCHEDULER_DETAIL),
        field ''jobs_loaded'' (jnat (length (load_jobs k)))]"

definition count_fields :: "counts \<Rightarrow> (pystr \<times> json) list" where
  "count_fields n =
     [field ''leased'' (jnat (n_leased n)), field ''poison'' (jnat (n_poison n)), field ''transient'' (jnat (n_transient n)),
      field ''systemic'' (jnat (n_systemic n)), field ''durable'' (jnat (n_durable n)), field ''acked'' (jnat (n_acked n)),
      field ''circuit'' (JStr (circuit_name (n_circuit n)))]"

definition open_fields :: "counts \<Rightarrow> (pystr \<times> json) list" where
  "open_fields n = [field ''circuit'' (jtext ''OPEN''), field ''leased'' (jnat 0), field ''acked'' (jnat 0)]"

definition ingest_blocked :: "startup \<Rightarrow> exc + (pystr \<times> json) list" where
  "ingest_blocked su =
     log_event
       [field ''service'' (jtext ''ingest''), field ''status'' (jtext ''not_started''),
        field ''blocked_on'' (jtext ''queue_client''), field ''detail'' (jtext INGEST_DETAIL),
        field ''circuit_state'' (JStr (circuit_name (su_circuit su)))]"

text \<open>
  The consumer's \<open>run\<close>: without a queue client or a key lookup (\<open>build_queue\<close> returns none) it reports
  its blocker; otherwise it drains once. \<open>client\<close> is the queue with its operations.
\<close>

definition consumer_run ::
  "(nat \<Rightarrow> 'q \<Rightarrow> (pystr \<times> bytes) list \<times> 'q) \<Rightarrow> (pystr list \<Rightarrow> 'q \<Rightarrow> 'q) \<Rightarrow> (pystr list \<Rightarrow> 'q \<Rightarrow> 'q) \<Rightarrow>
   ingest_env \<Rightarrow> int \<Rightarrow> bool \<Rightarrow> 'q option \<Rightarrow> ingest \<Rightarrow> (exc + (pystr \<times> json) list) \<times> 'q option \<times> ingest" where
  "consumer_run lease ack nack E now_ms has_lookup q s =
     (let (su, c') = run_startup now_ms (work (vlt s)) (ctl_conn s); s1 = s\<lparr>ctl_conn := c'\<rparr> in
      case q of
        Some q0 \<Rightarrow>
          if has_lookup then
            (case drain_once lease ack nack E now_ms None 32 [] q0 s1 of
               (Inl e, D) \<Rightarrow> (Inl e, Some (dq D), st D)
             | (Inr n, D) \<Rightarrow>
                 (log_event ([field ''service'' (jtext ''ingest''), field ''status'' (jtext ''drained'')] @
                    (if circuit_state (work (vlt s1)) = OPEN then open_fields n else count_fields n)), Some (dq D), st D))
          else (ingest_blocked su, q, s1)
      | None \<Rightarrow> (ingest_blocked su, q, s1))"

lemma field_clean: "carries_content (field k (JStr s)) \<longleftrightarrow> k \<in> set FORBIDDEN_KEYS" "carries_content (field k (JInt i)) \<longleftrightarrow> k \<in> set FORBIDDEN_KEYS"
  by (auto simp: carries_content_def field_def)

text \<open>No entry point ever trips over its own log.\<close>

lemma dispatcher_run_logs: "\<exists>r c'. dispatcher_run now d c = (Inr r, c')"
  by (auto simp: dispatcher_run_def log_event_def field_clean jtext_def jnat_def FORBIDDEN_KEYS_def split: prod.split)

lemma scheduler_run_logs: "\<exists>r. scheduler_run k = Inr r"
  by (simp add: scheduler_run_def log_event_def field_clean jtext_def jnat_def FORBIDDEN_KEYS_def)

lemma dispatcher_run_frame:
  assumes "dispatcher_run now d c = (r, c')"
  shows "work c' = (work c)\<lparr>send_attempts := send_attempts (work c')\<rparr>" "consumed (work c') = consumed (work c)"
    "\<forall>a\<in>set (send_attempts (work c')). atm_state a \<noteq> SUBMITTING"
proof -
  obtain s where "run_startup now d c = (s, c')" using assms by (auto simp: dispatcher_run_def split: prod.splits)
  note f = run_startup_frame [OF this]
  show "work c' = (work c)\<lparr>send_attempts := send_attempts (work c')\<rparr>" "consumed (work c') = consumed (work c)"
    "\<forall>a\<in>set (send_attempts (work c')). atm_state a \<noteq> SUBMITTING" using f by blast+
qed

section \<open>Read receipts\<close>

datatype mark_result = MR_DENIED string | MR_OK

definition mark_read ::
  "crypto \<Rightarrow> ('p \<Rightarrow> pystr \<Rightarrow> 'p) \<Rightarrow> pystr \<Rightarrow> pystr \<Rightarrow> pystr \<Rightarrow> int \<Rightarrow> vault_db \<Rightarrow> control \<Rightarrow> 'p \<Rightarrow> (exc + mark_result) \<times> control \<times> 'p" where
  "mark_read C send_mark conversation_id wamid account_id now_ms d c p =
     (case List.find (\<lambda>m. msg_wamid m = Some wamid \<and> msg_account_id m = account_id) (messages d) of
        None \<Rightarrow> (Inr (MR_DENIED ''UNKNOWN_TARGET''), c, p)
      | Some m \<Rightarrow>
          if msg_conversation_id m \<noteq> conversation_id then (Inr (MR_DENIED ''TARGET_CONVERSATION_MISMATCH''), c, p)
          else if msg_direction m \<noteq> In then (Inr (MR_DENIED ''NOT_INBOUND''), c, p)
          else (case verify_and_consume C (lit ''MARK_READ'') conversation_id now_ms c of
              (Inl e, c') \<Rightarrow> (Inl e, c', p)
            | (Inr False, c') \<Rightarrow> (Inr (MR_DENIED ''AUTHORIZATION_MISSING''), c', p)
            | (Inr True, c') \<Rightarrow> (Inr MR_OK, c', send_mark p wamid)))"

text \<open>A receipt goes out only for an inbound message of the named conversation, against one action of a signed grant.\<close>

lemma mark_read_ok:
  assumes "control_inv (work c)" "mark_read C send_mark cid w a now d c p = (Inr MR_OK, c', p')"
  obtains m g where "m \<in> set (messages d)" "msg_wamid m = Some w" "msg_account_id m = a" "msg_conversation_id m = cid" "msg_direction m = In"
    "authorises C (lit ''MARK_READ'') cid now (work c) g" "work c' = bump (cap_id g) (cap_used_count g) (work c)" "clean c'" "p' = send_mark p w"
proof -
  from assms(2) obtain m where m: "List.find (\<lambda>m. msg_wamid m = Some w \<and> msg_account_id m = a) (messages d) = Some m"
    "msg_conversation_id m = cid" "msg_direction m = In"
    "verify_and_consume C (lit ''MARK_READ'') cid now c = (Inr True, c')" "p' = send_mark p w"
    by (auto simp: mark_read_def split: option.splits if_splits sum.splits prod.splits bool.splits)
  obtain g where "authorises C (lit ''MARK_READ'') cid now (work c) g" "clean c'"
    "work c' = bump (cap_id g) (cap_used_count g) (work c)"
    by (rule verify_and_consume_True [OF assms(1) m(4)])
  with m find_SomeD [OF m(1)] show thesis by (intro that [of m g]) auto
qed

lemma mark_read_denied:
  assumes "control_inv (work c)" "mark_read C send_mark cid w a now d c p = (Inr (MR_DENIED why), c', p')"
  shows "c' = c" "p' = p"
  using assms verify_and_consume_False [OF assms(1)]
  by (auto simp: mark_read_def split: option.splits if_splits sum.splits prod.splits bool.splits)

section \<open>Topology\<close>

record proc =
  pr_name :: string
  pr_holds_meta_token :: bool
  pr_holds_vault_key :: bool
  pr_can_approve :: bool

definition PROCESSES :: "proc list" where
  "PROCESSES =
     \<lparr>pr_name = ''whatsvault-meta'', pr_holds_meta_token = True, pr_holds_vault_key = True, pr_can_approve = False\<rparr> #
     map (\<lambda>n. \<lparr>pr_name = n, pr_holds_meta_token = False, pr_holds_vault_key = True, pr_can_approve = False\<rparr>)
       [''mcp'', ''ingest'', ''scheduler'', ''dispatcher'', ''cli'']"

definition check_invariants :: "proc list \<Rightarrow> finding list" where
  "check_invariants procs =
     (let holders = map pr_name (filter pr_holds_meta_token procs); approvers = map pr_name (filter pr_can_approve procs) in
      [\<lparr>fd_check = ''single_meta_token_holder'', fd_ok = (length holders = 1), fd_detail = lit ''holders='' @ list_repr holders\<rparr>,
       \<lparr>fd_check = ''meta_token_holder_is_daemon'', fd_ok = (holders = [''whatsvault-meta'']), fd_detail = lit ''holders='' @ list_repr holders\<rparr>,
       \<lparr>fd_check = ''no_process_can_approve'', fd_ok = (length approvers = 0), fd_detail = lit ''approvers='' @ list_repr approvers\<rparr>])"

lemma check_invariants_iff:
  "list_all fd_ok (check_invariants ps) \<longleftrightarrow>
     map pr_name (filter pr_holds_meta_token ps) = [''whatsvault-meta''] \<and> (\<forall>p\<in>set ps. \<not> pr_can_approve p)"
  by (auto simp: check_invariants_def Let_def filter_empty_conv)

lemma topology_ok: "list_all fd_ok (check_invariants PROCESSES)"
  by (simp add: check_invariants_iff PROCESSES_def)

end
