(* ===== verification/Audit_Log.thy ===== *)
theory Audit_Log
  imports Devices Json
begin

text \<open>
  The audit log (\<open>mcp/audit.py\<close>): the arguments of a call enter it only as a keyed HMAC over their
  canonical JSON text. \<open>record_audit\<close> commits the connection.
\<close>

definition args_hmac :: "crypto \<Rightarrow> bytes \<Rightarrow> json \<Rightarrow> exc + pystr" where
  "args_hmac C audit_key args =
     (case utf8 (compact args) of Inl e \<Rightarrow> Inl e | Inr b \<Rightarrow> Inr (hex_of (hmac_sha256 C audit_key b)))"

definition record_audit ::
  "crypto \<Rightarrow> pystr \<Rightarrow> bytes \<Rightarrow> string \<Rightarrow> string \<Rightarrow> json \<Rightarrow> string \<Rightarrow> int \<Rightarrow> control \<Rightarrow> (exc + unit) \<times> control" where
  "record_audit C u audit_key actor tool args outcome now c =
     (case args_hmac C audit_key args of
        Inl e \<Rightarrow> (Inl e, c)
      | Inr h \<Rightarrow>
          (case ins_audit \<lparr>aud_id = mk_id ''aud'' u, aud_actor = actor, aud_tool = tool, aud_args_hash = h,
                  aud_outcome = outcome, aud_ts_ms = now\<rparr> (work c) of
             Inl e \<Rightarrow> (Inl e, c)
           | Inr w \<Rightarrow> (Inr (), commit (c\<lparr>work := w\<rparr>))))"

lemma record_audit_cases:
  assumes "record_audit C u k actor tool args outcome now c = (r, c')"
  obtains (raised) e where "r = Inl e" "c' = c"
    | (written) row where "r = Inr ()" "clean c'" "work c' = (work c)\<lparr>audit_log := audit_log (work c) @ [row]\<rparr>"
        "aud_tool row = tool" "aud_outcome row = outcome"
  using assms by (auto simp: record_audit_def split: sum.splits dest!: ins_audit_Inr)

text \<open>The row keeps the key of the HMAC's argument only: equal canonical texts, equal rows up to the id.\<close>

lemma args_hmac_canonical:
  assumes "distinct (map fst kvs)" "distinct (map fst kvs')" "set kvs = set kvs'"
  shows "args_hmac C k (JObj kvs) = args_hmac C k (JObj kvs')"
  unfolding args_hmac_def compact_def dumps_order [OF assms] by (rule refl)

end
