(* ===== verification/OAuth.thy ===== *)
theory OAuth
  imports Audit_Log
begin

text \<open>
  The OAuth 2.1 authorization server of the public connector (\<open>mcp/oauth.py\<close>). Random values
  (\<open>secrets\<close>), ULIDs and the wall clock are arguments. A value that \<open>str(x or "")\<close> normalises is an
  optional string. The record \<open>py_text\<close> holds two methods of Python's \<open>str\<close> whose Unicode tables are
  not modelled.
\<close>

record py_text =
  str_strip :: "pystr \<Rightarrow> pystr"
  str_upper :: "pystr \<Rightarrow> pystr"

definition READ_ONLY_SCOPE :: pystr where "READ_ONLY_SCOPE = lit ''whatsvault.read''"
definition CODE_TTL_MS :: int where "CODE_TTL_MS = 60000"
definition PENDING_TTL_MS :: int where "PENDING_TTL_MS = 600000"
definition ACCESS_TTL_MS :: int where "ACCESS_TTL_MS = 3600000"
definition REFRESH_TTL_MS :: int where "REFRESH_TTL_MS = 30 * 24 * 3600000"
definition MAX_STATE_LEN :: nat where "MAX_STATE_LEN = 512"
definition MAX_CHALLENGE_LEN :: nat where "MAX_CHALLENGE_LEN = 128"
definition MIN_CHALLENGE_LEN :: nat where "MIN_CHALLENGE_LEN = 43"
definition MAX_REDIRECT_LEN :: nat where "MAX_REDIRECT_LEN = 512"
definition MAX_REDIRECT_URIS :: nat where "MAX_REDIRECT_URIS = 10"
definition MAX_CLIENT_NAME_LEN :: nat where "MAX_CLIENT_NAME_LEN = 200"
definition MAX_PENDING :: nat where "MAX_PENDING = 25"

section \<open>Rows\<close>

definition ins_client :: "client_row \<Rightarrow> control_db \<Rightarrow> exc + control_db" where
  "ins_client r d =
     (case ins (\<lambda>_. True) (\<lambda>a b. cli_id a = cli_id b) r (oauth_clients d) of
        Inl e \<Rightarrow> Inl e | Inr t \<Rightarrow> Inr (d\<lparr>oauth_clients := t\<rparr>))"

definition has_client :: "control_db \<Rightarrow> pystr \<Rightarrow> bool" where
  "has_client d i \<longleftrightarrow> list_ex (\<lambda>r. cli_id r = i) (oauth_clients d)"

definition ins_pending :: "pending_row \<Rightarrow> control_db \<Rightarrow> exc + control_db" where
  "ins_pending r d =
     (case ins (\<lambda>r. has_client d (pnd_client_id r))
             (\<lambda>a b. pnd_request_id a = pnd_request_id b \<or> pnd_user_code a = pnd_user_code b) r (oauth_pending d) of
        Inl e \<Rightarrow> Inl e | Inr t \<Rightarrow> Inr (d\<lparr>oauth_pending := t\<rparr>))"

definition ins_code :: "code_row \<Rightarrow> control_db \<Rightarrow> exc + control_db" where
  "ins_code r d =
     (case ins (\<lambda>r. has_client d (cod_client_id r)) (\<lambda>a b. cod_hash a = cod_hash b) r (oauth_codes d) of
        Inl e \<Rightarrow> Inl e | Inr t \<Rightarrow> Inr (d\<lparr>oauth_codes := t\<rparr>))"

definition ins_token :: "token_row \<Rightarrow> control_db \<Rightarrow> exc + control_db" where
  "ins_token r d =
     (case ins (\<lambda>r. has_client d (tok_client_id r) \<and> tok_scope r = READ_ONLY_SCOPE)
             (\<lambda>a b. tok_hash a = tok_hash b) r (oauth_tokens d) of
        Inl e \<Rightarrow> Inl e | Inr t \<Rightarrow> Inr (d\<lparr>oauth_tokens := t\<rparr>))"

section \<open>Helpers\<close>

definition nz :: "pystr option \<Rightarrow> pystr" where
  "nz v = (case v of None \<Rightarrow> [] | Some s \<Rightarrow> s)"

definition audit_event ::
  "crypto \<Rightarrow> pystr \<Rightarrow> bytes option \<Rightarrow> string \<Rightarrow> string \<Rightarrow> json \<Rightarrow> int \<Rightarrow> control \<Rightarrow> (exc + unit) \<times> control" where
  "audit_event C u key tool outcome args now c =
     (case key of None \<Rightarrow> (Inr (), c)
      | Some k \<Rightarrow> record_audit C u k ''oauth'' tool args outcome now c)"

definition bounded :: "pystr option \<Rightarrow> nat \<Rightarrow> exc + pystr" where
  "bounded v limit = (if limit < length (nz v) then Inl (OAuthError ''invalid_request'') else Inr (nz v))"

definition hash_str :: "crypto \<Rightarrow> pystr \<Rightarrow> exc + pystr" where
  "hash_str C v = (case utf8 v of Inl e \<Rightarrow> Inl e | Inr b \<Rightarrow> Inr (hex_of (sha256 C b)))"

text \<open>\<open>hmac.compare_digest\<close> on strings raises \<open>TypeError\<close> for a character outside ASCII.\<close>

definition compare_digest :: "pystr \<Rightarrow> pystr \<Rightarrow> exc + bool" where
  "compare_digest a b = (if \<forall>c\<in>set (a @ b). c < 128 then Inr (a = b) else Inl TypeError)"

text \<open>\<open>base64.urlsafe_b64encode(b).rstrip(b"=")\<close>.\<close>

definition b64_char :: "nat \<Rightarrow> nat" where
  "b64_char n = (if n < 26 then 65 + n else if n < 52 then 71 + n else if n < 62 then n - 4 else if n = 62 then 45 else 95)"

fun b64url :: "bytes \<Rightarrow> pystr" where
  "b64url [] = []"
| "b64url [a] = map b64_char [unat a div 4, unat a mod 4 * 16]"
| "b64url [a, b] = map b64_char [unat a div 4, unat a mod 4 * 16 + unat b div 16, unat b mod 16 * 4]"
| "b64url (a # b # c # r) =
     map b64_char [unat a div 4, unat a mod 4 * 16 + unat b div 16, unat b mod 16 * 4 + unat c div 64, unat c mod 64] @
     b64url r"

text \<open>\<open>s.encode("ascii", "ignore")\<close>.\<close>

definition ascii_ignore :: "pystr \<Rightarrow> bytes" where
  "ascii_ignore s = map of_nat (filter (\<lambda>c. c < 128) s)"

definition pkce_challenge :: "crypto \<Rightarrow> pystr \<Rightarrow> pystr" where
  "pkce_challenge C verifier = b64url (sha256 C (ascii_ignore verifier))"

section \<open>Clients\<close>

text \<open>The loop over the redirect URIs: bounded, https, without a fragment.\<close>

primrec check_uris :: "pystr list \<Rightarrow> exc + unit" where
  "check_uris [] = Inr ()"
| "check_uris (u # us) =
     (case bounded (Some u) MAX_REDIRECT_LEN of
        Inl e \<Rightarrow> Inl e
      | Inr _ \<Rightarrow>
          if take 8 u \<noteq> lit ''https://'' then Inl (OAuthError ''invalid_redirect_uri'')
          else if 35 \<in> set u then Inl (OAuthError ''invalid_redirect_uri'')
          else check_uris us)"

definition register_client ::
  "pystr \<Rightarrow> pystr option \<Rightarrow> pystr list \<Rightarrow> int \<Rightarrow> control \<Rightarrow> (exc + pystr) \<times> control" where
  "register_client rnd client_name uris now c =
     (if uris = [] then (Inl (OAuthError ''invalid_redirect_uri''), c)
      else if MAX_REDIRECT_URIS < length uris then (Inl (OAuthError ''invalid_redirect_uri''), c)
      else (case check_uris uris of
          Inl e \<Rightarrow> (Inl e, c)
        | Inr _ \<Rightarrow>
            (let i = lit ''wvc_'' @ rnd in
             case ins_client \<lparr>cli_id = i, cli_name = take MAX_CLIENT_NAME_LEN (nz client_name),
                    cli_redirect_uris = uris, cli_created_ms = now\<rparr> (work c) of
               Inl e \<Rightarrow> (Inl e, c)
             | Inr w \<Rightarrow> (Inr i, commit (c\<lparr>work := w\<rparr>)))))"

definition client_of :: "control_db \<Rightarrow> pystr option \<Rightarrow> exc + client_row" where
  "client_of d client_id =
     (case List.find (\<lambda>r. cli_id r = nz client_id) (oauth_clients d) of
        None \<Rightarrow> Inl (OAuthError ''invalid_client'') | Some r \<Rightarrow> Inr r)"

text \<open>\<open>any(...)\<close> stops at the first match; a comparison before it may raise.\<close>

primrec any_match :: "pystr \<Rightarrow> pystr list \<Rightarrow> exc + bool" where
  "any_match p [] = Inr False"
| "any_match p (k # ks) =
     (case compare_digest p k of Inl e \<Rightarrow> Inl e | Inr b \<Rightarrow> if b then Inr True else any_match p ks)"

definition check_redirect :: "client_row \<Rightarrow> pystr option \<Rightarrow> exc + pystr" where
  "check_redirect r redirect_uri =
     (case any_match (nz redirect_uri) (cli_redirect_uris r) of
        Inl e \<Rightarrow> Inl e
      | Inr b \<Rightarrow> if b then Inr (nz redirect_uri) else Inl (OAuthError ''invalid_redirect_uri''))"

section \<open>Authorization\<close>

definition expire_db :: "int \<Rightarrow> control_db \<Rightarrow> control_db" where
  "expire_db now d =
     d\<lparr>oauth_pending := del (\<lambda>r. pnd_expires_ms r \<le> now) (oauth_pending d),
       oauth_codes := del (\<lambda>r. cod_expires_ms r \<le> now) (oauth_codes d),
       oauth_tokens := del (\<lambda>r. tok_expires_ms r \<le> now) (oauth_tokens d)\<rparr>"

definition collect_expired :: "int \<Rightarrow> control \<Rightarrow> nat \<times> control" where
  "collect_expired now c =
     (rowcount (\<lambda>r. pnd_expires_ms r \<le> now) (oauth_pending (work c)) +
      rowcount (\<lambda>r. cod_expires_ms r \<le> now) (oauth_codes (work c)) +
      rowcount (\<lambda>r. tok_expires_ms r \<le> now) (oauth_tokens (work c)),
      commit (c\<lparr>work := expire_db now (work c)\<rparr>))"

definition live_pending :: "int \<Rightarrow> pending_row \<Rightarrow> bool" where
  "live_pending now r \<longleftrightarrow> pnd_approved_ms r = None \<and> now < pnd_expires_ms r"

record auth_request =
  ar_client_id :: "pystr option"
  ar_redirect_uri :: "pystr option"
  ar_code_challenge :: "pystr option"
  ar_method :: "pystr option"
  ar_state :: "pystr option"

text \<open>Lines 190 to 204: the checks of a request, in their order.\<close>

definition check_request :: "py_text \<Rightarrow> auth_request \<Rightarrow> control_db \<Rightarrow> exc + (client_row \<times> pystr \<times> pystr option \<times> pystr)" where
  "check_request T a d =
     (case client_of d (ar_client_id a) of
        Inl e \<Rightarrow> Inl e
      | Inr row \<Rightarrow>
     (case check_redirect row (ar_redirect_uri a) of
        Inl e \<Rightarrow> Inl e
      | Inr redirect \<Rightarrow>
     (case (case ar_state a of None \<Rightarrow> Inr None
            | Some s \<Rightarrow> (case bounded (Some s) MAX_STATE_LEN of Inl e \<Rightarrow> Inl e | Inr x \<Rightarrow> Inr (Some x))) of
        Inl e \<Rightarrow> Inl e
      | Inr state \<Rightarrow>
          if \<not> truthy (ar_code_challenge a) then Inl (OAuthError ''invalid_request'')
          else
     (case bounded (ar_code_challenge a) MAX_CHALLENGE_LEN of
        Inl e \<Rightarrow> Inl e
      | Inr challenge \<Rightarrow>
          if length challenge < MIN_CHALLENGE_LEN then Inl (OAuthError ''invalid_request'')
          else if str_upper T (nz (ar_method a)) \<noteq> lit ''S256'' then Inl (OAuthError ''invalid_request'')
          else Inr (row, redirect, state, challenge)))))"

definition user_code :: "pystr \<Rightarrow> pystr" where
  "user_code body = take 5 body @ [45] @ drop 5 body"

definition begin_authorization ::
  "py_text \<Rightarrow> pystr \<Rightarrow> pystr \<Rightarrow> auth_request \<Rightarrow> int \<Rightarrow> control \<Rightarrow> (exc + pystr \<times> pystr) \<times> control" where
  "begin_authorization T rnd body a now c =
     (let c1 = snd (collect_expired now c) in
      if MAX_PENDING \<le> rowcount (live_pending now) (oauth_pending (work c1))
      then (Inl (OAuthError ''temporarily_unavailable''), c1)
      else (case check_request T a (work c1) of
          Inl e \<Rightarrow> (Inl e, c1)
        | Inr (row, redirect, state, challenge) \<Rightarrow>
            (let i = lit ''wvr_'' @ rnd in
             case ins_pending \<lparr>pnd_request_id = i, pnd_user_code = user_code body, pnd_client_id = cli_id row,
                    pnd_redirect_uri = redirect, pnd_state = state, pnd_code_challenge = challenge,
                    pnd_scope = READ_ONLY_SCOPE, pnd_created_ms = now, pnd_expires_ms = now + PENDING_TTL_MS,
                    pnd_approved_ms = None, pnd_collected_ms = None\<rparr> (work c1) of
               Inl e \<Rightarrow> (Inl e, c1)
             | Inr w \<Rightarrow> (Inr (i, user_code body), commit (c1\<lparr>work := w\<rparr>)))))"

text \<open>The list shown to the operator, ordered by creation.\<close>

definition pending_requests :: "control_db \<Rightarrow> int \<Rightarrow> pending_row list" where
  "pending_requests d now =
     sort_key pnd_created_ms (filter (\<lambda>r. live_pending now r \<and> has_client d (pnd_client_id r)) (oauth_pending d))"

definition approve ::
  "crypto \<Rightarrow> py_text \<Rightarrow> pystr \<Rightarrow> bytes option \<Rightarrow> pystr option \<Rightarrow> int \<Rightarrow> control \<Rightarrow> (exc + pystr \<times> pystr) \<times> control" where
  "approve C T u key code now c =
     (case List.find (\<lambda>r. pnd_user_code r = str_upper T (str_strip T (nz code))) (oauth_pending (work c)) of
        None \<Rightarrow> (Inl (OAuthError ''invalid_request''), c)
      | Some row \<Rightarrow>
          if pnd_approved_ms row \<noteq> None then (Inl (OAuthError ''invalid_request''), c)
          else if pnd_expires_ms row < now then (Inl (OAuthError ''expired_token''), c)
          else
            (let c1 = c\<lparr>work := (work c)\<lparr>oauth_pending := upd (\<lambda>r. pnd_request_id r = pnd_request_id row)
                   (pnd_approved_ms_update (\<lambda>_. Some now)) (oauth_pending (work c))\<rparr>\<rparr> in
             case audit_event C u key ''oauth.approve'' ''ok''
                    (JObj [(lit ''request_id'', JStr (pnd_request_id row)), (lit ''client_id'', JStr (pnd_client_id row))])
                    now c1 of
               (Inl e, c2) \<Rightarrow> (Inl e, c2)
             | (Inr _, c2) \<Rightarrow> (Inr (pnd_request_id row, pnd_client_id row), commit c2)))"

definition pollable :: "int \<Rightarrow> pending_row \<Rightarrow> bool" where
  "pollable now r \<longleftrightarrow> pnd_approved_ms r \<noteq> None \<and> pnd_collected_ms r = None \<and> now \<le> pnd_expires_ms r"

definition poll ::
  "crypto \<Rightarrow> pystr \<Rightarrow> pystr option \<Rightarrow> int \<Rightarrow> control \<Rightarrow> (exc + (pystr \<times> pystr option \<times> pystr) option) \<times> control" where
  "poll C code request_id now c =
     (case List.find (\<lambda>r. pnd_request_id r = nz request_id) (oauth_pending (work c)) of
        None \<Rightarrow> (Inr None, c)
      | Some row \<Rightarrow>
          if \<not> pollable now row then (Inr None, c)
          else (case hash_str C code of
              Inl e \<Rightarrow> (Inl e, c)
            | Inr h \<Rightarrow>
                (case ins_code \<lparr>cod_hash = h, cod_client_id = pnd_client_id row,
                        cod_redirect_uri = pnd_redirect_uri row, cod_code_challenge = pnd_code_challenge row,
                        cod_scope = pnd_scope row, cod_issued_ms = now, cod_expires_ms = now + CODE_TTL_MS,
                        cod_consumed_ms = None\<rparr> (work c) of
                   Inl e \<Rightarrow> (Inl e, c)
                 | Inr w \<Rightarrow>
                     (Inr (Some (code, pnd_state row, pnd_redirect_uri row)),
                      commit (c\<lparr>work := w\<lparr>oauth_pending := upd (\<lambda>r. pnd_request_id r = pnd_request_id row)
                        (pnd_collected_ms_update (\<lambda>_. Some now)) (oauth_pending w)\<rparr>\<rparr>)))))"

section \<open>Tokens\<close>

record secrets_drawn =
  sd_access :: pystr
  sd_refresh :: pystr
  sd_grant :: pystr
  sd_ulid :: pystr

definition new_token :: "pystr \<Rightarrow> token_kind \<Rightarrow> pystr \<Rightarrow> int \<Rightarrow> pystr \<Rightarrow> token_row" where
  "new_token h kind client_id now grant =
     \<lparr>tok_hash = h, tok_kind = kind, tok_client_id = client_id, tok_scope = READ_ONLY_SCOPE,
      tok_issued_ms = now,
      tok_expires_ms = now + (case kind of Access \<Rightarrow> ACCESS_TTL_MS | Refresh \<Rightarrow> REFRESH_TTL_MS),
      tok_revoked_ms = None, tok_grant_id = Some grant\<rparr>"

definition put_token :: "crypto \<Rightarrow> pystr \<Rightarrow> token_kind \<Rightarrow> pystr \<Rightarrow> int \<Rightarrow> pystr \<Rightarrow> control \<Rightarrow> (exc + unit) \<times> control" where
  "put_token C token kind client_id now grant c =
     (case hash_str C token of
        Inl e \<Rightarrow> (Inl e, c)
      | Inr h \<Rightarrow> (case ins_token (new_token h kind client_id now grant) (work c) of
            Inl e \<Rightarrow> (Inl e, c) | Inr w \<Rightarrow> (Inr (), c\<lparr>work := w\<rparr>)))"

definition issue ::
  "crypto \<Rightarrow> secrets_drawn \<Rightarrow> bytes option \<Rightarrow> pystr \<Rightarrow> int \<Rightarrow> pystr option \<Rightarrow> control \<Rightarrow> (exc + pystr \<times> pystr) \<times> control" where
  "issue C sd key client_id now grant_id c =
     (let grant = (if truthy grant_id then the grant_id else lit ''wvg_'' @ sd_grant sd) in
      case put_token C (sd_access sd) Access client_id now grant c of
        (Inl e, c1) \<Rightarrow> (Inl e, c1)
      | (Inr _, c1) \<Rightarrow>
          (case put_token C (sd_refresh sd) Refresh client_id now grant c1 of
             (Inl e, c2) \<Rightarrow> (Inl e, c2)
           | (Inr _, c2) \<Rightarrow>
               (case audit_event C (sd_ulid sd) key ''oauth.token_issued'' ''ok''
                      (JObj [(lit ''client_id'', JStr client_id), (lit ''grant_id'', JStr grant),
                             (lit ''scope'', JStr READ_ONLY_SCOPE)]) now c2 of
                  (Inl e, c3) \<Rightarrow> (Inl e, c3)
                | (Inr _, c3) \<Rightarrow> (Inr (sd_access sd, sd_refresh sd), commit c3))))"

definition kill :: "int \<Rightarrow> (token_row \<Rightarrow> bool) \<Rightarrow> control_db \<Rightarrow> control_db" where
  "kill now p d = d\<lparr>oauth_tokens :=
     upd (\<lambda>r. p r \<and> tok_revoked_ms r = None) (tok_revoked_ms_update (\<lambda>_. Some now)) (oauth_tokens d)\<rparr>"

definition of_grant :: "pystr option \<Rightarrow> token_row \<Rightarrow> bool" where
  "of_grant g r \<longleftrightarrow> same_key g (tok_grant_id r)"

definition revoke_family :: "pystr option \<Rightarrow> int \<Rightarrow> control \<Rightarrow> nat \<times> control" where
  "revoke_family g now c =
     (rowcount (\<lambda>r. of_grant g r \<and> tok_revoked_ms r = None) (oauth_tokens (work c)),
      commit (c\<lparr>work := kill now (of_grant g) (work c)\<rparr>))"

record code_request =
  xr_code :: "pystr option"
  xr_client_id :: "pystr option"
  xr_redirect_uri :: "pystr option"
  xr_verifier :: "pystr option"

definition check_code :: "crypto \<Rightarrow> code_request \<Rightarrow> int \<Rightarrow> control_db \<Rightarrow> exc + code_row" where
  "check_code C x now d =
     (case hash_str C (nz (xr_code x)) of
        Inl e \<Rightarrow> Inl e
      | Inr h \<Rightarrow>
     (case List.find (\<lambda>r. cod_hash r = h) (oauth_codes d) of
        None \<Rightarrow> Inl (OAuthError ''invalid_grant'')
      | Some row \<Rightarrow>
          if cod_consumed_ms row \<noteq> None then Inl (OAuthError ''invalid_grant'')
          else if cod_expires_ms row < now then Inl (OAuthError ''invalid_grant'')
          else
     (case compare_digest (nz (xr_client_id x)) (cod_client_id row) of
        Inl e \<Rightarrow> Inl e
      | Inr same \<Rightarrow>
          if \<not> same then Inl (OAuthError ''invalid_grant'')
          else
     (case compare_digest (nz (xr_redirect_uri x)) (cod_redirect_uri row) of
        Inl e \<Rightarrow> Inl e
      | Inr same' \<Rightarrow>
          if \<not> same' then Inl (OAuthError ''invalid_grant'')
          else
     (case compare_digest (pkce_challenge C (nz (xr_verifier x))) (cod_code_challenge row) of
        Inl e \<Rightarrow> Inl e
      | Inr proved \<Rightarrow> if \<not> proved then Inl (OAuthError ''invalid_grant'') else Inr row)))))"

definition exchange_code ::
  "crypto \<Rightarrow> secrets_drawn \<Rightarrow> bytes option \<Rightarrow> code_request \<Rightarrow> int \<Rightarrow> control \<Rightarrow> (exc + pystr \<times> pystr) \<times> control" where
  "exchange_code C sd key x now c =
     (case check_code C x now (work c) of
        Inl e \<Rightarrow> (Inl e, c)
      | Inr row \<Rightarrow>
          (let p = (\<lambda>r. cod_hash r = cod_hash row \<and> cod_consumed_ms r = None);
               c1 = c\<lparr>work := (work c)\<lparr>oauth_codes := upd p (cod_consumed_ms_update (\<lambda>_. Some now)) (oauth_codes (work c))\<rparr>\<rparr> in
           if rowcount p (oauth_codes (work c)) \<noteq> 1 then (Inl (OAuthError ''invalid_grant''), c1)
           else issue C sd key (cod_client_id row) now None c1))"

definition refresh ::
  "crypto \<Rightarrow> secrets_drawn \<Rightarrow> bytes option \<Rightarrow> pystr option \<Rightarrow> pystr option \<Rightarrow> int \<Rightarrow> control \<Rightarrow> (exc + pystr \<times> pystr) \<times> control" where
  "refresh C sd key refresh_token client_id now c =
     (case hash_str C (nz refresh_token) of
        Inl e \<Rightarrow> (Inl e, c)
      | Inr h \<Rightarrow>
     (case List.find (\<lambda>r. tok_hash r = h \<and> tok_kind r = Refresh) (oauth_tokens (work c)) of
        None \<Rightarrow> (Inl (OAuthError ''invalid_grant''), c)
      | Some row \<Rightarrow>
          if tok_revoked_ms row \<noteq> None then
            (case revoke_family (tok_grant_id row) now c of
               (killed, c1) \<Rightarrow>
                 (case audit_event C (sd_ulid sd) key ''oauth.refresh_reuse_detected'' ''revoked''
                        (JObj [(lit ''grant_id'', case tok_grant_id row of None \<Rightarrow> JNull | Some g \<Rightarrow> JStr g),
                               (lit ''tokens_revoked'', JInt (int killed))]) now c1 of
                    (Inl e, c2) \<Rightarrow> (Inl e, c2)
                  | (Inr _, c2) \<Rightarrow> (Inl (OAuthError ''invalid_grant''), c2)))
          else if tok_expires_ms row < now then (Inl (OAuthError ''invalid_grant''), c)
          else
     (case compare_digest (nz client_id) (tok_client_id row) of
        Inl e \<Rightarrow> (Inl e, c)
      | Inr same \<Rightarrow>
          if \<not> same then (Inl (OAuthError ''invalid_grant''), c)
          else issue C sd key (tok_client_id row) now (tok_grant_id row)
                 (c\<lparr>work := kill now (of_grant (tok_grant_id row)) (work c)\<rparr>))))"

definition validate_access_token :: "crypto \<Rightarrow> py_text \<Rightarrow> control_db \<Rightarrow> pystr option \<Rightarrow> int \<Rightarrow> (pystr \<times> pystr) option" where
  "validate_access_token C T d token now =
     (if \<not> truthy token \<or> str_strip T (nz token) = [] then None
      else (case hash_str C (nz token) of
          Inl _ \<Rightarrow> None
        | Inr h \<Rightarrow> (case List.find (\<lambda>r. tok_hash r = h \<and> tok_kind r = Access) (oauth_tokens d) of
              None \<Rightarrow> None
            | Some row \<Rightarrow> if tok_revoked_ms row \<noteq> None \<or> tok_expires_ms row < now then None
                          else Some (tok_client_id row, tok_scope row))))"

definition revoke_all :: "crypto \<Rightarrow> pystr \<Rightarrow> bytes option \<Rightarrow> int \<Rightarrow> control \<Rightarrow> (exc + nat) \<times> control" where
  "revoke_all C u key now c =
     (let n = rowcount (\<lambda>r. tok_revoked_ms r = None) (oauth_tokens (work c));
          c1 = c\<lparr>work := kill now (\<lambda>_. True) (work c)\<rparr> in
      case audit_event C u key ''oauth.revoke_all'' ''ok'' (JObj [(lit ''tokens_revoked'', JInt (int n))]) now c1 of
        (Inl e, c2) \<Rightarrow> (Inl e, c2)
      | (Inr _, c2) \<Rightarrow> (Inr n, commit c2))"

end
