(* ===== verification/OAuth_Safety.thy ===== *)
theory OAuth_Safety
  imports OAuth
begin

text \<open>
  The invariant of the authorization server's tables, its preservation by every operation, and
  what follows for codes and tokens.
\<close>

section \<open>The invariant\<close>

definition uris_ok :: "pystr list \<Rightarrow> bool" where
  "uris_ok us \<longleftrightarrow> us \<noteq> [] \<and> length us \<le> MAX_REDIRECT_URIS \<and>
     (\<forall>u\<in>set us. length u \<le> MAX_REDIRECT_LEN \<and> take 8 u = lit ''https://'' \<and> 35 \<notin> set u)"

definition registered :: "control_db \<Rightarrow> pystr \<Rightarrow> pystr \<Rightarrow> bool" where
  "registered d i u \<longleftrightarrow> (\<exists>r\<in>set (oauth_clients d). cli_id r = i \<and> u \<in> set (cli_redirect_uris r))"

definition clients_ok :: "control_db \<Rightarrow> bool" where
  "clients_ok d \<longleftrightarrow> distinct (map cli_id (oauth_clients d)) \<and>
     (\<forall>r\<in>set (oauth_clients d). uris_ok (cli_redirect_uris r) \<and> length (cli_name r) \<le> MAX_CLIENT_NAME_LEN)"

definition pending_row_ok :: "control_db \<Rightarrow> pending_row \<Rightarrow> bool" where
  "pending_row_ok d r \<longleftrightarrow> registered d (pnd_client_id r) (pnd_redirect_uri r) \<and> pnd_scope r = READ_ONLY_SCOPE \<and>
     MIN_CHALLENGE_LEN \<le> length (pnd_code_challenge r) \<and> length (pnd_code_challenge r) \<le> MAX_CHALLENGE_LEN \<and>
     length (nz (pnd_state r)) \<le> MAX_STATE_LEN"

definition unapproved :: "control_db \<Rightarrow> nat" where
  "unapproved d = rowcount (\<lambda>r. pnd_approved_ms r = None) (oauth_pending d)"

definition pending_ok :: "control_db \<Rightarrow> bool" where
  "pending_ok d \<longleftrightarrow> distinct (map pnd_request_id (oauth_pending d)) \<and> distinct (map pnd_user_code (oauth_pending d)) \<and>
     (\<forall>r\<in>set (oauth_pending d). pending_row_ok d r) \<and> unapproved d \<le> MAX_PENDING"

definition codes_ok :: "control_db \<Rightarrow> bool" where
  "codes_ok d \<longleftrightarrow> distinct (map cod_hash (oauth_codes d)) \<and>
     (\<forall>r\<in>set (oauth_codes d). registered d (cod_client_id r) (cod_redirect_uri r) \<and> cod_scope r = READ_ONLY_SCOPE)"

definition live :: "token_row \<Rightarrow> bool" where
  "live r \<longleftrightarrow> tok_revoked_ms r = None"

definition live_count :: "control_db \<Rightarrow> pystr \<Rightarrow> token_kind \<Rightarrow> nat" where
  "live_count d g k = rowcount (\<lambda>r. tok_grant_id r = Some g \<and> tok_kind r = k \<and> live r) (oauth_tokens d)"

definition tokens_ok :: "control_db \<Rightarrow> bool" where
  "tokens_ok d \<longleftrightarrow> distinct (map tok_hash (oauth_tokens d)) \<and>
     (\<forall>r\<in>set (oauth_tokens d). tok_scope r = READ_ONLY_SCOPE \<and> (\<exists>g. g \<noteq> [] \<and> tok_grant_id r = Some g)) \<and>
     (\<forall>g k. live_count d g k \<le> 1)"

definition oauth_inv :: "control_db \<Rightarrow> bool" where
  "oauth_inv d \<longleftrightarrow> clients_ok d \<and> pending_ok d \<and> codes_ok d \<and> tokens_ok d"

text \<open>The frame: only the four tables matter.\<close>

definition same_oauth :: "control_db \<Rightarrow> control_db \<Rightarrow> bool" where
  "same_oauth d d' \<longleftrightarrow> oauth_clients d' = oauth_clients d \<and> oauth_pending d' = oauth_pending d \<and>
     oauth_codes d' = oauth_codes d \<and> oauth_tokens d' = oauth_tokens d"

lemma same_oauth_inv: "same_oauth d d' \<Longrightarrow> oauth_inv d \<Longrightarrow> oauth_inv d'"
  by (auto simp: same_oauth_def oauth_inv_def clients_ok_def pending_ok_def codes_ok_def tokens_ok_def
      pending_row_ok_def registered_def unapproved_def live_count_def)

lemma rowcount_filter_le: "rowcount p (filter q t) \<le> rowcount p t"
  by (induction t) (auto simp: rowcount_def)

lemma rowcount_mono: "(\<And>r. r \<in> set t \<Longrightarrow> p r \<Longrightarrow> q r) \<Longrightarrow> rowcount p t \<le> rowcount q t"
  by (induction t) (auto simp: rowcount_def)

lemma rowcount_append [simp]: "rowcount p (t @ u) = rowcount p t + rowcount p u"
  by (simp add: rowcount_def)

lemma rowcount_single [simp]: "rowcount p [r] = (if p r then 1 else 0)"
  by (simp add: rowcount_def)

lemma rowcount_Nil [simp]: "rowcount p [] = 0"
  by (simp add: rowcount_def)

lemma rowcount_Cons: "rowcount p (r # t) = (if p r then 1 else 0) + rowcount p t"
  by (simp add: rowcount_def)

lemma rowcount_upd: "rowcount p (upd q f t) = rowcount (\<lambda>r. if q r then p (f r) else p r) t"
  by (induction t) (auto simp: upd_def rowcount_Cons)

lemma distinct_map_del: "distinct (map k t) \<Longrightarrow> distinct (map k (del p t))"
  by (induction t) (auto simp: del_def)

lemma set_del: "set (del p t) = {r \<in> set t. \<not> p r}"
  by (auto simp: del_def)

section \<open>Clients\<close>

lemma check_uris_ok: "check_uris us = Inr () \<Longrightarrow>
    \<forall>u\<in>set us. length u \<le> MAX_REDIRECT_LEN \<and> take 8 u = lit ''https://'' \<and> 35 \<notin> set u"
  by (induction us) (auto simp: bounded_def nz_def split: sum.splits if_splits)

lemma registered_mono: "registered d i u \<Longrightarrow> set (oauth_clients d) \<subseteq> set (oauth_clients d') \<Longrightarrow> registered d' i u"
  by (auto simp: registered_def)

lemma register_client_cases:
  assumes "register_client rnd name us now c = (r, c')"
  shows "(\<exists>e. r = Inl e) \<and> c' = c \<or>
    (\<exists>row. r = Inr (cli_id row) \<and> clean c' \<and> uris_ok (cli_redirect_uris row) \<and> length (cli_name row) \<le> MAX_CLIENT_NAME_LEN \<and>
       cli_id row \<notin> cli_id ` set (oauth_clients (work c)) \<and>
       work c' = (work c)\<lparr>oauth_clients := oauth_clients (work c) @ [row]\<rparr>)"
proof (cases r)
  case (Inl e)
  then show ?thesis using assms by (auto simp: register_client_def Let_def split: if_splits sum.splits)
next
  case (Inr i)
  define row where "row = \<lparr>cli_id = lit ''wvc_'' @ rnd, cli_name = take MAX_CLIENT_NAME_LEN (nz name),
    cli_redirect_uris = us, cli_created_ms = now\<rparr>"
  from assms Inr have us: "us \<noteq> []" "length us \<le> MAX_REDIRECT_URIS" "check_uris us = Inr ()"
    by (auto simp: register_client_def split: if_splits sum.splits)
  with assms Inr have i: "i = cli_id row" "clean c'" "ins_client row (work c) = Inr (work c')"
    by (auto simp: register_client_def Let_def row_def split: sum.splits)
  from i(3) have "cli_id row \<notin> cli_id ` set (oauth_clients (work c))"
    "work c' = (work c)\<lparr>oauth_clients := oauth_clients (work c) @ [row]\<rparr>"
    by (auto simp: ins_client_def ins_Inr split: sum.splits)
  moreover have "uris_ok (cli_redirect_uris row)" using us check_uris_ok by (auto simp: uris_ok_def row_def)
  moreover have "length (cli_name row) \<le> MAX_CLIENT_NAME_LEN" by (simp add: row_def)
  ultimately show ?thesis using Inr i(1,2) by blast
qed

lemma register_client_inv:
  assumes "oauth_inv (work c)" "register_client rnd name us now c = (r, c')"
  shows "oauth_inv (work c')"
proof -
  consider "c' = c" | row where "work c' = (work c)\<lparr>oauth_clients := oauth_clients (work c) @ [row]\<rparr>"
    "uris_ok (cli_redirect_uris row)" "length (cli_name row) \<le> MAX_CLIENT_NAME_LEN"
    "cli_id row \<notin> cli_id ` set (oauth_clients (work c))"
    using register_client_cases [OF assms(2)] by blast
  then show ?thesis
  proof cases
    case (2 row)
    have reg: "registered (work c) i u \<Longrightarrow> registered (work c') i u" for i u
      by (erule registered_mono) (simp add: 2(1) subset_insertI)
    have "clients_ok (work c')" using assms(1) 2 by (auto simp: oauth_inv_def clients_ok_def)
    moreover have "pending_ok (work c')" using assms(1) reg
      by (auto simp: oauth_inv_def pending_ok_def pending_row_ok_def unapproved_def 2(1))
    moreover have "codes_ok (work c')" using assms(1) reg by (auto simp: oauth_inv_def codes_ok_def 2(1))
    moreover have "tokens_ok (work c')" using assms(1)
      by (auto simp: oauth_inv_def tokens_ok_def live_count_def 2(1))
    ultimately show ?thesis by (simp add: oauth_inv_def)
  qed (use assms(1) in simp)
qed

section \<open>Expiry\<close>

lemma expire_tables [simp]:
  "oauth_clients (expire_db now d) = oauth_clients d"
  "oauth_pending (expire_db now d) = del (\<lambda>r. pnd_expires_ms r \<le> now) (oauth_pending d)"
  "oauth_codes (expire_db now d) = del (\<lambda>r. cod_expires_ms r \<le> now) (oauth_codes d)"
  "oauth_tokens (expire_db now d) = del (\<lambda>r. tok_expires_ms r \<le> now) (oauth_tokens d)"
  by (simp_all add: expire_db_def)

lemma registered_cong: "oauth_clients d' = oauth_clients d \<Longrightarrow> registered d' = registered d"
  by (simp add: registered_def fun_eq_iff)

lemma pending_row_ok_cong: "oauth_clients d' = oauth_clients d \<Longrightarrow> pending_row_ok d' = pending_row_ok d"
  using registered_cong [of d' d] by (simp add: pending_row_ok_def fun_eq_iff)

lemma expire_inv:
  assumes "oauth_inv d" shows "oauth_inv (expire_db now d)"
proof -
  have "clients_ok (expire_db now d)" using assms by (simp add: oauth_inv_def clients_ok_def)
  moreover have "unapproved (expire_db now d) \<le> unapproved d"
    by (simp add: unapproved_def del_def rowcount_filter_le)
  then have "pending_ok (expire_db now d)"
    using assms pending_row_ok_cong [of "expire_db now d" d]
    by (auto simp: oauth_inv_def pending_ok_def set_del distinct_map_del)
  moreover have "codes_ok (expire_db now d)"
    using assms registered_cong [of "expire_db now d" d]
    by (auto simp: oauth_inv_def codes_ok_def set_del distinct_map_del)
  moreover have le: "live_count (expire_db now d) g k \<le> live_count d g k" for g k
    by (simp add: live_count_def del_def rowcount_filter_le)
  have "live_count (expire_db now d) g k \<le> 1" for g k
    using le [of g k] assms by (auto simp: oauth_inv_def tokens_ok_def intro: order_trans)
  then have "tokens_ok (expire_db now d)" using assms
    by (auto simp: oauth_inv_def tokens_ok_def set_del distinct_map_del)
  ultimately show ?thesis by (simp add: oauth_inv_def)
qed

text \<open>What is left after a collection has not expired.\<close>

lemma collected_live: "unapproved (expire_db now d) = rowcount (live_pending now) (oauth_pending (expire_db now d))"
proof -
  have "rowcount (\<lambda>r. pnd_approved_ms r = None) (del (\<lambda>r. pnd_expires_ms r \<le> now) t) =
      rowcount (live_pending now) (del (\<lambda>r. pnd_expires_ms r \<le> now) t)" for t
    by (induction t) (auto simp: del_def rowcount_Cons live_pending_def)
  then show ?thesis by (simp add: unapproved_def)
qed

section \<open>Requests\<close>

lemma any_match_True: "any_match p ks = Inr True \<Longrightarrow> p \<in> set ks"
  by (induction ks) (auto simp: compare_digest_def split: sum.splits if_splits)

lemma check_request_ok:
  assumes "check_request T a d = Inr (row, redirect, state, challenge)"
  shows "row \<in> set (oauth_clients d)" "cli_id row = nz (ar_client_id a)" "redirect \<in> set (cli_redirect_uris row)"
    "redirect = nz (ar_redirect_uri a)" "MIN_CHALLENGE_LEN \<le> length challenge" "length challenge \<le> MAX_CHALLENGE_LEN"
    "challenge = nz (ar_code_challenge a)" "length (nz state) \<le> MAX_STATE_LEN"
    "str_upper T (nz (ar_method a)) = lit ''S256''"
proof -
  from assms obtain c: "client_of d (ar_client_id a) = Inr row" and r: "check_redirect row (ar_redirect_uri a) = Inr redirect"
    by (auto simp: check_request_def split: sum.splits option.splits if_splits)
  from c show "row \<in> set (oauth_clients d)" "cli_id row = nz (ar_client_id a)"
    by (auto simp: client_of_def split: option.splits dest: find_SomeD)
  from r show "redirect \<in> set (cli_redirect_uris row)" "redirect = nz (ar_redirect_uri a)"
    by (auto simp: check_redirect_def split: sum.splits if_splits dest: any_match_True)
  from assms c r show "MIN_CHALLENGE_LEN \<le> length challenge" "length challenge \<le> MAX_CHALLENGE_LEN"
    "challenge = nz (ar_code_challenge a)" "str_upper T (nz (ar_method a)) = lit ''S256''"
    by (auto simp: check_request_def bounded_def split: sum.splits option.splits if_splits)
  from assms c r show "length (nz state) \<le> MAX_STATE_LEN"
    by (auto simp: check_request_def bounded_def nz_def split: sum.splits option.splits if_splits)
qed

lemma begin_cases:
  assumes "begin_authorization T rnd body a now c = (r, c')"
  shows "clean c' \<and> (work c' = expire_db now (work c) \<and> (\<exists>e. r = Inl e) \<or>
    (\<exists>row. work c' = (expire_db now (work c))\<lparr>oauth_pending := oauth_pending (expire_db now (work c)) @ [row]\<rparr> \<and>
       unapproved (expire_db now (work c)) < MAX_PENDING \<and> pending_row_ok (expire_db now (work c)) row \<and>
       pnd_request_id row \<notin> pnd_request_id ` set (oauth_pending (expire_db now (work c))) \<and>
       pnd_user_code row \<notin> pnd_user_code ` set (oauth_pending (expire_db now (work c))) \<and>
       pnd_approved_ms row = None \<and> r = Inr (pnd_request_id row, pnd_user_code row)))"
proof -
  define d where "d = expire_db now (work c)"
  define c1 where "c1 = snd (collect_expired now c)"
  have c1: "work c1 = d" "clean c1" by (simp_all add: c1_def collect_expired_def d_def)
  show ?thesis
  proof (cases r)
    case (Inl e)
    with assms have "c' = c1"
      by (auto simp: begin_authorization_def Let_def c1_def split: if_splits sum.splits)
    with c1 Inl show ?thesis by (simp add: d_def)
  next
    case (Inr x)
    with assms obtain row redirect state challenge where
      full: "\<not> MAX_PENDING \<le> rowcount (live_pending now) (oauth_pending d)" and
      chk: "check_request T a d = Inr (row, redirect, state, challenge)"
      by (auto simp: begin_authorization_def Let_def c1_def [symmetric] c1(1) split: if_splits sum.splits)
    define new where "new = \<lparr>pnd_request_id = lit ''wvr_'' @ rnd, pnd_user_code = user_code body, pnd_client_id = cli_id row,
      pnd_redirect_uri = redirect, pnd_state = state, pnd_code_challenge = challenge,
      pnd_scope = READ_ONLY_SCOPE, pnd_created_ms = now, pnd_expires_ms = now + PENDING_TTL_MS,
      pnd_approved_ms = None, pnd_collected_ms = None\<rparr>"
    from assms Inr full chk have x: "x = (pnd_request_id new, pnd_user_code new)" "clean c'"
      and i: "ins_pending new d = Inr (work c')"
      by (auto simp: begin_authorization_def Let_def c1_def [symmetric] c1(1) new_def split: sum.splits)
    from i have w: "work c' = d\<lparr>oauth_pending := oauth_pending d @ [new]\<rparr>"
      "pnd_request_id new \<notin> pnd_request_id ` set (oauth_pending d)" "pnd_user_code new \<notin> pnd_user_code ` set (oauth_pending d)"
      by (auto simp: ins_pending_def ins_Inr split: sum.splits)
    have "pending_row_ok d new"
      using check_request_ok [OF chk] by (auto simp: pending_row_ok_def new_def registered_def)
    moreover have "unapproved d < MAX_PENDING" using full collected_live [of now "work c"] by (simp add: d_def)
    moreover have "pnd_approved_ms new = None" by (simp add: new_def)
    ultimately show ?thesis using x w Inr unfolding d_def [symmetric] by blast
  qed
qed

lemma begin_inv:
  assumes "oauth_inv (work c)" "begin_authorization T rnd body a now c = (r, c')"
  shows "oauth_inv (work c')"
proof -
  define d where "d = expire_db now (work c)"
  have inv: "oauth_inv d" unfolding d_def using assms(1) by (rule expire_inv)
  from begin_cases [OF assms(2)] consider "work c' = d"
    | row where "work c' = d\<lparr>oauth_pending := oauth_pending d @ [row]\<rparr>" "unapproved d < MAX_PENDING"
        "pending_row_ok d row" "pnd_request_id row \<notin> pnd_request_id ` set (oauth_pending d)"
        "pnd_user_code row \<notin> pnd_user_code ` set (oauth_pending d)"
    unfolding d_def by blast
  then show ?thesis
  proof cases
    case (2 row)
    have "pending_ok (work c')"
      using inv 2 pending_row_ok_cong [of "work c'" d]
      by (auto simp: oauth_inv_def pending_ok_def unapproved_def)
    moreover have "clients_ok (work c')" "codes_ok (work c')" "tokens_ok (work c')"
      using inv registered_cong [of "work c'" d] unfolding 2(1)
      by (auto simp: oauth_inv_def clients_ok_def codes_ok_def tokens_ok_def live_count_def)
    ultimately show ?thesis by (simp add: oauth_inv_def)
  qed (use inv in simp)
qed

section \<open>Approval and collection\<close>

lemma audit_event_frame:
  assumes "audit_event C u key tool outcome args now c = (r, c')"
  shows "same_oauth (work c) (work c')" "disk c' = disk c \<or> disk c' = work c'"
proof -
  have "c' = c \<or> (\<exists>k. record_audit C u k ''oauth'' tool args outcome now c = (r, c'))"
    using assms by (auto simp: audit_event_def split: option.splits)
  then have "same_oauth (work c) (work c') \<and> (disk c' = disk c \<or> disk c' = work c')"
  proof (elim disjE exE)
    fix k assume "record_audit C u k ''oauth'' tool args outcome now c = (r, c')"
    then show ?thesis by (cases rule: record_audit_cases) (simp_all add: same_oauth_def clean_disk)
  qed (simp add: same_oauth_def)
  then show "same_oauth (work c) (work c')" "disk c' = disk c \<or> disk c' = work c'" by blast+
qed

definition mark :: "(pending_row \<Rightarrow> pending_row) \<Rightarrow> pystr \<Rightarrow> control_db \<Rightarrow> control_db" where
  "mark f i d = d\<lparr>oauth_pending := upd (\<lambda>r. pnd_request_id r = i) f (oauth_pending d)\<rparr>"

lemma mark_inv:
  assumes "oauth_inv d" "\<And>r. pnd_request_id (f r) = pnd_request_id r" "\<And>r. pnd_user_code (f r) = pnd_user_code r"
    "\<And>r. pending_row_ok d r \<Longrightarrow> pending_row_ok d (f r)" "\<And>r. pnd_approved_ms (f r) = None \<Longrightarrow> pnd_approved_ms r = None"
  shows "oauth_inv (mark f i d)"
proof -
  have "unapproved (mark f i d) \<le> unapproved d"
    using assms(5) by (auto simp: unapproved_def mark_def rowcount_upd intro: rowcount_mono split: if_splits)
  then have "pending_ok (mark f i d)"
    using assms pending_row_ok_cong [of "mark f i d" d]
    by (auto simp: oauth_inv_def pending_ok_def mark_def map_upd_key set_upd)
  moreover have "clients_ok (mark f i d)" "codes_ok (mark f i d)" "tokens_ok (mark f i d)"
    using assms(1) registered_cong [of "mark f i d" d] unfolding mark_def
    by (auto simp: oauth_inv_def clients_ok_def codes_ok_def tokens_ok_def live_count_def)
  ultimately show ?thesis by (simp add: oauth_inv_def)
qed

lemma approve_cases:
  assumes "approve C T u key code now c = (r, c')"
  shows "c' = c \<and> (\<exists>e. r = Inl e) \<or>
    (\<exists>row\<in>set (oauth_pending (work c)). pnd_user_code row = str_upper T (str_strip T (nz code)) \<and>
       pnd_approved_ms row = None \<and> now \<le> pnd_expires_ms row \<and>
       same_oauth (mark (pnd_approved_ms_update (\<lambda>_. Some now)) (pnd_request_id row) (work c)) (work c') \<and>
       (disk c' = disk c \<or> disk c' = work c') \<and> (r = Inr (pnd_request_id row, pnd_client_id row) \<or> (\<exists>e. r = Inl e)))"
proof (cases "List.find (\<lambda>r. pnd_user_code r = str_upper T (str_strip T (nz code))) (oauth_pending (work c))")
  case None
  with assms show ?thesis by (auto simp: approve_def)
next
  case (Some row)
  note row = find_SomeD [OF Some]
  show ?thesis
  proof (cases "pnd_approved_ms row \<noteq> None \<or> pnd_expires_ms row < now")
    case True
    with assms Some show ?thesis by (auto simp: approve_def split: if_splits)
  next
    case False
    define c1 where "c1 = c\<lparr>work := mark (pnd_approved_ms_update (\<lambda>_. Some now)) (pnd_request_id row) (work c)\<rparr>"
    obtain x c2 where a: "audit_event C u key ''oauth.approve'' ''ok''
      (JObj [(lit ''request_id'', JStr (pnd_request_id row)), (lit ''client_id'', JStr (pnd_client_id row))]) now c1 = (x, c2)"
      by force
    note f = audit_event_frame [OF a]
    have "(\<exists>e. r = Inl e) \<and> c' = c2 \<or> r = Inr (pnd_request_id row, pnd_client_id row) \<and> c' = commit c2"
      using assms Some False a by (auto simp: approve_def Let_def c1_def mark_def split: sum.splits)
    with f have "same_oauth (work c1) (work c')" "disk c' = disk c1 \<or> disk c' = work c'"
      "r = Inr (pnd_request_id row, pnd_client_id row) \<or> (\<exists>e. r = Inl e)" by auto
    then show ?thesis using row False by (intro disjI2 bexI [of _ row]) (auto simp: c1_def)
  qed
qed

lemma approve_inv:
  assumes "oauth_inv (work c)" "approve C T u key code now c = (r, c')"
  shows "oauth_inv (work c')"
proof -
  have "oauth_inv (mark (pnd_approved_ms_update (\<lambda>_. Some now)) i (work c))" for i
    by (rule mark_inv [OF assms(1)]) (auto simp: pending_row_ok_def)
  then show ?thesis using approve_cases [OF assms(2)] same_oauth_inv assms(1) by blast
qed

lemma poll_cases:
  assumes "poll C code request_id now c = (r, c')"
  shows "c' = c \<and> (\<forall>x. r \<noteq> Inr (Some x)) \<or>
    (\<exists>row\<in>set (oauth_pending (work c)). \<exists>h. pnd_request_id row = nz request_id \<and> pollable now row \<and> hash_str C code = Inr h \<and>
       clean c' \<and> r = Inr (Some (code, pnd_state row, pnd_redirect_uri row)) \<and> h \<notin> cod_hash ` set (oauth_codes (work c)) \<and>
       work c' = mark (pnd_collected_ms_update (\<lambda>_. Some now)) (pnd_request_id row) ((work c)\<lparr>oauth_codes :=
         oauth_codes (work c) @ [\<lparr>cod_hash = h, cod_client_id = pnd_client_id row,
           cod_redirect_uri = pnd_redirect_uri row, cod_code_challenge = pnd_code_challenge row,
           cod_scope = pnd_scope row, cod_issued_ms = now, cod_expires_ms = now + CODE_TTL_MS, cod_consumed_ms = None\<rparr>]\<rparr>))"
proof (cases "\<exists>x. r = Inr (Some x)")
  case False
  then show ?thesis using assms by (auto simp: poll_def split: option.splits sum.splits if_splits)
next
  case True
  then obtain x where x: "r = Inr (Some x)" by blast
  with assms obtain row where row: "List.find (\<lambda>r. pnd_request_id r = nz request_id) (oauth_pending (work c)) = Some row"
    "pollable now row"
    by (auto simp: poll_def split: option.splits if_splits)
  with assms x obtain h where h: "hash_str C code = Inr h" by (auto simp: poll_def split: sum.splits)
  define new where "new = \<lparr>cod_hash = h, cod_client_id = pnd_client_id row,
    cod_redirect_uri = pnd_redirect_uri row, cod_code_challenge = pnd_code_challenge row,
    cod_scope = pnd_scope row, cod_issued_ms = now, cod_expires_ms = now + CODE_TTL_MS, cod_consumed_ms = None\<rparr>"
  from assms x row h obtain w where w: "ins_code new (work c) = Inr w"
    by (auto simp: poll_def new_def split: sum.splits)
  with assms x row h have r: "r = Inr (Some (code, pnd_state row, pnd_redirect_uri row))" "clean c'"
    "work c' = mark (pnd_collected_ms_update (\<lambda>_. Some now)) (pnd_request_id row) w"
    by (auto simp: poll_def new_def mark_def)
  from w have w': "w = (work c)\<lparr>oauth_codes := oauth_codes (work c) @ [new]\<rparr>" "h \<notin> cod_hash ` set (oauth_codes (work c))"
    by (auto simp: ins_code_def ins_Inr new_def split: sum.splits)
  show ?thesis using find_SomeD [OF row(1)] row(2) h r w' unfolding new_def by (intro disjI2 bexI [of _ row] exI [of _ h]) auto
qed

lemma poll_inv:
  assumes "oauth_inv (work c)" "poll C code request_id now c = (r, c')"
  shows "oauth_inv (work c')"
  using poll_cases [OF assms(2)]
proof (elim disjE conjE bexE exE)
  fix row :: pending_row and h
  let ?new = "\<lparr>cod_hash = h, cod_client_id = pnd_client_id row,
    cod_redirect_uri = pnd_redirect_uri row, cod_code_challenge = pnd_code_challenge row,
    cod_scope = pnd_scope row, cod_issued_ms = now, cod_expires_ms = now + CODE_TTL_MS, cod_consumed_ms = None\<rparr>"
  let ?w = "(work c)\<lparr>oauth_codes := oauth_codes (work c) @ [?new]\<rparr>"
  assume row: "row \<in> set (oauth_pending (work c))" and h: "h \<notin> cod_hash ` set (oauth_codes (work c))"
    and w: "work c' = mark (pnd_collected_ms_update (\<lambda>_. Some now)) (pnd_request_id row) ?w"
  have ok: "pending_row_ok (work c) row" using assms(1) row by (auto simp: oauth_inv_def pending_ok_def)
  have "oauth_inv ?w"
  proof -
    have "codes_ok ?w" using assms(1) ok h registered_cong [of ?w "work c"]
      by (auto simp: oauth_inv_def codes_ok_def pending_row_ok_def)
    moreover have "clients_ok ?w" "pending_ok ?w" "tokens_ok ?w"
      using assms(1) pending_row_ok_cong [of ?w "work c"]
      by (auto simp: oauth_inv_def clients_ok_def pending_ok_def tokens_ok_def live_count_def unapproved_def)
    ultimately show ?thesis by (simp add: oauth_inv_def)
  qed
  then show ?thesis unfolding w by (rule mark_inv) (auto simp: pending_row_ok_def)
qed (use assms(1) in simp)

section \<open>Tokens\<close>

lemma put_token_cases:
  assumes "put_token C token kind client_id now grant c = (r, c')"
  shows "c' = c \<and> (\<exists>e. r = Inl e) \<or>
    (\<exists>h. hash_str C token = Inr h \<and> r = Inr () \<and> h \<notin> tok_hash ` set (oauth_tokens (work c)) \<and>
       c' = c\<lparr>work := (work c)\<lparr>oauth_tokens := oauth_tokens (work c) @ [new_token h kind client_id now grant]\<rparr>\<rparr>)"
  using assms
  by (auto simp: put_token_def ins_token_def ins_Inr new_token_def split: sum.splits)

lemma live_count_add:
  "live_count (d\<lparr>oauth_tokens := oauth_tokens d @ [new_token h kind client_id now grant]\<rparr>) g k =
   live_count d g k + (if g = grant \<and> k = kind then 1 else 0)"
  by (simp add: live_count_def new_token_def live_def)

text \<open>A token for a grant that has no live one of its kind keeps the invariant.\<close>

lemma add_token_inv:
  assumes "oauth_inv d" "h \<notin> tok_hash ` set (oauth_tokens d)" "live_count d grant kind = 0" "grant \<noteq> []"
  shows "oauth_inv (d\<lparr>oauth_tokens := oauth_tokens d @ [new_token h kind client_id now grant]\<rparr>)" (is "oauth_inv ?d")
proof -
  have "live_count ?d g k \<le> 1" for g k
    using assms(1,3) by (auto simp: live_count_add oauth_inv_def tokens_ok_def)
  then have "tokens_ok ?d" using assms by (auto simp: oauth_inv_def tokens_ok_def new_token_def)
  moreover have "clients_ok ?d" "pending_ok ?d" "codes_ok ?d"
    using assms(1) pending_row_ok_cong [of ?d d] registered_cong [of ?d d]
    by (auto simp: oauth_inv_def clients_ok_def pending_ok_def codes_ok_def unapproved_def)
  ultimately show ?thesis by (simp add: oauth_inv_def)
qed

definition no_live :: "control_db \<Rightarrow> pystr \<Rightarrow> bool" where
  "no_live d g \<longleftrightarrow> (\<forall>k. live_count d g k = 0)"

text \<open>What \<open>_issue\<close> leaves of the other tables, and what it made durable.\<close>

definition issue_frame :: "control \<Rightarrow> control \<Rightarrow> bool" where
  "issue_frame c c' \<longleftrightarrow>
     oauth_clients (work c') = oauth_clients (work c) \<and> oauth_pending (work c') = oauth_pending (work c) \<and>
     oauth_codes (work c') = oauth_codes (work c) \<and> (disk c' = disk c \<or> disk c' = work c')"

lemma put_token_frame:
  assumes "put_token C token kind client_id now grant c = (r, c')"
  shows "oauth_clients (work c') = oauth_clients (work c)" "oauth_pending (work c') = oauth_pending (work c)"
    "oauth_codes (work c') = oauth_codes (work c)" "disk c' = disk c"
  using put_token_cases [OF assms] by auto

lemma issue_cases:
  assumes "issue C sd key client_id now grant_id c = (r, c')"
    and grant: "grant = (if truthy grant_id then the grant_id else lit ''wvg_'' @ sd_grant sd)"
  shows "issue_frame c c'" "oauth_inv (work c) \<Longrightarrow> no_live (work c) grant \<Longrightarrow> oauth_inv (work c')"
    "r = Inr x \<Longrightarrow> x = (sd_access sd, sd_refresh sd) \<and> clean c' \<and>
       (\<exists>a b. hash_str C (sd_access sd) = Inr a \<and> hash_str C (sd_refresh sd) = Inr b \<and>
          oauth_tokens (work c') = oauth_tokens (work c) @
            [new_token a Access client_id now grant, new_token b Refresh client_id now grant])"
proof -
  have g0: "grant \<noteq> []" unfolding grant by (cases grant_id) (auto simp: truthy_def lit_def)
  obtain r1 c1 where p1: "put_token C (sd_access sd) Access client_id now grant c = (r1, c1)" by force
  obtain r2 c2 where p2: "put_token C (sd_refresh sd) Refresh client_id now grant c1 = (r2, c2)" by force
  obtain r3 c3 where p3: "audit_event C (sd_ulid sd) key ''oauth.token_issued'' ''ok''
      (JObj [(lit ''client_id'', JStr client_id), (lit ''grant_id'', JStr grant), (lit ''scope'', JStr READ_ONLY_SCOPE)])
      now c2 = (r3, c3)" by force
  note q1 = put_token_cases [OF p1] and q2 = put_token_cases [OF p2] and q3 = audit_event_frame [OF p3]
  have cs: "(\<exists>e. r1 = Inl e) \<and> c' = c1 \<and> isl r \<or> r1 = Inr () \<and> (\<exists>e. r2 = Inl e) \<and> c' = c2 \<and> isl r \<or>
      r1 = Inr () \<and> r2 = Inr () \<and> (\<exists>e. r3 = Inl e) \<and> c' = c3 \<and> isl r \<or>
      r1 = Inr () \<and> r2 = Inr () \<and> r = Inr (sd_access sd, sd_refresh sd) \<and> c' = commit c3"
    using assms(1) p1 p2 p3 unfolding issue_def grant [symmetric] by (auto simp: Let_def split: sum.splits)
  note t1 = put_token_frame [OF p1] and t2 = put_token_frame [OF p2]
  have f1: "issue_frame c c1" using t1 by (simp add: issue_frame_def)
  have f2: "issue_frame c c2" using t1 t2 by (simp add: issue_frame_def)
  have f3: "issue_frame c c3" using q3 t1 t2 by (simp add: issue_frame_def same_oauth_def)
  then have f4: "issue_frame c (commit c3)" by (auto simp: issue_frame_def)
  show "issue_frame c c'" using cs f1 f2 f3 f4 by blast
  show "oauth_inv (work c')" if inv: "oauth_inv (work c)" "no_live (work c) grant"
  proof -
    have i1: "oauth_inv (work c1) \<and> live_count (work c1) grant Refresh = 0"
      using q1 inv g0 add_token_inv [OF inv(1)] by (auto simp: no_live_def live_count_add)
    have i2: "oauth_inv (work c2)" using q2 i1 g0 add_token_inv by auto
    have i3: "oauth_inv (work c3)" using q3(1) i2 same_oauth_inv by blast
    show ?thesis using cs i1 i2 i3 by auto
  qed
  show "x = (sd_access sd, sd_refresh sd) \<and> clean c' \<and>
       (\<exists>a b. hash_str C (sd_access sd) = Inr a \<and> hash_str C (sd_refresh sd) = Inr b \<and>
          oauth_tokens (work c') = oauth_tokens (work c) @
            [new_token a Access client_id now grant, new_token b Refresh client_id now grant])" if "r = Inr x"
  proof -
    from cs that have r: "r1 = Inr ()" "r2 = Inr ()" "x = (sd_access sd, sd_refresh sd)" "c' = commit c3" by auto
    from q1 r(1) obtain a where a: "hash_str C (sd_access sd) = Inr a"
      "oauth_tokens (work c1) = oauth_tokens (work c) @ [new_token a Access client_id now grant]" by auto
    from q2 r(2) obtain b where b: "hash_str C (sd_refresh sd) = Inr b"
      "oauth_tokens (work c2) = oauth_tokens (work c1) @ [new_token b Refresh client_id now grant]" by auto
    show ?thesis using r a b q3(1) by (simp add: same_oauth_def)
  qed
qed

section \<open>Revocation\<close>

lemma kill_tables [simp]:
  "oauth_clients (kill now p d) = oauth_clients d" "oauth_pending (kill now p d) = oauth_pending d"
  "oauth_codes (kill now p d) = oauth_codes d"
  by (simp_all add: kill_def)

lemma live_count_kill_le: "live_count (kill now p d) g k \<le> live_count d g k"
  by (auto simp: live_count_def kill_def rowcount_upd live_def intro: rowcount_mono split: if_splits)

lemma kill_inv:
  assumes "oauth_inv d" shows "oauth_inv (kill now p d)"
proof -
  have "live_count (kill now p d) g k \<le> 1" for g k
    using live_count_kill_le [of now p d g k] assms by (auto simp: oauth_inv_def tokens_ok_def intro: order_trans)
  then have "tokens_ok (kill now p d)" using assms
    by (auto simp: oauth_inv_def tokens_ok_def kill_def map_upd_key set_upd)
  moreover have "clients_ok (kill now p d)" "pending_ok (kill now p d)" "codes_ok (kill now p d)"
    using assms pending_row_ok_cong [of "kill now p d" d] registered_cong [of "kill now p d" d]
    by (auto simp: oauth_inv_def clients_ok_def pending_ok_def codes_ok_def unapproved_def)
  ultimately show ?thesis by (simp add: oauth_inv_def)
qed

lemma no_live_iff: "no_live d g \<longleftrightarrow> (\<forall>r\<in>set (oauth_tokens d). tok_grant_id r = Some g \<longrightarrow> \<not> live r)"
proof -
  have "no_live d g \<longleftrightarrow> (\<forall>k. \<forall>r\<in>set (oauth_tokens d). \<not> (tok_grant_id r = Some g \<and> tok_kind r = k \<and> live r))"
    by (simp add: no_live_def live_count_def rowcount_zero)
  then show ?thesis by blast
qed

lemma kill_family: "no_live (kill now (of_grant (Some g)) d) g"
  by (auto simp: no_live_iff kill_def set_upd live_def of_grant_def same_key_def)

lemma revoke_family_inv: "oauth_inv (work c) \<Longrightarrow> oauth_inv (work (snd (revoke_family g now c)))"
  by (simp add: revoke_family_def kill_inv)

lemma revoke_all_work:
  assumes "revoke_all C u key now c = (r, c')"
  shows "same_oauth (kill now (\<lambda>_. True) (work c)) (work c')" "disk c' = disk c \<or> disk c' = work c'"
    "r = Inr n \<Longrightarrow> clean c'"
proof -
  let ?c1 = "c\<lparr>work := kill now (\<lambda>_. True) (work c)\<rparr>"
  obtain x c2 where a: "audit_event C u key ''oauth.revoke_all'' ''ok'' (JObj [(lit ''tokens_revoked'',
      JInt (int (rowcount (\<lambda>r. tok_revoked_ms r = None) (oauth_tokens (work c)))))]) now ?c1 = (x, c2)" by force
  have "(\<exists>e. r = Inl e) \<and> c' = c2 \<or> c' = commit c2"
    using assms a by (auto simp: revoke_all_def Let_def split: sum.splits)
  with audit_event_frame [OF a] show "same_oauth (kill now (\<lambda>_. True) (work c)) (work c')"
    "disk c' = disk c \<or> disk c' = work c'" "r = Inr n \<Longrightarrow> clean c'" by auto
qed

text \<open>After \<open>revoke_all\<close> no token is live.\<close>

lemma revoke_all_dead:
  assumes "revoke_all C u key now c = (r, c')"
  shows "\<forall>t\<in>set (oauth_tokens (work c')). \<not> live t"
  using revoke_all_work(1) [OF assms] by (auto simp: same_oauth_def kill_def set_upd live_def)

section \<open>Exchange\<close>

definition consume_code :: "pystr \<Rightarrow> int \<Rightarrow> control_db \<Rightarrow> control_db" where
  "consume_code h now d = d\<lparr>oauth_codes :=
     upd (\<lambda>r. cod_hash r = h \<and> cod_consumed_ms r = None) (cod_consumed_ms_update (\<lambda>_. Some now)) (oauth_codes d)\<rparr>"

lemma consume_code_inv:
  assumes "oauth_inv d" shows "oauth_inv (consume_code h now d)"
proof -
  have "codes_ok (consume_code h now d)" using assms registered_cong [of "consume_code h now d" d]
    by (auto simp: oauth_inv_def codes_ok_def consume_code_def map_upd_key set_upd)
  moreover have "clients_ok (consume_code h now d)" "pending_ok (consume_code h now d)" "tokens_ok (consume_code h now d)"
    using assms pending_row_ok_cong [of "consume_code h now d" d]
    by (auto simp: oauth_inv_def clients_ok_def pending_ok_def tokens_ok_def unapproved_def live_count_def consume_code_def)
  ultimately show ?thesis by (simp add: oauth_inv_def)
qed

text \<open>What a redemption has to present.\<close>

definition redeemable :: "crypto \<Rightarrow> code_request \<Rightarrow> int \<Rightarrow> control_db \<Rightarrow> code_row \<Rightarrow> bool" where
  "redeemable C x now d row \<longleftrightarrow>
     (\<exists>h. hash_str C (nz (xr_code x)) = Inr h \<and> List.find (\<lambda>r. cod_hash r = h) (oauth_codes d) = Some row) \<and>
     cod_consumed_ms row = None \<and> now \<le> cod_expires_ms row \<and> nz (xr_client_id x) = cod_client_id row \<and>
     nz (xr_redirect_uri x) = cod_redirect_uri row \<and> pkce_challenge C (nz (xr_verifier x)) = cod_code_challenge row"

lemma check_code_redeemable: "check_code C x now d = Inr row \<Longrightarrow> redeemable C x now d row"
  by (auto simp: check_code_def redeemable_def compare_digest_def split: sum.splits option.splits if_splits)

lemma exchange_cases:
  assumes "exchange_code C sd key x now c = (r, c')" "oauth_inv (work c)"
  shows "c' = c \<and> (\<exists>e. r = Inl e) \<or>
    (\<exists>row. redeemable C x now (work c) row \<and>
       issue C sd key (cod_client_id row) now None (c\<lparr>work := consume_code (cod_hash row) now (work c)\<rparr>) = (r, c'))"
proof (cases "check_code C x now (work c)")
  case (Inl e)
  with assms show ?thesis by (auto simp: exchange_code_def)
next
  case (Inr row)
  note red = check_code_redeemable [OF Inr]
  then have row: "row \<in> set (oauth_codes (work c))" "cod_consumed_ms row = None"
    by (auto simp: redeemable_def dest: find_SomeD)
  have d: "distinct (map cod_hash (oauth_codes (work c)))" using assms(2) by (simp add: oauth_inv_def codes_ok_def)
  have "rowcount (\<lambda>r. cod_hash r = cod_hash row \<and> cod_consumed_ms r = None) (oauth_codes (work c)) =
      rowcount (\<lambda>r. cod_hash r = cod_hash row) (oauth_codes (work c))"
    unfolding rowcount_def
    by (rule arg_cong [of _ _ length], rule filter_cong) (use d row in \<open>auto simp: distinct_map dest: inj_onD\<close>)
  also have "\<dots> = 1" using rowcount_distinct [OF d, of "cod_hash row"] row(1) by simp
  finally show ?thesis using assms(1) Inr red by (auto simp: exchange_code_def Let_def consume_code_def)
qed

definition fresh_grant :: "secrets_drawn \<Rightarrow> control_db \<Rightarrow> bool" where
  "fresh_grant sd d \<longleftrightarrow> no_live d (lit ''wvg_'' @ sd_grant sd)"

lemma exchange_inv:
  assumes "exchange_code C sd key x now c = (r, c')" "oauth_inv (work c)" "fresh_grant sd (work c)"
  shows "oauth_inv (work c')"
proof -
  have "no_live (consume_code h now (work c)) g = no_live (work c) g" for h g
    by (simp add: no_live_iff consume_code_def)
  with assms(3) have "no_live (consume_code h now (work c)) (lit ''wvg_'' @ sd_grant sd)" for h
    by (simp add: fresh_grant_def)
  then show ?thesis
    using exchange_cases [OF assms(1,2)] issue_cases(2) [OF _ refl] consume_code_inv [OF assms(2)] assms(2)
    by (fastforce simp: truthy_def)
qed

section \<open>Refresh\<close>

text \<open>The outcomes of a refresh: refused untouched, reuse detected, or rotated.\<close>

lemma refresh_cases:
  assumes "refresh C sd key token client_id now c = (r, c')"
  obtains (refused) e where "r = Inl e" "c' = c"
    | (reused) row e where "row \<in> set (oauth_tokens (work c))" "tok_kind row = Refresh" "\<not> live row" "r = Inl e"
        "hash_str C (nz token) = Inr (tok_hash row)"
        "same_oauth (kill now (of_grant (tok_grant_id row)) (work c)) (work c')" "disk c' = work c'"
    | (rotated) row where "row \<in> set (oauth_tokens (work c))" "tok_kind row = Refresh" "live row" "now \<le> tok_expires_ms row"
        "hash_str C (nz token) = Inr (tok_hash row)" "nz client_id = tok_client_id row"
        "issue C sd key (tok_client_id row) now (tok_grant_id row)
           (c\<lparr>work := kill now (of_grant (tok_grant_id row)) (work c)\<rparr>) = (r, c')"
proof (cases "hash_str C (nz token)")
  case (Inl e)
  then show thesis using assms refused by (auto simp: refresh_def)
next
  case (Inr h)
  show thesis
  proof (cases "List.find (\<lambda>r. tok_hash r = h \<and> tok_kind r = Refresh) (oauth_tokens (work c))")
    case None
    then show thesis using assms Inr refused by (auto simp: refresh_def)
  next
    case (Some row)
    note row = find_SomeD [OF Some]
    show thesis
    proof (cases "live row")
      case False
      define c1 where "c1 = snd (revoke_family (tok_grant_id row) now c)"
      have c1: "work c1 = kill now (of_grant (tok_grant_id row)) (work c)" "clean c1"
        by (simp_all add: c1_def revoke_family_def)
      obtain x c2 where a: "audit_event C (sd_ulid sd) key ''oauth.refresh_reuse_detected'' ''revoked''
          (JObj [(lit ''grant_id'', case tok_grant_id row of None \<Rightarrow> JNull | Some g \<Rightarrow> JStr g),
            (lit ''tokens_revoked'', JInt (int (fst (revoke_family (tok_grant_id row) now c))))]) now c1 = (x, c2)" by force
      have rr: "\<exists>e. r = Inl e" "c' = c2"
        using assms Inr Some False a by (auto simp: refresh_def c1_def live_def split_beta split: sum.splits)
      have "disk c2 = work c2"
        using a c1(2) by (auto simp: audit_event_def split: option.splits elim!: record_audit_cases simp: clean_disk)
      then show thesis using row False rr audit_event_frame(1) [OF a] c1(1) Inr reused by auto
    next
      case True
      then have t: "tok_revoked_ms row = None" by (simp add: live_def)
      show thesis
      proof (cases "tok_expires_ms row < now \<or> compare_digest (nz client_id) (tok_client_id row) \<noteq> Inr True")
        case True
        then have "(\<exists>e. r = Inl e) \<and> c' = c" using assms Inr Some t
          by (auto simp: refresh_def split: sum.splits if_splits)
        then show thesis using refused by blast
      next
        case False
        then have "issue C sd key (tok_client_id row) now (tok_grant_id row)
           (c\<lparr>work := kill now (of_grant (tok_grant_id row)) (work c)\<rparr>) = (r, c')"
          using assms Inr Some t by (auto simp: refresh_def)
        moreover have "nz client_id = tok_client_id row" using False by (auto simp: compare_digest_def split: if_splits)
        ultimately show thesis using row True False Inr rotated by auto
      qed
    qed
  qed
qed

text \<open>A killed family has no live token; a rotation then leaves one pair of it.\<close>

definition live_family :: "pystr option \<Rightarrow> control_db \<Rightarrow> token_row list" where
  "live_family g d = filter (\<lambda>t. of_grant g t \<and> live t) (oauth_tokens d)"

lemma killed_family [simp]: "live_family g (kill now (of_grant g) d) = []"
  by (auto simp: live_family_def filter_empty_conv kill_def set_upd live_def of_grant_def)

lemma new_pair:
  assumes "grant = (if truthy g then the g else lit ''wvg_'' @ sd_grant sd)"
  shows "map tok_kind (filter (\<lambda>t. of_grant g t \<and> live t) [new_token a Access cl now grant, new_token b Refresh cl now grant]) =
    (if truthy g then [Access, Refresh] else [])"
proof (cases "truthy g")
  case True
  then obtain x where g: "g = Some x" "grant = x" using assms by (auto simp: truthy_def split: option.splits)
  then show ?thesis unfolding g(2) using True by (simp add: g(1) new_token_def of_grant_def same_key_def live_def)
next
  case False
  have "lit ''wvg_'' @ sd_grant sd \<noteq> []" by (simp add: lit_def)
  with False assms have "\<not> same_key g (Some grant)" by (auto simp: truthy_def same_key_def split: option.splits)
  then show ?thesis using False by (simp add: new_token_def of_grant_def)
qed

lemma rotation_leaves_pair:
  assumes "issue C sd key cl now g (c\<lparr>work := kill now (of_grant g) (work c)\<rparr>) = (Inr x, c')"
  shows "x = (sd_access sd, sd_refresh sd)" "clean c'" "map tok_kind (live_family g (work c')) = (if truthy g then [Access, Refresh] else [])"
proof -
  let ?grant = "if truthy g then the g else lit ''wvg_'' @ sd_grant sd"
  from issue_cases(3) [OF assms refl refl] obtain a b where t: "x = (sd_access sd, sd_refresh sd)" "clean c'"
    "oauth_tokens (work c') = oauth_tokens (kill now (of_grant g) (work c)) @ [new_token a Access cl now ?grant, new_token b Refresh cl now ?grant]"
    by auto
  have "live_family g (work c') = live_family g (kill now (of_grant g) (work c)) @
      filter (\<lambda>t. of_grant g t \<and> live t) [new_token a Access cl now ?grant, new_token b Refresh cl now ?grant]"
    by (simp only: live_family_def t(3) filter_append)
  then show "map tok_kind (live_family g (work c')) = (if truthy g then [Access, Refresh] else [])"
    by (simp only: killed_family append_Nil new_pair [OF refl])
  show "x = (sd_access sd, sd_refresh sd)" "clean c'" using t(1,2) by simp_all
qed

lemma refresh_inv:
  assumes "refresh C sd key token client_id now c = (r, c')" "oauth_inv (work c)"
  shows "oauth_inv (work c')"
  using assms(1)
proof (cases rule: refresh_cases)
  case (reused row e)
  then show ?thesis using kill_inv [OF assms(2)] same_oauth_inv by blast
next
  case (rotated row)
  obtain g where g: "g \<noteq> []" "tok_grant_id row = Some g"
    using assms(2) rotated(1) by (auto simp: oauth_inv_def tokens_ok_def)
  then have "(if truthy (tok_grant_id row) then the (tok_grant_id row) else lit ''wvg_'' @ sd_grant sd) = g"
    by (simp add: truthy_def)
  with issue_cases(2) [OF rotated(7) refl] kill_inv [OF assms(2)] kill_family g show ?thesis by simp
qed (use assms(2) in simp)

section \<open>Runs\<close>

datatype oauth_call =
    REGISTER pystr "pystr option" "pystr list" int
  | BEGIN pystr pystr auth_request int
  | COLLECT int
  | APPROVE pystr "bytes option" "pystr option" int
  | POLL pystr "pystr option" int
  | EXCHANGE secrets_drawn "bytes option" code_request int
  | REFRESH secrets_drawn "bytes option" "pystr option" "pystr option" int
  | REVOKE_ALL pystr "bytes option" int

text \<open>
  The state of a run with three ghost counters: the operator's calls of \<open>approve\<close>, the codes that
  \<open>poll\<close> handed out, the token pairs that \<open>exchange_code\<close> handed out.
\<close>

record oauth_run =
  ocon :: control
  approvals_made :: nat
  codes_given :: nat
  pairs_given :: nat

fun run_oauth :: "crypto \<Rightarrow> py_text \<Rightarrow> oauth_call \<Rightarrow> oauth_run \<Rightarrow> oauth_run" where
  "run_oauth C T (REGISTER rnd name us now) s = s\<lparr>ocon := snd (register_client rnd name us now (ocon s))\<rparr>"
| "run_oauth C T (BEGIN rnd body a now) s = s\<lparr>ocon := snd (begin_authorization T rnd body a now (ocon s))\<rparr>"
| "run_oauth C T (COLLECT now) s = s\<lparr>ocon := snd (collect_expired now (ocon s))\<rparr>"
| "run_oauth C T (APPROVE u key code now) s =
     s\<lparr>ocon := snd (approve C T u key code now (ocon s)), approvals_made := approvals_made s + 1\<rparr>"
| "run_oauth C T (POLL code req now) s =
     (case poll C code req now (ocon s) of
        (Inr (Some _), c') \<Rightarrow> s\<lparr>ocon := c', codes_given := codes_given s + 1\<rparr>
      | (_, c') \<Rightarrow> s\<lparr>ocon := c'\<rparr>)"
| "run_oauth C T (EXCHANGE sd key x now) s =
     (case exchange_code C sd key x now (ocon s) of
        (Inr _, c') \<Rightarrow> s\<lparr>ocon := c', pairs_given := pairs_given s + 1\<rparr>
      | (Inl _, c') \<Rightarrow> s\<lparr>ocon := c'\<rparr>)"
| "run_oauth C T (REFRESH sd key token cl now) s = s\<lparr>ocon := snd (refresh C sd key token cl now (ocon s))\<rparr>"
| "run_oauth C T (REVOKE_ALL u key now) s = s\<lparr>ocon := snd (revoke_all C u key now (ocon s))\<rparr>"

text \<open>The grant id drawn for an exchange is not that of a live grant.\<close>

fun draws_fresh :: "oauth_call \<Rightarrow> oauth_run \<Rightarrow> bool" where
  "draws_fresh (EXCHANGE sd key x now) s = fresh_grant sd (work (ocon s))"
| "draws_fresh _ s = True"

inductive ostep :: "crypto \<Rightarrow> py_text \<Rightarrow> oauth_run \<Rightarrow> oauth_run \<Rightarrow> bool" for C T where
  ocall: "draws_fresh k s \<Longrightarrow> ostep C T s (run_oauth C T k s)"
| ocrash: "ostep C T s (s\<lparr>ocon := crash (ocon s)\<rparr>)"

definition oauth_start :: oauth_run where
  "oauth_start = \<lparr>ocon = connect empty_control, approvals_made = 0, codes_given = 0, pairs_given = 0\<rparr>"

inductive_simps ostep_iff: "ostep C T s s'"

end
