(* ===== verification/OAuth_Runs.thy ===== *)
theory OAuth_Runs
  imports OAuth_Safety
begin

text \<open>
  The invariant of runs of the authorization server: the tables stay well formed on both sides
  of a crash, and the ghost counters bound each other: every token pair that a code exchange
  handed out was preceded by a code that a poll handed out, and every code by a call of \<open>approve\<close>.
\<close>

definition uncollected :: "control_db \<Rightarrow> nat" where
  "uncollected d = rowcount (\<lambda>r. pnd_approved_ms r \<noteq> None \<and> pnd_collected_ms r = None) (oauth_pending d)"

definition unconsumed :: "control_db \<Rightarrow> nat" where
  "unconsumed d = rowcount (\<lambda>r. cod_consumed_ms r = None) (oauth_codes d)"

text \<open>An operation during which the counters grow by \<open>a\<close>, \<open>k\<close> and \<open>x\<close>.\<close>

definition accounts :: "control \<Rightarrow> control \<Rightarrow> nat \<Rightarrow> nat \<Rightarrow> nat \<Rightarrow> bool" where
  "accounts c c' a k x \<longleftrightarrow>
     oauth_inv (work c') \<and> uncollected (work c') + k \<le> uncollected (work c) + a \<and>
     unconsumed (work c') + x \<le> unconsumed (work c) + k \<and>
     (disk c' = disk c \<and> k = 0 \<and> x = 0 \<or> disk c' = work c')"

lemma accountsI:
  assumes "oauth_inv (work c')" "oauth_pending (work c') = oauth_pending (work c)"
    "oauth_codes (work c') = oauth_codes (work c)" "disk c' = disk c \<or> disk c' = work c'"
  shows "accounts c c' 0 0 0"
  using assms by (simp add: accounts_def uncollected_def unconsumed_def)

lemma rowcount_drop:
  assumes "distinct (map key t)" "row \<in> set t" "p row" "\<And>r. \<not> p (f r)" "q row"
  shows "rowcount p (upd (\<lambda>r. key r = key row \<and> q r) f t) + 1 \<le> rowcount p t"
  using assms
proof (induction t)
  case (Cons r t)
  show ?case
  proof (cases "r = row")
    case True
    with Cons.prems(1) have "upd (\<lambda>r. key r = key row \<and> q r) f t = t"
      by (intro upd_idle) (auto simp: image_iff)
    with True Cons.prems(3-5) show ?thesis by (simp add: upd_def rowcount_Cons)
  next
    case False
    with Cons.prems(1,2) have "key r \<noteq> key row" by auto
    with False Cons show ?thesis by (simp add: upd_def rowcount_Cons)
  qed
qed simp

lemma rowcount_raise:
  assumes "distinct (map key t)"
  shows "rowcount p (upd (\<lambda>r. key r = v) f t) \<le> rowcount p t + 1"
  using assms
proof (induction t)
  case (Cons r t)
  show ?case
  proof (cases "key r = v")
    case True
    with Cons.prems have "upd (\<lambda>r. key r = v) f t = t" by (intro upd_idle) (auto simp: image_iff)
    with True show ?thesis by (simp add: upd_def rowcount_Cons)
  next
    case False
    with Cons show ?thesis by (simp add: upd_def rowcount_Cons)
  qed
qed simp

section \<open>The operations\<close>

lemma register_accounts:
  assumes "oauth_inv (work c)" shows "accounts c (snd (register_client rnd name us now c)) 0 0 0"
proof -
  obtain r c' where e: "register_client rnd name us now c = (r, c')" by force
  have "oauth_pending (work c') = oauth_pending (work c)" "oauth_codes (work c') = oauth_codes (work c)"
    "disk c' = disk c \<or> disk c' = work c'"
    using register_client_cases [OF e] by (auto simp: clean_disk)
  with register_client_inv [OF assms e] e show ?thesis by (simp add: accountsI)
qed

lemma expire_counts:
  "uncollected (expire_db now d) \<le> uncollected d" "unconsumed (expire_db now d) \<le> unconsumed d"
  by (simp_all add: uncollected_def unconsumed_def del_def rowcount_filter_le)

lemma begin_accounts:
  assumes "oauth_inv (work c)" shows "accounts c (snd (begin_authorization T rnd body a now c)) 0 0 0"
proof -
  obtain r c' where e: "begin_authorization T rnd body a now c = (r, c')" by force
  have "uncollected (work c') \<le> uncollected (work c) \<and> unconsumed (work c') \<le> unconsumed (work c) \<and> disk c' = work c'"
    using begin_cases [OF e] expire_counts [of now "work c"]
    by (auto simp: clean_disk uncollected_def unconsumed_def)
  with begin_inv [OF assms e] e show ?thesis by (simp add: accounts_def)
qed

lemma collect_accounts:
  assumes "oauth_inv (work c)" shows "accounts c (snd (collect_expired now c)) 0 0 0"
  using expire_inv [OF assms] expire_counts [of now "work c"] by (simp add: accounts_def collect_expired_def)

lemma approve_accounts:
  assumes "oauth_inv (work c)" shows "accounts c (snd (approve C T u key code now c)) 1 0 0"
proof -
  obtain r c' where e: "approve C T u key code now c = (r, c')" by force
  have d: "distinct (map pnd_request_id (oauth_pending (work c)))" using assms by (simp add: oauth_inv_def pending_ok_def)
  have "uncollected (work c') \<le> uncollected (work c) + 1 \<and> unconsumed (work c') = unconsumed (work c) \<and>
      (disk c' = disk c \<or> disk c' = work c')"
  proof -
    consider "c' = c" | row :: pending_row where "disk c' = disk c \<or> disk c' = work c'"
      "same_oauth (mark (pnd_approved_ms_update (\<lambda>_. Some now)) (pnd_request_id row) (work c)) (work c')"
      using approve_cases [OF e] by blast
    then show ?thesis
    proof cases
      case (2 row)
      with rowcount_raise [OF d] show ?thesis
        by (simp add: same_oauth_def mark_def uncollected_def unconsumed_def)
    qed simp
  qed
  with approve_inv [OF assms e] e show ?thesis by (auto simp: accounts_def)
qed

lemma poll_accounts:
  assumes "oauth_inv (work c)" "poll C code req now c = (r, c')"
  shows "accounts c c' 0 (if \<exists>x. r = Inr (Some x) then 1 else 0) 0"
  using poll_cases [OF assms(2)]
proof (elim disjE conjE bexE exE)
  assume "c' = c" "\<forall>x. r \<noteq> Inr (Some x)"
  with assms(1) show ?thesis by (auto simp: accounts_def)
next
  fix row :: pending_row and h
  let ?w = "(work c)\<lparr>oauth_codes := oauth_codes (work c) @ [\<lparr>cod_hash = h, cod_client_id = pnd_client_id row,
    cod_redirect_uri = pnd_redirect_uri row, cod_code_challenge = pnd_code_challenge row,
    cod_scope = pnd_scope row, cod_issued_ms = now, cod_expires_ms = now + CODE_TTL_MS, cod_consumed_ms = None\<rparr>]\<rparr>"
  assume row: "row \<in> set (oauth_pending (work c))" "pollable now row" and r: "r = Inr (Some (code, pnd_state row, pnd_redirect_uri row))"
    and cl: "clean c'" and w: "work c' = mark (pnd_collected_ms_update (\<lambda>_. Some now)) (pnd_request_id row) ?w"
  have "distinct (map pnd_request_id (oauth_pending (work c)))" using assms(1) by (simp add: oauth_inv_def pending_ok_def)
  from rowcount_drop [OF this row(1), of "\<lambda>r. pnd_approved_ms r \<noteq> None \<and> pnd_collected_ms r = None"
      "pnd_collected_ms_update (\<lambda>_. Some now)" "\<lambda>_. True"]
  have "uncollected (work c') + 1 \<le> uncollected (work c)"
    using row(2) by (simp add: w mark_def uncollected_def pollable_def)
  moreover have "unconsumed (work c') = unconsumed (work c) + 1" by (simp add: w mark_def unconsumed_def)
  ultimately show ?thesis using r cl poll_inv [OF assms] by (simp add: accounts_def clean_disk)
qed

lemma exchange_accounts:
  assumes "oauth_inv (work c)" "fresh_grant sd (work c)" "exchange_code C sd key x now c = (r, c')"
  shows "accounts c c' 0 0 (if isl r then 0 else 1)"
  using exchange_cases [OF assms(3,1)]
proof (elim disjE conjE exE)
  fix e assume "c' = c" "r = Inl e"
  with assms(1) show ?thesis by (simp add: accounts_def)
next
  fix row assume red: "redeemable C x now (work c) row"
    and i: "issue C sd key (cod_client_id row) now None (c\<lparr>work := consume_code (cod_hash row) now (work c)\<rparr>) = (r, c')"
  from red have row: "row \<in> set (oauth_codes (work c))" "cod_consumed_ms row = None"
    by (auto simp: redeemable_def dest: find_SomeD)
  have "distinct (map cod_hash (oauth_codes (work c)))" using assms(1) by (simp add: oauth_inv_def codes_ok_def)
  from rowcount_drop [OF this row(1), of "\<lambda>r. cod_consumed_ms r = None" "cod_consumed_ms_update (\<lambda>_. Some now)"
      "\<lambda>r. cod_consumed_ms r = None"] row(2)
  have "unconsumed (consume_code (cod_hash row) now (work c)) + 1 \<le> unconsumed (work c)"
    by (simp add: consume_code_def unconsumed_def)
  moreover have f: "issue_frame (c\<lparr>work := consume_code (cod_hash row) now (work c)\<rparr>) c'"
    by (rule issue_cases(1) [OF i refl])
  ultimately have "unconsumed (work c') + 1 \<le> unconsumed (work c)" "uncollected (work c') = uncollected (work c)"
    "disk c' = disk c \<or> disk c' = work c'"
    by (auto simp: issue_frame_def unconsumed_def uncollected_def consume_code_def)
  moreover have "\<not> isl r \<Longrightarrow> disk c' = work c'"
    using issue_cases(3) [OF i refl, of "projr r"] by (cases r) (auto simp: clean_disk)
  ultimately show ?thesis using exchange_inv [OF assms(3,1,2)] by (auto simp: accounts_def)
qed

lemma refresh_accounts:
  assumes "oauth_inv (work c)" shows "accounts c (snd (refresh C sd key token cl now c)) 0 0 0"
proof -
  obtain r c' where e: "refresh C sd key token cl now c = (r, c')" by force
  have "oauth_pending (work c') = oauth_pending (work c) \<and> oauth_codes (work c') = oauth_codes (work c) \<and>
      (disk c' = disk c \<or> disk c' = work c')"
    using e
  proof (cases rule: refresh_cases)
    case (rotated row)
    from issue_cases(1) [OF rotated(7) refl] show ?thesis by (simp add: issue_frame_def)
  qed (auto simp: same_oauth_def)
  with refresh_inv [OF e assms] e show ?thesis by (simp add: accountsI)
qed

lemma revoke_all_accounts:
  assumes "oauth_inv (work c)" shows "accounts c (snd (revoke_all C u key now c)) 0 0 0"
proof -
  obtain r c' where e: "revoke_all C u key now c = (r, c')" by force
  note w = revoke_all_work [OF e]
  have "oauth_inv (work c')" using same_oauth_inv [OF w(1) kill_inv [OF assms]] .
  with w e show ?thesis by (simp add: accountsI same_oauth_def)
qed

section \<open>Runs\<close>

definition run_inv :: "oauth_run \<Rightarrow> bool" where
  "run_inv s \<longleftrightarrow> (\<forall>d\<in>{work (ocon s), disk (ocon s)}. oauth_inv d \<and>
     uncollected d + codes_given s \<le> approvals_made s \<and> unconsumed d + pairs_given s \<le> codes_given s)"

lemma accounts_run:
  assumes "run_inv s" "accounts (ocon s) (ocon s') a k x"
    "approvals_made s' = approvals_made s + a" "codes_given s' = codes_given s + k" "pairs_given s' = pairs_given s + x"
  shows "run_inv s'"
  using assms unfolding run_inv_def accounts_def by auto

lemma run_inv_step:
  assumes "ostep C T s s'" "run_inv s" shows "run_inv s'"
  using assms(1)
proof cases
  case (ocall k)
  have inv: "oauth_inv (work (ocon s))" using assms(2) by (simp add: run_inv_def)
  show ?thesis
  proof (cases k)
    case (POLL code req now)
    obtain r c' where e: "poll C code req now (ocon s) = (r, c')" by force
    show ?thesis
      by (rule accounts_run [OF assms(2), where a = 0 and k = "if \<exists>x. r = Inr (Some x) then 1 else 0" and x = 0])
        (use poll_accounts [OF inv e] e POLL ocall(1) in \<open>auto split: sum.splits option.splits\<close>)
  next
    case (EXCHANGE sd key x now)
    obtain r c' where e: "exchange_code C sd key x now (ocon s) = (r, c')" by force
    have "fresh_grant sd (work (ocon s))" using ocall(2) EXCHANGE by simp
    from exchange_accounts [OF inv this e] have acc: "accounts (ocon s) c' 0 0 (if isl r then 0 else 1)" .
    show ?thesis
      by (rule accounts_run [OF assms(2), where a = 0 and k = 0 and x = "if isl r then 0 else 1"])
        (use acc e EXCHANGE ocall(1) in \<open>auto split: sum.splits\<close>)
  next
    case (REGISTER rnd name us now)
    show ?thesis by (rule accounts_run [OF assms(2), where a = 0 and k = 0 and x = 0])
      (use register_accounts [OF inv] REGISTER ocall(1) in simp_all)
  next
    case (BEGIN rnd body a now)
    show ?thesis by (rule accounts_run [OF assms(2), where a = 0 and k = 0 and x = 0])
      (use begin_accounts [OF inv] BEGIN ocall(1) in simp_all)
  next
    case (COLLECT now)
    show ?thesis by (rule accounts_run [OF assms(2), where a = 0 and k = 0 and x = 0])
      (use collect_accounts [OF inv] COLLECT ocall(1) in simp_all)
  next
    case (APPROVE u key code now)
    show ?thesis by (rule accounts_run [OF assms(2), where a = 1 and k = 0 and x = 0])
      (use approve_accounts [OF inv] APPROVE ocall(1) in simp_all)
  next
    case (REFRESH sd key token cl now)
    show ?thesis by (rule accounts_run [OF assms(2), where a = 0 and k = 0 and x = 0])
      (use refresh_accounts [OF inv] REFRESH ocall(1) in simp_all)
  next
    case (REVOKE_ALL u key now)
    show ?thesis by (rule accounts_run [OF assms(2), where a = 0 and k = 0 and x = 0])
      (use revoke_all_accounts [OF inv] REVOKE_ALL ocall(1) in simp_all)
  qed
next
  case ocrash
  with assms(2) show ?thesis by (simp add: run_inv_def)
qed

lemma oauth_inv_empty: "oauth_inv empty_control"
  by (simp add: oauth_inv_def clients_ok_def pending_ok_def codes_ok_def tokens_ok_def unapproved_def
      live_count_def empty_control_def)

lemma run_inv_reachable: "(ostep C T)\<^sup>*\<^sup>* oauth_start s \<Longrightarrow> run_inv s"
proof (induction rule: rtranclp_induct)
  case base
  then show ?case by (simp add: run_inv_def oauth_start_def oauth_inv_empty)
      (simp add: uncollected_def unconsumed_def empty_control_def)
next
  case (step y z)
  then show ?case using run_inv_step by blast
qed

end
