(* ===== verification/Http.thy ===== *)
theory Http
  imports OAuth_Runs
begin

text \<open>
  The HTTP surface in front of the MCP application: the bearer gate and the public router
  (\<open>mcp/http_auth.py\<close>) and the authorization server's endpoints (\<open>mcp/oauth_http.py\<close>). The MCP application
  itself is the SDK's: a request that reaches it is the outcome \<open>Forward\<close>. A response keeps its headers without
  the content length, and its body before serialisation. \<open>hp_unquote\<close> is \<open>urllib.parse.unquote\<close>,
  \<open>hp_quote\<close> is \<open>urllib.parse.quote_plus\<close>, \<open>hp_str\<close> is \<open>str\<close> on a JSON value, \<open>hp_format\<close> tells the
  characters of the Unicode category Cf.
\<close>

record http_env =
  hp_crypto :: crypto
  hp_text :: py_text
  hp_loads :: "bytes \<Rightarrow> exc + json"
  hp_unquote :: "pystr \<Rightarrow> pystr"
  hp_quote :: "pystr \<Rightarrow> pystr"
  hp_str :: "json \<Rightarrow> pystr"
  hp_format :: "nat \<Rightarrow> bool"

section \<open>Requests\<close>

record scope =
  sc_type :: string
  sc_raw_path :: "bytes option"
  sc_path :: pystr
  sc_method :: pystr
  sc_query :: bytes
  sc_headers :: "(bytes \<times> bytes) list"

definition latin1 :: "bytes \<Rightarrow> pystr" where
  "latin1 bs = map unat bs"

definition target :: "scope \<Rightarrow> exc + pystr" where
  "target q =
     (case (if truthy (sc_raw_path q) then Inr (the (sc_raw_path q)) else utf8 (sc_path q)) of
        Inl e \<Rightarrow> Inl e
      | Inr raw \<Rightarrow> Inr (takeWhile (\<lambda>c. c \<noteq> 63) (latin1 raw)))"

definition PREFIXES :: "pystr list" where
  "PREFIXES = [lit ''/oauth/'', lit ''/.well-known/'']"

definition owns :: "pystr \<Rightarrow> bool" where
  "owns p \<longleftrightarrow> list_ex (\<lambda>x. take (length x) p = x) PREFIXES"

section \<open>Responses\<close>

text \<open>The consent page is kept as the three values written into it.\<close>

record consent =
  cs_client :: pystr
  cs_request_id :: pystr
  cs_user_code :: pystr

datatype body =
    Json json
  | Page consent

record response =
  re_status :: nat
  re_headers :: "(string \<times> pystr) list"
  re_body :: body

datatype 'a outcome =
    Reply 'a
  | Forward
  | Raise exc

section \<open>The gate\<close>

definition ascii_lower :: "nat \<Rightarrow> nat" where
  "ascii_lower c = (if 65 \<le> c \<and> c \<le> 90 then c + 32 else c)"

definition require_token :: "pystr \<Rightarrow> pystr \<Rightarrow> exc + bool" where
  "require_token provided expected =
     (if provided = [] \<or> expected = [] then Inr False else compare_digest provided expected)"

datatype credential = Static | Granted

text \<open>The gate's own configuration: the control connection and the metadata pointer are there on a public deployment only.\<close>

record gate_config =
  gt_token :: pystr
  gt_public :: bool
  gt_metadata_url :: "pystr option"

definition auth_values :: "scope \<Rightarrow> bytes list" where
  "auth_values q = map snd (filter (\<lambda>(k, v). map ascii_lower (latin1 k) = lit ''authorization'') (sc_headers q))"

definition presented :: "http_env \<Rightarrow> gate_config \<Rightarrow> control_db \<Rightarrow> int \<Rightarrow> scope \<Rightarrow> exc + credential option" where
  "presented E G d now q =
     (case auth_values q of
        [v] \<Rightarrow>
          (let h = latin1 v; scheme = takeWhile (\<lambda>c. c \<noteq> 32) h; provided = drop (Suc (length scheme)) h in
           if map ascii_lower scheme \<noteq> lit ''bearer'' then Inr None
           else
            (let tok = str_strip (hp_text E) provided in
             case require_token tok (gt_token G) of
               Inl e \<Rightarrow> Inl e
             | Inr True \<Rightarrow> Inr (Some Static)
             | Inr False \<Rightarrow>
                 Inr (if gt_public G \<and> validate_access_token (hp_crypto E) (hp_text E) d (Some tok) now \<noteq> None
                      then Some Granted else None)))
      | _ \<Rightarrow> Inr None)"

definition challenge :: "gate_config \<Rightarrow> exc + pystr" where
  "challenge G =
     (case gt_metadata_url G of
        None \<Rightarrow> Inr (lit ''Bearer realm=\"whatsvault-mcp\"'')
      | Some url \<Rightarrow>
          (if url = [] then Inr (lit ''Bearer realm=\"whatsvault-mcp\"'')
           else if \<exists>c\<in>set url. 256 \<le> c then Inl UnicodeEncodeError
           else Inr (lit ''Bearer realm=\"whatsvault-mcp\", resource_metadata=\"'' @ filter (\<lambda>c. c \<noteq> 34) url @ [34])))"

definition reject :: "gate_config \<Rightarrow> response outcome" where
  "reject G =
     (case challenge G of
        Inl e \<Rightarrow> Raise e
      | Inr ch \<Rightarrow>
          Reply \<lparr>re_status = 401, re_headers = [(''www-authenticate'', ch), (''content-type'', lit ''application/json'')],
                 re_body = Json (JObj [(lit ''error'', JStr (lit ''unauthorized''))])\<rparr>)"

definition not_found :: "response outcome" where
  "not_found = Reply \<lparr>re_status = 404, re_headers = [(''content-type'', lit ''application/json'')],
     re_body = Json (JObj [(lit ''error'', JStr (lit ''not_found''))])\<rparr>"

definition bearer_gate :: "http_env \<Rightarrow> gate_config \<Rightarrow> control_db \<Rightarrow> int \<Rightarrow> scope \<Rightarrow> response outcome" where
  "bearer_gate E G d now q =
     (if sc_type q = ''lifespan'' then Forward
      else if sc_type q \<noteq> ''http'' then Raise RuntimeError
      else
       (case target q of
          Inl e \<Rightarrow> Raise e
        | Inr path \<Rightarrow>
            (if owns path \<or> owns (sc_path q) then not_found
             else
              (case presented E G d now q of
                 Inl e \<Rightarrow> Raise e
               | Inr None \<Rightarrow> reject G
               | Inr (Some _) \<Rightarrow> Forward))))"

section \<open>The router\<close>

datatype route =
    To_OAuth
  | To_Gate
  | To_Error exc

definition public_router :: "scope \<Rightarrow> route" where
  "public_router q =
     (if sc_type q = ''lifespan'' then To_Gate
      else if sc_type q \<noteq> ''http'' then To_Error RuntimeError
      else
       (case target q of
          Inl e \<Rightarrow> To_Error e
        | Inr path \<Rightarrow> if owns path \<or> owns (sc_path q) then To_OAuth else To_Gate))"

section \<open>The authorization server's endpoints\<close>

text \<open>
  \<open>receive\<close> gives the pieces of a body, each with the flag that more follow; a client that went away gives
  nothing more. Reading stops past 64 KiB.
\<close>

definition BODY_CAP :: nat where "BODY_CAP = 64 * 1024"

fun read_body :: "bytes \<Rightarrow> (bytes \<times> bool) list \<Rightarrow> bytes" where
  "read_body acc [] = acc"
| "read_body acc ((b, m) # ms) =
     (if \<not> m \<or> BODY_CAP < length (acc @ b) then acc @ b else read_body (acc @ b) ms)"

text \<open>\<open>urllib.parse.parse_qsl\<close>: fields between ampersands, a blank value or a missing equals sign drops the field.\<close>

definition unplus :: "http_env \<Rightarrow> pystr \<Rightarrow> pystr" where
  "unplus E s = hp_unquote E (map (\<lambda>c. if c = 43 then 32 else c) s)"

fun fields_of :: "pystr \<Rightarrow> pystr list" where
  "fields_of [] = [[]]"
| "fields_of (c # s) = (if c = 38 then [] # fields_of s else (case fields_of s of [] \<Rightarrow> [[c]] | w # ws \<Rightarrow> (c # w) # ws))"

definition field_pair :: "http_env \<Rightarrow> pystr \<Rightarrow> (pystr \<times> pystr) option" where
  "field_pair E f =
     (let n = takeWhile (\<lambda>c. c \<noteq> 61) f; v = drop (Suc (length n)) f in
      if v = [] then None else Some (unplus E n, unplus E v))"

definition parse_qsl :: "http_env \<Rightarrow> pystr \<Rightarrow> (pystr \<times> pystr) list" where
  "parse_qsl E s = List.map_filter (field_pair E) (fields_of s)"

text \<open>\<open>dict(...)\<close>: the last of several values wins.\<close>

definition param :: "(pystr \<times> pystr) list \<Rightarrow> string \<Rightarrow> pystr option" where
  "param kvs k = map_of (rev kvs) (lit k)"

definition NO_STORE :: "(string \<times> pystr) list" where
  "NO_STORE = [(''cache-control'', lit ''no-store''), (''pragma'', lit ''no-cache'')]"

text \<open>A source expression of a content security policy, in its quotes.\<close>

definition quoted :: "string \<Rightarrow> pystr" where
  "quoted s = [39] @ lit s @ [39]"

definition SECURITY_HEADERS :: "(string \<times> pystr) list" where
  "SECURITY_HEADERS =
     [(''content-security-policy'',
         lit ''default-src '' @ quoted ''self'' @ lit ''; script-src '' @ quoted ''unsafe-inline'' @
         lit ''; style-src '' @ quoted ''unsafe-inline'' @ lit ''; img-src '' @ quoted ''none'' @
         lit ''; connect-src '' @ quoted ''self'' @ lit ''; base-uri '' @ quoted ''none'' @
         lit ''; form-action '' @ quoted ''none'' @ lit ''; frame-ancestors '' @ quoted ''none''),
      (''referrer-policy'', lit ''no-referrer''), (''x-content-type-options'', lit ''nosniff''), (''x-frame-options'', lit ''DENY'')]"

definition respond :: "nat \<Rightarrow> string \<Rightarrow> body \<Rightarrow> response outcome" where
  "respond status ctype b =
     Reply \<lparr>re_status = status, re_headers = (''content-type'', lit ctype) # NO_STORE @ SECURITY_HEADERS, re_body = b\<rparr>"

definition json_reply :: "nat \<Rightarrow> json \<Rightarrow> response outcome" where
  "json_reply status j = respond status ''application/json'' (Json j)"

definition str_field :: "string \<Rightarrow> pystr \<Rightarrow> pystr \<times> json" where
  "str_field k s = (lit k, JStr s)"

text \<open>The descriptions of errors are not kept: an OAuth error is its code.\<close>

definition error_reply :: "nat \<Rightarrow> string \<Rightarrow> response outcome" where
  "error_reply status code = json_reply status (JObj [str_field ''error'' (lit code)])"

record oauth_app =
  oa_base :: pystr
  oa_audit_key :: "bytes option"

definition strs :: "string list \<Rightarrow> json" where
  "strs l = JArr (map (\<lambda>s. JStr (lit s)) l)"

definition as_metadata :: "oauth_app \<Rightarrow> json" where
  "as_metadata A = JObj
     [str_field ''issuer'' (oa_base A), str_field ''authorization_endpoint'' (oa_base A @ lit ''/oauth/authorize''),
      str_field ''token_endpoint'' (oa_base A @ lit ''/oauth/token''), str_field ''registration_endpoint'' (oa_base A @ lit ''/oauth/register''),
      (lit ''response_types_supported'', strs [''code'']), (lit ''grant_types_supported'', strs [''authorization_code'', ''refresh_token'']),
      (lit ''code_challenge_methods_supported'', strs [''S256'']), (lit ''token_endpoint_auth_methods_supported'', strs [''none'']),
      (lit ''scopes_supported'', JArr [JStr READ_ONLY_SCOPE])]"

definition pr_metadata :: "oauth_app \<Rightarrow> json" where
  "pr_metadata A = JObj
     [str_field ''resource'' (oa_base A @ lit ''/mcp''), (lit ''authorization_servers'', JArr [JStr (oa_base A)]),
      (lit ''scopes_supported'', JArr [JStr READ_ONLY_SCOPE]), (lit ''bearer_methods_supported'', strs [''header''])]"

text \<open>What a request draws: random strings and identifiers, each used by one endpoint.\<close>

record draws =
  dw_client :: pystr
  dw_request :: pystr
  dw_user_code :: pystr
  dw_code :: pystr
  dw_secrets :: secrets_drawn

definition answer :: "('a \<Rightarrow> response outcome) \<Rightarrow> (exc + 'a) \<times> control \<Rightarrow> response outcome \<times> control" where
  "answer ok r =
     (case r of
        (Inr a, c) \<Rightarrow> (ok a, c)
      | (Inl e, c) \<Rightarrow> (case e of OAuthError code \<Rightarrow> error_reply 400 code | _ \<Rightarrow> Raise e, c))"

definition py_or_empty :: "http_env \<Rightarrow> json option \<Rightarrow> pystr option" where
  "py_or_empty E v = (case v of None \<Rightarrow> None | Some j \<Rightarrow> if jtrue j then Some (hp_str E j) else None)"

definition registration :: "http_env \<Rightarrow> (pystr \<times> json) list \<Rightarrow> json list \<Rightarrow> pystr \<Rightarrow> json" where
  "registration E m us cid = JObj
     [str_field ''client_id'' cid, (lit ''client_name'', case jget (lit ''client_name'') m of None \<Rightarrow> JNull | Some j \<Rightarrow> j),
      (lit ''redirect_uris'', JArr (map (\<lambda>u. JStr (hp_str E u)) us)), str_field ''token_endpoint_auth_method'' (lit ''none''),
      (lit ''grant_types'', strs [''authorization_code'', ''refresh_token'']), (lit ''response_types'', strs [''code''])]"

definition post_register :: "http_env \<Rightarrow> draws \<Rightarrow> int \<Rightarrow> (bytes \<times> bool) list \<Rightarrow> control \<Rightarrow> response outcome \<times> control" where
  "post_register E W now msgs c =
     (case hp_loads E (read_body [] msgs) of
        Inl e \<Rightarrow> (if e \<in> {ValueError, UnicodeDecodeError} then error_reply 400 ''invalid_client_metadata'' else Raise e, c)
      | Inr payload \<Rightarrow>
     (case payload of
        JObj m \<Rightarrow>
          (case jget (lit ''redirect_uris'') m of
             Some (JArr us) \<Rightarrow>
               answer (json_reply 201 \<circ> registration E m us)
                 (register_client (dw_client W) (py_or_empty E (jget (lit ''client_name'') m)) (map (hp_str E) us) now c)
           | _ \<Rightarrow> (error_reply 400 ''invalid_redirect_uri'', c))
      | _ \<Rightarrow> (error_reply 400 ''invalid_client_metadata'', c)))"

definition html_escape :: "nat \<Rightarrow> pystr" where
  "html_escape c =
     (if c = 38 then lit ''&amp;'' else if c = 60 then lit ''&lt;'' else if c = 62 then lit ''&gt;''
      else if c = 34 then lit ''&quot;'' else if c = 39 then lit ''&#x27;'' else [c])"

definition safe_name :: "http_env \<Rightarrow> pystr \<Rightarrow> pystr" where
  "safe_name E name =
     (let shown = filter (\<lambda>c. \<not> hp_format E c) (if name = [] then lit ''An application'' else name);
          esc = concat (map html_escape shown) in
      if esc = [] then lit ''An application'' else esc)"

definition consent_page :: "http_env \<Rightarrow> pystr \<Rightarrow> pystr \<times> pystr \<Rightarrow> response outcome" where
  "consent_page E name p =
     respond 200 ''text/html; charset=utf-8'' (Page \<lparr>cs_client = safe_name E name, cs_request_id = fst p, cs_user_code = snd p\<rparr>)"

definition client_name_of :: "control_db \<Rightarrow> pystr option \<Rightarrow> pystr" where
  "client_name_of d cid = (case client_of d cid of Inl _ \<Rightarrow> [] | Inr r \<Rightarrow> cli_name r)"

definition authorize_request :: "(pystr \<times> pystr) list \<Rightarrow> auth_request" where
  "authorize_request query =
     \<lparr>ar_client_id = param query ''client_id'', ar_redirect_uri = param query ''redirect_uri'',
      ar_code_challenge = param query ''code_challenge'', ar_method = param query ''code_challenge_method'',
      ar_state = param query ''state''\<rparr>"

definition get_authorize :: "http_env \<Rightarrow> draws \<Rightarrow> int \<Rightarrow> (pystr \<times> pystr) list \<Rightarrow> control \<Rightarrow> response outcome \<times> control" where
  "get_authorize E W now query c =
     (if param query ''response_type'' \<noteq> Some (lit ''code'') then (error_reply 400 ''unsupported_response_type'', c)
      else
        answer (consent_page E (client_name_of (work c) (param query ''client_id'')))
          (begin_authorization (hp_text E) (dw_request W) (dw_user_code W) (authorize_request query) now c))"

definition redirect_url :: "http_env \<Rightarrow> pystr \<times> pystr option \<times> pystr \<Rightarrow> pystr" where
  "redirect_url E got =
     (case got of (code, state, uri) \<Rightarrow>
        uri @ (if 63 \<in> set uri then [38] else [63]) @ lit ''code='' @ hp_quote E code @
        (case state of None \<Rightarrow> [] | Some s \<Rightarrow> lit ''&state='' @ hp_quote E s))"

definition get_poll :: "http_env \<Rightarrow> draws \<Rightarrow> int \<Rightarrow> (pystr \<times> pystr) list \<Rightarrow> control \<Rightarrow> response outcome \<times> control" where
  "get_poll E W now query c =
     (case poll (hp_crypto E) (dw_code W) (param query ''request_id'') now c of
        (Inl e, c') \<Rightarrow> (Raise e, c')
      | (Inr None, c') \<Rightarrow> (json_reply 200 (JObj [(lit ''ready'', JBool False)]), c')
      | (Inr (Some got), c') \<Rightarrow>
          (json_reply 200 (JObj [(lit ''ready'', JBool True), str_field ''redirect'' (redirect_url E got)]), c'))"

definition token_json :: "pystr \<times> pystr \<Rightarrow> json" where
  "token_json t = JObj
     [str_field ''access_token'' (fst t), str_field ''refresh_token'' (snd t), str_field ''token_type'' (lit ''Bearer''),
      (lit ''expires_in'', JInt (ACCESS_TTL_MS div 1000)), str_field ''scope'' READ_ONLY_SCOPE]"

definition token_request :: "(pystr \<times> pystr) list \<Rightarrow> code_request" where
  "token_request form =
     \<lparr>xr_code = param form ''code'', xr_client_id = param form ''client_id'', xr_redirect_uri = param form ''redirect_uri'',
      xr_verifier = param form ''code_verifier''\<rparr>"

definition post_token :: "http_env \<Rightarrow> oauth_app \<Rightarrow> draws \<Rightarrow> int \<Rightarrow> (bytes \<times> bool) list \<Rightarrow> control \<Rightarrow> response outcome \<times> control" where
  "post_token E A W now msgs c =
     (let form = parse_qsl E (latin1 (read_body [] msgs)) in
      if param form ''grant_type'' = Some (lit ''authorization_code'') then
        answer (json_reply 200 \<circ> token_json)
          (exchange_code (hp_crypto E) (dw_secrets W) (oa_audit_key A) (token_request form) now c)
      else if param form ''grant_type'' = Some (lit ''refresh_token'') then
        answer (json_reply 200 \<circ> token_json)
          (refresh (hp_crypto E) (dw_secrets W) (oa_audit_key A) (param form ''refresh_token'') (param form ''client_id'') now c)
      else (error_reply 400 ''unsupported_grant_type'', c))"

section \<open>Dispatch\<close>

datatype endpoint = AS_Metadata | PR_Metadata | Register | Authorize | Poll | Token

definition ROUTES :: "((string \<times> string) \<times> endpoint) list" where
  "ROUTES =
     [((''GET'', ''/.well-known/oauth-authorization-server''), AS_Metadata),
      ((''GET'', ''/.well-known/oauth-protected-resource''), PR_Metadata),
      ((''GET'', ''/.well-known/oauth-protected-resource/mcp''), PR_Metadata),
      ((''POST'', ''/oauth/register''), Register),
      ((''GET'', ''/oauth/authorize''), Authorize),
      ((''GET'', ''/oauth/poll''), Poll),
      ((''POST'', ''/oauth/token''), Token)]"

definition endpoint_of :: "pystr \<Rightarrow> pystr \<Rightarrow> endpoint option" where
  "endpoint_of verb path = map_of (map (\<lambda>((m, p), e). ((lit m, lit p), e)) ROUTES) (verb, path)"

definition known_path :: "pystr \<Rightarrow> bool" where
  "known_path path = list_ex (\<lambda>((m, p), e). lit p = path) ROUTES"

definition oauth_endpoint :: "http_env \<Rightarrow> oauth_app \<Rightarrow> draws \<Rightarrow> int \<Rightarrow> scope \<Rightarrow> (bytes \<times> bool) list \<Rightarrow> control \<Rightarrow> response outcome \<times> control" where
  "oauth_endpoint E A W now q msgs c =
     (case target q of
        Inl e \<Rightarrow> (Raise e, c)
      | Inr path \<Rightarrow>
          (let query = parse_qsl E (latin1 (sc_query q)) in
           case endpoint_of (str_upper (hp_text E) (sc_method q)) path of
             None \<Rightarrow> (error_reply (if known_path path then 405 else 404) ''not_found'', c)
           | Some AS_Metadata \<Rightarrow> (json_reply 200 (as_metadata A), c)
           | Some PR_Metadata \<Rightarrow> (json_reply 200 (pr_metadata A), c)
           | Some Register \<Rightarrow> post_register E W now msgs c
           | Some Authorize \<Rightarrow> get_authorize E W now query c
           | Some Poll \<Rightarrow> get_poll E W now query c
           | Some Token \<Rightarrow> post_token E A W now msgs c))"

text \<open>The public deployment: the router, the authorization server, the gate.\<close>

definition serve :: "http_env \<Rightarrow> gate_config \<Rightarrow> oauth_app \<Rightarrow> draws \<Rightarrow> int \<Rightarrow> scope \<Rightarrow> (bytes \<times> bool) list \<Rightarrow> control \<Rightarrow>
    response outcome \<times> control" where
  "serve E G A W now q msgs c =
     (case public_router q of
        To_OAuth \<Rightarrow> oauth_endpoint E A W now q msgs c
      | To_Gate \<Rightarrow> (bearer_gate E G (work c) now q, c)
      | To_Error e \<Rightarrow> (Raise e, c))"

end
