(* ===== verification/Http_Safety.thy ===== *)
theory Http_Safety
  imports Http
begin

text \<open>
  What the surface guarantees: the application is reached with a valid credential and never under the
  unauthenticated prefixes; the endpoints perform the operations of the authorization server other than
  approval and revocation, one per request; the consent page carries no markup of the client's.
\<close>

section \<open>Who reaches the application\<close>

lemma require_token_True: "require_token p e = Inr True \<longleftrightarrow> p = e \<and> p \<noteq> [] \<and> (\<forall>c\<in>set p. c < 128)"
  by (auto simp: require_token_def compare_digest_def)

text \<open>A credential that opens the gate, stated without the code: one header, a bearer, and a token that is valid.\<close>

definition live_access :: "crypto \<Rightarrow> control_db \<Rightarrow> pystr \<Rightarrow> int \<Rightarrow> bool" where
  "live_access C d tok now \<longleftrightarrow>
     (\<exists>r\<in>set (oauth_tokens d). tok_kind r = Access \<and> tok_revoked_ms r = None \<and> now \<le> tok_expires_ms r \<and>
        (\<exists>b. utf8 tok = Inr b \<and> tok_hash r = hex_of (sha256 C b)))"

definition bearer_of :: "http_env \<Rightarrow> scope \<Rightarrow> pystr option" where
  "bearer_of E q =
     (case auth_values q of
        [v] \<Rightarrow>
          (let h = latin1 v; scheme = takeWhile (\<lambda>c. c \<noteq> 32) h in
           if map ascii_lower scheme = lit ''bearer'' then Some (str_strip (hp_text E) (drop (Suc (length scheme)) h)) else None)
      | _ \<Rightarrow> None)"

lemma validate_access_live: "validate_access_token C T d (Some tok) now = Some x \<Longrightarrow> live_access C d tok now"
  by (auto simp: validate_access_token_def hash_str_def live_access_def nz_def split: if_splits sum.splits option.splits
      dest!: find_SomeD)

lemma presented_credential:
  assumes "presented E G d now q = Inr (Some cr)"
  shows "\<exists>tok. bearer_of E q = Some tok \<and>
    (case cr of Static \<Rightarrow> tok = gt_token G \<and> tok \<noteq> [] | Granted \<Rightarrow> gt_public G \<and> live_access (hp_crypto E) d tok now)"
proof -
  obtain v where v: "auth_values q = [v]" using assms by (auto simp: presented_def split: list.splits)
  define h where "h = latin1 v"
  define sch where "sch = takeWhile (\<lambda>c. c \<noteq> 32) h"
  define tok where "tok = str_strip (hp_text E) (drop (Suc (length sch)) h)"
  have b: "map ascii_lower sch = lit ''bearer''"
    using assms v by (auto simp: presented_def Let_def sch_def h_def split: if_splits)
  have p: "(case require_token tok (gt_token G) of Inl e \<Rightarrow> Inl e | Inr True \<Rightarrow> Inr (Some Static)
      | Inr False \<Rightarrow> Inr (if gt_public G \<and> validate_access_token (hp_crypto E) (hp_text E) d (Some tok) now \<noteq> None then Some Granted else None))
      = Inr (Some cr)"
    using assms v b by (simp add: presented_def Let_def sch_def [symmetric] h_def [symmetric] tok_def [symmetric])
  have "bearer_of E q = Some tok" using v b by (simp add: bearer_of_def Let_def h_def [symmetric] sch_def [symmetric] tok_def)
  moreover have "case cr of Static \<Rightarrow> tok = gt_token G \<and> tok \<noteq> [] | Granted \<Rightarrow> gt_public G \<and> live_access (hp_crypto E) d tok now"
    using p require_token_True [of tok "gt_token G"] validate_access_live
    by (auto split: sum.splits bool.splits if_splits credential.split)
  ultimately show ?thesis by blast
qed

lemma gate_forward:
  assumes "bearer_gate E G d now q = Forward" "sc_type q \<noteq> ''lifespan''"
  obtains path cr where "target q = Inr path" "\<not> owns path" "\<not> owns (sc_path q)" "presented E G d now q = Inr (Some cr)"
  using assms by (auto simp: bearer_gate_def not_found_def reject_def split: if_splits sum.splits option.splits)

section \<open>One operation per request\<close>

fun effect :: "crypto \<Rightarrow> py_text \<Rightarrow> oauth_call \<Rightarrow> control \<Rightarrow> control" where
  "effect C T (REGISTER rnd name us now) c = snd (register_client rnd name us now c)"
| "effect C T (BEGIN rnd body a now) c = snd (begin_authorization T rnd body a now c)"
| "effect C T (COLLECT now) c = snd (collect_expired now c)"
| "effect C T (APPROVE u key code now) c = snd (approve C T u key code now c)"
| "effect C T (POLL code req now) c = snd (poll C code req now c)"
| "effect C T (EXCHANGE sd key x now) c = snd (exchange_code C sd key x now c)"
| "effect C T (REFRESH sd key token cl now) c = snd (refresh C sd key token cl now c)"
| "effect C T (REVOKE_ALL u key now) c = snd (revoke_all C u key now c)"

lemma ocon_run_oauth: "ocon (run_oauth C T k s) = effect C T k (ocon s)"
  by (cases k) (auto split: sum.splits option.splits prod.splits)

text \<open>The operation that a request under the prefixes asks for, if it is well formed enough to ask for one.\<close>

definition register_call :: "http_env \<Rightarrow> draws \<Rightarrow> int \<Rightarrow> (bytes \<times> bool) list \<Rightarrow> oauth_call option" where
  "register_call E W now msgs =
     (case hp_loads E (read_body [] msgs) of
        Inr (JObj m) \<Rightarrow>
          (case jget (lit ''redirect_uris'') m of
             Some (JArr us) \<Rightarrow> Some (REGISTER (dw_client W) (py_or_empty E (jget (lit ''client_name'') m)) (map (hp_str E) us) now)
           | _ \<Rightarrow> None)
      | _ \<Rightarrow> None)"

definition token_call :: "http_env \<Rightarrow> oauth_app \<Rightarrow> draws \<Rightarrow> int \<Rightarrow> (bytes \<times> bool) list \<Rightarrow> oauth_call option" where
  "token_call E A W now msgs =
     (let form = parse_qsl E (latin1 (read_body [] msgs)) in
      if param form ''grant_type'' = Some (lit ''authorization_code'')
      then Some (EXCHANGE (dw_secrets W) (oa_audit_key A) (token_request form) now)
      else if param form ''grant_type'' = Some (lit ''refresh_token'')
      then Some (REFRESH (dw_secrets W) (oa_audit_key A) (param form ''refresh_token'') (param form ''client_id'') now)
      else None)"

definition endpoint_call :: "http_env \<Rightarrow> oauth_app \<Rightarrow> draws \<Rightarrow> int \<Rightarrow> scope \<Rightarrow> (bytes \<times> bool) list \<Rightarrow> endpoint \<Rightarrow> oauth_call option" where
  "endpoint_call E A W now q msgs e =
     (let query = parse_qsl E (latin1 (sc_query q)) in
      case e of
        Register \<Rightarrow> register_call E W now msgs
      | Authorize \<Rightarrow>
          (if param query ''response_type'' \<noteq> Some (lit ''code'') then None
           else Some (BEGIN (dw_request W) (dw_user_code W) (authorize_request query) now))
      | Poll \<Rightarrow> Some (POLL (dw_code W) (param query ''request_id'') now)
      | Token \<Rightarrow> token_call E A W now msgs
      | _ \<Rightarrow> None)"

definition endpoint_at :: "http_env \<Rightarrow> scope \<Rightarrow> endpoint option" where
  "endpoint_at E q =
     (case public_router q of
        To_OAuth \<Rightarrow> (case target q of Inl _ \<Rightarrow> None | Inr path \<Rightarrow> endpoint_of (str_upper (hp_text E) (sc_method q)) path)
      | _ \<Rightarrow> None)"

definition request_call :: "http_env \<Rightarrow> oauth_app \<Rightarrow> draws \<Rightarrow> int \<Rightarrow> scope \<Rightarrow> (bytes \<times> bool) list \<Rightarrow> oauth_call option" where
  "request_call E A W now q msgs =
     (case endpoint_at E q of None \<Rightarrow> None | Some e \<Rightarrow> endpoint_call E A W now q msgs e)"

text \<open>What an endpoint does to the connection, and that it answers the request itself.\<close>

definition did :: "http_env \<Rightarrow> oauth_call option \<Rightarrow> control \<Rightarrow> response outcome \<times> control \<Rightarrow> bool" where
  "did E k c rc \<longleftrightarrow> fst rc \<noteq> Forward \<and> snd rc = (case k of None \<Rightarrow> c | Some k \<Rightarrow> effect (hp_crypto E) (hp_text E) k c)"

lemma replies [simp]: "json_reply n j \<noteq> Forward" "error_reply n m \<noteq> Forward" "consent_page E s p \<noteq> Forward"
  by (simp_all add: json_reply_def error_reply_def respond_def consent_page_def)

lemma did_reply: "r \<noteq> Forward \<Longrightarrow> did E None c (r, c)"
  by (simp add: did_def)

lemma did_answer: "(\<And>a. ok a \<noteq> Forward) \<Longrightarrow> effect (hp_crypto E) (hp_text E) k c = snd r \<Longrightarrow> did E (Some k) c (answer ok r)"
  by (cases r) (auto simp: did_def answer_def split: sum.split exc.split)

lemma did_register: "did E (register_call E W now msgs) c (post_register E W now msgs c)"
  unfolding post_register_def register_call_def
  by (cases "hp_loads E (read_body [] msgs)") (auto intro!: did_reply did_answer split: json.split option.split)

lemma did_authorize: "did E (endpoint_call E A W now q msgs Authorize) c (get_authorize E W now (parse_qsl E (latin1 (sc_query q))) c)"
  unfolding get_authorize_def endpoint_call_def Let_def by (auto intro!: did_reply did_answer)

lemma did_poll: "did E (endpoint_call E A W now q msgs Poll) c (get_poll E W now (parse_qsl E (latin1 (sc_query q))) c)"
  unfolding get_poll_def endpoint_call_def Let_def did_def by (auto split: prod.split sum.split option.split)

lemma did_token: "did E (token_call E A W now msgs) c (post_token E A W now msgs c)"
  unfolding post_token_def token_call_def Let_def by (auto intro!: did_reply did_answer)

lemma did_endpoint:
  assumes "target q = Inr path" "endpoint_of (str_upper (hp_text E) (sc_method q)) path = e"
  shows "did E (case e of None \<Rightarrow> None | Some e \<Rightarrow> endpoint_call E A W now q msgs e) c (oauth_endpoint E A W now q msgs c)"
proof (cases e)
  case None
  with assms show ?thesis by (simp add: oauth_endpoint_def did_reply)
next
  case (Some x)
  then show ?thesis using assms did_register did_authorize did_poll did_token
    by (cases x) (auto simp: oauth_endpoint_def endpoint_call_def Let_def intro!: did_reply)
qed

text \<open>Of the calls, the endpoints make five; approval, revocation and collection are not among them.\<close>

fun remote :: "oauth_call \<Rightarrow> bool" where
  "remote (APPROVE _ _ _ _) = False"
| "remote (REVOKE_ALL _ _ _) = False"
| "remote (COLLECT _) = False"
| "remote _ = True"

lemma request_call_remote: "request_call E A W now q msgs = Some k \<Longrightarrow> remote k"
  by (auto simp: request_call_def endpoint_call_def register_call_def token_call_def Let_def
      split: option.splits endpoint.splits if_splits sum.splits json.splits)

lemma serve_effect:
  "snd (serve E G A W now q msgs c) =
     (case request_call E A W now q msgs of None \<Rightarrow> c | Some k \<Rightarrow> effect (hp_crypto E) (hp_text E) k c)"
proof (cases "public_router q")
  case To_OAuth
  then obtain path where t: "target q = Inr path" by (auto simp: public_router_def split: if_splits sum.splits)
  show ?thesis using did_endpoint [OF t refl, of E A W now msgs c] t To_OAuth
    by (simp add: serve_def did_def request_call_def endpoint_at_def)
qed (auto simp: serve_def request_call_def endpoint_at_def)

lemma serve_forward:
  assumes "serve E G A W now q msgs c = (Forward, c')"
  shows "c' = c \<and> bearer_gate E G (work c) now q = Forward"
proof (cases "public_router q")
  case To_OAuth
  then obtain path where t: "target q = Inr path" by (auto simp: public_router_def split: if_splits sum.splits)
  show ?thesis using did_endpoint [OF t refl, of E A W now msgs c] assms To_OAuth by (simp add: serve_def did_def)
qed (use assms in \<open>auto simp: serve_def\<close>)

theorem forwarded_request:
  assumes "serve E G A W now q msgs c = (Forward, c')" "sc_type q \<noteq> ''lifespan''"
  shows "c' = c \<and> (\<exists>path tok. target q = Inr path \<and> \<not> owns path \<and> \<not> owns (sc_path q) \<and> bearer_of E q = Some tok \<and>
     (tok = gt_token G \<and> tok \<noteq> [] \<or> gt_public G \<and> live_access (hp_crypto E) (work c) tok now))"
proof -
  note f = serve_forward [OF assms(1)]
  obtain path cr where p: "target q = Inr path" "\<not> owns path" "\<not> owns (sc_path q)" "presented E G (work c) now q = Inr (Some cr)"
    using gate_forward [of E G "work c" now q] f assms(2) by blast
  from presented_credential [OF p(4)] obtain tok where "bearer_of E q = Some tok"
    "tok = gt_token G \<and> tok \<noteq> [] \<or> gt_public G \<and> live_access (hp_crypto E) (work c) tok now"
    by (cases cr) auto
  with f p(1-3) show ?thesis by blast
qed

section \<open>Runs of the server\<close>

text \<open>
  A code or a token pair that leaves through a reply, and the runs of the public deployment: requests,
  the operator's approvals, revocations and crashes. The counters count replies.
\<close>

definition hands_code :: "http_env \<Rightarrow> scope \<Rightarrow> response outcome \<Rightarrow> bool" where
  "hands_code E q r \<longleftrightarrow> endpoint_at E q = Some Poll \<and> (\<exists>u. r = json_reply 200 (JObj [(lit ''ready'', JBool True), str_field ''redirect'' u]))"

definition hands_tokens :: "http_env \<Rightarrow> scope \<Rightarrow> (bytes \<times> bool) list \<Rightarrow> response outcome \<Rightarrow> bool" where
  "hands_tokens E q msgs r \<longleftrightarrow> endpoint_at E q = Some Token \<and>
     param (parse_qsl E (latin1 (read_body [] msgs))) ''grant_type'' = Some (lit ''authorization_code'') \<and> (\<exists>t. r = json_reply 200 (token_json t))"

inductive web_step :: "http_env \<Rightarrow> gate_config \<Rightarrow> oauth_app \<Rightarrow> oauth_run \<Rightarrow> oauth_run \<Rightarrow> bool" for E G A where
  request: "serve E G A W now q msgs (ocon s) = (r, c') \<Longrightarrow> fresh_grant (dw_secrets W) (work (ocon s)) \<Longrightarrow>
    a' = codes_given s + of_bool (hands_code E q r) \<Longrightarrow> b' = pairs_given s + of_bool (hands_tokens E q msgs r) \<Longrightarrow>
    web_step E G A s (s\<lparr>ocon := c', codes_given := a', pairs_given := b'\<rparr>)"
| operator_approves: "web_step E G A s (run_oauth (hp_crypto E) (hp_text E) (APPROVE u key code now) s)"
| operator_revokes: "web_step E G A s (run_oauth (hp_crypto E) (hp_text E) (REVOKE_ALL u key now) s)"
| server_crash: "web_step E G A s (s\<lparr>ocon := crash (ocon s)\<rparr>)"

lemma json_reply_inject [simp]: "json_reply n j = json_reply n' j' \<longleftrightarrow> n = n' \<and> j = j'"
  by (auto simp: json_reply_def respond_def)

lemma raise_not_reply [simp]: "Raise e \<noteq> json_reply n j" "json_reply n j \<noteq> Raise e"
  by (simp_all add: json_reply_def respond_def)

lemma run_poll:
  assumes "endpoint_at E q = Some Poll" "serve E G A W now q msgs (ocon s) = (r, c')"
  shows "run_oauth (hp_crypto E) (hp_text E) (POLL (dw_code W) (param (parse_qsl E (latin1 (sc_query q))) ''request_id'') now) s =
    s\<lparr>ocon := c', codes_given := codes_given s + of_bool (hands_code E q r)\<rparr>"
proof -
  have "get_poll E W now (parse_qsl E (latin1 (sc_query q))) (ocon s) = (r, c')"
    using assms by (auto simp: serve_def endpoint_at_def oauth_endpoint_def Let_def split: route.splits sum.splits)
  then show ?thesis using assms(1) unfolding get_poll_def hands_code_def
    by (auto split: prod.splits sum.splits option.splits)
qed

lemma run_exchange:
  assumes "endpoint_at E q = Some Token" "serve E G A W now q msgs (ocon s) = (r, c')"
    "param (parse_qsl E (latin1 (read_body [] msgs))) ''grant_type'' = Some (lit ''authorization_code'')"
  shows "run_oauth (hp_crypto E) (hp_text E)
      (EXCHANGE (dw_secrets W) (oa_audit_key A) (token_request (parse_qsl E (latin1 (read_body [] msgs)))) now) s =
    s\<lparr>ocon := c', pairs_given := pairs_given s + of_bool (hands_tokens E q msgs r)\<rparr>"
proof -
  have "post_token E A W now msgs (ocon s) = (r, c')"
    using assms(1,2) by (auto simp: serve_def endpoint_at_def oauth_endpoint_def Let_def split: route.splits sum.splits)
  then have a: "answer (json_reply 200 \<circ> token_json) (exchange_code (hp_crypto E) (dw_secrets W) (oa_audit_key A)
      (token_request (parse_qsl E (latin1 (read_body [] msgs)))) now (ocon s)) = (r, c')"
    using assms(3) by (simp add: post_token_def Let_def)
  obtain x c1 where x: "exchange_code (hp_crypto E) (dw_secrets W) (oa_audit_key A)
      (token_request (parse_qsl E (latin1 (read_body [] msgs)))) now (ocon s) = (x, c1)" by force
  show ?thesis
  proof (cases x)
    case (Inl e)
    have "r \<noteq> json_reply 200 j" for j
      using a x Inl by (auto simp: answer_def error_reply_def split: exc.splits)
    then show ?thesis using a x Inl assms(1,3) by (auto simp: answer_def hands_tokens_def split: exc.splits)
  next
    case (Inr t)
    then have r: "r = json_reply 200 (token_json t)" "c' = c1" using a x by (auto simp: answer_def)
    have "hands_tokens E q msgs r" unfolding hands_tokens_def using assms(1,3) r(1) by blast
    then show ?thesis using x Inr r(2) by simp
  qed
qed

lemma hands_need_call:
  assumes "hands_code E q r \<or> hands_tokens E q msgs r"
  shows "request_call E A W now q msgs \<noteq> None"
  using assms by (auto simp: hands_code_def hands_tokens_def request_call_def endpoint_call_def token_call_def Let_def)

lemma web_step_run:
  assumes "web_step E G A s s'"
  shows "s' = s \<or> ostep (hp_crypto E) (hp_text E) s s'"
  using assms
proof cases
  case (request W now q msgs r c' a' b')
  let ?k = "request_call E A W now q msgs"
  have c': "c' = (case ?k of None \<Rightarrow> ocon s | Some k \<Rightarrow> effect (hp_crypto E) (hp_text E) k (ocon s))"
    using serve_effect [of E G A W now q msgs "ocon s"] request(2) by simp
  show ?thesis
  proof (cases ?k)
    case None
    then have "\<not> hands_code E q r" "\<not> hands_tokens E q msgs r" using hands_need_call by metis+
    then show ?thesis using request(1,4,5) c' None by simp
  next
    case (Some k)
    have "s' = run_oauth (hp_crypto E) (hp_text E) k s"
    proof (cases "hands_code E q r \<or> hands_tokens E q msgs r \<or> endpoint_at E q = Some Poll \<or> (\<exists>sd key x n. k = EXCHANGE sd key x n)")
      case True
      then consider "endpoint_at E q = Some Poll" | "endpoint_at E q = Some Token" "endpoint_at E q \<noteq> Some Poll"
          "param (parse_qsl E (latin1 (read_body [] msgs))) ''grant_type'' = Some (lit ''authorization_code'')"
        using Some by (auto simp: hands_code_def hands_tokens_def request_call_def endpoint_call_def register_call_def token_call_def Let_def
            split: option.splits endpoint.splits if_splits sum.splits json.splits)
      then show ?thesis
      proof cases
        case 1
        have k: "k = POLL (dw_code W) (param (parse_qsl E (latin1 (sc_query q))) ''request_id'') now"
          using 1 Some by (simp add: request_call_def endpoint_call_def Let_def)
        show ?thesis unfolding k run_poll [OF 1 request(2)] using 1 request(1,4,5) by (simp add: hands_tokens_def)
      next
        case 2
        have k: "k = EXCHANGE (dw_secrets W) (oa_audit_key A) (token_request (parse_qsl E (latin1 (read_body [] msgs)))) now"
          using 2 Some by (simp add: request_call_def endpoint_call_def token_call_def Let_def)
        show ?thesis unfolding k run_exchange [OF 2(1) request(2) 2(3)] using 2 request(1,4,5) by (simp add: hands_code_def)
      qed
    next
      case False
      then have "\<nexists>a b n. k = POLL a b n" using Some
        by (auto simp: request_call_def endpoint_call_def register_call_def token_call_def Let_def
            split: option.splits endpoint.splits if_splits sum.splits json.splits)
      moreover have "remote k" using request_call_remote Some by blast
      ultimately show ?thesis using False request(1,4,5) c' Some by (cases k) auto
    qed
    moreover have "draws_fresh k s"
    proof -
      have "k = EXCHANGE sd key x n \<Longrightarrow> sd = dw_secrets W" for sd key x n
        using Some by (auto simp: request_call_def endpoint_call_def register_call_def token_call_def Let_def
            split: option.splits endpoint.splits if_splits sum.splits json.splits)
      then show ?thesis using request(3) by (cases k) auto
    qed
    ultimately show ?thesis using ostep.ocall by metis
  qed
next
  case (operator_approves u key code now)
  then show ?thesis using ostep.ocall [of "APPROVE u key code now" s] by simp
next
  case (operator_revokes u key now)
  then show ?thesis using ostep.ocall [of "REVOKE_ALL u key now" s] by simp
next
  case server_crash
  then show ?thesis using ostep.ocrash by metis
qed

lemma web_reachable: "(web_step E G A)\<^sup>*\<^sup>* oauth_start s \<Longrightarrow> (ostep (hp_crypto E) (hp_text E))\<^sup>*\<^sup>* oauth_start s"
proof (induction rule: rtranclp_induct)
  case (step y z)
  then show ?case using web_step_run [OF step(2)] rtranclp.rtrancl_into_rtrancl by metis
qed simp

text \<open>Whatever is sent to the public surface, the codes and token pairs that leave it are bounded by the approvals at the terminal.\<close>

theorem web_tokens_approved:
  assumes "(web_step E G A)\<^sup>*\<^sup>* oauth_start s"
  shows "pairs_given s \<le> codes_given s \<and> codes_given s \<le> approvals_made s"
  using run_inv_reachable [OF web_reachable [OF assms]] unfolding run_inv_def by fastforce

section \<open>The page and the body\<close>

lemma html_escape_safe: "x \<in> set (html_escape c) \<Longrightarrow> x \<notin> {60, 62, 34, 39}"
  by (auto simp: html_escape_def lit_def split: if_splits)

theorem safe_name_safe:
  assumes "x \<in> set (safe_name E name)" "\<forall>c\<in>set (lit ''&ampltgquot#x27;''). \<not> hp_format E c" "\<forall>c\<in>set (lit ''An application''). \<not> hp_format E c"
  shows "x \<notin> {60, 62, 34, 39} \<and> \<not> hp_format E x"
proof -
  have esc: "y \<notin> {60, 62, 34, 39} \<and> \<not> hp_format E y" if "y \<in> set (html_escape c)" "\<not> hp_format E c" for y c
    using that html_escape_safe [OF that(1)] assms(2) by (auto simp: html_escape_def lit_def split: if_splits)
  have d: "y \<notin> {60, 62, 34, 39} \<and> \<not> hp_format E y" if "y \<in> set (lit ''An application'')" for y
    using that assms(3) by (auto simp: lit_def)
  let ?shown = "filter (\<lambda>c. \<not> hp_format E c) (if name = [] then lit ''An application'' else name)"
  have "x \<in> set (concat (map html_escape ?shown)) \<or> x \<in> set (lit ''An application'')"
    using assms(1) unfolding safe_name_def Let_def by presburger
  then show ?thesis
  proof
    assume "x \<in> set (concat (map html_escape ?shown))"
    then obtain c where "c \<in> set ?shown" "x \<in> set (html_escape c)" by auto
    then show ?thesis using esc by simp
  qed (rule d)
qed

lemma read_body_prefix: "\<exists>t. acc @ concat (map fst ms) = read_body acc ms @ t"
  by (induction acc ms rule: read_body.induct) (auto simp: append_assoc [symmetric] simp del: append_assoc)

text \<open>A body is a prefix of what was sent, and past the cap at most one more piece is taken.\<close>

theorem read_body_bound:
  assumes "\<forall>p\<in>set ms. length (fst p) \<le> n"
  shows "length (read_body [] ms) \<le> BODY_CAP + n"
proof -
  have "length acc \<le> BODY_CAP \<Longrightarrow> \<forall>p\<in>set ms. length (fst p) \<le> n \<Longrightarrow> length (read_body acc ms) \<le> BODY_CAP + n" for acc
    by (induction acc ms rule: read_body.induct) auto
  then show ?thesis using assms by simp
qed

end
