(* ===== verification/Mcp_Server.thy ===== *)
theory Mcp_Server
  imports Operations Http_Safety
begin

text \<open>
  The MCP server (\<open>apps/mcp/server.py\<close>): the six read tools, the guard that audits every call, the deployment in
  front of them, and the shared daemon startup (\<open>ops/daemon.py\<close>). The MCP SDK and its transport are not
  modelled; a call arrives with the arguments that were bound (or that did not bind).
\<close>

section \<open>The tool surface\<close>

definition REGISTERED_TOOLS :: "string list" where
  "REGISTERED_TOOLS = [''search'', ''get_messages'', ''list_chats'', ''get_message_status'', ''get_conversation_window'', ''list_templates'']"

definition FORBIDDEN_TOOLS :: "string list" where
  "FORBIDDEN_TOOLS = [''approve_draft'', ''send_prepared_message'', ''add_approval_device'', ''revoke_device'', ''set_policy'',
     ''create_capability'', ''set_mcp_visibility'', ''raw_fts_query'', ''sql_query'', ''http_request'', ''graph_api_call'',
     ''send_to_number'', ''broadcast'', ''delete_message'', ''export_vault'', ''get_credentials'']"

text \<open>Python values as far as an argument can hold them; \<open>P_other\<close> is any other object, by its \<open>repr\<close>.\<close>

datatype pyval =
    P_none
  | P_bool bool
  | P_int int
  | P_str pystr
  | P_list "pyval list"
  | P_tuple "pyval list"
  | P_dict "(pyval \<times> pyval) list"
  | P_other pystr

definition dict_put :: "(pystr \<times> json) list \<Rightarrow> pystr \<times> json \<Rightarrow> (pystr \<times> json) list" where
  "dict_put m kv = (if fst kv \<in> fst ` set m then map (\<lambda>x. if fst x = fst kv then kv else x) m else m @ [kv])"

text \<open>\<open>_json_safe\<close>; \<open>key\<close> is \<open>str\<close> on a key of a dictionary.\<close>

fun json_safe :: "(pyval \<Rightarrow> pystr) \<Rightarrow> pyval \<Rightarrow> json" where
  "json_safe key P_none = JNull"
| "json_safe key (P_bool b) = JBool b"
| "json_safe key (P_int i) = JInt i"
| "json_safe key (P_str s) = JStr s"
| "json_safe key (P_list l) = JArr (map (json_safe key) l)"
| "json_safe key (P_tuple l) = JArr (map (json_safe key) l)"
| "json_safe key (P_dict m) = JObj (foldl dict_put [] (map (\<lambda>(k, v). (key k, json_safe key v)) m))"
| "json_safe key (P_other r) = JStr r"

text \<open>\<open>int\<close> on an argument is the parameter \<open>as_int\<close>; it raises \<open>TypeError\<close> or \<open>ValueError\<close>.\<close>

definition clamp_limit :: "(pyval \<Rightarrow> exc + int) \<Rightarrow> pyval \<Rightarrow> exc + int" where
  "clamp_limit as_int v =
     (case as_int v of
        Inl e \<Rightarrow> if e \<in> {TypeError, ValueError} then Inr DEFAULT_LIMIT else Inl e
      | Inr n \<Rightarrow> Inr (max 1 (min n Query.MAX_LIMIT)))"

definition read_limit :: "(pyval \<Rightarrow> exc + int) \<Rightarrow> pyval \<Rightarrow> exc + int" where
  "read_limit as_int v = (case as_int v of Inl e \<Rightarrow> Inl (if e = TypeError then ValueError else e) | Inr n \<Rightarrow> Inr (clamp n))"

section \<open>Calls\<close>

datatype tool_call =
    T_search pystr "pystr option" "pystr option" "int option" "int option" pyval
  | T_get_messages pystr "int option" "int option" pyval
  | T_list_chats "pystr option" pyval
  | T_message_status pystr
  | T_window pystr
  | T_templates

fun tool_name :: "tool_call \<Rightarrow> string" where
  "tool_name (T_search _ _ _ _ _ _) = ''search''"
| "tool_name (T_get_messages _ _ _ _) = ''get_messages''"
| "tool_name (T_list_chats _ _) = ''list_chats''"
| "tool_name (T_message_status _) = ''get_message_status''"
| "tool_name (T_window _) = ''get_conversation_window''"
| "tool_name T_templates = ''list_templates''"

datatype 'r tool_result =
    R_search "(message_view \<times> 'r \<times> tier) list"
  | R_messages "message_view list"
  | R_chats "chat_view list"
  | R_status "status_view option"
  | R_window window_view
  | R_templates "(pystr \<times> pystr \<times> pystr \<times> pystr option \<times> pystr) list option"

record 'r server =
  sv_reader :: reader
  sv_engine :: "'r engine"
  sv_to_int :: "pyval \<Rightarrow> exc + int"
  sv_key :: "pyval \<Rightarrow> pystr"
  sv_has_templates :: bool

text \<open>\<open>str.split()\<close>: the runs of characters that are not white space.\<close>

fun words_of :: "(nat \<Rightarrow> bool) \<Rightarrow> pystr \<Rightarrow> pystr list" where
  "words_of sp [] = []"
| "words_of sp (c # s) =
     (if sp c then words_of sp s
      else if s = [] \<or> sp (hd s) then [c] # words_of sp s
      else (case words_of sp s of [] \<Rightarrow> [[c]] | w # ws \<Rightarrow> (c # w) # ws))"

definition tool_query :: "'r server \<Rightarrow> pystr \<Rightarrow> pystr option \<Rightarrow> pystr option \<Rightarrow> int option \<Rightarrow> int option \<Rightarrow> int \<Rightarrow> search_query" where
  "tool_query S q cid dir from_ms to_ms lim =
     \<lparr>sq_terms = words_of (isspace (rd_unicode (sv_reader S))) q, sq_phrase = None, sq_prefix = None, sq_near = None,
      sq_conversations = (if truthy cid then [the cid] else []), sq_contacts = [], sq_direction = dir, sq_from_ms = from_ms,
      sq_to_ms = to_ms, sq_origins = [], sq_limit = lim\<rparr>"

fun run_tool :: "'r server \<Rightarrow> int \<Rightarrow> vault_db \<Rightarrow> control_db \<Rightarrow> tool_call \<Rightarrow> exc + 'r tool_result" where
  "run_tool S now_ms d k (T_search q cid dir from_ms to_ms limit) =
     (case clamp_limit (sv_to_int S) limit of
        Inl e \<Rightarrow> Inl e
      | Inr lim \<Rightarrow> map_sum id R_search (search (sv_reader S) (sv_engine S) (tool_query S q cid dir from_ms to_ms lim) d))"
| "run_tool S now_ms d k (T_get_messages cid from_ms to_ms limit) =
     (case List.find (\<lambda>r. cnv_id r = cid) (conversations d) of
        None \<Rightarrow> Inr (R_messages [])
      | Some r \<Rightarrow>
          if cnv_mcp_visibility r = LOCAL_ONLY then Inr (R_messages [])
          else
           (case read_limit (sv_to_int S) limit of
              Inl e \<Rightarrow> Inl e
            | Inr n \<Rightarrow> map_sum id R_messages (get_messages (sv_reader S) cid from_ms to_ms n d)))"
| "run_tool S now_ms d k (T_list_chats query limit) =
     (case read_limit (sv_to_int S) limit of Inl e \<Rightarrow> Inl e | Inr n \<Rightarrow> Inr (R_chats (list_chats (sv_reader S) query n d)))"
| "run_tool S now_ms d k (T_message_status mid) = Inr (R_status (get_message_status mid d))"
| "run_tool S now_ms d k (T_window cid) = Inr (R_window (get_conversation_window k d cid now_ms))"
| "run_tool S now_ms d k T_templates = Inr (R_templates (list_templates (sv_has_templates S) k))"

section \<open>The guard\<close>

text \<open>The name of the class of an exception, as the audit row shows it.\<close>

fun exc_name :: "exc \<Rightarrow> string" where
  "exc_name IntegrityError = ''IntegrityError''"
| "exc_name OverflowError = ''OverflowError''"
| "exc_name UnicodeEncodeError = ''UnicodeEncodeError''"
| "exc_name UnicodeDecodeError = ''UnicodeDecodeError''"
| "exc_name ValueError = ''ValueError''"
| "exc_name TypeError = ''TypeError''"
| "exc_name KeyError = ''KeyError''"
| "exc_name AttributeError = ''AttributeError''"
| "exc_name IdError = ''IdError''"
| "exc_name ClockUntrusted = ''ClockUntrusted''"
| "exc_name ProviderError = ''ProviderError''"
| "exc_name SchedulerError = ''SchedulerError''"
| "exc_name InterfaceError = ''InterfaceError''"
| "exc_name InvalidTag = ''InvalidTag''"
| "exc_name BadEnvelope = ''BadEnvelope''"
| "exc_name KeyUnavailable = ''KeyUnavailable''"
| "exc_name AeadAuthFailed = ''AeadAuthFailed''"
| "exc_name DeviceSealError = ''DeviceSealError''"
| "exc_name KeyExists = ''KeyExists''"
| "exc_name KeyMissing = ''KeyMissing''"
| "exc_name KeyStillReferenced = ''KeyStillReferenced''"
| "exc_name QueryTooComplex = ''QueryTooComplex''"
| "exc_name AmbiguousTranscript = ''AmbiguousTranscript''"
| "exc_name OSError = ''OSError''"
| "exc_name KeyStoreError = ''KeyStoreError''"
| "exc_name DatabaseError = ''DatabaseError''"
| "exc_name FileNotFoundError = ''FileNotFoundError''"
| "exc_name ContentInLogError = ''ContentInLogError''"
| "exc_name CapabilityError = ''CapabilityError''"
| "exc_name RuntimeError = ''RuntimeError''"
| "exc_name (DraftRefused _) = ''DraftRefused''"
| "exc_name (GrantRejected _) = ''GrantRejected''"
| "exc_name (RelayRejected _) = ''RelayRejected''"
| "exc_name (TemplateRefused _) = ''TemplateRefused''"
| "exc_name (OAuthError _) = ''OAuthError''"
| "exc_name (ImportRefused _) = ''ImportRefused''"
| "exc_name (HostileZip _) = ''HostileZip''"
| "exc_name (AuthError _) = ''AuthError''"
| "exc_name StructError = ''error''"
| "exc_name BadZipFile = ''BadZipFile''"

definition outcome_of :: "exc + 'a \<Rightarrow> string" where
  "outcome_of r = (case r of Inl e \<Rightarrow> ''error:'' @ exc_name e | Inr _ \<Rightarrow> ''ok'')"

definition recorded_args :: "'r server \<Rightarrow> (pyval \<times> pyval) list option \<Rightarrow> json" where
  "recorded_args S args =
     (case args of None \<Rightarrow> JObj [(lit ''_wv_unbindable'', JBool True)] | Some b \<Rightarrow> json_safe (sv_key S) (P_dict b))"

text \<open>
  A call through the guard: it runs, and the record of it follows in \<open>finally\<close>, so that an error of the record
  replaces the result. A call whose arguments do not bind raises \<open>TypeError\<close>.
\<close>

definition guarded ::
  "crypto \<Rightarrow> pystr \<Rightarrow> bytes \<Rightarrow> 'r server \<Rightarrow> int \<Rightarrow> (pyval \<times> pyval) list option \<Rightarrow> tool_call \<Rightarrow> vault_db \<Rightarrow> control \<Rightarrow>
   (exc + 'r tool_result) \<times> control" where
  "guarded C u audit_key S now_ms args t d c =
     (let r = (if args = None then Inl TypeError else run_tool S now_ms d (work c) t) in
      case record_audit C u audit_key ''mcp'' (tool_name t) (recorded_args S args) (outcome_of r) now_ms c of
        (Inl e, c') \<Rightarrow> (Inl e, c')
      | (Inr _, c') \<Rightarrow> (r, c'))"

section \<open>The deployment\<close>

definition rstrip_slashes :: "pystr \<Rightarrow> pystr" where
  "rstrip_slashes s = rev (dropWhile (\<lambda>c. c = 47) (rev s))"

text \<open>The hosts and origins that the transport lets through; \<open>netloc\<close> is that of \<open>urlsplit\<close>.\<close>

definition transport_security_settings :: "(pystr \<Rightarrow> pystr) \<Rightarrow> int \<Rightarrow> pystr option \<Rightarrow> exc + pystr list \<times> pystr list" where
  "transport_security_settings netloc port public_url =
     (let hosts = [lit ''127.0.0.1:'' @ int_dec port, lit ''127.0.0.1'', lit ''localhost:'' @ int_dec port, lit ''localhost''];
          origins = [lit ''http://127.0.0.1:'' @ int_dec port, lit ''http://localhost:'' @ int_dec port] in
      if truthy public_url then
        (let base = rstrip_slashes (the public_url) in
         if netloc base = [] then Inl ValueError else Inr (hosts @ [netloc base], origins @ [base]))
      else Inr (hosts, origins))"

datatype deployment =
    Loopback gate_config
  | Public gate_config oauth_app

definition build_oauth_app :: "pystr \<Rightarrow> pystr option \<Rightarrow> bytes option \<Rightarrow> exc + deployment" where
  "build_oauth_app token public_url audit_key =
     (if \<not> truthy public_url then
        (if token = [] then Inl ValueError
         else Inr (Loopback \<lparr>gt_token = token, gt_public = False, gt_metadata_url = None\<rparr>))
      else
       (let base = rstrip_slashes (the public_url) in
        if take 8 base \<noteq> lit ''https://'' then Inl ValueError
        else if token = [] then Inl ValueError
        else Inr (Public \<lparr>gt_token = token, gt_public = True,
                          gt_metadata_url = Some (base @ lit ''/.well-known/oauth-protected-resource'')\<rparr>
                    \<lparr>oa_base = base, oa_audit_key = audit_key\<rparr>)))"

definition handle :: "http_env \<Rightarrow> deployment \<Rightarrow> draws \<Rightarrow> int \<Rightarrow> scope \<Rightarrow> (bytes \<times> bool) list \<Rightarrow> control \<Rightarrow> response outcome \<times> control" where
  "handle E D W now q msgs c =
     (case D of Loopback G \<Rightarrow> (bearer_gate E G (work c) now q, c) | Public G A \<Rightarrow> serve E G A W now q msgs c)"

section \<open>Startup\<close>

definition blocked :: "string \<Rightarrow> string \<Rightarrow> pystr \<Rightarrow> exc + (pystr \<times> json) list" where
  "blocked service blocked_on detail =
     log_event [field ''service'' (jtext service), field ''status'' (jtext ''not_started''),
       field ''blocked_on'' (jtext blocked_on), field ''detail'' (JStr detail)]"

definition DETAIL :: pystr where
  "DETAIL = lit (''whatsvault.mcp.token.v1 / whatsvault.mcp.audit.v1 are absent from the '' @ ''Keychain; run `whatsvault mcp-provision`'')"

definition preflight :: "'s req \<Rightarrow> 's \<Rightarrow> exc + (pystr \<times> json) list option" where
  "preflight req s =
     (case (case req TOKEN_KEY_NAME 32 s of Inl e \<Rightarrow> Inl e | Inr _ \<Rightarrow> req AUDIT_KEY_NAME 32 s) of
        Inr _ \<Rightarrow> Inr None
      | Inl e \<Rightarrow>
          if e = KeyMissing then
            map_sum id Some (blocked ''mcp'' ''keys_not_provisioned'' DETAIL)
          else Inl e)"

text \<open>
  \<open>open_databases\<close>: both connections, or a record of what blocks the start. \<open>name_of\<close> is the message of the
  exception; an exception of another kind is raised. The class \<open>KeyExists\<close> is a \<open>KeyStoreError\<close> too.
\<close>

definition open_databases :: "'s req \<Rightarrow> 'd \<Rightarrow> (exc \<Rightarrow> pystr) \<Rightarrow> exc + unit \<Rightarrow> string \<Rightarrow> paths \<Rightarrow> ('s, 'd) host \<Rightarrow>
    exc + ((bytes \<times> 'd versioned) \<times> (bytes \<times> 'd versioned)) + (pystr \<times> json) list" where
  "open_databases req d0 name_of backend service p h =
     (case (case backend of
              Inl e \<Rightarrow> Inl e
            | Inr _ \<Rightarrow>
           (case open_existing req d0 ''vault'' (vault_db_path p) h of
              Inl e \<Rightarrow> Inl e
            | Inr v \<Rightarrow> (case open_existing req d0 ''control'' (control_db_path p) h of Inl e \<Rightarrow> Inl e | Inr k \<Rightarrow> Inr (v, k)))) of
        Inr vk \<Rightarrow> Inr (Inl vk)
      | Inl e \<Rightarrow>
          map_sum id Inr
            (case e of
               KeyMissing \<Rightarrow> blocked service ''keys_not_provisioned''
                 (name_of e @ lit '' absent; run `whatsvault mcp-provision` (or the vault/control key setup)'')
             | KeyExists \<Rightarrow> blocked service ''keystore_unavailable'' (lit ''KeyExists: '' @ name_of e)
             | KeyStoreError \<Rightarrow> blocked service ''keystore_unavailable'' (lit ''KeyStoreError: '' @ name_of e)
             | FileNotFoundError \<Rightarrow> blocked service ''databases_absent'' (lit ''FileNotFoundError'')
             | _ \<Rightarrow> Inl e))"

section \<open>Every call is accounted for\<close>

text \<open>Either the call raises and leaves no trace, or one row with its real outcome is durable.\<close>

lemma guarded_cases:
  assumes "guarded C u key S now_ms args t d c = (r, c')"
  obtains (raised) e where "r = Inl e" "c' = c"
    | (recorded) row where "clean c'" "work c' = (work c)\<lparr>audit_log := audit_log (work c) @ [row]\<rparr>"
        "aud_tool row = tool_name t" "aud_outcome row = outcome_of r"
        "r = (if args = None then Inl TypeError else run_tool S now_ms d (work c) t)"
proof -
  define r0 where "r0 = (if args = None then Inl TypeError else run_tool S now_ms d (work c) t)"
  obtain x c1 where rec: "record_audit C u key ''mcp'' (tool_name t) (recorded_args S args) (outcome_of r0) now_ms c = (x, c1)"
    by (rule prod.exhaust)
  show thesis
    using rec
  proof (cases rule: record_audit_cases)
    case (raised e)
    with rec assms have "r = Inl e" "c' = c" by (simp_all add: guarded_def flip: r0_def)
    then show thesis by (rule that(1))
  next
    case (written row)
    with rec assms have "r = r0" "c' = c1" by (simp_all add: guarded_def flip: r0_def)
    with written show thesis by (intro that(2) [of row]) (simp_all add: r0_def)
  qed
qed

lemma tool_names: "tool_name t \<in> set REGISTERED_TOOLS" "tool_name t \<notin> set FORBIDDEN_TOOLS"
  by (cases t; simp add: REGISTERED_TOOLS_def FORBIDDEN_TOOLS_def)+

section \<open>What the tools can show\<close>

lemma clamp_limit_range: "clamp_limit f v = Inr n \<Longrightarrow> 1 \<le> n \<and> n \<le> 200"
  by (auto simp: clamp_limit_def DEFAULT_LIMIT_def Query.MAX_LIMIT_def split: sum.splits if_splits)

text \<open>The conversations that an answer speaks of.\<close>

fun shown :: "'r tool_result \<Rightarrow> pystr list" where
  "shown (R_search vs) = map (\<lambda>(v, _, _). mv_conversation_id v) vs"
| "shown (R_messages vs) = map mv_conversation_id vs"
| "shown (R_chats vs) = map ch_conversation_id vs"
| "shown (R_status _) = []"
| "shown (R_window _) = []"
| "shown (R_templates _) = []"

lemma view_conversation: "view R d m = Inr v \<Longrightarrow> mv_conversation_id v = msg_conversation_id m"
  by (auto simp: view_def present_message_def split: sum.splits)

lemma fenced_hits_length: "fenced_hits R d hs = Inr vs \<Longrightarrow> length vs \<le> length hs"
proof (induction hs arbitrary: vs)
  case (Cons h hs)
  from Cons.prems obtain vs' where "fenced_hits R d hs = Inr vs'" "length vs \<le> Suc (length vs')"
    by (auto split: if_splits option.splits sum.splits)
  with Cons.IH show ?case by fastforce
qed simp

lemma map_sum_Inr: "map_sum id g x = Inr y \<longleftrightarrow> (\<exists>z. x = Inr z \<and> y = g z)"
  by (cases x) auto

lemma search_fenced:
  assumes "Reads.search R match q d = Inr vs" "distinct (map msg_id (messages d))"
  shows "set (shown (R_search vs)) \<inter> set (local_only_ids d) = {}"
proof -
  { fix v rank t assume "(v, rank, t) \<in> set vs"
    from search_ok [OF assms(1) this assms(2)] obtain m where
      "view R d m = Inr v" "msg_conversation_id m \<notin> set (local_only_ids d)" by blast
    then have "mv_conversation_id v \<notin> set (local_only_ids d)" by (simp add: view_conversation) }
  then show ?thesis by auto
qed

lemma mapM_in: "mapM f xs = Inr ys \<Longrightarrow> y \<in> set ys \<Longrightarrow> \<exists>x\<in>set xs. f x = Inr y"
  by (induction xs arbitrary: ys) (auto split: sum.splits)

lemma get_messages_of:
  assumes "get_messages R cid a b n d = Inr vs" "v \<in> set vs"
  shows "mv_conversation_id v = cid"
proof -
  define ms where "ms = sort_key (\<lambda>m. (msg_ts_lower_ms m, msg_id m)) (filter (\<lambda>m. msg_conversation_id m = cid \<and> in_range a b m) (messages d))"
  have ms: "mapM (view R d) (limit_rows (clamp n) ms) = Inr vs"
    using assms by (simp add: get_messages_def split: option.splits if_splits flip: ms_def)
  have "\<forall>m\<in>set ms. msg_conversation_id m = cid" by (simp add: ms_def)
  moreover from mapM_in [OF ms assms(2)] obtain m where "m \<in> set ms" "view R d m = Inr v"
    by (auto dest: subsetD [OF set_limit_rows])
  ultimately show ?thesis by (auto dest: view_conversation)
qed

lemma list_chats_fenced:
  assumes "distinct (map cnv_id (conversations d))"
  shows "set (shown (R_chats (list_chats R query n d))) \<inter> set (local_only_ids d) = {}"
  using assms
  by (auto simp: list_chats_def dest!: subsetD [OF set_limit_rows]) (auto simp: local_only_iff)

lemma run_tool_fenced:
  assumes "distinct (map cnv_id (conversations d))" "distinct (map msg_id (messages d))" "run_tool S now_ms d k t = Inr res"
  shows "set (shown res) \<inter> set (local_only_ids d) = {}"
proof (cases t)
  case (T_search q cid dir a b l)
  with assms(3) obtain q' vs where "Reads.search (sv_reader S) (sv_engine S) q' d = Inr vs" "res = R_search vs"
    by (auto simp: map_sum_Inr split: sum.splits)
  with search_fenced assms(2) show ?thesis by blast
next
  case (T_get_messages cid a b l)
  show ?thesis
  proof (cases "res = R_messages []")
    case False
    with T_get_messages assms(3) obtain r n vs where r: "List.find (\<lambda>r. cnv_id r = cid) (conversations d) = Some r"
      "cnv_mcp_visibility r \<noteq> LOCAL_ONLY" "get_messages (sv_reader S) cid a b n d = Inr vs" "res = R_messages vs"
      by (auto simp: map_sum_Inr split: sum.splits option.splits if_splits)
    have "r \<in> set (conversations d)" "cnv_id r = cid" using find_SomeD [OF r(1)] by auto
    with r(2) assms(1) have "cid \<notin> set (local_only_ids d)" using local_only_iff by metis
    with r(3,4) show ?thesis by (auto dest: get_messages_of)
  qed simp
next
  case (T_list_chats query l)
  with assms(3) obtain n where "res = R_chats (list_chats (sv_reader S) query n d)" by (auto split: sum.splits)
  with list_chats_fenced [OF assms(1)] show ?thesis by simp
qed (use assms(3) in auto)

lemma run_tool_bounded:
  assumes "run_tool S now_ms d k t = Inr res"
  shows "length (shown res) \<le> 200"
proof (cases t)
  case (T_search q cid dir a b l)
  with assms obtain lim vs where lim: "clamp_limit (sv_to_int S) l = Inr lim"
      "Reads.search (sv_reader S) (sv_engine S) (tool_query S q cid dir a b lim) d = Inr vs" "res = R_search vs"
    by (auto simp: map_sum_Inr split: sum.splits)
  then obtain hs where hs: "run_search (rd_unicode (sv_reader S)) (sv_engine S) (tool_query S q cid dir a b lim) d = Inr hs"
    "fenced_hits (sv_reader S) d hs = Inr vs" by (auto simp: Reads.search_def split: sum.splits)
  from run_search_ok(3) [OF hs(1)] clamp_limit_range [OF lim(1)] have "int (length hs) \<le> 200"
    by (simp add: tool_query_def row_limit_def Query.MAX_LIMIT_def split: if_splits)
  with fenced_hits_length [OF hs(2)] lim(3) show ?thesis by simp
next
  case (T_get_messages cid a b l)
  with assms show ?thesis by (auto simp: map_sum_Inr split: sum.splits option.splits if_splits dest!: get_messages_bound)
next
  case (T_list_chats query l)
  with assms show ?thesis by (auto split: sum.splits simp: list_chats_bound)
qed (use assms in auto)

text \<open>Without the fenced conversations the five direct reads answer the same.\<close>

lemma run_tool_hide:
  assumes "distinct (map cnv_id (conversations d))" "distinct (map msg_id (messages d))" "tool_name t \<noteq> ''search''"
  shows "run_tool S now_ms d k t = run_tool S now_ms (hide d) (hide_windows d k) t"
proof (cases t)
  case (T_get_messages cid a b l)
  have f: "List.find (\<lambda>r. cnv_id r = cid) (conversations (hide d)) =
      (case List.find (\<lambda>r. cnv_id r = cid) (conversations d) of None \<Rightarrow> None
       | Some r \<Rightarrow> if cnv_mcp_visibility r \<noteq> LOCAL_ONLY then Some r else None)"
    by (simp add: hide_def find_filter_distinct [OF assms(1)])
  show ?thesis
    unfolding T_get_messages run_tool.simps f get_messages_hide [OF assms(1), of "sv_reader S" cid a b]
    by (simp split: option.split sum.split)
next
  case (T_list_chats query l)
  have "list_chats (sv_reader S) query n d = list_chats (sv_reader S) query n (hide d)" for n by (rule list_chats_hide)
  then show ?thesis unfolding T_list_chats run_tool.simps by presburger
next
  case (T_message_status mid)
  show ?thesis unfolding T_message_status run_tool.simps get_message_status_hide [OF assms(2), of mid] ..
next
  case (T_window cid)
  show ?thesis unfolding T_window run_tool.simps window_hide [of k d cid] ..
next
  case T_templates
  then show ?thesis by (simp add: list_templates_def hide_windows_def)
qed (use assms(3) in simp)

section \<open>Deployments\<close>

text \<open>A loopback server holds no OAuth surface and admits the static token alone; a public one is on https.\<close>

lemma build_loopback:
  assumes "build_oauth_app token url key = Inr (Loopback G)"
  shows "\<not> gt_public G" "gt_token G = token" "token \<noteq> []" "\<not> truthy url"
  using assms by (auto simp: build_oauth_app_def Let_def split: if_splits)

lemma build_public:
  assumes "build_oauth_app token url key = Inr (Public G A)"
  shows "gt_public G" "gt_token G = token" "token \<noteq> []" "take 8 (oa_base A) = lit ''https://''"
  using assms by (auto simp: build_oauth_app_def Let_def split: if_splits)

section \<open>Clean stops\<close>

text \<open>A key store that has neither key, or databases that are not there, are reported; no exception leaves.\<close>

lemma blocked_reports: "\<exists>r. blocked service why detail = Inr r"
  by (simp add: blocked_def log_event_def field_clean jtext_def FORBIDDEN_KEYS_def)

lemma preflight_iff:
  "preflight req s = Inr None \<longleftrightarrow> (\<exists>a b. req TOKEN_KEY_NAME 32 s = Inr a \<and> req AUDIT_KEY_NAME 32 s = Inr b)"
proof -
  obtain r where "blocked ''mcp'' ''keys_not_provisioned'' DETAIL = Inr r" using blocked_reports by blast
  then show ?thesis by (auto simp: preflight_def split: sum.split)
qed

lemma preflight_raises: "preflight req s = Inl e \<Longrightarrow> e \<noteq> KeyMissing"
proof -
  obtain r where "blocked ''mcp'' ''keys_not_provisioned'' DETAIL = Inr r" using blocked_reports by blast
  then show "preflight req s = Inl e \<Longrightarrow> e \<noteq> KeyMissing" by (auto simp: preflight_def split: sum.splits if_splits)
qed

lemma open_databases_raises:
  assumes "open_databases req d0 name_of backend service p h = Inl e"
  shows "e \<notin> {KeyMissing, KeyExists, KeyStoreError, FileNotFoundError}"
proof -
  have "map_sum id Inr (blocked service why detail) \<noteq> Inl x" for why detail x
    using blocked_reports [of service why detail] by auto
  with assms show ?thesis by (auto simp: open_databases_def split: sum.splits exc.splits)
qed

end
