(* ===== verification/Public_Surface.thy ===== *)
theory Public_Surface
  imports Window_Safety Mcp_Server
begin

text \<open>
  The public surface beside the sender. The OAuth endpoints, the operator's OAuth commands and the audited tools
  write to \<open>control.db\<close> too. The locale \<open>bystander\<close> is the contract of an operation on that connection
  that sees to its own tables only, and what the sender keeps under it; a request over HTTP, an operation of the
  authorization server and a call of a tool are interpretations.
\<close>

section \<open>The contract\<close>

text \<open>The database without the tables of the public surface.\<close>

definition inner :: "control_db \<Rightarrow> control_db" where
  "inner d = d\<lparr>audit_log := [], oauth_clients := [], oauth_pending := [], oauth_codes := [], oauth_tokens := []\<rparr>"

lemma inner_sel:
  "approval_devices (inner d) = approval_devices d" "drafts (inner d) = drafts d" "approvals (inner d) = approvals d"
  "approval_nonces (inner d) = approval_nonces d" "send_attempts (inner d) = send_attempts d"
  "capability_grants (inner d) = capability_grants d" "conversation_windows (inner d) = conversation_windows d"
  "templates (inner d) = templates d" "scheduled_jobs (inner d) = scheduled_jobs d" "job_runs (inner d) = job_runs d"
  "reconciliation_candidates (inner d) = reconciliation_candidates d"
  by (simp_all add: inner_def)

lemma inner_fields:
  assumes "inner d' = inner d"
  shows "approval_devices d' = approval_devices d" "drafts d' = drafts d" "approvals d' = approvals d"
    "approval_nonces d' = approval_nonces d" "send_attempts d' = send_attempts d"
    "capability_grants d' = capability_grants d" "conversation_windows d' = conversation_windows d"
  using assms by (metis inner_sel)+

lemma inner_upd [simp]:
  "inner (d\<lparr>audit_log := l\<rparr>) = inner d" "inner (d\<lparr>oauth_clients := ocl\<rparr>) = inner d"
  "inner (d\<lparr>oauth_pending := pe\<rparr>) = inner d" "inner (d\<lparr>oauth_codes := co\<rparr>) = inner d"
  "inner (d\<lparr>oauth_tokens := ts\<rparr>) = inner d"
  by (simp_all add: inner_def)

text \<open>What one connection leaves of the sender's tables, in its transaction and on the disk.\<close>

definition beside :: "control \<Rightarrow> control \<Rightarrow> bool" where
  "beside c c' \<longleftrightarrow> inner (work c') = inner (work c) \<and> inner (disk c') \<in> {inner (disk c), inner (work c)}"

lemma beside_refl [simp, intro]: "beside c c"
  by (simp add: beside_def)

lemma beside_trans [trans]: "beside a b \<Longrightarrow> beside b c \<Longrightarrow> beside a c"
  by (auto simp: beside_def)

lemma beside_commit [simp]: "beside c (commit c') \<longleftrightarrow> inner (work c') = inner (work c)"
  by (auto simp: beside_def)

lemma beside_work [simp]: "beside c (c\<lparr>work := w\<rparr>) \<longleftrightarrow> inner w = inner (work c)"
  by (simp add: beside_def)

locale bystander =
  fixes act :: "control \<Rightarrow> control"
  assumes leaves: "inner (work (act c)) = inner (work c)"
    and durable: "inner (disk (act c)) = inner (disk c) \<or> inner (disk (act c)) = inner (work c)"
begin

lemma windows_kept:
  "wins (act c) = wins c" "conversation_windows (disk c) = wins c \<Longrightarrow> conversation_windows (disk (act c)) = wins c"
  using inner_fields(7) [OF leaves, of c] durable [of c] by (auto dest: inner_fields(7))

end

text \<open>What the sender's invariants see of a database.\<close>

lemma db_inv_private: "inner d' = inner d \<Longrightarrow> db_inv C d' = db_inv C d"
  using control_inv_cong [OF inner_fields(1-6)] inner_fields(2,6) by (metis db_inv_def quota_ok_def)

lemma grows_private: "inner a' = inner a \<Longrightarrow> inner b' = inner b \<Longrightarrow> grows a' b' = grows a b"
  using grows_other [of a a'] grows_other [of a' a] grows_other [of b b'] grows_other [of b' b] inner_fields grows_trans
  by (metis (no_types))

context bystander
begin

lemma conn_kept:
  assumes "conn_inv C c" shows "conn_inv C (act c)" "grows (disk c) (disk (act c))"
proof -
  have i: "db_inv C (work c)" "db_inv C (disk c)" "grows (disk c) (work c)" using assms by (simp_all add: conn_inv_def)
  have w: "db_inv C (work (act c))" using i(1) db_inv_private [OF leaves] by simp
  from durable [of c] have "db_inv C (disk (act c)) \<and> grows (disk (act c)) (work (act c)) \<and> grows (disk c) (disk (act c))"
  proof
    assume d: "inner (disk (act c)) = inner (disk c)"
    with i db_inv_private [OF d] grows_private [OF d leaves] grows_private [OF refl d] show ?thesis by simp
  next
    assume d: "inner (disk (act c)) = inner (work c)"
    with i db_inv_private [OF d] grows_private [OF d leaves] grows_private [OF refl d] show ?thesis by simp
  qed
  with w show "conn_inv C (act c)" "grows (disk c) (disk (act c))" by (simp_all add: conn_inv_def)
qed

lemma sys_kept:
  assumes "sys_inv C s" shows "sys_inv C (s\<lparr>wld := (wld s)\<lparr>ctl := act (ctl (wld s))\<rparr>\<rparr>)"
  using assms conn_kept [OF sys_inv_conn [OF assms]] post_ok_grows by (auto simp: sys_inv_def)

end

section \<open>The authorization server\<close>

lemma inner_ins:
  "ins_client r1 d = Inr d' \<Longrightarrow> inner d' = inner d" "ins_pending r2 d = Inr d' \<Longrightarrow> inner d' = inner d"
  "ins_code r3 d = Inr d' \<Longrightarrow> inner d' = inner d" "ins_token r4 d = Inr d' \<Longrightarrow> inner d' = inner d"
  "ins_audit r5 d = Inr d' \<Longrightarrow> inner d' = inner d"
  by (auto simp: ins_client_def ins_pending_def ins_code_def ins_token_def ins_audit_def split: sum.splits)

lemma inner_db [simp]: "inner (expire_db now d) = inner d" "inner (kill now p d) = inner d"
  by (simp_all add: expire_db_def kill_def inner_def)

lemma beside_record_audit: "beside c (snd (record_audit C u k actor tool args outcome now c))"
  by (auto simp: record_audit_def dest: inner_ins(5) split: sum.split)

lemma beside_audit: "beside c (snd (audit_event C u key tool outcome args now c))"
  by (auto simp: audit_event_def beside_record_audit split: option.split)

lemma beside_put_token: "beside c (snd (put_token C t k cl now g c))"
  by (auto simp: put_token_def dest: inner_ins(4) split: sum.split)

text \<open>An operation that records what it did and commits.\<close>

lemma beside_recorded:
  assumes "beside c c1"
  shows "beside c (snd (case audit_event C u key tool outcome args now c1 of
      (Inl e, c2) \<Rightarrow> (Inl e, c2) | (Inr v, c2) \<Rightarrow> (r, commit c2)))"
    "beside c (snd (case audit_event C u key tool outcome args now c1 of (Inl e, c2) \<Rightarrow> (Inl e, c2) | (Inr v, c2) \<Rightarrow> (r, c2)))"
proof -
  obtain x c2 where a: "audit_event C u key tool outcome args now c1 = (x, c2)" by force
  then have "beside c1 c2" using beside_audit [of c1 C u key tool outcome args now] by simp
  with assms have "beside c c2" by (rule beside_trans)
  with a show "beside c (snd (case audit_event C u key tool outcome args now c1 of
      (Inl e, c2) \<Rightarrow> (Inl e, c2) | (Inr v, c2) \<Rightarrow> (r, commit c2)))"
    "beside c (snd (case audit_event C u key tool outcome args now c1 of (Inl e, c2) \<Rightarrow> (Inl e, c2) | (Inr v, c2) \<Rightarrow> (r, c2)))"
    by (auto simp: beside_def split: sum.split)
qed

lemma beside_issue: "beside c (snd (issue C sd key cl now g c))"
proof -
  define gr where "gr = (if truthy g then the g else lit ''wvg_'' @ sd_grant sd)"
  obtain r1 c1 where 1: "put_token C (sd_access sd) Access cl now gr c = (r1, c1)" by force
  obtain r2 c2 where 2: "put_token C (sd_refresh sd) Refresh cl now gr c1 = (r2, c2)" by force
  have b: "beside c c1" "beside c1 c2" using beside_put_token 1 2 by (metis snd_conv)+
  then have "beside c c2" by (rule beside_trans)
  from beside_recorded(1) [OF this] b this 1 2 show ?thesis
    by (auto simp: issue_def gr_def [symmetric] split: sum.split)
qed

lemma beside_approve: "beside c (snd (approve C T u key code now c))"
  by (auto simp: approve_def Let_def intro!: beside_recorded(1) split: option.split)

lemma beside_exchange: "beside c (snd (exchange_code C sd key x now c))"
  by (auto simp: exchange_code_def Let_def intro: beside_trans [OF _ beside_issue] split: sum.split)

lemma beside_refresh: "beside c (snd (refresh C sd key token cl now c))"
  by (auto simp: refresh_def revoke_family_def intro!: beside_trans [OF _ beside_issue] beside_recorded(2)
      split: sum.split option.split)

lemma beside_revoke_all: "beside c (snd (revoke_all C u key now c))"
  by (auto simp: revoke_all_def Let_def intro!: beside_recorded(1))

lemma beside_effect: "beside c (effect C T k c)"
proof (cases k)
  case (REGISTER rnd name us now)
  then show ?thesis by (auto simp: register_client_def Let_def dest: inner_ins(1) split: sum.split)
next
  case (BEGIN rnd body a now)
  then show ?thesis
    by (auto simp: begin_authorization_def collect_expired_def Let_def dest!: inner_ins(2) split: sum.split prod.split)
next
  case (POLL p req now)
  then show ?thesis
    by (auto simp: poll_def dest!: inner_ins(3) split: sum.split option.split)
qed (simp_all add: collect_expired_def beside_approve beside_exchange beside_refresh beside_revoke_all)

lemma beside_laws: "(\<And>c. beside c (f c)) \<Longrightarrow> bystander f"
  by unfold_locales (auto simp: beside_def)

interpretation oauth: bystander "effect C T k" for C T k
  by (rule beside_laws) (rule beside_effect)

section \<open>Requests and tools\<close>

lemma beside_handle: "beside c (snd (handle H D W now q msgs c))"
  by (auto simp: handle_def serve_effect beside_effect split: deployment.split option.split)

interpretation http: bystander "\<lambda>c. snd (handle H D W now q msgs c)" for H D W now q msgs
  by (rule beside_laws) (rule beside_handle)

lemma beside_guarded: "beside c (snd (guarded C u key S now args t d c))"
  using beside_record_audit [of c C u key] by (auto simp: guarded_def Let_def split: prod.split sum.split) (metis snd_conv)+

interpretation tool: bystander "\<lambda>c. snd (guarded C u key S now args t d c)" for C u key S now args t d
  by (rule beside_laws) (rule beside_guarded)

end
