(* ===== verification/Whole_System.thy ===== *)
theory Whole_System
  imports Vault_Calls Public_Surface
begin

text \<open>
  The processes together, over \<open>vault.db\<close>, \<open>control.db\<close> and the provider: the operations on the control
  database and the sender (\<open>Send_Safety\<close>), the consumer of the queue, the doctor's window rebuild, the
  commands on the vault, the requests to the public server, the operator's OAuth commands and the calls of the tools,
  in any order, with the deaths of the sender and of the consumer at the points where one
  database is written and the other is not. A process that writes to the control database waits for the write
  lock, so it does so while no other connection has a transaction open. The theorem about the whole is that the send window
  of a text message is never open without a stored message that opens it.
\<close>

section \<open>The steps\<close>

record 'p house =
  appr :: "'p sys"
  vdb :: vault

abbreviation cdb :: "'p house \<Rightarrow> control" where
  "cdb s \<equiv> ctl (wld (appr s))"

definition with_control :: "control \<Rightarrow> 'p house \<Rightarrow> 'p house" where
  "with_control c s = s\<lparr>appr := (appr s)\<lparr>wld := (wld (appr s))\<lparr>ctl := c\<rparr>\<rparr>\<rparr>"

text \<open>The consumer's process, with the identifiers it will draw.\<close>

definition consumer_view :: "ulids \<Rightarrow> 'p house \<Rightarrow> ingest" where
  "consumer_view us s = \<lparr>vlt = vdb s, ctl_conn = cdb s, fresh = us\<rparr>"

definition put_back :: "vault \<Rightarrow> control \<Rightarrow> 'p house \<Rightarrow> 'p house" where
  "put_back v c s = with_control c (s\<lparr>vdb := v\<rparr>)"

text \<open>The vault right after the transaction of an atom that is applied, before its window and its index entry.\<close>

definition committed :: "ingest_env \<Rightarrow> int \<Rightarrow> atom \<Rightarrow> ingest \<Rightarrow> vault option" where
  "committed E now_ms a i =
     (case (semantic_key (ie_crypto E) (ie_pint E) a, to_rows (ie_pint E) a, utf8 (spaced (at_raw a))) of
        (Inr (fam, key), Inr rws, Inr raw) \<Rightarrow>
          (let (eid, us) = mint ''evt'' (fresh i) in
           case ledger_row E eid a fam key rws raw now_ms of
             Inl e \<Rightarrow> None
           | Inr ev \<Rightarrow>
               (case atom_txn ev rws us (vlt i) of (Inr (Applied ap), us', v) \<Rightarrow> Some v | _ \<Rightarrow> None))
      | _ \<Rightarrow> None)"

type_synonym 'q lease_fn = "nat \<Rightarrow> 'q \<Rightarrow> (pystr \<times> bytes) list \<times> 'q"

inductive house_step ::
  "crypto \<Rightarrow> 'p sender_fn \<Rightarrow> 'q lease_fn \<Rightarrow> (pystr list \<Rightarrow> 'q \<Rightarrow> 'q) \<Rightarrow> (pystr list \<Rightarrow> 'q \<Rightarrow> 'q) \<Rightarrow> ingest_env \<Rightarrow>
   'r server \<Rightarrow> 'p house \<Rightarrow> 'p house \<Rightarrow> bool"
  for C send_text lease ack nack E S where
  operate: "\<not> moves_window k \<Longrightarrow> house_step C send_text lease ack nack E S s (s\<lparr>appr := called C k (appr s)\<rparr>)"
| sender: "sending C send_text (appr s) a \<Longrightarrow> house_step C send_text lease ack nack E S s (s\<lparr>appr := a\<rparr>)"
| tend: "house_step C send_text lease ack nack E S s (s\<lparr>vdb := run_vault k (vdb s)\<rparr>)"
| drain: "clean (cdb s) \<Longrightarrow> fresh_ok us (work (vdb s)) \<Longrightarrow>
    drain_once lease ack nack E now_ms fault m h q (consumer_view us s) = (r, D) \<Longrightarrow>
    house_step C send_text lease ack nack E S s (put_back (vlt (st D)) (ctl_conn (st D)) s)"
| drain_dies: "clean (cdb s) \<Longrightarrow> fresh_ok us (work (vdb s)) \<Longrightarrow> atoms_of E pt = Inr (as @ a # as') \<Longrightarrow>
    process_atoms E now_ms None as (consumer_view us s) = (Inr (), i) \<Longrightarrow> committed E now_ms a i = Some v \<Longrightarrow>
    c \<in> {ctl_conn i, ctl_conn (snd (process_atom E now_ms None a i))} \<Longrightarrow>
    house_step C send_text lease ack nack E S s (put_back v c s)"
| doctor: "clean (cdb s) \<Longrightarrow> rebuild_window_from_evidence (work (vdb s)) cid (cdb s) = (r, c) \<Longrightarrow>
    house_step C send_text lease ack nack E S s (with_control c s)"
| request: "hp_crypto H = C \<Longrightarrow> handle H D W now q msgs (cdb s) = (a, c) \<Longrightarrow>
    house_step C send_text lease ack nack E S s (with_control c s)"
| grants: "house_step C send_text lease ack nack E S s (with_control (effect C T o_call (cdb s)) s)"
| tool: "guarded C u key S now args t (work (vdb s)) (cdb s) = (r, c) \<Longrightarrow>
    house_step C send_text lease ack nack E S s (with_control c s)"

definition house_start :: "'p \<Rightarrow> 'p house" where
  "house_start p = \<lparr>appr = start p, vdb = connect empty_vault\<rparr>"

abbreviation house_steps where
  "house_steps C send_text lease ack nack E S \<equiv> (house_step C send_text lease ack nack E S)\<^sup>*\<^sup>*"

section \<open>The invariant\<close>

text \<open>The stored message that opens the window of a text post.\<close>

definition grounded :: "vault_db \<Rightarrow> post \<Rightarrow> bool" where
  "grounded d po \<longleftrightarrow> drf_kind (po_draft po) \<noteq> lit ''text'' \<or>
     (\<exists>m\<in>set (messages d). msg_conversation_id m = drf_conversation_id (po_draft po) \<and> msg_direction m = In \<and>
        msg_window_eligible m \<and> po_now po < msg_ts_lower_ms m + WINDOW_MS)"

definition windows_inv :: "vault_db \<Rightarrow> control \<Rightarrow> bool" where
  "windows_inv d c \<longleftrightarrow> conversation_windows (disk c) = wins c \<and> windows_ok (work c) \<and> window_sound d (work c)"

definition house_inv :: "crypto \<Rightarrow> 'p house \<Rightarrow> bool" where
  "house_inv C s \<longleftrightarrow> sys_inv C (appr s) \<and> clean (vdb s) \<and> vault_ok (work (vdb s)) \<and>
     windows_inv (work (vdb s)) (cdb s) \<and> (\<forall>po\<in>set (posts (appr s)). grounded (work (vdb s)) po)"

lemma grounded_keeps: "grounded d po \<Longrightarrow> keeps_evidence d d' \<Longrightarrow> grounded d' po"
  by (auto simp: grounded_def keeps_evidence_def)

lemma windows_inv_keeps: "windows_inv d c \<Longrightarrow> keeps_evidence d d' \<Longrightarrow> windows_inv d' c"
  by (auto simp: windows_inv_def intro: window_sound_keeps)

lemma windows_inv_same: "windows_inv d c \<Longrightarrow> wins c' = wins c \<Longrightarrow> conversation_windows (disk c') = wins c \<Longrightarrow> windows_inv d c'"
  using last_inbound_cong [of "work c'" "work c"] by (simp add: windows_inv_def windows_ok_def window_sound_def)

text \<open>An open window names its evidence.\<close>

lemma evidence_attained: "0 < evidence_ms d cid \<Longrightarrow> evidence_ms d cid \<in> set (evidence d cid)"
proof -
  have "foldl max t ts \<in> insert t (set ts)" for t :: int and ts
  proof (induction ts arbitrary: t)
    case (Cons a ts)
    from Cons.IH [of "max t a"] show ?case by (auto simp: max_def)
  qed simp
  then show "0 < evidence_ms d cid \<Longrightarrow> evidence_ms d cid \<in> set (evidence d cid)"
    by (cases "evidence d cid") (auto simp: evidence_ms_def)
qed

lemma open_window_evidence:
  assumes "window_sound d k" "window_open k cid now"
  shows "\<exists>m\<in>set (messages d). msg_conversation_id m = cid \<and> msg_direction m = In \<and> msg_window_eligible m \<and>
    now < msg_ts_lower_ms m + WINDOW_MS"
proof -
  have l: "0 < last_inbound k cid" "now < last_inbound k cid + WINDOW_MS" using assms(2) by (simp_all add: window_open_def)
  have le: "last_inbound k cid \<le> max 0 (evidence_ms d cid)" using assms(1) by (simp add: window_sound_def)
  with l(1) have "0 < evidence_ms d cid" by simp
  from evidence_attained [OF this] obtain m where "m \<in> set (messages d)" "msg_conversation_id m = cid" "msg_direction m = In"
    "msg_window_eligible m" "msg_ts_lower_ms m = evidence_ms d cid" by (auto simp: evidence_def)
  with l le show ?thesis by (intro bexI [of _ m]) auto
qed

section \<open>Its preservation\<close>

text \<open>Calls on the control connection of the house.\<close>

lemma sys_inv_call: "sys_inv C (appr s) \<Longrightarrow> sys_inv C (appr (with_control (run_call C k (cdb s)) s))"
  using sys_inv_step [OF step.call] by (simp add: with_control_def called_def)

lemma sys_inv_advances:
  assumes "advances (cdb s) c" "sys_inv C (appr s)" shows "sys_inv C (appr (with_control c s))"
proof -
  have "sys_inv C (appr (with_control (fold (\<lambda>(cid, ms) c. snd (advance_window cid ms c)) l (cdb s)) s))" for l
    using assms(2)
  proof (induction l arbitrary: s)
    case (Cons x l)
    obtain cid ms where x: "x = (cid, ms)" by force
    from sys_inv_call [OF Cons.prems, of "ADVANCE_WINDOW cid ms"] Cons.IH show ?case by (fastforce simp: x with_control_def)
  qed (simp add: with_control_def)
  then show ?thesis using assms(1) by (auto simp: advances_def)
qed

lemma put_inv:
  assumes "house_inv C s" "advances (cdb s) c" "clean (cdb s)" "clean v" "vault_ok (work v)"
    "keeps_evidence (work (vdb s)) (work v)" "windows_ok (work c)" "window_sound (work v) (work c)"
  shows "house_inv C (put_back v c s)"
proof -
  have "sys_inv C (appr (put_back v c s))" using sys_inv_advances [of "s\<lparr>vdb := v\<rparr>" c C] assms(1,2) by (simp add: put_back_def house_inv_def)
  moreover have "clean c" by (rule advances_clean [OF assms(2,3)])
  moreover have "posts (appr (put_back v c s)) = posts (appr s)" "vdb (put_back v c s) = v" "cdb (put_back v c s) = c"
    by (simp_all add: put_back_def with_control_def)
  ultimately show ?thesis using assms grounded_keeps by (auto simp: house_inv_def windows_inv_def clean_disk)
qed

lemma view_sound: "house_inv C s \<Longrightarrow> fresh_ok us (work (vdb s)) \<Longrightarrow> ingest_sound (consumer_view us s)"
  by (simp add: house_inv_def windows_inv_def vault_ok_def ingest_sound_def ing_ok_def consumer_view_def)

lemma live_keeps: "live_rows d d' \<Longrightarrow> keeps_evidence d d'"
  by (auto simp: live_rows_def intro: keeps_evidence_sub)

lemma good_put:
  assumes "house_inv C s" "clean (cdb s)" "drained_ok (consumer_view us s) i" shows "house_inv C (put_back (vlt i) (ctl_conn i) s)"
proof (rule put_inv [OF assms(1)])
  have g: "ingest_sound i" "live_rows (work (vdb s)) (work (vlt i))" "advances (cdb s) (ctl_conn i)"
    using assms(3) by (auto simp: drained_ok_def consumes_def consumer_view_def)
  show "advances (cdb s) (ctl_conn i)" by (rule g(3))
  show "vault_ok (work (vlt i))"
    using g(1) live_rows_plain [OF g(2)] assms(1) by (simp add: vault_ok_def house_inv_def ingest_sound_def ing_ok_def)
qed (use assms(2,3) in \<open>auto simp: drained_ok_def ingest_sound_def ing_ok_def consumes_def consumer_view_def intro: live_keeps\<close>)

text \<open>The state that a death inside an atom leaves.\<close>

lemma committed_ok:
  assumes "ingest_sound i" "committed E now a i = Some v"
  shows "clean v" "vault_inv (work v)" "live_rows (work (vlt i)) (work v)"
    "messages (work (vlt (snd (process_atom E now fault a i)))) = messages (work v)"
proof -
  have i: "clean (vlt i)" "vault_inv (work (vlt i))" using assms(1) by (auto simp: ingest_sound_def ing_ok_def)
  from assms(2) obtain fam key rws raw ev ap us' where
    s: "semantic_key (ie_crypto E) (ie_pint E) a = Inr (fam, key)" "to_rows (ie_pint E) a = Inr rws" "utf8 (spaced (at_raw a)) = Inr raw"
      "ledger_row E (mk_id ''evt'' (fresh i 0)) a fam key rws raw now = Inr ev"
    and t: "atom_txn ev rws (\<lambda>k. fresh i (Suc k)) (vlt i) = (Inr (Applied ap), us', v)"
    by (auto simp: committed_def mint_def split: sum.splits prod.splits Consumer.outcome.splits)
  show "clean v" "vault_inv (work v)"
    using t i by (auto elim!: atom_txn_cases dest: applied_grown(3))
  show "live_rows (work (vlt i)) (work v)" by (rule atom_txn_live [OF t i(1)])
  let ?i = "i\<lparr>fresh := us', vlt := v\<rparr>"
  have "vlt (snd (process_atom E now fault a i)) = vlt (snd (project E fam ap ?i))"
    using s t by (auto simp: process_atom_def mint_def split: sum.split prod.split)
  moreover have "messages (work (vlt (snd (project E fam ap ?i)))) = messages (work v)"
    using index_applied_frame(4) [OF \<open>clean v\<close>] by (cases rule: project_cases [OF surjective_pairing, of E fam ap ?i]) simp_all
  ultimately show "messages (work (vlt (snd (process_atom E now fault a i)))) = messages (work v)" by simp
qed

lemma dies_put:
  assumes "house_inv C s" "clean (cdb s)" "drained_ok (consumer_view us s) i" "committed E now a i = Some v"
    "c \<in> {ctl_conn i, ctl_conn (snd (process_atom E now fault a i))}"
  shows "house_inv C (put_back v c s)"
proof (rule put_inv [OF assms(1)])
  let ?j = "snd (process_atom E now fault a i)"
  have i: "ingest_sound i" using assms(3) by (simp add: drained_ok_def)
  note k = committed_ok [OF i assms(4)]
  have gj: "drained_ok i ?j" by (rule process_atom_good [OF i surjective_pairing])
  have gi: "live_rows (work (vdb s)) (work (vlt i))" "advances (cdb s) (ctl_conn i)"
    using assms(3) by (auto simp: drained_ok_def consumes_def consumer_view_def)
  then show "advances (cdb s) c" using gj assms(5) advances_trans by (auto simp: drained_ok_def consumes_def)
  have l: "live_rows (work (vdb s)) (work v)" using gi(1) k(3) live_rows_trans by blast
  then show "keeps_evidence (work (vdb s)) (work v)" by (rule live_keeps)
  show "vault_ok (work v)" using k(2) live_rows_plain [OF l] assms(1) by (simp add: vault_ok_def house_inv_def)
  show "clean v" "clean (cdb s)" by (rule k(1), rule assms(2))
  show "windows_ok (work c)" using i gj assms(5) by (auto simp: drained_ok_def ingest_sound_def)
  have "evidence (work (vlt ?j)) = evidence (work v)" using k(4) [of fault] by (simp add: evidence_def fun_eq_iff)
  then have "window_sound (work v) (work (ctl_conn ?j))" using gj by (simp add: drained_ok_def ingest_sound_def window_sound_def evidence_ms_def)
  moreover have "window_sound (work v) (work (ctl_conn i))"
    using i window_sound_keeps [OF _ live_keeps [OF k(3)]] by (simp add: ingest_sound_def)
  ultimately show "window_sound (work v) (work c)" using assms(5) by auto
qed

lemma doctor_inv:
  assumes "house_inv C s" "clean (cdb s)" "rebuild_window_from_evidence (work (vdb s)) cid (cdb s) = (r, c)"
  shows "house_inv C (with_control c s)"
proof -
  let ?d = "work (vdb s)"
  have w: "windows_inv ?d (cdb s)" using assms(1) by (simp add: house_inv_def)
  have c: "c = run_call C (REPAIR_WINDOW cid (evidence_ms ?d cid)) (cdb s)" using assms(3) by (simp add: rebuild_window_from_evidence_def)
  have "windows_inv ?d c"
  proof (cases "c = cdb s")
    case True
    with w show ?thesis by simp
  next
    case False
    then obtain k where u: "upsert_window cid (evidence_ms ?d cid) (work (cdb s)) = Inr k" "c = commit ((cdb s)\<lparr>work := k\<rparr>)"
      using assms(3) by (auto simp: rebuild_window_from_evidence_def repair_window_def Let_def split: if_splits sum.splits)
    then show ?thesis using w upsert_window_lookup [OF u(1)] upsert_window_frame(2) [OF u(1)]
      by (auto simp: windows_inv_def windows_ok_def window_sound_def)
  qed
  then show ?thesis using sys_inv_call [of C s "REPAIR_WINDOW cid (evidence_ms ?d cid)"] assms(1) c
    by (simp add: house_inv_def with_control_def)
qed

lemma sender_inv:
  assumes "house_inv C s" "sending C send_text (appr s) a" shows "house_inv C (s\<lparr>appr := a\<rparr>)"
proof -
  let ?d = "work (vdb s)"
  have h: "sys_inv C (appr s)" "windows_inv ?d (cdb s)" "\<forall>po\<in>set (posts (appr s)). grounded ?d po" using assms(1) by (auto simp: house_inv_def)
  have step: "step C send_text (appr s) a" by (rule step.sender [OF assms(2)])
  have inv: "sys_inv C a" by (rule sys_inv_step [OF step h(1)])
  have ci: "conn_inv C (cdb s)" by (rule sys_inv_conn [OF h(1)])
  have "conversation_windows (disk (cdb s)) = wins (cdb s)" using h(2) by (simp add: windows_inv_def)
  note ws = wins_sending [OF assms(2) ci this]
  have "\<forall>po\<in>set (posts a). grounded ?d po"
    using step_posts [OF step ci]
  proof (elim disjE exE conjE)
    fix n u env dr aid c1 b
    assume l: "posts a = posts (appr s) @ [post_of n env (wld (appr s)) dr aid b]"
    let ?po = "post_of n env (wld (appr s)) dr aid b"
    have "post_ok C (disk (ctl (wld a))) ?po" using inv l by (simp add: sys_inv_def)
    then have "authorised C (disk (ctl (wld a))) ?po" by (rule post_ok_authorised)
    then have "grounded ?d ?po" using open_window_evidence [of ?d "work (cdb s)"] h(2)
      by (auto simp: authorised_def Let_def grounded_def post_of_def windows_inv_def)
    then show ?thesis using h(3) by (simp add: l)
  qed (use h(3) in simp)
  with inv ws windows_inv_same [OF h(2)] assms(1) show ?thesis by (simp add: house_inv_def)
qed

lemma operate_inv:
  assumes "house_inv C s" "\<not> moves_window k" shows "house_inv C (s\<lparr>appr := called C k (appr s)\<rparr>)"
proof -
  have h: "sys_inv C (appr s)" "windows_inv (work (vdb s)) (cdb s)" using assms(1) by (auto simp: house_inv_def)
  have db: "db_inv C (work (cdb s))" using sys_inv_conn [OF h(1)] by (simp add: conn_inv_def)
  have w: "wins (run_call C k (cdb s)) = wins (cdb s)" by (rule wins_call [OF assms(2)]) (use db in \<open>simp add: db_inv_def\<close>)
  moreover have "conversation_windows (disk (run_call C k (cdb s))) = wins (cdb s)"
    using run_call_ok [OF db, of k] w h(2) by (auto simp: op_ok_def windows_inv_def)
  ultimately have "windows_inv (work (vdb s)) (run_call C k (cdb s))" by (rule windows_inv_same [OF h(2)])
  moreover have "sys_inv C (called C k (appr s))" by (rule sys_inv_step [OF step.call h(1)])
  ultimately show ?thesis using assms(1) by (simp add: house_inv_def called_def)
qed

text \<open>The public surface: a bystander of the sender.\<close>

context bystander
begin

lemma house_kept: "house_inv C s \<Longrightarrow> house_inv C (with_control (act (cdb s)) s)"
  using sys_kept [of C "appr s"] windows_kept [of "cdb s"] windows_inv_same [of "work (vdb s)" "cdb s" "act (cdb s)"]
  by (simp add: house_inv_def with_control_def windows_inv_def)

end

lemma house_inv_step:
  assumes "house_step C send_text lease ack nack E S s s'" "house_inv C s" shows "house_inv C s'"
  using assms(1)
proof cases
  case (operate k)
  then show ?thesis using operate_inv [OF assms(2)] by simp
next
  case (sender a)
  then show ?thesis using sender_inv [OF assms(2)] by simp
next
  case (tend k)
  from assms(2) have "vault_ok (work (vdb s))" "clean (vdb s)" by (simp_all add: house_inv_def)
  from run_vault_ok [OF this, of k] assms(2) tend show ?thesis
    using windows_inv_keeps grounded_keeps by (auto simp: house_inv_def)
next
  case (drain us now_ms fault m h q r D)
  show ?thesis unfolding drain(1)
    by (rule good_put [OF assms(2) drain(2) drain_once_good [OF view_sound [OF assms(2) drain(3)] drain(4)]])
next
  case (drain_dies us pt as a as' now_ms i v c)
  show ?thesis unfolding drain_dies(1)
    by (rule dies_put [OF assms(2) drain_dies(2) process_atoms_good [OF view_sound [OF assms(2) drain_dies(3)] drain_dies(5)] drain_dies(6,7)])
next
  case (doctor cid r c)
  show ?thesis unfolding doctor(1) by (rule doctor_inv [OF assms(2) doctor(2,3)])
next
  case (request H D W now q msgs a c)
  then show ?thesis using http.house_kept [OF assms(2), of H D W now q msgs] by simp
next
  case (grants T o_call)
  show ?thesis unfolding grants by (rule oauth.house_kept [OF assms(2)])
next
  case (tool u key now args t r c)
  then show ?thesis using tool.house_kept [OF assms(2), of C u key S now args t "work (vdb s)"] by simp
qed

lemma house_inv_start: "house_inv C (house_start p)"
  using sys_inv_start [of C p]
  by (simp add: house_inv_def house_start_def vault_ok_def vault_inv_empty windows_inv_def start_def)
    (simp add: imports_plain_def empty_vault_def empty_control_def windows_ok_def window_sound_def last_inbound_def)

lemma house_inv_reachable: "house_steps C send_text lease ack nack E S (house_start p) s \<Longrightarrow> house_inv C s"
  by (induction rule: rtranclp_induct) (auto intro: house_inv_start house_inv_step)

end
