(* ===== verification/Cli.thy ===== *)
theory Cli
  imports Mcp_Server Import
begin

text \<open>
  The command line (\<open>cli/commands.py\<close>, \<open>cli/main.py\<close>). A verb runs on a context: the two connections,
  the key store when there is one. Its result is the dictionary that \<open>run\<close> prints. \<open>argparse\<close> is not
  modelled: a command line arrives as the verb and its options. What a verb asks of the world is in \<open>cli_env\<close>:
  the text of a file, the \<open>PRAGMA\<close> answers, the message of an exception.
\<close>

section \<open>Contexts, options and results\<close>

type_synonym result = "(pystr \<times> json) list"

record cli_args =
  a_device_id :: "pystr option"
  a_job_id :: "pystr option"
  a_candidate_id :: "pystr option"
  a_decision :: "pystr option"
  a_dlq_id :: "pystr option"
  a_path :: "pystr option"
  a_conversation_id :: "pystr option"
  a_account_id :: "pystr option"
  a_visibility :: "pystr option"
  a_timezone :: "pystr option"
  a_date_format :: "string option"
  a_self_label :: "pystr option"
  a_code :: "pystr option"
  a_subject :: "pystr option"
  a_type :: "string option"
  a_reveal :: bool
  a_dry_run :: bool

record 's cli_env =
  ce_crypto :: crypto
  ce_text :: py_text
  ce_import :: import_env
  ce_pragmas :: pragmas
  ce_facts :: schema_facts
  ce_read :: "pystr \<Rightarrow> exc + pystr"
  ce_message :: "exc \<Rightarrow> pystr"
  ce_provision :: "'s prov"
  ce_require :: "'s req"
  ce_now :: int
  ce_fresh :: ulids

record 's ctx =
  cx_vault :: vault
  cx_control :: control
  cx_keys :: "'s option"

definition jopt :: "pystr option \<Rightarrow> json" where
  "jopt s = (case s of None \<Rightarrow> JNull | Some t \<Rightarrow> JStr t)"

definition jnum :: "int option \<Rightarrow> json" where
  "jnum n = (case n of None \<Rightarrow> JNull | Some i \<Rightarrow> JInt i)"

definition jobj :: "(string \<times> json) list \<Rightarrow> json" where
  "jobj kvs = JObj (map (\<lambda>(k, v). (lit k, v)) kvs)"

definition good :: "(string \<times> json) list \<Rightarrow> result" where
  "good kvs = field ''ok'' (JBool True) # map (\<lambda>(k, v). field k v) kvs"

definition failed :: "pystr \<Rightarrow> result" where
  "failed msg = [field ''ok'' (JBool False), field ''error'' (JStr msg)]"

text \<open>\<open>args.get(k) or default\<close>.\<close>

definition or_else :: "'a list option \<Rightarrow> 'a list \<Rightarrow> 'a list" where
  "or_else v d = (case v of None \<Rightarrow> d | Some s \<Rightarrow> if s = [] then d else s)"

definition json_finding :: "finding \<Rightarrow> json" where
  "json_finding f = jobj [(''check'', JStr (lit (fd_check f))), (''ok'', JBool (fd_ok f)), (''detail'', JStr (fd_detail f))]"

text \<open>A command that only reads, or that never raises.\<close>

definition pure_verb :: "result \<Rightarrow> 's ctx \<Rightarrow> (exc + result) \<times> 's ctx" where
  "pure_verb r x = (Inr r, x)"

definition cli_audit_key :: "'s cli_env \<Rightarrow> 's ctx \<Rightarrow> exc + bytes option" where
  "cli_audit_key E x =
     (case cx_keys x of
        None \<Rightarrow> Inr None
      | Some s \<Rightarrow>
          (case ce_require E AUDIT_KEY_NAME 32 s of
             Inr k \<Rightarrow> Inr (Some k)
           | Inl e \<Rightarrow> if e \<in> {KeyStoreError, KeyMissing, KeyExists} then Inr None else Inl e))"

section \<open>Inspection\<close>

definition cmd_doctor :: "'s cli_env \<Rightarrow> cli_args \<Rightarrow> 's ctx \<Rightarrow> (exc + result) \<times> 's ctx" where
  "cmd_doctor E a x =
     (let d = work (cx_vault x); fs = (\<lambda>l. JArr (map json_finding l)) in
      pure_verb (good [(''vault'', fs (check_vault (ce_pragmas E) d)), (''search'', fs (check_search (ce_pragmas E) d)),
         (''ingest'', fs (check_ingest d)),
         (''mcp'', fs (check_mcp (ce_facts E) exc_name (map_option (\<lambda>s n. ce_require E n 32 s) (cx_keys x)) d))]) x)"

definition cmd_health :: "'s cli_env \<Rightarrow> cli_args \<Rightarrow> 's ctx \<Rightarrow> (exc + result) \<times> 's ctx" where
  "cmd_health E a x =
     (let h = health_status (ce_pragmas E) (work (cx_vault x)) in
      pure_verb [field ''ok'' (JBool (hl_ok h)), field ''checks'' (JArr (map json_finding (hl_checks h))),
        field ''summary'' (jobj [(''dlq_depth'', jnat (hl_dlq_depth h)), (''circuit_state'', JStr (circuit_name (hl_circuit h)))])] x)"

definition by_id :: "('r \<Rightarrow> pystr) \<Rightarrow> 'r list \<Rightarrow> 'r list" where
  "by_id k t = sort_key k t"

definition cmd_accounts_list :: "'s cli_env \<Rightarrow> cli_args \<Rightarrow> 's ctx \<Rightarrow> (exc + result) \<times> 's ctx" where
  "cmd_accounts_list E a x =
     pure_verb (good [(''accounts'', JArr (map (\<lambda>r. jobj [(''id'', JStr (acc_id r)), (''waba_id'', JNull)])
        (by_id acc_id (vault_db.accounts (work (cx_vault x))))))]) x"

definition json_visibility :: "visibility \<Rightarrow> json" where
  "json_visibility v = jtext (case v of ALLOW_MCP \<Rightarrow> ''ALLOW_MCP'' | LOCAL_ONLY \<Rightarrow> ''LOCAL_ONLY'')"

definition cmd_conversations_list :: "'s cli_env \<Rightarrow> cli_args \<Rightarrow> 's ctx \<Rightarrow> (exc + result) \<times> 's ctx" where
  "cmd_conversations_list E a x =
     pure_verb (good [(''conversations'', JArr (map (\<lambda>r. jobj [(''id'', JStr (cnv_id r)), (''account_id'', JStr (cnv_account_id r)),
          (''type'', jtext (cnv_type r)), (''subject'', jopt (cnv_subject r)), (''mcp_visibility'', json_visibility (cnv_mcp_visibility r))])
        (by_id cnv_id (conversations (work (cx_vault x))))))]) x"

definition cmd_devices_list :: "'s cli_env \<Rightarrow> cli_args \<Rightarrow> 's ctx \<Rightarrow> (exc + result) \<times> 's ctx" where
  "cmd_devices_list E a x =
     pure_verb (good [(''devices'', JArr (map (\<lambda>r. jobj [(''id'', JStr (dev_id r)), (''name'', JStr (dev_name r)),
          (''status'', jtext (case dev_status r of ACTIVE \<Rightarrow> ''ACTIVE'' | REVOKED \<Rightarrow> ''REVOKED'')), (''key_algorithm'', jtext ''P256'')])
        (approval_devices (work (cx_control x)))))]) x"

definition cmd_dlq_list :: "'s cli_env \<Rightarrow> cli_args \<Rightarrow> 's ctx \<Rightarrow> (exc + result) \<times> 's ctx" where
  "cmd_dlq_list E a x =
     pure_verb (good [(''dlq'', JArr (map (\<lambda>r. jobj [(''id'', JStr (dlq_id r)), (''failure_class'', jtext (dlq_failure_class r)),
          (''recipient_key_id'', jnum (map_option int (dlq_recipient_key_id r))), (''first_seen_ms'', JInt (dlq_first_seen_ms r))])
        (ingest_dlq (work (cx_vault x)))))]) x"

definition cmd_dlq_show :: "'s cli_env \<Rightarrow> cli_args \<Rightarrow> 's ctx \<Rightarrow> (exc + result) \<times> 's ctx" where
  "cmd_dlq_show E a x =
     pure_verb
       (case List.find (\<lambda>r. a_dlq_id a = Some (dlq_id r)) (ingest_dlq (work (cx_vault x))) of
          None \<Rightarrow> [field ''ok'' (JBool False), field ''row'' JNull]
        | Some r \<Rightarrow>
            good [(''row'', jobj [(''id'', JStr (dlq_id r)), (''failure_class'', jtext (dlq_failure_class r)),
              (''failure_code'', jtext (dlq_failure_code r)), (''pipeline_stage'', jtext (dlq_pipeline_stage r)),
              (''recipient_key_id'', jnum (map_option int (dlq_recipient_key_id r))),
              (''crypto_version'', jnum (map_option int (dlq_crypto_version r))),
              (''ciphertext_sha256'', jopt (dlq_ciphertext_sha256 r)), (''sanitised_detail'', JStr (dlq_sanitised_detail r))])]) x"

text \<open>\<open>SELECT DISTINCT\<close>: the first row of each value.\<close>

definition distinct_keys :: "dlq_row list \<Rightarrow> nat list" where
  "distinct_keys t = rev (remdups (rev (List.map_filter dlq_recipient_key_id t)))"

definition cmd_keys_list :: "'s cli_env \<Rightarrow> cli_args \<Rightarrow> 's ctx \<Rightarrow> (exc + result) \<times> 's ctx" where
  "cmd_keys_list E a x =
     pure_verb (good [(''keys_referenced_by_dlq'', JArr (map jnat (distinct_keys (ingest_dlq (work (cx_vault x))))))]) x"

definition cmd_templates_list :: "'s cli_env \<Rightarrow> cli_args \<Rightarrow> 's ctx \<Rightarrow> (exc + result) \<times> 's ctx" where
  "cmd_templates_list E a x =
     pure_verb (good [(''templates'', JArr (map (\<lambda>r. jobj [(''template_id'', JStr (tpl_id r)), (''name'', JStr (tpl_name r)),
          (''language'', JStr (tpl_language r)), (''status'', JStr (tpl_status r))]) (templates (work (cx_control x)))))]) x"

definition cmd_reconcile_list :: "'s cli_env \<Rightarrow> cli_args \<Rightarrow> 's ctx \<Rightarrow> (exc + result) \<times> 's ctx" where
  "cmd_reconcile_list E a x =
     pure_verb (good [(''candidates'', JArr (map (\<lambda>r. jobj [(''id'', JStr (rcn_id r)), (''wamid'', jopt (rcn_wamid r)),
          (''status'', jopt (rcn_status r)), (''state'', jtext ''POSSIBLE_MATCH'')])
        (filter (\<lambda>r. rcn_state r = POSSIBLE_MATCH) (reconciliation_candidates (work (cx_control x))))))]) x"

definition cmd_scheduler_list :: "'s cli_env \<Rightarrow> cli_args \<Rightarrow> 's ctx \<Rightarrow> (exc + result) \<times> 's ctx" where
  "cmd_scheduler_list E a x =
     pure_verb (good [(''jobs'', JArr (map (\<lambda>r. jobj [(''job_id'', JStr (job_id r)), (''conversation_id'', JStr (job_conversation_id r)),
          (''generation_mode'', JStr (job_generation_mode r)), (''enabled'', JInt (job_enabled r))])
        (scheduled_jobs (work (cx_control x)))))]) x"

definition client_name_of_row :: "control_db \<Rightarrow> pystr \<Rightarrow> pystr" where
  "client_name_of_row k i = (case List.find (\<lambda>c. cli_id c = i) (oauth_clients k) of None \<Rightarrow> [] | Some c \<Rightarrow> cli_name c)"

definition cmd_oauth_pending :: "'s cli_env \<Rightarrow> cli_args \<Rightarrow> 's ctx \<Rightarrow> (exc + result) \<times> 's ctx" where
  "cmd_oauth_pending E a x =
     (let k = work (cx_control x) in
      pure_verb (good [(''pending'', JArr (map (\<lambda>r. jobj [(''user_code'', JStr (pnd_user_code r)), (''client_id'', JStr (pnd_client_id r)),
          (''redirect_uri'', JStr (pnd_redirect_uri r)), (''created_ms'', JInt (pnd_created_ms r)), (''expires_ms'', JInt (pnd_expires_ms r)),
          (''client_name'', JStr (client_name_of_row k (pnd_client_id r)))]) (pending_requests k (ce_now E))))]) x)"

section \<open>Administration\<close>

definition LOCAL_PHONE_NUMBER_ID :: pystr where "LOCAL_PHONE_NUMBER_ID = lit ''local''"
definition CONVERSATION_TYPES :: "string list" where "CONVERSATION_TYPES = [''dm'', ''group'']"

text \<open>A statement and the commit after it; when it raises, the transaction is left open until the process ends.\<close>

definition write_vault :: "(vault_db \<Rightarrow> exc + vault_db) \<Rightarrow> result \<Rightarrow> 's ctx \<Rightarrow> (exc + result) \<times> 's ctx" where
  "write_vault f r x =
     (case f (work (cx_vault x)) of
        Inl e \<Rightarrow> (Inl e, x)
      | Inr d \<Rightarrow> (Inr r, x\<lparr>cx_vault := commit ((cx_vault x)\<lparr>work := d\<rparr>)\<rparr>))"

definition cmd_accounts_add :: "'s cli_env \<Rightarrow> cli_args \<Rightarrow> 's ctx \<Rightarrow> (exc + result) \<times> 's ctx" where
  "cmd_accounts_add E a x =
     (let i = mk_id ''acc'' (ce_fresh E 0) in
      write_vault (ins_account \<lparr>acc_id = i, acc_phone_number_id = LOCAL_PHONE_NUMBER_ID\<rparr>) (good [(''account_id'', JStr i)]) x)"

definition cmd_conversations_add :: "'s cli_env \<Rightarrow> cli_args \<Rightarrow> 's ctx \<Rightarrow> (exc + result) \<times> 's ctx" where
  "cmd_conversations_add E a x =
     (if \<not> truthy (a_account_id a) then pure_verb (failed (lit ''--account-id is required (see `whatsvault accounts-add`)'')) x
      else
       (let i = the (a_account_id a); kind = or_else (a_type a) ''dm''; cid = mk_id ''cnv'' (ce_fresh E 0) in
        case bind_all [i] of
          Inl e \<Rightarrow> (Inl e, x)
        | Inr _ \<Rightarrow>
            if \<not> list_ex (\<lambda>r. acc_id r = i) (vault_db.accounts (work (cx_vault x))) then
              pure_verb (failed (lit ''no such account: '' @ i)) x
            else if kind \<notin> set CONVERSATION_TYPES then
              pure_verb (failed (lit (''unknown conversation type: '' @ kind @ '' (expected dm or group)''))) x
            else
             (case bind_all (case a_subject a of None \<Rightarrow> [] | Some s \<Rightarrow> [s]) of
                Inl e \<Rightarrow> (Inl e, x)
              | Inr _ \<Rightarrow>
                  write_vault (ins_conversation \<lparr>cnv_id = cid, cnv_account_id = i, cnv_type = kind, cnv_wa_chat_id = None,
                      cnv_subject = a_subject a, cnv_last_message_ms = None, cnv_mcp_visibility = ALLOW_MCP\<rparr>)
                    (good [(''conversation_id'', JStr cid), (''account_id'', JStr i)]) x)))"

definition cmd_mcp_visibility :: "'s cli_env \<Rightarrow> cli_args \<Rightarrow> 's ctx \<Rightarrow> (exc + result) \<times> 's ctx" where
  "cmd_mcp_visibility E a x =
     (if \<not> truthy (a_conversation_id a) \<or> \<not> truthy (a_visibility a) then
        pure_verb (failed (lit ''--conversation-id and --visibility are required'')) x
      else
       (let cid = the (a_conversation_id a); v = the (a_visibility a) in
        case set_visibility cid v (cx_vault x) of
          (Inl e, c) \<Rightarrow> (if e = ValueError then Inr (failed (ce_message E e)) else Inl e, x\<lparr>cx_vault := c\<rparr>)
        | (Inr _, c) \<Rightarrow> (Inr (good [(''conversation_id'', JStr cid), (''visibility'', JStr v)]), x\<lparr>cx_vault := c\<rparr>)))"

definition cmd_devices_revoke :: "'s cli_env \<Rightarrow> cli_args \<Rightarrow> 's ctx \<Rightarrow> (exc + result) \<times> 's ctx" where
  "cmd_devices_revoke E a x =
     (Inr (good [(''revoked'', jopt (a_device_id a))]),
      x\<lparr>cx_control := (case a_device_id a of None \<Rightarrow> commit (cx_control x) | Some i \<Rightarrow> revoke i (cx_control x))\<rparr>)"

definition cmd_reconcile_resolve :: "'s cli_env \<Rightarrow> cli_args \<Rightarrow> 's ctx \<Rightarrow> (exc + result) \<times> 's ctx" where
  "cmd_reconcile_resolve E a x =
     (let decision = or_else (a_decision a) (lit ''resolve'') in
      case (case a_candidate_id a of
              None \<Rightarrow> (if decision = lit ''resolve'' then RESOLVED else DISMISSED, commit (cx_control x))
            | Some i \<Rightarrow> resolve i decision (cx_control x)) of
        (s, c) \<Rightarrow>
          (Inr (good [(''candidate_id'', jopt (a_candidate_id a)), (''state'', jtext (if s = RESOLVED then ''RESOLVED'' else ''DISMISSED''))]),
           x\<lparr>cx_control := c\<rparr>))"

definition cli_set_enabled :: "int \<Rightarrow> 's cli_env \<Rightarrow> cli_args \<Rightarrow> 's ctx \<Rightarrow> (exc + result) \<times> 's ctx" where
  "cli_set_enabled v E a x =
     (Inr (good [(''job_id'', jopt (a_job_id a)), (''enabled'', JInt v)]),
      x\<lparr>cx_control := (case a_job_id a of None \<Rightarrow> commit (cx_control x) | Some i \<Rightarrow> set_enabled i v (cx_control x))\<rparr>)"

definition cmd_scheduler_enable :: "'s cli_env \<Rightarrow> cli_args \<Rightarrow> 's ctx \<Rightarrow> (exc + result) \<times> 's ctx" where
  "cmd_scheduler_enable = cli_set_enabled 1"

definition cmd_scheduler_disable :: "'s cli_env \<Rightarrow> cli_args \<Rightarrow> 's ctx \<Rightarrow> (exc + result) \<times> 's ctx" where
  "cmd_scheduler_disable = cli_set_enabled 0"

section \<open>The authority of the terminal\<close>

definition is_oauth_error :: "exc \<Rightarrow> string option" where
  "is_oauth_error e = (case e of OAuthError c \<Rightarrow> Some c | _ \<Rightarrow> None)"

definition cmd_oauth_approve :: "'s cli_env \<Rightarrow> cli_args \<Rightarrow> 's ctx \<Rightarrow> (exc + result) \<times> 's ctx" where
  "cmd_oauth_approve E a x =
     (if \<not> truthy (a_code a) then pure_verb (failed (lit ''--code is required (see `whatsvault oauth-pending`)'')) x
      else
       (case cli_audit_key E x of
          Inl e \<Rightarrow> (Inl e, x)
        | Inr key \<Rightarrow>
            (case approve (ce_crypto E) (ce_text E) (ce_fresh E 0) key (a_code a) (ce_now E) (cx_control x) of
               (Inl e, c) \<Rightarrow>
                 (case is_oauth_error e of
                    None \<Rightarrow> Inl e
                  | Some code \<Rightarrow> Inr (failed (lit code @ lit '': '' @ ce_message E e)), x\<lparr>cx_control := c\<rparr>)
             | (Inr (req, _), c) \<Rightarrow>
                 (Inr (good [(''approved'', JStr req), (''scope'', JStr READ_ONLY_SCOPE)]), x\<lparr>cx_control := c\<rparr>))))"

definition cmd_oauth_revoke :: "'s cli_env \<Rightarrow> cli_args \<Rightarrow> 's ctx \<Rightarrow> (exc + result) \<times> 's ctx" where
  "cmd_oauth_revoke E a x =
     (case cli_audit_key E x of
        Inl e \<Rightarrow> (Inl e, x)
      | Inr key \<Rightarrow>
          (case revoke_all (ce_crypto E) (ce_fresh E 0) key (ce_now E) (cx_control x) of
             (Inl e, c) \<Rightarrow> (Inl e, x\<lparr>cx_control := c\<rparr>)
           | (Inr n, c) \<Rightarrow> (Inr (good [(''revoked'', jnat n)]), x\<lparr>cx_control := c\<rparr>)))"

section \<open>Imports\<close>

definition dst_name :: "dst_class \<Rightarrow> string" where
  "dst_name c = (case c of UNAMBIGUOUS \<Rightarrow> ''unambiguous'' | FOLD \<Rightarrow> ''fold'' | NONEXISTENT \<Rightarrow> ''nonexistent'')"

definition preview_fields :: "dry_report \<Rightarrow> (string \<times> json) list" where
  "preview_fields r =
     [(''would_add'', jnat (dr_would_add r)), (''suggested_families'', JArr (map jtext (dr_suggested r))),
      (''format_declared_ok'', JBool (dr_format_ok r)),
      (''dst_cases'', JArr (map (\<lambda>(i, c). jobj [(''source_ordinal'', jnat i), (''dst_class'', jtext (dst_name c))]) (dr_dst_cases r))),
      (''unlinked_participants'', JArr (map JStr (dr_unlinked r))), (''system_lines'', jnat (dr_system_lines r)),
      (''ambiguous_boundaries'', JArr (map (\<lambda>(p, q). jobj [(''source_start_offset'', jnat p), (''source_end_offset'', jnat q)]) (dr_boundaries r))),
      (''self_resolved'', JBool (dr_self_resolved r))]"

definition cmd_import :: "'s cli_env \<Rightarrow> cli_args \<Rightarrow> 's ctx \<Rightarrow> (exc + result) \<times> 's ctx" where
  "cmd_import E a x =
     (if \<not> truthy (a_path a) then pure_verb (failed (lit ''--path is required'')) x
      else
       (let path = the (a_path a); tz = or_else (a_timezone a) (lit ''UTC''); fmt = or_else (a_date_format a) ''DMY'';
            label = or_else (a_self_label a) (lit ''Me'') in
        case ce_read E path of
          Inl e \<Rightarrow> if e \<in> {OSError, FileNotFoundError} then pure_verb (failed (lit ''cannot read '' @ path @ lit '': '' @ ce_message E e)) x
                   else (Inl e, x)
        | Inr txt \<Rightarrow>
       (case dry_run (ce_import E) txt fmt tz (Some label) of
          Inl e \<Rightarrow> (Inl e, x)
        | Inr preview \<Rightarrow>
            if a_dry_run a then pure_verb (good ((''dry_run'', JBool True) # preview_fields preview)) x
            else if \<not> truthy (a_conversation_id a) \<or> \<not> truthy (a_account_id a) then
              pure_verb (failed (lit ''--conversation-id and --account-id are required (use --dry-run to preview)'')) x
            else
             (case utf8 txt of
                Inl e \<Rightarrow> (Inl e, x)
              | Inr b \<Rightarrow>
                  (case import_batch (ce_import E)
                          \<lparr>ia_text = txt, ia_source_sha256 = hex_of (sha256 (ce_crypto E) b), ia_date_format = fmt, ia_tz_name = tz,
                           ia_conversation_id = the (a_conversation_id a), ia_account_id = the (a_account_id a), ia_self_label = label,
                           ia_dst = (\<lambda>_. None), ia_artifact = None\<rparr> (ce_fresh E) (cx_vault x) of
                     (Inl e, c) \<Rightarrow> (Inl e, x\<lparr>cx_vault := c\<rparr>)
                   | (Inr r, c) \<Rightarrow>
                       (Inr (good [(''batch_id'', JStr (ir_batch_id r)), (''added'', jnat (ir_added r)),
                          (''observations'', jnat (ir_observations r)), (''participants'', jnat (ir_participants r))]),
                        x\<lparr>cx_vault := c\<rparr>))))))"

definition cmd_import_undo :: "'s cli_env \<Rightarrow> cli_args \<Rightarrow> 's ctx \<Rightarrow> (exc + result) \<times> 's ctx" where
  "cmd_import_undo E a x =
     (if \<not> truthy (a_job_id a) then pure_verb (failed (lit ''--job-id is required'')) x
      else
       (case undo_batch (the (a_job_id a)) (ce_now E) (cx_vault x) of
          (Inl e, c) \<Rightarrow> (Inl e, x\<lparr>cx_vault := c\<rparr>)
        | (Inr r, c) \<Rightarrow>
            (Inr (good [(''batch_id'', jopt (a_job_id a)), (''observations_deleted'', jnat (ur_observations_deleted r)),
               (''messages_deleted'', jnat (ur_messages_deleted r))]), x\<lparr>cx_vault := c\<rparr>)))"

section \<open>Provisioning\<close>

definition ENDPOINT :: json where "ENDPOINT = jtext ''http://127.0.0.1:8765/mcp''"

primrec provision_names :: "'s cli_env \<Rightarrow> string list \<Rightarrow> string list \<Rightarrow> string list \<Rightarrow> 's \<Rightarrow> (exc + result + string list \<times> string list) \<times> 's" where
  "provision_names E [] ps as s = (Inr (Inr (ps, as)), s)"
| "provision_names E (n # ns) ps as s =
     (case ce_require E n 32 s of
        Inr _ \<Rightarrow> provision_names E ns ps (as @ [n]) s
      | Inl e \<Rightarrow>
          if e = KeyMissing then
            (case ce_provision E n 32 s of
               (Inl e', s') \<Rightarrow> (Inl e', s')
             | (Inr _, s') \<Rightarrow> provision_names E ns (ps @ [n]) as s')
          else (Inr (Inl (failed (lit (n @ '': '' @ exc_name e @ '': '') @ ce_message E e))), s))"

definition cmd_mcp_provision :: "'s cli_env \<Rightarrow> cli_args \<Rightarrow> 's option \<Rightarrow> (exc + result) \<times> 's option" where
  "cmd_mcp_provision E a ks =
     (case ks of
        None \<Rightarrow> (Inr (failed (lit ''no keystore available on this context'')), None)
      | Some s \<Rightarrow>
          (case provision_names E [TOKEN_KEY_NAME, AUDIT_KEY_NAME] [] [] s of
             (Inl e, s') \<Rightarrow> (Inl e, Some s')
           | (Inr (Inl r), s') \<Rightarrow> (Inr r, Some s')
           | (Inr (Inr (ps, as)), s') \<Rightarrow>
               (let out = good [(''provisioned'', JArr (map jtext ps)), (''already_present'', JArr (map jtext as)), (''endpoint'', ENDPOINT)] in
                if a_reveal a then
                  (case ce_require E TOKEN_KEY_NAME 32 s' of
                     Inl e \<Rightarrow> (Inl e, Some s')
                   | Inr t \<Rightarrow> (Inr (out @ [field ''token'' (JStr (hex_of t))]), Some s'))
                else (Inr (out @ [field ''note'' (jtext (''token withheld; re-run with --reveal to print it '' @
                        ''(avoid doing so where stdout is captured to a log)''))]), Some s'))))"

text \<open>\<open>init\<close>: the report of \<open>Bootstrap.init_vault\<close> as the dictionary that is printed.\<close>

definition report_fields :: "paths \<Rightarrow> report \<Rightarrow> (string \<times> json) list" where
  "report_fields p r =
     (let names = (\<lambda>l. JArr (map jtext l)) in
      [(''home'', jtext (home p)), (''created'', names (rp_created r)), (''already_present'', names (rp_already r)),
       (''migrated'', names (rp_migrated r)), (''keys_provisioned'', names (rp_provisioned r)), (''endpoint'', ENDPOINT)])"

definition stranded_text :: "string list \<Rightarrow> pystr" where
  "stranded_text ks =
     (let names = join (lit '', '') (map lit ks) in
      names @ lit '' database exists but its key is missing from the keystore. '' @
      lit ''Minting a new key would leave the existing data permanently unreadable, so nothing was changed. '' @
      lit ''Restore the Keychain entry, or move the '' @ names @ lit '' database aside and re-run to start fresh.'')"

definition cmd_init ::
  "'s cli_env \<Rightarrow> 'd \<Rightarrow> (string \<Rightarrow> 'd \<Rightarrow> exc + 'd) \<Rightarrow> paths \<Rightarrow> cli_args \<Rightarrow> ('s, 'd) host \<Rightarrow> (exc + result) \<times> ('s, 'd) host" where
  "cmd_init E d0 run_script p a h =
     (case init_vault (ce_provision E) (ce_require E) d0 run_script p (a_reveal a) h of
        (Inl e, h') \<Rightarrow> (Inl e, h')
      | (Inr (Stranded ks), h') \<Rightarrow> (Inr (failed (stranded_text ks) @ [field ''stranded'' (JArr (map jtext ks))]), h')
      | (Inr (Ready r (Some t)), h') \<Rightarrow> (Inr (good (report_fields p r @ [(''token'', JStr t)])), h')
      | (Inr (Ready r None), h') \<Rightarrow>
          (Inr (good (report_fields p r @ [(''note'', jtext (''MCP token withheld; re-run with --reveal to print it '' @
             ''(avoid doing so where stdout is captured to a log)''))])), h'))"

section \<open>The entry point\<close>

definition FORBIDDEN_VERBS :: "string list" where
  "FORBIDDEN_VERBS = [''approve'', ''send'', ''sign'', ''dispatch'', ''mint_capability'', ''create_capability'', ''send_message'',
     ''get_credentials'', ''export_vault'', ''prepare'']"

definition BOOTSTRAP_VERBS :: "string list" where
  "BOOTSTRAP_VERBS = [''init'', ''mcp-provision'']"

text \<open>The verbs that run on an open vault; with \<open>BOOTSTRAP_VERBS\<close> they are all of \<open>COMMANDS\<close>.\<close>

definition COMMANDS :: "(string \<times> ('s cli_env \<Rightarrow> cli_args \<Rightarrow> 's ctx \<Rightarrow> (exc + result) \<times> 's ctx)) list" where
  "COMMANDS =
     [(''doctor'', cmd_doctor), (''mcp-visibility'', cmd_mcp_visibility), (''accounts-add'', cmd_accounts_add),
      (''accounts-list'', cmd_accounts_list), (''conversations-add'', cmd_conversations_add),
      (''conversations-list'', cmd_conversations_list), (''oauth-pending'', cmd_oauth_pending),
      (''oauth-approve'', cmd_oauth_approve), (''oauth-revoke'', cmd_oauth_revoke), (''import'', cmd_import),
      (''import-undo'', cmd_import_undo), (''health'', cmd_health), (''devices-list'', cmd_devices_list),
      (''devices-revoke'', cmd_devices_revoke), (''dlq-list'', cmd_dlq_list), (''dlq-show'', cmd_dlq_show),
      (''keys-list'', cmd_keys_list), (''templates-list'', cmd_templates_list), (''reconcile-list'', cmd_reconcile_list),
      (''reconcile-resolve'', cmd_reconcile_resolve), (''scheduler-list'', cmd_scheduler_list),
      (''scheduler-enable'', cmd_scheduler_enable), (''scheduler-disable'', cmd_scheduler_disable)]"

text \<open>\<open>run\<close>: the exit code of a result. \<open>argparse\<close> itself ends an unknown verb with 2.\<close>

definition exit_code :: "result \<Rightarrow> nat" where
  "exit_code r = (case jget (lit ''ok'') r of None \<Rightarrow> 0 | Some v \<Rightarrow> if jtrue v then 0 else 1)"

definition run_verb :: "'s cli_env \<Rightarrow> string \<Rightarrow> cli_args \<Rightarrow> 's ctx \<Rightarrow> (exc + nat \<times> result) \<times> 's ctx" where
  "run_verb E verb a x =
     (case map_of COMMANDS verb of
        None \<Rightarrow> (Inr (2, []), x)
      | Some f \<Rightarrow> (case f E a x of (Inl e, x') \<Rightarrow> (Inl e, x') | (Inr r, x') \<Rightarrow> (Inr (exit_code r, r), x')))"

text \<open>
  \<open>main\<close>, on a host whose two files hold a vault and a control database. The connections end with the
  process: what is durable is what was committed. A file without the schema makes the verb raise
  \<open>DatabaseError\<close> (also where the verb would have stopped at its options first).
\<close>

datatype stored_db = No_schema | Vault_file vault_db | Control_file control_db

definition no_vault :: "'s cli_env \<Rightarrow> exc \<Rightarrow> exc + nat \<times> result" where
  "no_vault E e =
     (if e = KeyMissing then Inr (2, failed (lit ''no vault yet ('' @ ce_message E e @ lit ''); run `whatsvault init` first''))
      else if e \<in> {KeyExists, KeyStoreError} then Inr (2, failed (lit ''cannot reach the Keychain: '' @ ce_message E e))
      else Inl e)"

definition run_opened ::
  "'s cli_env \<Rightarrow> paths \<Rightarrow> string \<Rightarrow> cli_args \<Rightarrow> bytes \<times> stored_db versioned \<Rightarrow> bytes \<times> stored_db versioned \<Rightarrow>
   ('s, stored_db) host \<Rightarrow> (exc + nat \<times> result) \<times> ('s, stored_db) host" where
  "run_opened E p verb a kv kc h =
     (case (content (snd kv), content (snd kc)) of
        (Vault_file d, Control_file k) \<Rightarrow>
          (case run_verb E verb a \<lparr>cx_vault = connect d, cx_control = connect k, cx_keys = Some (keys_of h)\<rparr> of
             (r, x) \<Rightarrow>
               (r, h\<lparr>files :=
                  save_db (control_db_path p) (fst kc) ((snd kc)\<lparr>content := Control_file (disk (cx_control x))\<rparr>)
                    (save_db (vault_db_path p) (fst kv) ((snd kv)\<lparr>content := Vault_file (disk (cx_vault x))\<rparr>) (files h))\<rparr>))
      | _ \<Rightarrow> (Inl DatabaseError, h))"

definition cli_main ::
  "'s cli_env \<Rightarrow> (string \<Rightarrow> stored_db \<Rightarrow> exc + stored_db) \<Rightarrow> paths \<Rightarrow> string \<Rightarrow> cli_args \<Rightarrow> ('s, stored_db) host \<Rightarrow>
   (exc + nat \<times> result) \<times> ('s, stored_db) host" where
  "cli_main E run_script p verb a h =
     (if verb = ''init'' then
        (case cmd_init E No_schema run_script p a h of (Inl e, h') \<Rightarrow> (Inl e, h') | (Inr r, h') \<Rightarrow> (Inr (exit_code r, r), h'))
      else if verb = ''mcp-provision'' then
        (case cmd_mcp_provision E a (Some (keys_of h)) of
           (Inl e, ks) \<Rightarrow> (Inl e, h\<lparr>keys_of := the ks\<rparr>) | (Inr r, ks) \<Rightarrow> (Inr (exit_code r, r), h\<lparr>keys_of := the ks\<rparr>))
      else
       (case open_existing (ce_require E) No_schema ''vault'' (vault_db_path p) h of
          Inl e \<Rightarrow> (no_vault E e, h)
        | Inr kv \<Rightarrow>
       (case open_existing (ce_require E) No_schema ''control'' (control_db_path p) h of
          Inl e \<Rightarrow> (no_vault E e, h)
        | Inr kc \<Rightarrow> run_opened E p verb a kv kc h)))"

section \<open>No verb creates authority\<close>

lemma command_names:
  "list_all (\<lambda>n. n \<notin> set FORBIDDEN_VERBS) (map fst COMMANDS @ BOOTSTRAP_VERBS)" "distinct (map fst COMMANDS @ BOOTSTRAP_VERBS)"
  by (simp_all add: COMMANDS_def FORBIDDEN_VERBS_def BOOTSTRAP_VERBS_def)

text \<open>
  What authorises a send stays as it is: drafts, approvals, nonces, attempts, grants, windows; the enrolled
  devices are the same, and a device that is active was active.
\<close>

definition no_authority :: "control_db \<Rightarrow> control_db \<Rightarrow> bool" where
  "no_authority k k' \<longleftrightarrow>
     drafts k' = drafts k \<and> approvals k' = approvals k \<and> approval_nonces k' = approval_nonces k \<and>
     send_attempts k' = send_attempts k \<and> capability_grants k' = capability_grants k \<and>
     conversation_windows k' = conversation_windows k \<and>
     {r \<in> set (approval_devices k'). dev_status r = ACTIVE} \<subseteq> set (approval_devices k)"

lemma no_authority_refl [simp]: "no_authority k k"
  by (auto simp: no_authority_def)

lemma no_authority_trans: "no_authority k1 k2 \<Longrightarrow> no_authority k2 k3 \<Longrightarrow> no_authority k1 k3"
  by (auto simp: no_authority_def)

text \<open>The same on a connection, for its working and its durable state.\<close>

definition quiet :: "control \<Rightarrow> control \<Rightarrow> bool" where
  "quiet c c' \<longleftrightarrow> no_authority (work c) (work c') \<and> (no_authority (work c) (disk c') \<or> disk c' = disk c)"

lemma quiet_refl [simp]: "quiet c c" by (simp add: quiet_def)

lemma quiet_commit [simp]: "quiet c (commit c)" by (simp add: quiet_def)

lemma quiet_work: "no_authority (work c) w \<Longrightarrow> quiet c (c\<lparr>work := w\<rparr>)" by (simp add: quiet_def)

lemma quiet_trans: "quiet a b \<Longrightarrow> quiet b c \<Longrightarrow> quiet a c"
  unfolding quiet_def using no_authority_trans by metis

lemma quiet_store: "no_authority (work c) w \<Longrightarrow> quiet c (commit (c\<lparr>work := w\<rparr>))"
  using quiet_trans quiet_work quiet_commit by blast

lemma quiet_audit: "audit_event C u key tool out args now c = (r, c') \<Longrightarrow> quiet c c'"
  by (auto simp: audit_event_def record_audit_def ins_audit_def no_authority_def quiet_def split: option.splits sum.splits)

lemma quiet_approve:
  assumes "approve C T u key code now c = (r, c')"
  shows "quiet c c'"
proof -
  have upd: "quiet c (c\<lparr>work := (work c)\<lparr>oauth_pending := t\<rparr>\<rparr>)" for t by (rule quiet_work) (auto simp: no_authority_def)
  have done': "quiet c c2" if "audit_event C u key tool out args now (c\<lparr>work := (work c)\<lparr>oauth_pending := t\<rparr>\<rparr>) = (x, c2)" for t tool out args x c2
    by (rule quiet_trans [OF upd quiet_audit [OF that]])
  show ?thesis
    using assms unfolding approve_def Let_def
    by (auto split: option.splits if_splits prod.splits sum.splits dest!: done' intro: quiet_trans [OF _ quiet_commit])
qed

lemma quiet_revoke_all:
  assumes "revoke_all C u key now c = (r, c')"
  shows "quiet c c'"
proof -
  have k: "quiet c (c\<lparr>work := kill now P (work c)\<rparr>)" for P by (rule quiet_work) (auto simp: no_authority_def kill_def)
  have done': "quiet c c2" if "audit_event C u key tool out args now (c\<lparr>work := kill now P (work c)\<rparr>) = (x, c2)" for P tool out args x c2
    by (rule quiet_trans [OF k quiet_audit [OF that]])
  show ?thesis
    using assms unfolding revoke_all_def Let_def
    by (auto split: prod.splits sum.splits dest!: done' intro: quiet_trans [OF _ quiet_commit])
qed

lemma quiet_revoke: "quiet c (revoke i c)"
  unfolding revoke_def by (rule quiet_store) (auto simp: no_authority_def set_revoked_def upd_def)

lemma quiet_resolve: "quiet c (snd (resolve i d c))"
  unfolding resolve_def Let_def snd_conv by (rule quiet_store) (auto simp: no_authority_def)

lemma quiet_set_enabled: "quiet c (set_enabled i v c)"
  unfolding set_enabled_def by (rule quiet_store) (auto simp: no_authority_def)

named_theorems verb_defs

lemmas [verb_defs] = pure_verb_def write_vault_def cmd_doctor_def cmd_health_def cmd_accounts_list_def cmd_conversations_list_def
  cmd_devices_list_def cmd_dlq_list_def cmd_dlq_show_def cmd_keys_list_def cmd_templates_list_def cmd_reconcile_list_def
  cmd_scheduler_list_def cmd_oauth_pending_def cmd_accounts_add_def cmd_conversations_add_def cmd_mcp_visibility_def
  cmd_import_def cmd_import_undo_def

text \<open>The verbs of the vault leave the control database alone.\<close>

definition VAULT_VERBS :: "string list" where
  "VAULT_VERBS = [''mcp-visibility'', ''accounts-add'', ''conversations-add'', ''import'', ''import-undo'']"

definition READ_VERBS :: "string list" where
  "READ_VERBS = [''doctor'', ''accounts-list'', ''conversations-list'', ''oauth-pending'', ''health'', ''devices-list'', ''dlq-list'',
     ''dlq-show'', ''keys-list'', ''templates-list'', ''reconcile-list'', ''scheduler-list'']"

lemma read_verbs:
  assumes "verb \<in> set READ_VERBS" "run_verb E verb a x = (r, x')"
  shows "x' = x"
  using assms
  by (auto simp: READ_VERBS_def run_verb_def COMMANDS_def Let_def verb_defs split: prod.splits sum.splits option.splits)

lemma vault_verbs:
  assumes "verb \<in> set VAULT_VERBS" "run_verb E verb a x = (r, x')"
  shows "cx_control x' = cx_control x"
  using assms
  by (auto simp: VAULT_VERBS_def run_verb_def COMMANDS_def Let_def verb_defs
      split: prod.splits sum.splits option.splits if_splits)

lemma oauth_verbs:
  assumes "verb = ''oauth-approve'' \<or> verb = ''oauth-revoke''" "run_verb E verb a x = (r, x')"
  shows "quiet (cx_control x) (cx_control x')"
  using assms
  by (auto simp: run_verb_def COMMANDS_def Let_def cmd_oauth_approve_def cmd_oauth_revoke_def pure_verb_def
      split: prod.splits sum.splits option.splits if_splits dest: quiet_approve quiet_revoke_all)

lemma admin_verbs:
  assumes "verb \<in> {''devices-revoke'', ''reconcile-resolve'', ''scheduler-enable'', ''scheduler-disable''}" "run_verb E verb a x = (r, x')"
  shows "quiet (cx_control x) (cx_control x')"
  using assms quiet_resolve [of "cx_control x"]
  by (auto simp: run_verb_def COMMANDS_def Let_def cmd_devices_revoke_def cmd_reconcile_resolve_def cmd_scheduler_enable_def
      cmd_scheduler_disable_def cli_set_enabled_def quiet_revoke quiet_set_enabled
      split: prod.splits option.splits) (metis snd_conv)+

definition ADMIN_VERBS :: "string list" where
  "ADMIN_VERBS = [''devices-revoke'', ''reconcile-resolve'', ''scheduler-enable'', ''scheduler-disable'']"

lemma all_verbs: "set (map fst COMMANDS) \<subseteq> set READ_VERBS \<union> set VAULT_VERBS \<union> {''oauth-approve'', ''oauth-revoke''} \<union> set ADMIN_VERBS"
  by (simp add: COMMANDS_def READ_VERBS_def VAULT_VERBS_def ADMIN_VERBS_def)

lemma run_verb_quiet:
  fixes x :: "'s ctx"
  assumes "run_verb E verb a x = (r, x')"
  shows "quiet (cx_control x) (cx_control x')"
proof (cases "verb \<in> set (map fst (COMMANDS :: (string \<times> ('s cli_env \<Rightarrow> cli_args \<Rightarrow> 's ctx \<Rightarrow> (exc + result) \<times> 's ctx)) list))")
  case True
  then consider "verb \<in> set READ_VERBS" | "verb \<in> set VAULT_VERBS" | "verb = ''oauth-approve'' \<or> verb = ''oauth-revoke''"
    | "verb \<in> {''devices-revoke'', ''reconcile-resolve'', ''scheduler-enable'', ''scheduler-disable''}"
    using all_verbs unfolding ADMIN_VERBS_def by fastforce
  then show ?thesis
  proof cases
    case 1
    from read_verbs [OF this assms] show ?thesis by simp
  next
    case 2
    from vault_verbs [OF this assms] show ?thesis by simp
  next
    case 3
    then show ?thesis by (rule oauth_verbs [OF _ assms])
  next
    case 4
    then show ?thesis by (rule admin_verbs [OF _ assms])
  qed
next
  case False
  then have "map_of (COMMANDS :: (string \<times> ('s cli_env \<Rightarrow> cli_args \<Rightarrow> 's ctx \<Rightarrow> (exc + result) \<times> 's ctx)) list) verb = None"
    by (simp add: map_of_eq_None_iff)
  then have "x' = x" using assms by (simp add: run_verb_def)
  then show ?thesis by simp
qed

section \<open>On the host\<close>

definition control_of :: "paths \<Rightarrow> ('s, stored_db) host \<Rightarrow> control_db option" where
  "control_of p h = (case files h (control_db_path p) of
     Some (File x) \<Rightarrow> (case content (f_db x) of Control_file k \<Rightarrow> Some k | _ \<Rightarrow> None) | _ \<Rightarrow> None)"

lemma paths_differ: "vault_db_path p \<noteq> control_db_path p"
  by (simp add: vault_db_path_def control_db_path_def path_join_def)

lemma open_existing_content:
  assumes "open_existing req d0 kind path h = Inr kv" "isfile (files h) path"
  shows "\<exists>x. files h path = Some (File x) \<and> snd kv = f_db x"
  using assms by (auto simp: open_existing_def open_db_def isfile_def split: option.splits sum.splits Bootstrap.entry.splits if_splits)

lemma control_of_saved:
  "content v = Control_file k \<Longrightarrow> control_of p (h\<lparr>files := save_db (control_db_path p) key v f\<rparr>) = Some k"
  by (simp add: control_of_def save_db_def)

lemma run_opened_quiet:
  assumes "run_opened E p verb a kv kc h = (r, h')" "control_of p h = Some k" "content (snd kc) = Control_file k"
  shows "\<exists>k'. control_of p h' = Some k' \<and> no_authority k k'"
proof (cases "content (snd kv)")
  case (Vault_file d)
  obtain y x where x: "run_verb E verb a \<lparr>cx_vault = connect d, cx_control = connect k, cx_keys = Some (keys_of h)\<rparr> = (y, x)"
    by (rule prod.exhaust)
  have "no_authority k (disk (cx_control x))" using run_verb_quiet [OF x] by (auto simp: quiet_def connect_def)
  moreover have "control_of p h' = Some (disk (cx_control x))"
    using assms(1) by (auto simp: run_opened_def assms(3) Vault_file x intro!: control_of_saved)
  ultimately show ?thesis by blast
qed (use assms in \<open>auto simp: run_opened_def\<close>)

lemma cli_main_quiet:
  assumes "cli_main E run_script p verb a h = (r, h')" "verb \<noteq> ''init''" "control_of p h = Some k"
  shows "\<exists>k'. control_of p h' = Some k' \<and> no_authority k k'"
proof -
  have same: ?thesis if "files h' = files h" using that assms(3) by (auto simp: control_of_def)
  obtain f where f: "files h (control_db_path p) = Some (File f)" "content (f_db f) = Control_file k"
    using assms(3) by (auto simp: control_of_def split: option.splits Bootstrap.entry.splits stored_db.splits)
  show ?thesis
  proof (cases "verb = ''mcp-provision''")
    case True
    then show ?thesis using assms(1,2) same by (auto simp: cli_main_def split: prod.splits sum.splits)
  next
    case False
    show ?thesis
    proof (cases "h' = h")
      case d: False
      with False assms(1,2) obtain kv kc where
        kc: "open_existing (ce_require E) No_schema ''control'' (control_db_path p) h = Inr kc"
        and r: "run_opened E p verb a kv kc h = (r, h')"
        by (auto simp: cli_main_def split: sum.splits)
      have "snd kc = f_db f" using open_existing_content [OF kc] f(1) by (auto simp: isfile_def)
      with run_opened_quiet [OF r assms(3)] f(2) show ?thesis by simp
    qed (use same in simp)
  qed
qed

text \<open>A machine without a vault: every verb but the two of the bootstrap ends with 2 and changes nothing.\<close>

lemma cli_main_unprovisioned:
  assumes "verb \<notin> set BOOTSTRAP_VERBS" "\<And>n. ce_require E n 32 (keys_of h) = Inl KeyMissing"
  shows "\<exists>r. cli_main E run_script p verb a h = (Inr (2, r), h)"
  using assms by (simp add: cli_main_def BOOTSTRAP_VERBS_def open_existing_def DB_KEY_NAMES_def no_vault_def)

section \<open>Provisioning never replaces a key\<close>

context key_store
begin

lemma provision_names_keeps:
  assumes "ce_provision E = provision" "ce_require E = require" "provision_names E ns ps as s = (r, s')"
  shows "keeps_keys s s' \<and> (\<forall>out. r = Inr (Inr out) \<longrightarrow> list_all (\<lambda>n. \<exists>b. require n 32 s' = Inr b) ns)"
  using assms(3)
proof (induction ns arbitrary: ps as s)
  case (Cons n ns)
  show ?case
  proof (cases "require n 32 s")
    case (Inr b)
    with Cons.prems assms(2) have "provision_names E ns ps (as @ [n]) s = (r, s')" by simp
    from Cons.IH [OF this] Inr show ?thesis by (auto simp: keeps_keys_def)
  next
    case (Inl e)
    show ?thesis
    proof (cases "e = KeyMissing")
      case True
      then obtain b s1 where p: "provision n 32 s = (Inr b, s1)" using Inl provision_missing by blast
      with Cons.prems Inl True assms(1,2) have "provision_names E ns (ps @ [n]) as s1 = (r, s')" by simp
      from Cons.IH [OF this] provision_ok [OF p] provision_keeps [OF _ p] show ?thesis
        by (auto simp: keeps_keys_def)
    next
      case False
      with Cons.prems Inl assms(2) show ?thesis by (auto simp: keeps_keys_def)
    qed
  qed
qed (simp add: keeps_keys_def)

end

end
