(* ===== verification/Example_Vault.thy ===== *)
theory Example_Vault
  imports Example_Run Import_Safety Cli Doctor
begin

text \<open>
  Concrete data for the theorems on the vault: a small vault with one fenced conversation, a capability grant, and
  an ingest run on a sealed webhook payload with one message.
\<close>

section \<open>A vault and a grant\<close>

definition demo_message :: message where
  "demo_message = \<lparr>msg_id = lit ''msg_1'', msg_account_id = lit ''a'', msg_conversation_id = lit ''c'', msg_sender_contact_id = None,
     msg_direction = In, msg_ts_lower_ms = 5, msg_ts_upper_ms_exclusive = 1005, msg_ts_precision = P_s, msg_type = lit ''text'',
     msg_text_original = Some (lit ''hello''), msg_reply_to_wamid = None, msg_origin = cloud_api, msg_window_eligible = True,
     msg_wamid = Some (lit ''w''), msg_import_fingerprint = None, msg_delivery_rank = 0\<rparr>"

definition demo_chat :: "pystr \<Rightarrow> visibility \<Rightarrow> conversation" where
  "demo_chat i v = \<lparr>cnv_id = i, cnv_account_id = lit ''a'', cnv_type = ''dm'', cnv_wa_chat_id = None, cnv_subject = None,
     cnv_last_message_ms = None, cnv_mcp_visibility = v\<rparr>"

definition demo_vault :: vault_db where
  "demo_vault = empty_vault\<lparr>accounts := [\<lparr>acc_id = lit ''a'', acc_phone_number_id = lit ''p''\<rparr>],
     conversations := [demo_chat (lit ''c'') ALLOW_MCP, demo_chat (lit ''s'') LOCAL_ONLY],
     messages := [demo_message, demo_message\<lparr>msg_id := lit ''msg_2'', msg_conversation_id := lit ''s'', msg_wamid := Some (lit ''w2'')\<rparr>]\<rparr>"

definition demo_grant :: grant where
  "demo_grant = \<lparr>cap_id = lit ''cap_1'', cap_device_id = lit ''dev_1'', cap_account_id = Some (lit ''a''),
     cap_conversation_id = Some (lit ''c''), cap_action = lit ''MARK_READ'', cap_created_at_ms = Some 0, cap_expires_at_ms = Some 100,
     cap_max_actions = Some 1, cap_used_count = 0, cap_nonce = Some (replicate 32 3), cap_signature = replicate 64 0, cap_status = ACTIVE\<rparr>"

definition granted_db :: control_db where
  "granted_db = empty_control\<lparr>approval_devices := approval_devices demo_db, capability_grants := [demo_grant]\<rparr>"

lemma granted_ok: "control_inv granted_db" "quota_ok granted_db"
  unfolding control_inv_def quota_ok_def by (code_simp, auto simp: granted_db_def demo_grant_def)

lemma granted_mark:
  "fst (mark_read demo_crypto (\<lambda>p w. w # p) (lit ''c'') (lit ''w'') (lit ''a'') 20 demo_vault (connect granted_db) []) = Inr MR_OK"
  by code_simp

section \<open>Primitives\<close>

text \<open>A cipher that does not encrypt has the documented laws of one that does.\<close>

definition demo_sealing :: sealing where
  "demo_sealing = \<lparr>x_pub = (\<lambda>k. replicate 32 7), x_exchange = (\<lambda>a b. Some [1]), p_pub = (\<lambda>k. replicate 65 7),
     p_exchange = (\<lambda>a b. Some [1]), hkdf = (\<lambda>i k. k), gcm_encrypt = (\<lambda>k n pt aad. pt), gcm_decrypt = (\<lambda>k n ct aad. Some ct)\<rparr>"

lemma demo_sealing_laws: "gcm_opens demo_sealing" "x_agrees demo_sealing" "p_agrees demo_sealing"
  by (simp_all add: gcm_opens_def x_agrees_def p_agrees_def demo_sealing_def)

definition demo_unicode :: unicode where
  "demo_unicode = \<lparr>nfc = (\<lambda>c. [c]), isspace = (\<lambda>c. c = 32), casefold = (\<lambda>s. s)\<rparr>"

definition demo_ids :: ulids where
  "demo_ids k = replicate (Suc k) 49"

section \<open>An ingest run\<close>

definition obj :: "(string \<times> json) list \<Rightarrow> json" where
  "obj kvs = JObj (map (\<lambda>(k, v). (lit k, v)) kvs)"

definition demo_payload :: json where
  "demo_payload =
     obj [(''entry'', JArr [obj [(''changes'', JArr [obj [(''value'', obj [(''metadata'', obj [(''phone_number_id'', JStr (lit ''p''))]),
       (''messages'', JArr [obj [(''from'', JStr (lit ''r'')), (''id'', JStr (lit ''w'')), (''timestamp'', JInt 1),
          (''type'', JStr (lit ''image''))]])])]])]])]"

definition demo_ingest :: ingest_env where
  "demo_ingest = \<lparr>ie_crypto = demo_crypto, ie_sealing = demo_sealing, ie_unicode = demo_unicode,
     ie_loads = (\<lambda>b. if b = [42] then Inr demo_payload else Inl ValueError), ie_pint = (\<lambda>s. Inl ValueError),
     ie_lookup = (\<lambda>k. if k = 1 then Some [9] else None)\<rparr>"

definition demo_seal_args :: seal_args where
  "demo_seal_args = \<lparr>sa_key_id = 1, sa_event_id_hash = replicate 32 0, sa_crypto_version = 1, sa_algorithm_id = 1, sa_envelope_version = 1\<rparr>"

definition demo_body :: bytes where
  "demo_body = WVE1 @ [1, 1, 1, 0, 0, 0, 1] @ replicate 32 0 @ replicate 32 7 @ replicate 12 0 @ [0, 0, 0, 1, 42]"

definition demo_state :: ingest where
  "demo_state = \<lparr>vlt = connect empty_vault, ctl_conn = connect empty_control, fresh = demo_ids\<rparr>"

definition demo_drain :: "(exc + counts) \<times> fake_queue drain" where
  "demo_drain = drain_once fq_lease fq_ack fq_nack demo_ingest 100 None 10 [] (fq_init [demo_body]) demo_state"

lemma demo_sealed: "seal_edge demo_sealing [8] (replicate 12 0) (x_pub demo_sealing [9]) [42] demo_seal_args = Inr demo_body"
proof -
  have "be_bytes 4 1 = [0, 0, 0, 1]" by code_simp
  then have "pack_I 1 = Inr [0, 0, 0, 1]" by (simp add: pack_I_def)
  then show ?thesis
    by (simp add: seal_edge_def demo_sealing_def demo_seal_args_def header_bytes_def one_byte_def demo_body_def Let_def)
qed

lemma demo_opened: "map_sum id fst (open_edge demo_crypto demo_sealing (ie_lookup demo_ingest) demo_body) = Inr [42]"
  by code_simp

lemma demo_atoms: "map_sum id length (atoms_of demo_ingest [42]) = Inr 1"
  by code_simp

lemma demo_processed: "fst (process_payload demo_ingest [42] 100 None demo_state) = Inr ()"
  by code_simp

lemma demo_drained: "fq_acked (dq (snd demo_drain)) = [demo_body]"
proof -
  obtain hdr where o: "open_edge (ie_crypto demo_ingest) (ie_sealing demo_ingest) (ie_lookup demo_ingest) demo_body = Inr ([42], hdr)"
    using demo_opened by (cases "open_edge demo_crypto demo_sealing (ie_lookup demo_ingest) demo_body") (auto simp: demo_ingest_def)
  obtain s' where p: "process_payload demo_ingest [42] 100 None demo_state = (Inr (), s')"
    using demo_processed by (cases "process_payload demo_ingest [42] 100 None demo_state") auto
  have l: "fq_lease 10 (fq_init [demo_body]) = ([(lease_id 1, demo_body)], \<lparr>fq_pending = [], fq_leased = [(lease_id 1, demo_body)], fq_acked = [], fq_counter = 1\<rparr>)"
    by (simp add: eval_nat_numeral fq_init_def dict_set_def Let_def)
  have "circuit_state (work (vlt demo_state)) = CLOSED" by (simp add: circuit_state_def demo_state_def connect_def empty_vault_def)
  then show ?thesis
    by (simp add: demo_drain_def drain_once_def l drain_one_def o p Let_def pop_def)
qed

lemma demo_state_ok: "ing_ok demo_state"
  by (auto simp: ing_ok_def demo_state_def connect_def clean_def vault_inv_empty fresh_ok_def demo_ids_def inj_def)
    (simp add: empty_vault_def)

end
