(* ===== verification/Example_House.thy ===== *)
theory Example_House
  imports Whole_System Example_Vault
begin

text \<open>
  A run of the whole house: a device is enrolled, a webhook message is drained from the queue and opens the window
  of its conversation, a reply is prepared for that conversation, approved and sent.
\<close>

definition house_chat :: pystr where
  "house_chat = mk_id ''cnv'' (demo_ids 3)"

definition house_args :: prepare_args where
  "house_args = demo_args\<lparr>pa_conversation_id := house_chat, pa_now_ms := 1500\<rparr>"

definition held_lease :: "(pystr \<times> bytes) list lease_fn" where
  "held_lease n q = (q, [])"

definition house_draft :: draft where
  "house_draft = new_draft demo_crypto (lit ''drf_2'') (replicate 32 1) house_args [104, 105]"

definition enrolled :: control where
  "enrolled = run_call demo_crypto (ENROLL (lit ''1'') (lit ''phone'') [7] [9] None) (connect empty_control)"

definition house_ingest :: ingest where
  "house_ingest = \<lparr>vlt = connect empty_vault, ctl_conn = enrolled, fresh = demo_ids\<rparr>"

definition house_drain :: "(exc + counts) \<times> (pystr \<times> bytes) list drain" where
  "house_drain = drain_once held_lease (\<lambda>_ q. q) (\<lambda>_ q. q) demo_ingest 100 None 10 [] [(lit ''l'', demo_body)] house_ingest"

definition house_db :: control_db where
  "house_db = demo_db\<lparr>drafts := [house_draft],
     conversation_windows := [\<lparr>win_conversation_id = house_chat, win_last_inbound_ms = 1000\<rparr>]\<rparr>"

lemma house_drained: "ctl_conn (st (snd house_drain)) = connect (house_db\<lparr>drafts := []\<rparr>)"
  by code_simp

lemma house_stored:
  "map (\<lambda>m. (msg_conversation_id m, msg_window_eligible m, msg_ts_lower_ms m)) (messages (work (vlt (st (snd house_drain))))) =
     [(house_chat, True, 1000)]"
  by code_simp

lemma house_prepared:
  "run_call demo_crypto (PREPARE (lit ''2'') (replicate 32 1) house_args) (connect (house_db\<lparr>drafts := []\<rparr>)) = connect house_db"
  by code_simp

text \<open>The states of the run.\<close>

definition house_world :: "control \<Rightarrow> fake_meta world" where
  "house_world c = \<lparr>ctl = c, clk = None, prov = fm_init (lit ''ok'')\<rparr>"

definition house_at :: "control \<Rightarrow> vault \<Rightarrow> fake_meta house" where
  "house_at c v = \<lparr>appr = \<lparr>wld = house_world c, posts = []\<rparr>, vdb = v\<rparr>"

definition house_vault :: vault where
  "house_vault = vlt (st (snd house_drain))"

abbreviation house_run :: "'r server \<Rightarrow> fake_meta house \<Rightarrow> fake_meta house \<Rightarrow> bool" where
  "house_run S \<equiv> house_steps demo_crypto fm_send_text held_lease (\<lambda>_ q. q) (\<lambda>_ q. q) demo_ingest S"

lemma house_ready: "house_run S (house_start (fm_init (lit ''ok''))) (house_at (connect house_db) house_vault)"
proof -
  let ?R = "house_step demo_crypto fm_send_text held_lease (\<lambda>_ q. q) (\<lambda>_ q. q) demo_ingest S"
  have s0: "house_start (fm_init (lit ''ok'')) = house_at (connect empty_control) (connect empty_vault)"
    by (simp add: house_start_def start_def house_at_def house_world_def)
  have at: "?R (house_at c v) (house_at (run_call demo_crypto k c) v)" if "\<not> moves_window k" for k c v
    using house_step.operate [OF that, of demo_crypto fm_send_text held_lease "\<lambda>_ q. q" "\<lambda>_ q. q" demo_ingest S "house_at c v"]
    by (simp add: house_at_def house_world_def called_def)
  have 1: "?R (house_at (connect empty_control) (connect empty_vault)) (house_at enrolled (connect empty_vault))"
    unfolding enrolled_def by (rule at) (simp add: moves_window_def)
  let ?s = "house_at enrolled (connect empty_vault)"
  have d: "drain_once held_lease (\<lambda>_ q. q) (\<lambda>_ q. q) demo_ingest 100 None 10 [] [(lit ''l'', demo_body)] (consumer_view demo_ids ?s) =
      (fst house_drain, snd house_drain)"
    by (simp add: consumer_view_def house_at_def house_world_def house_drain_def house_ingest_def)
  have "clean enrolled" by code_simp
  then have c: "clean (cdb ?s)" by (simp add: house_at_def house_world_def)
  have f: "fresh_ok demo_ids (work (vdb ?s))" using demo_state_ok by (simp add: house_at_def ing_ok_def demo_state_def)
  from house_step.drain [OF c f d, of demo_crypto fm_send_text S]
  have 2: "?R ?s (house_at (connect (house_db\<lparr>drafts := []\<rparr>)) house_vault)"
    by (simp add: house_drained house_vault_def house_at_def house_world_def put_back_def with_control_def)
  have 3: "?R (house_at (connect (house_db\<lparr>drafts := []\<rparr>)) house_vault) (house_at (connect house_db) house_vault)"
    using at [of "PREPARE (lit ''2'') (replicate 32 1) house_args" "connect (house_db\<lparr>drafts := []\<rparr>)" house_vault]
    by (simp add: moves_window_def house_prepared del: run_call.simps)
  show ?thesis unfolding s0 using 1 2 3 by (meson converse_rtranclp_into_rtranclp rtranclp.rtrancl_refl)
qed

section \<open>The approval\<close>

lemma house_chat_eq: "house_chat = [99, 110, 118, 95, 49, 49, 49, 49]"
  by code_simp

lemma house_encodes: "\<exists>payload. encode (canonical_fields house_draft demo_envelope) = Inr payload"
  by (simp add: encode_def encode_with_def decision_slots_def canonical_fields_def house_draft_def house_args_def house_chat_eq
      demo_envelope_def new_draft_def demo_args_def lp_def to_bytes_be_def lit_def mk_id_def utf8_char_def
      demo_crypto_def ATTACH_DOMAIN_def ascii_def expiry_def DEFAULT_TTL_MS_def)

lemma house_approved: "approved demo_crypto 2000 demo_envelope house_db house_draft"
proof -
  have "List.find (\<lambda>r. drf_id r = env_draft_id demo_envelope) (drafts house_db) = Some house_draft"
    "env_decision demo_envelope = lit ''APPROVE''" "env_signature demo_envelope = replicate 64 0"
    "active_signing_key house_db (env_device_id demo_envelope) = Some [7]"
    "\<not> payload_changed demo_crypto house_draft" "permitted (send_ctx house_db 2000 house_draft)"
    by code_simp+
  with house_encodes demo_verify show ?thesis by (auto simp: approved_def)
qed

lemma house_posting:
  "posting demo_crypto 2000 (lit ''3'') demo_envelope (house_world (connect house_db)) =
     Some (house_draft, lit ''atm_3'', snd (permission demo_crypto 2000 (lit ''3'') demo_envelope (connect house_db)), lit ''hi'')"
proof (rule postingI)
  show "fst (trusted_now 2000 (clk (house_world (connect house_db)))) = Inr 2000" by (simp add: trusted_now_def house_world_def)
  show "approved demo_crypto 2000 demo_envelope (work (ctl (house_world (connect house_db)))) house_draft"
    by (simp add: house_world_def house_approved)
  have "fst (permission demo_crypto 2000 (lit ''3'') demo_envelope (connect house_db)) = Inr (Inr (lit ''atm_3''))"
    by code_simp
  then show "permission demo_crypto 2000 (lit ''3'') demo_envelope (ctl (house_world (connect house_db))) =
      (Inr (Inr (lit ''atm_3'')), snd (permission demo_crypto 2000 (lit ''3'') demo_envelope (connect house_db)))"
    by (simp add: house_world_def prod_eq_iff)
  show "utf8_decode (body_of house_draft) = Some (lit ''hi'')" by code_simp
qed

definition house_post :: post where
  "house_post = post_of 2000 demo_envelope (house_world (connect house_db)) house_draft (lit ''atm_3'') (lit ''hi'')"

definition house_done :: "fake_meta house" where
  "house_done = \<lparr>appr = \<lparr>wld = snd (execute_write demo_crypto fm_send_text 2000 (lit ''3'') demo_envelope (house_world (connect house_db))),
     posts = [house_post]\<rparr>, vdb = house_vault\<rparr>"

lemma house_reached: "house_run S (house_start (fm_init (lit ''ok''))) house_done"
proof -
  let ?s = "\<lparr>wld = house_world (connect house_db), posts = []\<rparr> :: fake_meta sys"
  have "sending demo_crypto fm_send_text ?s (appr house_done)"
    using sending.send [of demo_crypto 2000 "lit ''3''" demo_envelope ?s _ _ _ _ fm_send_text, OF _ surjective_pairing] house_posting
    by (simp add: house_done_def house_post_def)
  then have "sending demo_crypto fm_send_text (appr (house_at (connect house_db) house_vault)) (appr house_done)"
    by (simp add: house_at_def)
  from house_step.sender [OF this, of held_lease "\<lambda>_ q. q" "\<lambda>_ q. q" demo_ingest S]
  have "house_step demo_crypto fm_send_text held_lease (\<lambda>_ q. q) (\<lambda>_ q. q) demo_ingest S (house_at (connect house_db) house_vault) house_done"
    by (simp add: house_at_def house_done_def)
  with house_ready [of S] show ?thesis by simp
qed

lemma house_text: "drf_kind (po_draft house_post) = lit ''text''"
  by code_simp

end
