(* ===== verification/Example_Web.thy ===== *)
theory Example_Web
  imports Example_Run Http_Safety
begin

text \<open>
  One authorization over HTTP: a client registers, asks, the operator approves, the page polls, the client
  redeems the code.
\<close>

definition web_env :: http_env where
  "web_env = \<lparr>hp_crypto = demo_crypto,
     hp_text = \<lparr>str_strip = (\<lambda>s. s), str_upper = map (\<lambda>c. if 97 \<le> c \<and> c \<le> 122 then c - 32 else c)\<rparr>,
     hp_loads = (\<lambda>b. if b = [42] then Inr (JObj [(lit ''redirect_uris'', JArr [JStr (lit ''https://x'')])]) else Inl ValueError),
     hp_unquote = (\<lambda>s. s), hp_quote = (\<lambda>s. s), hp_str = (\<lambda>j. case j of JStr s \<Rightarrow> s | _ \<Rightarrow> []), hp_format = (\<lambda>c. False)\<rparr>"

definition web_gate :: gate_config where
  "web_gate = \<lparr>gt_token = lit ''T'', gt_public = True, gt_metadata_url = None\<rparr>"

definition web_app :: oauth_app where
  "web_app = \<lparr>oa_base = lit ''https://v'', oa_audit_key = None\<rparr>"

definition web_draws :: draws where
  "web_draws = \<lparr>dw_client = lit ''c'', dw_request = lit ''r'', dw_user_code = lit ''ABCDEFGHIJ'', dw_code = lit ''K'',
     dw_secrets = \<lparr>sd_access = lit ''A'', sd_refresh = lit ''R'', sd_grant = lit ''g'', sd_ulid = lit ''u''\<rparr>\<rparr>"

definition web_request :: "string \<Rightarrow> string \<Rightarrow> pystr \<Rightarrow> scope" where
  "web_request m p query = \<lparr>sc_type = ''http'', sc_raw_path = None, sc_path = lit p, sc_method = lit m, sc_query = map of_nat query, sc_headers = []\<rparr>"

definition web_challenge :: pystr where
  "web_challenge = pkce_challenge demo_crypto (lit ''v'')"

definition q_register :: scope where "q_register = web_request ''POST'' ''/oauth/register'' []"
definition q_authorize :: scope where
  "q_authorize = web_request ''GET'' ''/oauth/authorize''
     (lit ''response_type=code&client_id=wvc_c&redirect_uri=https://x&code_challenge_method=S256&code_challenge='' @ web_challenge)"
definition q_poll :: scope where "q_poll = web_request ''GET'' ''/oauth/poll'' (lit ''request_id=wvr_r'')"
definition q_token :: scope where "q_token = web_request ''POST'' ''/oauth/token'' []"

definition token_form :: bytes where
  "token_form = map of_nat (lit ''grant_type=authorization_code&code=K&client_id=wvc_c&redirect_uri=https://x&code_verifier=v'')"

definition c_registered :: control where
  "c_registered = snd (register_client (lit ''c'') None [lit ''https://x''] 100 (connect empty_control))"

definition web_ask :: auth_request where
  "web_ask = \<lparr>ar_client_id = Some (lit ''wvc_c''), ar_redirect_uri = Some (lit ''https://x''), ar_code_challenge = Some web_challenge,
     ar_method = Some (lit ''S256''), ar_state = None\<rparr>"

definition c_asked :: control where
  "c_asked = snd (begin_authorization (hp_text web_env) (lit ''r'') (lit ''ABCDEFGHIJ'') web_ask 110 c_registered)"

definition c_approved :: control where
  "c_approved = snd (approve demo_crypto (hp_text web_env) (lit ''u'') None (Some (lit ''ABCDE-FGHIJ'')) 120 c_asked)"

definition c_polled :: control where
  "c_polled = snd (poll demo_crypto (lit ''K'') (Some (lit ''wvr_r'')) 130 c_approved)"

definition web_redeem :: code_request where
  "web_redeem = \<lparr>xr_code = Some (lit ''K''), xr_client_id = Some (lit ''wvc_c''), xr_redirect_uri = Some (lit ''https://x''), xr_verifier = Some (lit ''v'')\<rparr>"

definition c_granted :: control where
  "c_granted = snd (exchange_code demo_crypto (dw_secrets web_draws) None web_redeem 140 c_polled)"

lemma registered: "register_client (lit ''c'') None [lit ''https://x''] 100 (connect empty_control) = (Inr (lit ''wvc_c''), c_registered)"
  by code_simp

lemma asked: "begin_authorization (hp_text web_env) (lit ''r'') (lit ''ABCDEFGHIJ'') web_ask 110 c_registered = (Inr (lit ''wvr_r'', lit ''ABCDE-FGHIJ''), c_asked)"
  by code_simp

lemma polled: "poll demo_crypto (lit ''K'') (Some (lit ''wvr_r'')) 130 c_approved = (Inr (Some (lit ''K'', None, lit ''https://x'')), c_polled)"
  by code_simp

lemma granted: "exchange_code demo_crypto (dw_secrets web_draws) None web_redeem 140 c_polled = (Inr (lit ''A'', lit ''R''), c_granted)"
  by code_simp

section \<open>The five requests\<close>

lemma web_routes:
  "public_router q_register = To_OAuth" "public_router q_authorize = To_OAuth" "public_router q_poll = To_OAuth" "public_router q_token = To_OAuth"
  by code_simp+

lemma web_targets:
  "target q_register = Inr (lit ''/oauth/register'')" "target q_authorize = Inr (lit ''/oauth/authorize'')"
  "target q_poll = Inr (lit ''/oauth/poll'')" "target q_token = Inr (lit ''/oauth/token'')"
  by code_simp+

lemma web_endpoints:
  "endpoint_of (str_upper (hp_text web_env) (sc_method q_register)) (lit ''/oauth/register'') = Some Register"
  "endpoint_of (str_upper (hp_text web_env) (sc_method q_authorize)) (lit ''/oauth/authorize'') = Some Authorize"
  "endpoint_of (str_upper (hp_text web_env) (sc_method q_poll)) (lit ''/oauth/poll'') = Some Poll"
  "endpoint_of (str_upper (hp_text web_env) (sc_method q_token)) (lit ''/oauth/token'') = Some Token"
  by code_simp+

lemma web_params:
  "param (parse_qsl web_env (latin1 (sc_query q_authorize))) ''response_type'' = Some (lit ''code'')"
  "authorize_request (parse_qsl web_env (latin1 (sc_query q_authorize))) = web_ask"
  "param (parse_qsl web_env (latin1 (sc_query q_poll))) ''request_id'' = Some (lit ''wvr_r'')"
  "param (parse_qsl web_env (latin1 token_form)) ''grant_type'' = Some (lit ''authorization_code'')"
  "token_request (parse_qsl web_env (latin1 token_form)) = web_redeem"
  by code_simp+

lemma web_loads: "hp_loads web_env [42] = Inr (JObj [(lit ''redirect_uris'', JArr [JStr (lit ''https://x'')])])"
  by (simp add: web_env_def)

lemma web_client: "jget (lit ''redirect_uris'') [(lit ''redirect_uris'', JArr [JStr (lit ''https://x'')])] = Some (JArr [JStr (lit ''https://x'')])"
  "py_or_empty web_env (jget (lit ''client_name'') [(lit ''redirect_uris'', JArr [JStr (lit ''https://x'')])]) = None"
  "map (hp_str web_env) [JStr (lit ''https://x'')] = [lit ''https://x'']"
  by code_simp+

lemma web_draw: "dw_client web_draws = lit ''c''" "dw_request web_draws = lit ''r''" "dw_user_code web_draws = lit ''ABCDEFGHIJ''" "dw_code web_draws = lit ''K''"
  "hp_crypto web_env = demo_crypto" "oa_audit_key web_app = None"
  by (simp_all add: web_draws_def web_env_def web_app_def)

lemma served_register: "\<exists>r. serve web_env web_gate web_app web_draws 100 q_register [([42], False)] (connect empty_control) = (r, c_registered)"
  by (simp add: serve_def web_routes oauth_endpoint_def web_targets web_endpoints post_register_def web_loads web_client web_draw registered answer_def del: list.map)

lemma served_authorize: "\<exists>r. serve web_env web_gate web_app web_draws 110 q_authorize [] c_registered = (r, c_asked)"
  by (simp add: serve_def web_routes oauth_endpoint_def web_targets web_endpoints get_authorize_def web_params web_draw asked answer_def)

lemma served_poll: "\<exists>u. serve web_env web_gate web_app web_draws 130 q_poll [] c_approved =
    (json_reply 200 (JObj [(lit ''ready'', JBool True), str_field ''redirect'' u]), c_polled)"
  by (auto simp: serve_def web_routes oauth_endpoint_def web_targets web_endpoints get_poll_def web_params web_draw polled)

lemma served_token: "serve web_env web_gate web_app web_draws 140 q_token [(token_form, False)] c_polled =
    (json_reply 200 (token_json (lit ''A'', lit ''R'')), c_granted)"
  by (simp add: serve_def web_routes oauth_endpoint_def web_targets web_endpoints post_token_def web_params web_draw granted answer_def)

lemma web_ends: "endpoint_at web_env q_register = Some Register" "endpoint_at web_env q_authorize = Some Authorize"
  "endpoint_at web_env q_poll = Some Poll" "endpoint_at web_env q_token = Some Token"
  by (simp_all add: endpoint_at_def web_routes web_targets web_endpoints)

definition web_done :: oauth_run where
  "web_done = \<lparr>ocon = c_granted, approvals_made = 1, codes_given = 1, pairs_given = 1\<rparr>"

lemma no_tokens: "oauth_tokens (work (connect empty_control)) = []" "oauth_tokens (work c_registered) = []"
  "oauth_tokens (work c_approved) = []" "oauth_tokens (work c_polled) = []"
  by code_simp+

lemma web_fresh: "fresh_grant (dw_secrets web_draws) (work (connect empty_control))" "fresh_grant (dw_secrets web_draws) (work c_registered)"
  "fresh_grant (dw_secrets web_draws) (work c_approved)" "fresh_grant (dw_secrets web_draws) (work c_polled)"
  unfolding fresh_grant_def no_live_iff no_tokens by simp_all

lemmas web_fresh_start = web_fresh(1) [simplified]

lemma web_run: "(web_step web_env web_gate web_app)\<^sup>*\<^sup>* oauth_start web_done"
proof -
  let ?S = "web_step web_env web_gate web_app"
  define s1 where "s1 = oauth_start\<lparr>ocon := c_registered, codes_given := 0, pairs_given := 0\<rparr>"
  define s2 where "s2 = s1\<lparr>ocon := c_asked, codes_given := 0, pairs_given := 0\<rparr>"
  define s3 where "s3 = s2\<lparr>ocon := c_approved, approvals_made := 1\<rparr>"
  define s4 where "s4 = s3\<lparr>ocon := c_polled, codes_given := 1, pairs_given := 0\<rparr>"
  obtain r1 where r1: "serve web_env web_gate web_app web_draws 100 q_register [([42], False)] (ocon oauth_start) = (r1, c_registered)"
    using served_register by (auto simp: oauth_start_def)
  have 1: "?S oauth_start s1"
    unfolding s1_def by (rule web_step.request [OF r1]) (simp_all add: oauth_start_def web_fresh web_fresh_start hands_code_def hands_tokens_def web_ends)
  obtain r2 where r2: "serve web_env web_gate web_app web_draws 110 q_authorize [] (ocon s1) = (r2, c_asked)"
    using served_authorize by (auto simp: s1_def)
  have 2: "?S s1 s2"
    unfolding s2_def by (rule web_step.request [OF r2]) (simp_all add: s1_def web_fresh hands_code_def hands_tokens_def web_ends)
  have 3: "?S s2 s3"
  proof -
    have "s3 = run_oauth (hp_crypto web_env) (hp_text web_env) (APPROVE (lit ''u'') None (Some (lit ''ABCDE-FGHIJ'')) 120) s2"
      by (simp add: s3_def s2_def s1_def oauth_start_def c_approved_def web_draw)
    then show ?thesis using web_step.operator_approves by metis
  qed
  obtain u where r4: "serve web_env web_gate web_app web_draws 130 q_poll [] (ocon s3) = (json_reply 200 (JObj [(lit ''ready'', JBool True), str_field ''redirect'' u]), c_polled)"
    using served_poll by (auto simp: s3_def)
  have 4: "?S s3 s4"
    unfolding s4_def by (rule web_step.request [OF r4])
      (auto simp: s3_def s2_def s1_def oauth_start_def web_fresh web_fresh_start hands_code_def hands_tokens_def web_ends)
  have r5: "serve web_env web_gate web_app web_draws 140 q_token [(token_form, False)] (ocon s4) = (json_reply 200 (token_json (lit ''A'', lit ''R'')), c_granted)"
    using served_token by (simp add: s4_def)
  have "?S s4 (s4\<lparr>ocon := c_granted, codes_given := codes_given s4 + 0, pairs_given := pairs_given s4 + 1\<rparr>)"
    by (rule web_step.request [OF r5])
      (auto simp: s4_def s3_def web_fresh hands_code_def hands_tokens_def web_ends web_params)
  then have 5: "?S s4 web_done"
    by (simp add: web_done_def s4_def s3_def s2_def s1_def oauth_start_def)
  have "?S\<^sup>*\<^sup>* oauth_start s2" using rtranclp.rtrancl_into_rtrancl [OF r_into_rtranclp [of ?S, OF 1] 2] .
  from rtranclp.rtrancl_into_rtrancl [OF rtranclp.rtrancl_into_rtrancl [OF rtranclp.rtrancl_into_rtrancl [OF this 3] 4] 5]
  show ?thesis .
qed

end
