(* ===== verification/Example_Import.thy ===== *)
theory Example_Import
  imports Example_Vault Import_Safety
begin

text \<open>One line of a transcript, imported into a vault that has its account and its conversation.\<close>

definition demo_transcript :: pystr where
  "demo_transcript = lit ''1/1/1970, 0:00 - A: x''"

definition demo_tables :: tables where
  "demo_tables = unicode.extend demo_unicode
     \<lparr>is_digit = (\<lambda>c. 48 \<le> c \<and> c \<le> 57), lower = (\<lambda>s. s),
      pint = (\<lambda>s. if s \<noteq> [] \<and> list_all (\<lambda>c. 48 \<le> c \<and> c \<le> 57) s
                   then Inr (foldl (\<lambda>a c. 10 * a + int (c - 48)) 0 s) else Inl ValueError)\<rparr>"

definition demo_zone :: zone where
  "demo_zone = \<lparr>utcoffset = (\<lambda>_ _. 0), fromutc = (\<lambda>t. t)\<rparr>"

definition demo_import_env :: import_env where
  "demo_import_env = \<lparr>im_crypto = demo_crypto, im_tables = demo_tables, im_zones = (\<lambda>_. Inr demo_zone)\<rparr>"

definition demo_import_args :: import_args where
  "demo_import_args = \<lparr>ia_text = demo_transcript, ia_source_sha256 = lit ''h'', ia_date_format = ''DMY'', ia_tz_name = lit ''Z'',
     ia_conversation_id = lit ''c'', ia_account_id = lit ''a'', ia_self_label = lit ''B'', ia_dst = (\<lambda>_. None), ia_artifact = None\<rparr>"

lemma demo_lines: "splitlines_keep demo_transcript = [demo_transcript]" "bare demo_transcript = demo_transcript" "chop_break demo_transcript = demo_transcript"
  by (simp_all add: demo_transcript_def lit_def crlf_def line_break_def bare_def rstrip_char_def chop_break_def)

lemma demo_header: "header_match demo_tables demo_transcript = Some (lit ''1/1/1970'', lit ''0:00'', lit ''A'')"
  by code_simp

lemma demo_entry: "entry_match demo_tables demo_transcript = Some (lit ''1/1/1970'', lit ''0:00'', lit ''A: x'')"
  by code_simp

lemma demo_date: "parse_date demo_tables (lit ''1/1/1970'') ''DMY'' = Some (1970, 1, 1)"
  by code_simp

lemma demo_suggested: "''DMY'' \<in> set (suggest_families demo_tables demo_transcript)"
  by (simp add: suggested_iff FAMILIES_def header_dates_def splitlines_def demo_lines demo_header demo_date List.map_filter_def)

definition demo_record :: Transcript.entry where
  "demo_record = \<lparr>en_start = 0, en_end = 21, en_wall = \<lparr>w_year = 1970, w_month = 1, w_day = 1, w_hour = 0, w_minute = 0, w_second = 0\<rparr>,
     en_dst = UNAMBIGUOUS, en_content = Message (lit ''A'') (lit ''x'') False\<rparr>"

lemma demo_new_entry: "new_entry demo_tables (\<lambda>_. Inr demo_zone) (lit ''Z'') 0 21 (1970, 1, 1) (lit ''0:00'') (lit ''A: x'') = Inr demo_record"
  by code_simp

lemma demo_parsed: "parse_transcript demo_tables (\<lambda>_. Inr demo_zone) demo_transcript ''DMY'' (lit ''Z'') = Inr [(0, Entry demo_record)]"
proof -
  have "length demo_transcript = 21" by (simp add: demo_transcript_def lit_def)
  then show ?thesis
    by (simp add: parse_transcript_def demo_lines parse_line_def Let_def demo_entry demo_date demo_new_entry flush_def)
qed

lemma demo_gates: "import_gates demo_import_env demo_import_args = Inr [(0, Entry demo_record)]"
  using demo_suggested demo_parsed
  by (simp add: import_gates_def demo_import_env_def demo_import_args_def demo_record_def is_message_def dst_case_def lit_def)

definition demo_import_db :: vault_db where
  "demo_import_db = empty_vault\<lparr>accounts := [\<lparr>acc_id = lit ''a'', acc_phone_number_id = lit ''p''\<rparr>],
     conversations := [demo_chat (lit ''c'') ALLOW_MCP]\<rparr>"

text \<open>Its fingerprints exist; the database of the example holds no other.\<close>

definition demo_content_fp :: pystr where
  "demo_content_fp = hex_of (take 32 (ascii ''WHATSVAULT-CONTENT-V1'' @ [10, 0, 0, 0, 4, 116, 101, 120, 116, 0, 0, 0, 1, 120] @ replicate 32 0))"

lemma lp_all_total: "list_all (\<lambda>b. length b < 2 ^ 32) bs \<Longrightarrow> \<exists>x. lp_all bs = Inr x"
  by (induction bs) (auto simp: lp_def to_bytes_be_def)

lemma demo_content: "content_fingerprint demo_crypto (lit ''text'') (Some (lit ''x'')) = Inr demo_content_fp"
proof -
  have u: "utf8 (lit ''text'') = Inr [116, 101, 120, 116]" "utf8 (lit ''x'') = Inr [120]" by code_simp+
  have l: "lp_all [[116, 101, 120, 116], [120]] = Inr [0, 0, 0, 4, 116, 101, 120, 116, 0, 0, 0, 1, 120]" by code_simp
  have h: "sha256 demo_crypto b = take 32 (b @ replicate 32 0)" for b by (simp add: demo_crypto_def)
  show ?thesis by (simp only: content_fingerprint_def option.case sum.case u l h demo_content_fp_def append_assoc append.simps)
qed

lemma demo_fingerprint:
  "\<exists>fp. import_fingerprint demo_crypto FINGERPRINT_VERSION (lit ''c'') 0 (lit ''A'') (lit ''text'') demo_content_fp 0 = Inr fp"
proof -
  have "map_sum id (map length) (import_chunks FINGERPRINT_VERSION (lit ''c'') 0 (lit ''A'') (lit ''text'') demo_content_fp 0) =
      Inr [4, 1, 8, 1, 4, 64, 4]" by code_simp
  then obtain cs where cs: "import_chunks FINGERPRINT_VERSION (lit ''c'') 0 (lit ''A'') (lit ''text'') demo_content_fp 0 = Inr cs"
    "map length cs = [4, 1, 8, 1, 4, 64, 4]"
    by (cases "import_chunks FINGERPRINT_VERSION (lit ''c'') 0 (lit ''A'') (lit ''text'') demo_content_fp 0") auto
  have "list_all (\<lambda>n. n < 2 ^ 32) (map length cs)" unfolding cs(2) by simp
  then obtain x where "lp_all cs = Inr x" using lp_all_total [of cs] by (auto simp: list.pred_map comp_def)
  with cs(1) show ?thesis by (simp add: import_fingerprint_def)
qed

lemma demo_minute: "minute_epoch_ms demo_import_env demo_import_args 0 demo_record = Inr 0"
  by code_simp

lemma demo_identified:
  "\<exists>fp. identify demo_import_env demo_import_args (\<lambda>_. 0) 0 demo_record =
     Inr \<lparr>id_bucket = (lit ''c'', 0, lit ''A'', lit ''text'', demo_content_fp),
       id_interval = \<lparr>iv_lower = 0, iv_upper = 60000, iv_precision = P_min\<rparr>, id_type = lit ''text'',
       id_content_fp = demo_content_fp, id_import_fp = fp\<rparr>"
proof -
  obtain fp where fp: "import_fingerprint demo_crypto FINGERPRINT_VERSION (lit ''c'') 0 (lit ''A'') (lit ''text'') demo_content_fp 0 = Inr fp"
    using demo_fingerprint by blast
  have r: "message_type demo_record = lit ''text''" "said (en_content demo_record) = lit ''x''" "sender (en_content demo_record) = lit ''A''"
    "im_crypto demo_import_env = demo_crypto" "ia_conversation_id demo_import_args = lit ''c''"
    by (simp_all add: message_type_def demo_record_def demo_import_env_def demo_import_args_def)
  have "from_local_minute 0 = Inr \<lparr>iv_lower = 0, iv_upper = 60000, iv_precision = P_min\<rparr>"
    by (simp add: from_local_minute_def mk_interval_def)
  then show ?thesis by (simp add: identify_def demo_minute r demo_content fp Let_def)
qed

lemma demo_binds: "bind_all [lit ''h'', lit ''Z'', lit ''B''] = Inr ()" "bind_all [lit ''A''] = Inr ()" "bind_all [lit ''a''] = Inr ()"
  "bind_all [lit ''c'', lit ''a''] = Inr ()"
  by code_simp+

lemma demo_txn: "\<exists>res d. import_txn demo_import_env demo_import_args [(0, Entry demo_record)] demo_ids demo_import_db = Inr (res, d) \<and>
     ir_added res = 1 \<and> map bat_id (import_batches d) = [mk_id ''bat'' (demo_ids 0)] \<and>
     map imp_id (import_participants d) = [mk_id ''imp'' (demo_ids 1)] \<and> map src_id (conversation_sources d) = [mk_id ''src'' (demo_ids 3)]"
proof -
  obtain fp where x: "identify demo_import_env demo_import_args (\<lambda>_. 0) 0 demo_record =
     Inr \<lparr>id_bucket = (lit ''c'', 0, lit ''A'', lit ''text'', demo_content_fp),
       id_interval = \<lparr>iv_lower = 0, iv_upper = 60000, iv_precision = P_min\<rparr>, id_type = lit ''text'',
       id_content_fp = demo_content_fp, id_import_fp = fp\<rparr>" using demo_identified by blast
  have m: "is_message demo_record" "sender (en_content demo_record) = lit ''A''" by (simp_all add: is_message_def demo_record_def)
  have a: "ia_source_sha256 demo_import_args = lit ''h''" "ia_tz_name demo_import_args = lit ''Z''" "ia_self_label demo_import_args = lit ''B''"
    "ia_artifact demo_import_args = None" "ia_account_id demo_import_args = lit ''a''" "ia_conversation_id demo_import_args = lit ''c''"
    "ia_date_format demo_import_args = ''DMY''"
    by (simp_all add: demo_import_args_def)
  have e: "messages demo_import_db = []" "import_batches demo_import_db = []" "import_participants demo_import_db = []"
    "message_import_observations demo_import_db = []" "conversation_sources demo_import_db = []"
    "list_ex (\<lambda>r. acc_id r = lit ''a'') (vault_db.accounts demo_import_db)" "list_ex (\<lambda>r. cnv_id r = lit ''c'') (conversations demo_import_db)"
    by (simp_all add: demo_import_db_def empty_vault_def demo_chat_def)
  show ?thesis
    by (simp add: import_txn_def mint_def Let_def m insert_batch_def a demo_binds ins_batch_def ins_def batch_row_def e
        ins_participant_def import_one_def x resolve_message_def ins_message_def import_row_def message_ok_def
        ins_observation_def observation_ok_def ins_source_def numeral_3_eq_3)
qed

definition other_ids :: ulids where
  "other_ids k = replicate (Suc k) 50"

lemma demo_imported:
  "\<exists>res c1. import_batch demo_import_env demo_import_args demo_ids (connect demo_import_db) = (Inr res, c1) \<and>
     ir_added res = 1 \<and> fresh_ids other_ids (work c1)"
proof -
  obtain res d where t: "import_txn demo_import_env demo_import_args [(0, Entry demo_record)] demo_ids demo_import_db = Inr (res, d)"
    "ir_added res = 1" "map bat_id (import_batches d) = [mk_id ''bat'' (demo_ids 0)]"
    "map imp_id (import_participants d) = [mk_id ''imp'' (demo_ids 1)]" "map src_id (conversation_sources d) = [mk_id ''src'' (demo_ids 3)]"
    using demo_txn by (elim exE conjE) (rule that)
  have "inj other_ids" by (rule injI) (metis Suc_inject length_replicate other_ids_def)
  moreover have "other_ids k \<noteq> demo_ids j" for k j by (simp add: other_ids_def demo_ids_def)
  ultimately have "fresh_ids other_ids d"
    unfolding fresh_ids_def using t(3-5) [THEN arg_cong [of _ _ set]] by simp
  with t(1,2) show ?thesis by (simp add: import_batch_def demo_gates connect_def)
qed

lemma demo_import_ok: "provenance demo_import_db" "vault_inv demo_import_db"
  by (simp_all add: provenance_def vault_inv_def ledger_def demo_import_db_def empty_vault_def)

end
