(* ===== verification/Findings.thy ===== *)
theory Findings
  imports Example_House Http Cli
begin

text \<open>
  Behaviours of the code that its documents do not announce, each shown on the model: a lost projection, which drafts are reused,
  templates without a schema, envelopes without a nonce, payloads that fail for good, what an undo leaves behind,
  negative limits, bearers outside ASCII, and commands on unknown ids.
\<close>

text \<open>
  \<open>apps/ingest/consumer.py\<close>: when the process dies between the commit of an atom and its projection, the
  redelivered atom is a duplicate, so neither its window nor its index entry is made up for.
\<close>

lemma committed_stored:
  assumes "ing_ok i" "committed E now a i = Some v"
  obtains fam key rws ev us us' ap d1 d2 where "semantic_key (ie_crypto E) (ie_pint E) a = Inr (fam, key)" "to_rows (ie_pint E) a = Inr rws"
    "event_key ev = (''meta'', key)" "ins_event ev (work (vlt i)) = Inr d1" "apply_rows rws us d1 = (Inr ap, us', d2)"
    "v = commit ((vlt i)\<lparr>work := d2\<rparr>)"
proof -
  from assms(2) obtain fam key rws raw ev ap us' where
    s: "semantic_key (ie_crypto E) (ie_pint E) a = Inr (fam, key)" "to_rows (ie_pint E) a = Inr rws"
      "ledger_row E (mk_id ''evt'' (fresh i 0)) a fam key rws raw now = Inr ev"
    and t: "atom_txn ev rws (\<lambda>k. fresh i (Suc k)) (vlt i) = (Inr (Applied ap), us', v)"
    by (auto simp: committed_def mint_def split: sum.splits prod.splits Consumer.outcome.splits)
  have c: "clean (vlt i)" using assms(1) by (simp add: ing_ok_def)
  from t c show thesis
    by (cases rule: atom_txn_cases) (use s ledger_row_Inr [OF s(3)] that in auto)
qed

lemma apply_rows_search:
  "apply_rows rws us d = (r, us', d') \<Longrightarrow> search_documents d' = search_documents d"
  using apply_rows_frame by (auto simp: rows_frame_def)

definition torn_atom :: atom where
  "torn_atom = hd (case atoms_of demo_ingest [42] of Inl e \<Rightarrow> [] | Inr as \<Rightarrow> as)"

lemma torn_example:
  "ing_ok house_ingest" "\<exists>v. committed demo_ingest 100 torn_atom house_ingest = Some v" "classify torn_atom = MESSAGE_INBOUND"
proof -
  show "ing_ok house_ingest" using demo_state_ok by (simp add: ing_ok_def house_ingest_def demo_state_def)
  have "case committed demo_ingest 100 torn_atom house_ingest of None \<Rightarrow> False | Some v \<Rightarrow> True" by code_simp
  then show "\<exists>v. committed demo_ingest 100 torn_atom house_ingest = Some v" by (simp split: option.splits)
  show "classify torn_atom = MESSAGE_INBOUND" by code_simp
qed

text \<open>\<open>approval/drafts.py\<close>: a preparation is answered with a draft that has expired and is for another recipient.\<close>

lemma expired_draft_reused:
  "prepare demo_crypto (lit ''9'') (replicate 32 5) (demo_args\<lparr>pa_now_ms := 1000000, pa_recipient_wa_id := Some (lit ''x'')\<rparr>) (connect demo_db) =
     (Inr (drf_id demo_draft, True), connect demo_db)"
  "expired (Some 1000000) (drf_expires_at_ms demo_draft)" "drf_recipient_wa_id demo_draft = Some (lit ''r'')"
  by code_simp+

text \<open>\<open>templates.py\<close>: a template synchronised without a schema cannot be prepared, and is not refused either.\<close>

lemma null_schema_raises:
  assumes "sy_schema r = None" "sy_status r = lit ''APPROVED''"
  shows "prepare_template C u nonce cv ac pn (sy_template_id r) ps now (snd (upsert_from_sync [r] (connect empty_control))) =
    (Inl AttributeError, snd (upsert_from_sync [r] (connect empty_control)))"
  using assms
  by (simp add: prepare_template_def upsert_from_sync_def replace_template_def synced_template_def schema_params_def
      empty_control_def del_def)

text \<open>\<open>approval/relay.py\<close>: an envelope without a nonce is stored again each time it comes.\<close>

lemma nonceless_envelope_stored_again:
  assumes "envelope_parts env (work c) = Inr (drf, dev, dec, sig, None)" "accept_envelope u raw env c = (r, c')"
  shows "r = Inr (mk_id ''apv'' u) \<and> length (approvals (work c')) = Suc (length (approvals (work c))) \<or>
    (\<exists>e. r = Inl e \<and> c' = c)"
proof -
  have "List.find (same_slot drf dev dec None) t = None" for t by (simp add: find_None same_slot_def same_key_def)
  with assms show ?thesis by (auto simp: accept_envelope_def Let_def dest!: ins_approval_Inr split: sum.splits)
qed

text \<open>\<open>apps/ingest/consumer.py\<close>: a payload that opens but raises is given back to the queue, whatever it raises, and never quarantined.\<close>

lemma failing_payload_returned:
  assumes "open_edge (ie_crypto E) (ie_sealing E) (ie_lookup E) (snd lm) = Inr (pt, hdr)"
    "process_payload E pt now fault (st D) = (Inl e, s')" "drain_one nack E now fault lm D = (r, D')"
  shows "r = Inr Next" "dq D' = nack [fst lm] (dq D)" "to_ack D' = to_ack D" "st D' = s'"
  using assms by (auto simp: drain_one_def Let_def nack_lease_def)

lemma unreadable_payload_returned:
  assumes "open_edge (ie_crypto E) (ie_sealing E) (ie_lookup E) (snd lm) = Inr (pt, hdr)" "atoms_of E pt = Inl e"
    "drain_one nack E now fault lm D = (r, D')"
  shows "dq D' = nack [fst lm] (dq D)" "to_ack D' = to_ack D" "st D' = st D"
  using failing_payload_returned [OF assms(1) _ assms(3)] assms(2) by (auto simp: process_payload_def)

text \<open>\<open>importers/whatsapp_export.py\<close>: an undo leaves the search index as it is.\<close>

lemma undo_leaves_documents:
  assumes "undo_batch bid now c = (Inr res, c')"
  shows "search_documents (work c') = search_documents (work c)" "fts_lexical (work c') = fts_lexical (work c)"
    "fts_compact (work c') = fts_compact (work c)"
proof -
  obtain d where d: "undo_txn bid now (work c) = Inr (res, d)" "c' = commit (c\<lparr>work := d\<rparr>)"
    using assms by (auto simp: undo_batch_def split: sum.splits)
  have m: "fold undo_message mids (n, x) = (n', x') \<Longrightarrow> x' = x\<lparr>messages := messages x'\<rparr>" for mids n n' x x'
  proof (induction mids arbitrary: n x)
    case (Cons mid mids)
    obtain n1 x1 where 1: "undo_message mid (n, x) = (n1, x1)" by force
    have "x1 = x\<lparr>messages := messages x1\<rparr>" using 1 by (auto simp: undo_message_def split: if_splits)
    moreover have "x' = x1\<lparr>messages := messages x'\<rparr>" using Cons 1 by simp
    ultimately show ?case by (cases x; cases x1; cases x') simp
  qed simp
  let ?mids = "map obs_message_id (filter (\<lambda>r. obs_batch_id r = bid) (message_import_observations (work c)))"
  let ?x = "(work c)\<lparr>message_import_observations := del (\<lambda>r. obs_batch_id r = bid) (message_import_observations (work c))\<rparr>"
  obtain n x' where f: "fold undo_message ?mids (0, ?x) = (n, x')" by force
  from m [OF f] have "search_documents x' = search_documents (work c)" "fts_lexical x' = fts_lexical (work c)"
    "fts_compact x' = fts_compact (work c)" by (cases x'; simp)+
  then show "search_documents (work c') = search_documents (work c)" "fts_lexical (work c') = fts_lexical (work c)"
    "fts_compact (work c') = fts_compact (work c)"
    using d f by (auto simp: undo_txn_def drop_participants_def split: if_splits)
qed

text \<open>\<open>search/query.py\<close>: a negative limit asks the engine for all rows and then drops the last ones.\<close>

lemma negative_limit:
  assumes "sq_limit q < 0"
  shows "row_limit q = sq_limit q" "limit_rows (row_limit q) l = l"
    "slice_to (row_limit q) l = take (length l - nat (- sq_limit q)) l"
  using assms by (simp_all add: row_limit_def limit_rows_def slice_to_def MAX_LIMIT_def min_def)

text \<open>\<open>mcp/auth.py\<close>: a bearer outside ASCII is neither accepted nor rejected.\<close>

lemma non_ascii_bearer_raises:
  assumes "c \<in> set provided" "128 \<le> c" "expected \<noteq> []"
  shows "require_token provided expected = Inl TypeError"
proof -
  have "provided \<noteq> []" using assms(1) by auto
  moreover have "\<not> (\<forall>x\<in>set (provided @ expected). x < 128)" using assms(1,2) by (metis UnI1 not_le set_append)
  ultimately show ?thesis using assms(3) unfolding require_token_def compare_digest_def by simp
qed

text \<open>\<open>cli/commands.py\<close>: the commands on one device or job report success for an id that is not there.\<close>

lemma unknown_id_reported_ok:
  assumes "a_device_id a = Some i" "\<not> has_device (work (cx_control x)) i"
  shows "fst (cmd_devices_revoke E a x) = Inr (good [(''revoked'', JStr i)])"
    "work (cx_control (snd (cmd_devices_revoke E a x))) = work (cx_control x)"
proof -
  have "upd (\<lambda>r. dev_id r = i) f (approval_devices (work (cx_control x))) = approval_devices (work (cx_control x))" for f
    by (rule upd_idle) (use assms(2) in \<open>auto simp: has_device_iff\<close>)
  then show "fst (cmd_devices_revoke E a x) = Inr (good [(''revoked'', JStr i)])"
    "work (cx_control (snd (cmd_devices_revoke E a x))) = work (cx_control x)"
    using assms(1) by (simp_all add: cmd_devices_revoke_def jopt_def revoke_work set_revoked_def)
qed

end
