(* ===== verification/Entry_Points.thy ===== *)
theory Entry_Points
  imports Cli Http_Safety
begin

text \<open>
  The processes as launchd starts them: where the vault lives (\<open>ops/paths.py\<close>), the permission report
  (\<open>ops/fsperms.py\<close>), and the \<open>main\<close> of the dispatcher, the scheduler, the consumer and the MCP server, up to
  the hand-over to the web server.
\<close>

section \<open>Paths and permissions\<close>

text \<open>\<open>from_env\<close>; \<open>user\<close> is what \<open>~\<close> expands to.\<close>

definition from_env :: "(string \<Rightarrow> string option) \<Rightarrow> string \<Rightarrow> paths" where
  "from_env env user =
     \<lparr>home = (case env ''WHATSVAULT_HOME'' of
        Some h \<Rightarrow> if h \<noteq> [] then h else path_join user ''.whatsvault''
      | None \<Rightarrow> path_join user ''.whatsvault'')\<rparr>"

fun oct_digits :: "nat \<Rightarrow> pystr" where
  "oct_digits n = (if n < 8 then [48 + n] else oct_digits (n div 8) @ [48 + n mod 8])"

declare oct_digits.simps [simp del]

definition mode_finding :: "string \<Rightarrow> nat \<Rightarrow> string \<Rightarrow> nat \<Rightarrow> finding" where
  "mode_finding check want path st_mode =
     (let m = st_mode mod 512 in
      \<lparr>fd_check = check, fd_ok = (m = want), fd_detail = lit path @ lit '' mode 0o'' @ oct_digits m\<rparr>)"

definition check_perms :: "paths \<Rightarrow> 'd fs \<Rightarrow> finding list" where
  "check_perms p f =
     concat (map (\<lambda>d. case f d of Some (Dir m) \<Rightarrow> [mode_finding ''dir_mode'' DIR_MODE d m] | _ \<Rightarrow> []) (all_dirs p)) @
     concat (map (\<lambda>x. case f x of Some (File r) \<Rightarrow> [mode_finding ''file_mode'' FILE_MODE x (f_mode r)] | _ \<Rightarrow> []) (secret_files p))"

lemma check_perms_ok:
  "list_all fd_ok (check_perms p f) \<longleftrightarrow>
     (\<forall>d\<in>set (all_dirs p). \<forall>m. f d = Some (Dir m) \<longrightarrow> m mod 512 = DIR_MODE) \<and>
     (\<forall>x\<in>set (secret_files p). \<forall>r. f x = Some (File r) \<longrightarrow> f_mode r mod 512 = FILE_MODE)"
proof -
  have "list_all fd_ok (concat (map g l)) \<longleftrightarrow> (\<forall>x\<in>set l. list_all fd_ok (g x))" for g :: "string \<Rightarrow> finding list" and l
    by (induction l) auto
  then show ?thesis
    unfolding check_perms_def list_all_append
    by (auto simp: mode_finding_def Let_def split: option.splits Bootstrap.entry.splits)
qed

text \<open>After a successful first run the report finds nothing.\<close>

definition dirs_closed :: "paths \<Rightarrow> 'd fs \<Rightarrow> bool" where
  "dirs_closed p f \<longleftrightarrow> (\<forall>d\<in>set (all_dirs p). \<forall>m. f d = Some (Dir m) \<longrightarrow> m = DIR_MODE)"

lemma ensure_dirs_keep: "ensure_dirs ds f = (Inr u, f') \<Longrightarrow> f x = Some (Dir DIR_MODE) \<Longrightarrow> f' x = Some (Dir DIR_MODE)"
proof (induction ds arbitrary: f)
  case (Cons y ds)
  then obtain f1 where f1: "ensure_dir y f = Inr f1" "ensure_dirs ds f1 = (Inr u, f')" by (auto split: sum.splits)
  then have "f1 x = Some (Dir DIR_MODE)" using Cons.prems(2) by (auto simp: ensure_dir_def split: if_splits)
  from Cons.IH [OF f1(2) this] show ?case .
qed simp

lemma ensure_dirs_closed: "ensure_dirs ds f = (Inr u, f') \<Longrightarrow> \<forall>d\<in>set ds. f' d = Some (Dir DIR_MODE)"
proof (induction ds arbitrary: f)
  case (Cons x ds)
  then obtain f1 where 1: "ensure_dir x f = Inr f1" "ensure_dirs ds f1 = (Inr u, f')" by (auto split: sum.splits)
  then have "f1 x = Some (Dir DIR_MODE)" by (auto simp: ensure_dir_def split: if_splits)
  with ensure_dirs_keep [OF 1(2)] Cons.IH [OF 1(2)] show ?case by simp
qed simp

lemma save_db_closed: "dirs_closed p f \<Longrightarrow> dirs_closed p (save_db path key v f)"
  by (auto simp: dirs_closed_def save_db_def split: if_splits)

lemma ensure_database_closed:
  assumes "ensure_database pv req d0 rs kind path h = (r, h')" "dirs_closed p (files h)"
  shows "dirs_closed p (files h')"
proof -
  have m: "dirs_closed p (files h2)" if "migrate_file rs kind path key v h1 = (x, h2)" "dirs_closed p (files h1)"
    for key v x and h1 h2 :: "('a, 'b) host"
    using that by (auto simp: migrate_file_def save_db_closed split: prod.splits if_splits)
  have o: "files h2 = files h1" if "provision_db pv d0 kind path h1 = (x, h2)" for x and h1 h2 :: "('a, 'b) host"
    using that by (auto simp: provision_db_def split: option.splits prod.splits sum.splits)
  show ?thesis using assms
    by (auto simp: ensure_database_def split: if_splits sum.splits prod.splits dest!: m o)
qed

lemma ensure_databases_closed:
  "ensure_databases pv req d0 rs kps r0 h = (r, h') \<Longrightarrow> dirs_closed p (files h) \<Longrightarrow> dirs_closed p (files h')"
proof (induction kps arbitrary: r0 h)
  case (Cons kp kps)
  obtain x h1 where 1: "ensure_database pv req d0 rs (fst kp) (snd kp) h = (x, h1)" by force
  from ensure_database_closed [OF 1 Cons.prems(2)] have "dirs_closed p (files h1)" .
  with Cons.IH Cons.prems(1) 1 show ?case by (cases x) auto
qed simp

lemma secret_files_closed:
  "(fold ensure_secret_file xs f) d = Some (Dir m) \<longleftrightarrow> f d = Some (Dir m)"
  "x \<in> set xs \<Longrightarrow> (fold ensure_secret_file xs f) x = Some (File r) \<Longrightarrow> f_mode r = FILE_MODE"
proof -
  have one: "(ensure_secret_file y g) d = Some (Dir m) \<longleftrightarrow> g d = Some (Dir m)" for y d m and g :: "'a fs"
    by (auto simp: ensure_secret_file_def split: option.splits Bootstrap.entry.splits)
  show "(fold ensure_secret_file xs f) d = Some (Dir m) \<longleftrightarrow> f d = Some (Dir m)"
    by (induction xs arbitrary: f) (simp_all add: one)
  have keep: "(fold ensure_secret_file xs g) x = Some (File r) \<Longrightarrow> \<forall>r. g x = Some (File r) \<longrightarrow> f_mode r = FILE_MODE \<Longrightarrow> f_mode r = FILE_MODE"
    for xs x r and g :: "'a fs"
  proof (induction xs arbitrary: g)
    case (Cons y xs)
    have "\<forall>r. (ensure_secret_file y g) x = Some (File r) \<longrightarrow> f_mode r = FILE_MODE"
      using Cons.prems(2) by (auto simp: ensure_secret_file_def split: option.splits Bootstrap.entry.splits if_splits)
    with Cons.IH Cons.prems(1) show ?case by simp
  qed simp
  show "x \<in> set xs \<Longrightarrow> (fold ensure_secret_file xs f) x = Some (File r) \<Longrightarrow> f_mode r = FILE_MODE"
  proof (induction xs arbitrary: f)
    case (Cons y xs)
    show ?case
    proof (cases "x = y")
      case True
      have "\<forall>r. (ensure_secret_file y f) x = Some (File r) \<longrightarrow> f_mode r = FILE_MODE"
        by (auto simp: True ensure_secret_file_def split: option.splits Bootstrap.entry.splits)
      with keep Cons.prems(2) show ?thesis by simp
    next
      case False
      with Cons show ?thesis by simp
    qed
  qed simp
qed

theorem init_leaves_nothing_open:
  assumes "init_vault pv req d0 rs p False h = (Inr (Ready rep tok), h')"
  shows "list_all fd_ok (check_perms p (files h'))"
proof -
  obtain f where f: "ensure_dirs (all_dirs p) (files h) = (Inr (), f)"
    using assms by (auto simp: init_vault_def split: if_splits sum.splits prod.splits)
  obtain r h1 where d: "ensure_databases pv req d0 rs (db_paths p) \<lparr>rp_created = [], rp_already = [], rp_migrated = [], rp_provisioned = []\<rparr>
      (h\<lparr>files := f\<rparr>) = (Inr r, h1)" and h': "files h' = fold ensure_secret_file (secret_files p) (files h1)"
    using assms f by (auto simp: init_vault_def Let_def split: if_splits sum.splits prod.splits)
  have "dirs_closed p (files h1)"
    by (rule ensure_databases_closed [OF d]) (use ensure_dirs_closed [OF f] in \<open>simp add: dirs_closed_def\<close>)
  then have d: "m = DIR_MODE" if "d \<in> set (all_dirs p)" "files h' d = Some (Dir m)" for d m
    using that by (simp add: h' dirs_closed_def secret_files_closed(1))
  have x: "f_mode r = FILE_MODE" if "x \<in> set (secret_files p)" "files h' x = Some (File r)" for x r
    using that secret_files_closed(2) by (simp add: h')
  show ?thesis unfolding check_perms_ok
    by (intro conjI ballI allI impI) (drule (1) d, simp add: DIR_MODE_def, drule (1) x, simp add: FILE_MODE_def)
qed

section \<open>The daemons\<close>

text \<open>
  A daemon opens the two databases or prints what blocks it; then it runs once and prints the record. What its
  control connection committed is in the file when it ends.
\<close>

definition daemon_main ::
  "'s req \<Rightarrow> (exc \<Rightarrow> pystr) \<Rightarrow> exc + unit \<Rightarrow> string \<Rightarrow> (vault_db \<Rightarrow> control \<Rightarrow> (exc + (pystr \<times> json) list) \<times> control) \<Rightarrow>
   paths \<Rightarrow> ('s, stored_db) host \<Rightarrow> (exc + (pystr \<times> json) list) \<times> ('s, stored_db) host" where
  "daemon_main req name_of backend service run p h =
     (case open_databases req No_schema name_of backend service p h of
        Inl e \<Rightarrow> (Inl e, h)
      | Inr (Inr stop) \<Rightarrow> (Inr stop, h)
      | Inr (Inl (kv, kc)) \<Rightarrow>
          (case (content (snd kv), content (snd kc)) of
             (Vault_file d, Control_file k) \<Rightarrow>
               (case run d (connect k) of
                  (r, c) \<Rightarrow> (r, h\<lparr>files := save_db (control_db_path p) (fst kc) ((snd kc)\<lparr>content := Control_file (disk c)\<rparr>) (files h)\<rparr>))
           | _ \<Rightarrow> (Inl DatabaseError, h)))"

definition dispatcher_main where
  "dispatcher_main req name_of backend now_ms = daemon_main req name_of backend ''dispatcher'' (dispatcher_run now_ms)"

definition scheduler_main where
  "scheduler_main req name_of backend = daemon_main req name_of backend ''scheduler'' (\<lambda>d c. (scheduler_run (work c), c))"

text \<open>\<open>build_queue\<close> has no client to return.\<close>

definition build_queue :: "'q option" where
  "build_queue = None"

definition ingest_main where
  "ingest_main lease ack nack E us req name_of backend now_ms =
     daemon_main req name_of backend ''ingest''
       (\<lambda>d c. case consumer_run lease ack nack E now_ms False build_queue \<lparr>vlt = connect d, ctl_conn = c, fresh = us\<rparr> of
          (r, q, s) \<Rightarrow> (r, ctl_conn s))"

text \<open>No daemon of this stage sends, drains or frees a nonce; a missing precondition is a printed record.\<close>

definition attempts_only :: "paths \<Rightarrow> ('s, stored_db) host \<Rightarrow> ('s, stored_db) host \<Rightarrow> bool" where
  "attempts_only p h h' \<longleftrightarrow> keys_of h' = keys_of h \<and>
     (files h' = files h \<or>
      (\<exists>key v k as. content v = Control_file k \<and>
         files h' = save_db (control_db_path p) key (v\<lparr>content := Control_file (k\<lparr>send_attempts := as\<rparr>)\<rparr>) (files h)))"

lemma run_startup_disk:
  assumes "run_startup now d (connect k) = (s, c)" shows "\<exists>as. disk c = k\<lparr>send_attempts := as\<rparr>"
proof -
  note f = run_startup_frame(1,3) [OF assms]
  have "disk c = k\<lparr>send_attempts := send_attempts (work c)\<rparr>" using f by (simp add: clean_disk)
  then show ?thesis by blast
qed

lemma daemon_main_frame:
  assumes "daemon_main req name_of backend service run p h = (r, h')"
    and run: "\<And>d k x c. run d (connect k) = (x, c) \<Longrightarrow> \<exists>as. disk c = k\<lparr>send_attempts := as\<rparr>"
  shows "attempts_only p h h'"
proof (cases "\<exists>kv kc d k. open_databases req No_schema name_of backend service p h = Inr (Inl (kv, kc)) \<and>
    content (snd kv) = Vault_file d \<and> content (snd kc) = Control_file k")
  case True
  then obtain kv kc d k where o: "open_databases req No_schema name_of backend service p h = Inr (Inl (kv, kc))"
    "content (snd kv) = Vault_file d" "content (snd kc) = Control_file k" by blast
  obtain x c where x: "run d (connect k) = (x, c)" by force
  from run [OF x] obtain as where "disk c = k\<lparr>send_attempts := as\<rparr>" by blast
  then show ?thesis using assms(1) o x unfolding attempts_only_def daemon_main_def
    by (auto intro!: exI [of _ "fst kc"] exI [of _ "snd kc"])
next
  case False
  with assms(1) have "h' = h" by (auto simp: daemon_main_def split: sum.splits stored_db.splits prod.splits)
  then show ?thesis by (simp add: attempts_only_def)
qed

lemma mains_frame:
  "dispatcher_main req name_of backend now p h = (r, h') \<Longrightarrow> attempts_only p h h'"
  "scheduler_main req name_of backend p h = (r, h') \<Longrightarrow> attempts_only p h h'"
  "ingest_main lease ack nack E us req name_of backend now p h = (r, h') \<Longrightarrow> attempts_only p h h'"
proof -
  have same: "\<exists>as. k = k\<lparr>send_attempts := as\<rparr>" for k :: control_db by (rule exI [of _ "send_attempts k"]) simp
  show "dispatcher_main req name_of backend now p h = (r, h') \<Longrightarrow> attempts_only p h h'"
    unfolding dispatcher_main_def
    by (erule daemon_main_frame) (auto simp: dispatcher_run_def split: prod.splits dest: run_startup_disk)
  show "scheduler_main req name_of backend p h = (r, h') \<Longrightarrow> attempts_only p h h'"
    unfolding scheduler_main_def by (erule daemon_main_frame) (use same in auto)
  show "ingest_main lease ack nack E us req name_of backend now p h = (r, h') \<Longrightarrow> attempts_only p h h'"
    unfolding ingest_main_def
    by (erule daemon_main_frame) (auto simp: consumer_run_def build_queue_def split: prod.splits dest: run_startup_disk)
qed

lemma daemon_main_clean_stop:
  assumes "daemon_main req name_of backend service run p h = (Inl e, h')" "\<And>d c. \<exists>x c'. run d c = (Inr x, c')"
  shows "e \<notin> {KeyMissing, KeyExists, KeyStoreError, FileNotFoundError}" "h' = h"
proof -
  have "open_databases req No_schema name_of backend service p h = Inl e \<or> e = DatabaseError" "h' = h"
    using assms by (auto simp: daemon_main_def split: sum.splits stored_db.splits prod.splits) (metis Pair_inject sum.distinct(1))+
  then show "e \<notin> {KeyMissing, KeyExists, KeyStoreError, FileNotFoundError}" "h' = h"
    using open_databases_raises by fastforce+
qed

section \<open>The MCP server\<close>

text \<open>The probes of the connections from a worker thread, by label; the first failure is raised.\<close>

definition assert_usable_from_worker_threads :: "(string \<times> exc option) list \<Rightarrow> exc + unit" where
  "assert_usable_from_worker_threads probes = (if list_all (\<lambda>(l, e). e = None) probes then Inr () else Inl RuntimeError)"

definition HOST_PORT :: int where "HOST_PORT = 8765"

definition build_app ::
  "(pystr \<Rightarrow> pystr) \<Rightarrow> (string \<times> exc option) list \<Rightarrow> pystr \<Rightarrow> bytes \<Rightarrow> int \<Rightarrow> pystr option \<Rightarrow>
   exc + (pystr list \<times> pystr list) \<times> deployment" where
  "build_app netloc probes token audit_key port public_url =
     (case assert_usable_from_worker_threads probes of
        Inl e \<Rightarrow> Inl e
      | Inr _ \<Rightarrow>
     (case transport_security_settings netloc port public_url of
        Inl e \<Rightarrow> Inl e
      | Inr allowed \<Rightarrow>
     (case build_oauth_app token public_url (Some audit_key) of
        Inl e \<Rightarrow> Inl e | Inr D \<Rightarrow> Inr (allowed, D))))"

datatype mcp_start =
    Stopped "(pystr \<times> json) list"
  | Serving "(pystr list \<times> pystr list) \<times> deployment" "(pystr \<times> json) list option"

definition mcp_main ::
  "'s req \<Rightarrow> (exc \<Rightarrow> pystr) \<Rightarrow> exc + unit \<Rightarrow> (pystr \<Rightarrow> pystr) \<Rightarrow> (string \<times> exc option) list \<Rightarrow> pystr option \<Rightarrow>
   paths \<Rightarrow> ('s, stored_db) host \<Rightarrow> exc + mcp_start" where
  "mcp_main req name_of backend netloc probes env_url p h =
     (case open_databases req No_schema name_of backend ''mcp'' p h of
        Inl e \<Rightarrow> Inl e
      | Inr (Inr r) \<Rightarrow> Inr (Stopped r)
      | Inr (Inl _) \<Rightarrow>
     (case preflight req (keys_of h) of
        Inl e \<Rightarrow> Inl e
      | Inr (Some r) \<Rightarrow> Inr (Stopped r)
      | Inr None \<Rightarrow>
     (case req TOKEN_KEY_NAME 32 (keys_of h) of
        Inl e \<Rightarrow> Inl e
      | Inr t \<Rightarrow>
     (case req AUDIT_KEY_NAME 32 (keys_of h) of
        Inl e \<Rightarrow> Inl e
      | Inr a \<Rightarrow>
          (let url = (if truthy env_url then env_url else None) in
           case build_app netloc probes (hex_of t) a HOST_PORT url of
             Inl e \<Rightarrow> Inl e
           | Inr app \<Rightarrow>
               (case url of
                  None \<Rightarrow> Inr (Serving app None)
                | Some u \<Rightarrow>
                    map_sum id (\<lambda>r. Serving app (Some r))
                      (log_event [field ''service'' (jtext ''mcp''), field ''status'' (jtext ''public''), field ''issuer'' (JStr u)])))))))"

text \<open>What it serves, if it serves: the provisioned token in front of it, and the OAuth surface on an https URL only.\<close>

lemma mcp_main_serves:
  assumes "mcp_main req name_of backend netloc probes env_url p h = Inr (Serving (allowed, D) announced)"
  shows "list_all (\<lambda>(l, e). e = None) probes"
    "\<exists>t. req TOKEN_KEY_NAME 32 (keys_of h) = Inr t \<and> hex_of t \<noteq> [] \<and>
       (case D of Loopback G \<Rightarrow> gt_token G = hex_of t \<and> \<not> gt_public G \<and> \<not> truthy env_url \<and> announced = None
        | Public G A \<Rightarrow> gt_token G = hex_of t \<and> take 8 (oa_base A) = lit ''https://'' \<and> announced \<noteq> None)"
proof -
  obtain t a where k: "req TOKEN_KEY_NAME 32 (keys_of h) = Inr t"
    and b: "build_app netloc probes (hex_of t) a HOST_PORT (if truthy env_url then env_url else None) = Inr (allowed, D)"
    and n: "announced = None \<longleftrightarrow> \<not> truthy env_url"
    using assms
    by (auto simp: mcp_main_def Let_def truthy_def map_sum_Inr split: sum.splits option.splits if_splits)
  from b show "list_all (\<lambda>(l, e). e = None) probes"
    by (auto simp: build_app_def assert_usable_from_worker_threads_def split: if_splits)
  have o: "build_oauth_app (hex_of t) (if truthy env_url then env_url else None) (Some a) = Inr D"
    using b by (auto simp: build_app_def split: sum.splits)
  show "\<exists>t. req TOKEN_KEY_NAME 32 (keys_of h) = Inr t \<and> hex_of t \<noteq> [] \<and>
       (case D of Loopback G \<Rightarrow> gt_token G = hex_of t \<and> \<not> gt_public G \<and> \<not> truthy env_url \<and> announced = None
        | Public G A \<Rightarrow> gt_token G = hex_of t \<and> take 8 (oa_base A) = lit ''https://'' \<and> announced \<noteq> None)"
  proof (cases D)
    case (Loopback G)
    with o build_loopback [of "hex_of t"] k n show ?thesis by (auto split: if_splits)
  next
    case (Public G A)
    moreover have "truthy env_url" using o Public by (auto simp: build_oauth_app_def truthy_def split: if_splits)
    ultimately show ?thesis using o build_public [of "hex_of t"] k n by (auto split: if_splits)
  qed
qed

text \<open>A public URL that is not https is no clean stop: it raises, after both keys were found.\<close>

lemma mcp_main_insecure_url_raises:
  assumes "open_databases req No_schema name_of backend ''mcp'' p h = Inr (Inl vk)" "preflight req (keys_of h) = Inr None"
    "truthy env_url" "take 8 (rstrip_slashes (the env_url)) \<noteq> lit ''https://''" "list_all (\<lambda>(l, e). e = None) probes"
  shows "mcp_main req name_of backend netloc probes env_url p h = Inl ValueError"
proof -
  obtain t a where k: "req TOKEN_KEY_NAME 32 (keys_of h) = Inr t" "req AUDIT_KEY_NAME 32 (keys_of h) = Inr a"
    using assms(2) by (auto simp: preflight_iff)
  have "build_app netloc probes (hex_of t) a HOST_PORT env_url = Inl ValueError"
    using assms(3-5) by (simp add: build_app_def assert_usable_from_worker_threads_def build_oauth_app_def Let_def
        transport_security_settings_def split: sum.split)
  then show ?thesis using assms(1-3) k by (simp add: mcp_main_def)
qed

end
