(* ===== verification/Zip_Guard.thy ===== *)
theory Zip_Guard
  imports Transcript
begin

text \<open>
  The extraction of hostile archives (\<open>importers/zip_guard.py\<close>). An archive is the list of its entries as \<open>zipfile\<close>
  reports them; what an entry expands to is the sequence of its reads, which need not agree with its
  header. What happens on disk is the trace of the directories made, files opened and bytes written.
  \<open>os.path.realpath\<close> and \<open>os.path.dirname\<close> are parameters, and so is what creating a directory or file raises.
\<close>

section \<open>Entries and effects\<close>

record zip_entry =
  zi_name :: pystr
  zi_attr :: nat
  zi_size :: nat
  zi_compressed :: nat
  zi_opens :: "exc option"
  zi_reads :: "(exc + bytes) list"

datatype effect = Make_dir pystr | Open_file pystr | Write_bytes pystr bytes

record zip_env =
  ze_realpath :: "pystr \<Rightarrow> pystr"
  ze_dirname :: "pystr \<Rightarrow> pystr"
  ze_denied :: "effect \<Rightarrow> exc option"

record zip_limits =
  zl_max_files :: nat
  zl_max_total_bytes :: nat
  zl_max_ratio :: nat
  zl_max_file_bytes :: nat

section \<open>Names\<close>

definition drive_letter :: "pystr \<Rightarrow> bool" where
  "drive_letter s \<longleftrightarrow> (case s of a # b # _ \<Rightarrow> ((65 \<le> a \<and> a \<le> 90) \<or> (97 \<le> a \<and> a \<le> 122)) \<and> b = 58 | _ \<Rightarrow> False)"

definition is_unsafe_name :: "pystr \<Rightarrow> bool" where
  "is_unsafe_name name \<longleftrightarrow>
     name = [] \<or> take 1 name = [47] \<or> 92 \<in> set name \<or> drive_letter name \<or> [46, 46] \<in> set (split_on (\<lambda>c. c = 47) name)"

text \<open>\<open>stat.S_ISLNK(attr >> 16)\<close>: the file type bits are \<open>0o120000\<close>.\<close>

definition is_link :: "nat \<Rightarrow> bool" where
  "is_link attr \<longleftrightarrow> (attr div 65536) div 4096 mod 16 = 10"

definition os_join :: "pystr \<Rightarrow> pystr \<Rightarrow> pystr" where
  "os_join a b =
     (if take 1 b = [47] then b else if a = [] \<or> last a = 47 then a @ b else a @ [47] @ b)"

definition inside :: "pystr \<Rightarrow> pystr \<Rightarrow> bool" where
  "inside dest target \<longleftrightarrow> target = dest \<or> take (Suc (length dest)) target = dest @ [47]"

section \<open>Extraction\<close>

text \<open>The reads of one entry: an empty read ends it; the total over all entries is checked before the write.\<close>

fun copy_reads :: "zip_limits \<Rightarrow> pystr \<Rightarrow> (exc + bytes) list \<Rightarrow> nat \<Rightarrow> (exc + nat) \<times> effect list" where
  "copy_reads L target [] sofar = (Inr sofar, [])"
| "copy_reads L target (Inl e # rs) sofar = (Inl e, [])"
| "copy_reads L target (Inr chunk # rs) sofar =
     (if chunk = [] then (Inr sofar, [])
      else if zl_max_total_bytes L < sofar + length chunk then (Inl (HostileZip ''TOO_LARGE''), [])
      else (case copy_reads L target rs (sofar + length chunk) of
          (r, es) \<Rightarrow> (r, Write_bytes target chunk # es)))"

text \<open>The checks of an entry, in order. A ratio is compared exactly, where the code divides floats.\<close>

definition check_entry :: "zip_env \<Rightarrow> zip_limits \<Rightarrow> pystr \<Rightarrow> zip_entry \<Rightarrow> exc + pystr option" where
  "check_entry Z L dest_dir i =
     (let name = zi_name i; dest = ze_realpath Z dest_dir; target = ze_realpath Z (os_join dest_dir name) in
      if is_link (zi_attr i) then Inl (HostileZip ''SYMLINK'')
      else if is_unsafe_name name then Inl (HostileZip ''TRAVERSAL'')
      else if \<not> inside dest target then Inl (HostileZip ''TRAVERSAL'')
      else if last name = 47 then Inr None
      else if zl_max_file_bytes L < zi_size i then Inl (HostileZip ''FILE_TOO_LARGE'')
      else if 0 < zi_compressed i \<and> zl_max_ratio L * zi_compressed i < zi_size i then Inl (HostileZip ''RATIO'')
      else Inr (Some target))"

definition perform :: "zip_env \<Rightarrow> effect \<Rightarrow> (exc + unit) \<times> effect list" where
  "perform Z a = (case ze_denied Z a of None \<Rightarrow> (Inr (), [a]) | Some e \<Rightarrow> (Inl e, []))"

definition extract_file :: "zip_env \<Rightarrow> zip_limits \<Rightarrow> pystr \<Rightarrow> pystr \<Rightarrow> zip_entry \<Rightarrow> nat \<Rightarrow> (exc + nat) \<times> effect list" where
  "extract_file Z L dest_dir target i sofar =
     (let dir = ze_dirname Z target in
      case perform Z (Make_dir (if dir = [] then dest_dir else dir)) of
        (Inl e, es) \<Rightarrow> (Inl e, es)
      | (Inr _, es1) \<Rightarrow>
     (case zi_opens i of
        Some e \<Rightarrow> (Inl e, es1)
      | None \<Rightarrow>
     (case perform Z (Open_file target) of
        (Inl e, es2) \<Rightarrow> (Inl e, es1 @ es2)
      | (Inr _, es2) \<Rightarrow> (case copy_reads L target (zi_reads i) sofar of (r, es3) \<Rightarrow> (r, es1 @ es2 @ es3)))))"

primrec extract_all :: "zip_env \<Rightarrow> zip_limits \<Rightarrow> pystr \<Rightarrow> zip_entry list \<Rightarrow> nat \<Rightarrow> pystr list \<Rightarrow> (exc + pystr list) \<times> effect list" where
  "extract_all Z L dest_dir [] sofar extracted = (Inr extracted, [])"
| "extract_all Z L dest_dir (i # is) sofar extracted =
     (case check_entry Z L dest_dir i of
        Inl e \<Rightarrow> (Inl e, [])
      | Inr None \<Rightarrow> extract_all Z L dest_dir is sofar extracted
      | Inr (Some target) \<Rightarrow>
          (case extract_file Z L dest_dir target i sofar of
             (Inl e, es) \<Rightarrow> (Inl e, es)
           | (Inr sofar', es) \<Rightarrow>
               (case extract_all Z L dest_dir is sofar' (extracted @ [target]) of (r, es') \<Rightarrow> (r, es @ es'))))"

definition safe_extract :: "zip_env \<Rightarrow> zip_limits \<Rightarrow> pystr \<Rightarrow> exc + zip_entry list \<Rightarrow> (exc + pystr list) \<times> effect list" where
  "safe_extract Z L dest_dir archive =
     (case perform Z (Make_dir dest_dir) of
        (Inl e, es) \<Rightarrow> (Inl e, es)
      | (Inr _, es) \<Rightarrow>
     (case archive of
        Inl e \<Rightarrow> (Inl e, es)
      | Inr infos \<Rightarrow>
          if zl_max_files L < length infos then (Inl (HostileZip ''TOO_MANY''), es)
          else (case extract_all Z L dest_dir infos 0 [] of (r, es') \<Rightarrow> (r, es @ es'))))"

definition ends_txt :: "(pystr \<Rightarrow> pystr) \<Rightarrow> pystr \<Rightarrow> bool" where
  "ends_txt low n \<longleftrightarrow> (let l = low n in drop (length l - 4) l = lit ''.txt'')"

definition find_transcript :: "(pystr \<Rightarrow> pystr) \<Rightarrow> pystr list \<Rightarrow> exc + pystr" where
  "find_transcript low names =
     (case filter (ends_txt low) names of [n] \<Rightarrow> Inr n | _ \<Rightarrow> Inl AmbiguousTranscript)"

section \<open>Containment and bounds\<close>

definition written :: "effect list \<Rightarrow> nat" where
  "written es = sum_list (map (\<lambda>e. case e of Write_bytes _ b \<Rightarrow> length b | _ \<Rightarrow> 0) es)"

fun file_of :: "effect \<Rightarrow> pystr option" where
  "file_of (Make_dir _) = None"
| "file_of (Open_file p) = Some p"
| "file_of (Write_bytes p _) = Some p"

lemma written_simps [simp]: "written [] = 0" "written (es @ fs) = written es + written fs"
    "written (Write_bytes p b # es) = length b + written es" "written (Make_dir p # es) = written es" "written (Open_file p # es) = written es"
  by (simp_all add: written_def)

lemma copy_reads_all:
  "sofar \<le> zl_max_total_bytes L \<Longrightarrow>
   sofar + written (snd (copy_reads L target rs sofar)) \<le> zl_max_total_bytes L \<and>
   (\<forall>n. fst (copy_reads L target rs sofar) = Inr n \<longrightarrow> n = sofar + written (snd (copy_reads L target rs sofar))) \<and>
   (\<forall>e\<in>set (snd (copy_reads L target rs sofar)). file_of e = Some target)"
proof (induction L target rs sofar rule: copy_reads.induct)
  case (3 L target chunk rs sofar)
  consider "chunk = []" | "chunk \<noteq> []" "zl_max_total_bytes L < sofar + length chunk"
    | "chunk \<noteq> []" "sofar + length chunk \<le> zl_max_total_bytes L" by linarith
  then show ?case
  proof cases
    case 3
    obtain r es where c: "copy_reads L target rs (sofar + length chunk) = (r, es)" by (rule prod.exhaust)
    have "\<not> zl_max_total_bytes L < sofar + length chunk" using 3(2) by simp
    from "3.IH" [OF 3(1) this 3(2)] show ?thesis using 3 by (simp add: c add.assoc)
  qed (use 3(2) in auto)
qed auto

lemma copy_reads_bound:
  assumes "copy_reads L target rs sofar = (r, es)" "sofar \<le> zl_max_total_bytes L"
  shows "sofar + written es \<le> zl_max_total_bytes L" "\<And>n. r = Inr n \<Longrightarrow> n = sofar + written es"
    "\<forall>e\<in>set es. file_of e = Some target"
  using copy_reads_all [OF assms(2), of target rs] assms(1) by auto

lemma perform_quiet: "perform Z a = (r, es) \<Longrightarrow> (r = Inr () \<longrightarrow> es = [a]) \<and> (\<forall>e. r = Inl e \<longrightarrow> es = [])"
  by (auto simp: perform_def split: option.splits)

lemma extract_file_bound:
  assumes "extract_file Z L dest_dir target i sofar = (r, es)" "sofar \<le> zl_max_total_bytes L"
  shows "sofar + written es \<le> zl_max_total_bytes L" "\<And>n. r = Inr n \<Longrightarrow> n = sofar + written es"
    "\<forall>e\<in>set es. file_of e = None \<or> file_of e = Some target"
proof -
  define a where "a = Make_dir (if ze_dirname Z target = [] then dest_dir else ze_dirname Z target)"
  obtain r1 es1 where 1: "perform Z a = (r1, es1)" by (rule prod.exhaust)
  obtain r2 es2 where 2: "perform Z (Open_file target) = (r2, es2)" by (rule prod.exhaust)
  obtain r3 es3 where 3: "copy_reads L target (zi_reads i) sofar = (r3, es3)" by (rule prod.exhaust)
  note q = perform_quiet [OF 1] perform_quiet [OF 2] and b = copy_reads_bound [OF 3 assms(2)]
  have e1: "written es1 = 0" "\<forall>e\<in>set es1. file_of e = None" using q(1) by (cases r1; auto simp: a_def)+
  have e2: "written es2 = 0" "\<forall>e\<in>set es2. file_of e = Some target" using q(2) by (cases r2; auto)+
  have "(\<exists>e. r = Inl e \<and> (es = es1 \<or> es = es1 @ es2)) \<or> (r = r3 \<and> es = es1 @ es2 @ es3)"
    using assms(1) by (auto simp: extract_file_def 1 2 3 Let_def q split: sum.splits option.splits simp flip: a_def)
  then show "sofar + written es \<le> zl_max_total_bytes L" "\<And>n. r = Inr n \<Longrightarrow> n = sofar + written es"
    "\<forall>e\<in>set es. file_of e = None \<or> file_of e = Some target"
    using b e1 e2 assms(2) by auto
qed

lemma check_entry_inside:
  "check_entry Z L dest_dir i = Inr (Some target) \<Longrightarrow> inside (ze_realpath Z dest_dir) target \<and> \<not> is_link (zi_attr i) \<and>
     \<not> is_unsafe_name (zi_name i) \<and> zi_size i \<le> zl_max_file_bytes L"
  by (auto simp: check_entry_def Let_def split: if_splits)

lemma extract_all_bound:
  assumes "extract_all Z L dest_dir is sofar extracted = (r, es)" "sofar \<le> zl_max_total_bytes L"
  shows "sofar + written es \<le> zl_max_total_bytes L \<and>
     (\<forall>e\<in>set es. \<forall>p. file_of e = Some p \<longrightarrow> inside (ze_realpath Z dest_dir) p) \<and>
     (\<forall>ps. r = Inr ps \<longrightarrow> length ps \<le> length extracted + length is)"
  using assms
proof (induction "is" arbitrary: sofar extracted r es)
  case (Cons i "is")
  show ?case
  proof (cases "check_entry Z L dest_dir i")
    case (Inl e)
    with Cons.prems show ?thesis by auto
  next
    case c: (Inr o')
    show ?thesis
    proof (cases o')
      case None
      with c Cons.prems Cons.IH [of sofar extracted r es] show ?thesis by auto
    next
      case (Some target)
      note ins = check_entry_inside [OF c [unfolded Some]]
      obtain y fs where f: "extract_file Z L dest_dir target i sofar = (y, fs)" by (rule prod.exhaust)
      note b = extract_file_bound [OF f Cons.prems(2)]
      show ?thesis
      proof (cases y)
        case (Inl e)
        with c Some f Cons.prems(1) have "r = Inl e" "es = fs" by simp_all
        with b ins show ?thesis by fastforce
      next
        case (Inr n)
        obtain r2 gs where g: "extract_all Z L dest_dir is n (extracted @ [target]) = (r2, gs)" by (rule prod.exhaust)
        with c Some f Inr Cons.prems(1) have e: "r = r2" "es = fs @ gs" by simp_all
        have "n \<le> zl_max_total_bytes L" using b(1,2) Inr by simp
        from Cons.IH [OF g this] b Inr ins show ?thesis unfolding e by fastforce
      qed
    qed
  qed
qed auto

text \<open>Every read that is written is not empty, so no more reads are taken than there are bytes left, and one.\<close>

lemma copy_reads_prefix:
  "zl_max_total_bytes L - sofar < k \<Longrightarrow> copy_reads L target rs sofar = copy_reads L target (take k rs) sofar"
proof (induction L target rs sofar arbitrary: k rule: copy_reads.induct)
  case (3 L target chunk rs sofar)
  then obtain j where k: "k = Suc j" by (cases k) auto
  have "copy_reads L target rs (sofar + length chunk) = copy_reads L target (take j rs) (sofar + length chunk)"
    if "chunk \<noteq> []" "sofar + length chunk \<le> zl_max_total_bytes L"
    by (rule "3.IH") (use that 3(2) k in \<open>auto simp: neq_Nil_conv\<close>)
  then show ?case by (simp add: k)
qed (auto simp: take_Cons split: nat.splits)

lemma safe_extract_bound:
  assumes "safe_extract Z L dest_dir archive = (r, es)"
  shows "written es \<le> zl_max_total_bytes L"
    "\<forall>e\<in>set es. \<forall>p. file_of e = Some p \<longrightarrow> inside (ze_realpath Z dest_dir) p"
    "\<And>ps. r = Inr ps \<Longrightarrow> length ps \<le> zl_max_files L"
proof -
  have p: "written es = 0 \<and> (\<forall>e\<in>set es. file_of e = None)" if "perform Z (Make_dir dest_dir) = (y, es)" for y es
    using that by (auto simp: perform_def split: option.splits)
  obtain y es1 where 1: "perform Z (Make_dir dest_dir) = (y, es1)" by (rule prod.exhaust)
  have "written es \<le> zl_max_total_bytes L \<and> (\<forall>e\<in>set es. \<forall>p. file_of e = Some p \<longrightarrow> inside (ze_realpath Z dest_dir) p) \<and>
     (\<forall>ps. r = Inr ps \<longrightarrow> length ps \<le> zl_max_files L)"
  proof (cases "\<exists>infos. y = Inr () \<and> archive = Inr infos \<and> length infos \<le> zl_max_files L")
    case True
    then obtain infos where i: "y = Inr ()" "archive = Inr infos" "length infos \<le> zl_max_files L" by auto
    obtain r2 gs where g: "extract_all Z L dest_dir infos 0 [] = (r2, gs)" by (rule prod.exhaust)
    have e: "r = r2" "es = es1 @ gs" using assms 1 i g by (simp_all add: safe_extract_def)
    from extract_all_bound [OF g] p [OF 1] i(3) show ?thesis unfolding e by fastforce
  next
    case False
    then have "es = es1" "\<And>ps. r \<noteq> Inr ps" using assms 1 by (auto simp: safe_extract_def split: sum.splits if_splits)
    with p [OF 1] show ?thesis by simp
  qed
  then show "written es \<le> zl_max_total_bytes L"
    "\<forall>e\<in>set es. \<forall>p. file_of e = Some p \<longrightarrow> inside (ze_realpath Z dest_dir) p" "\<And>ps. r = Inr ps \<Longrightarrow> length ps \<le> zl_max_files L"
    by blast+
qed

text \<open>A name that passes has no component that climbs, no drive and no root, whatever \<open>realpath\<close> says.\<close>

lemma safe_name_iff:
  "\<not> is_unsafe_name n \<longleftrightarrow> n \<noteq> [] \<and> hd n \<noteq> 47 \<and> 92 \<notin> set n \<and> \<not> drive_letter n \<and> [46, 46] \<notin> set (split_on (\<lambda>c. c = 47) n)"
  by (cases n) (auto simp: is_unsafe_name_def)

end
