(* ===== verification/Launchd.thy ===== *)
theory Launchd
  imports Keystore
begin

text \<open>
  The validator of launchd property lists (\<open>ops/launchd.py\<close>) and the probe of the SQLite build
  (\<open>capabilities.py\<close>). A property list is the value that \<open>plistlib.load\<close> returns; the engine that the probe
  asks is a parameter with a state.
\<close>

section \<open>Property lists\<close>

datatype plist =
    PL_str pystr
  | PL_bool bool
  | PL_arr "plist list"
  | PL_dict "(pystr \<times> plist) list"
  | PL_other

definition REQUIRED :: "string list" where
  "REQUIRED = [''Label'', ''ProgramArguments'', ''RunAtLoad'', ''KeepAlive'', ''StandardOutPath'', ''StandardErrorPath'']"

text \<open>The characters that \<open>(?i)\<close> identifies with an ASCII letter.\<close>

definition icase :: "nat \<Rightarrow> nat" where
  "icase c = (if 65 \<le> c \<and> c \<le> 90 then c + 32 else if c = 0x130 \<or> c = 0x131 then 105 else if c = 0x17F then 115
     else if c = 0x212A then 107 else c)"

definition TOKENISH :: "string list" where
  "TOKENISH = [''token'', ''secret'', ''password'', ''apikey'', ''api_key'', ''api-key'', ''private'']"

definition tokenish_key :: "pystr \<Rightarrow> bool" where
  "tokenish_key key \<longleftrightarrow> list_ex (\<lambda>w. contains (lit w) (map icase key)) TOKENISH"

definition hex_letter :: "nat \<Rightarrow> bool" where
  "hex_letter c \<longleftrightarrow> (48 \<le> c \<and> c \<le> 57) \<or> (65 \<le> c \<and> c \<le> 70) \<or> (97 \<le> c \<and> c \<le> 102)"

text \<open>\<open>$\<close> also matches before a final line break.\<close>

definition hex_key :: "pystr \<Rightarrow> bool" where
  "hex_key s \<longleftrightarrow> (let t = (if s \<noteq> [] \<and> last s = 10 then butlast s else s) in 32 \<le> length t \<and> list_all hex_letter t)"

definition looks_secret :: "pystr \<Rightarrow> pystr \<Rightarrow> bool" where
  "looks_secret key s \<longleftrightarrow> tokenish_key key \<or> hex_key s"

fun scan_plist :: "plist \<Rightarrow> pystr \<Rightarrow> pystr list" where
  "scan_plist (PL_dict kvs) key = concat (map (\<lambda>(k, v). scan_plist v k) kvs)"
| "scan_plist (PL_arr l) key = concat (map (\<lambda>x. scan_plist x key) l)"
| "scan_plist (PL_str s) key = (if looks_secret key s then [key] else [])"
| "scan_plist (PL_bool b) key = []"
| "scan_plist PL_other key = []"

definition keepalive_ok :: "plist option \<Rightarrow> bool" where
  "keepalive_ok v \<longleftrightarrow>
     (case v of
        Some (PL_bool b) \<Rightarrow> b
      | Some (PL_dict kvs) \<Rightarrow> map_of kvs (lit ''SuccessfulExit'') = Some (PL_bool False)
      | _ \<Rightarrow> False)"

record plist_finding =
  pf_check :: string
  pf_ok :: bool
  pf_detail :: plist

definition LOGS :: pystr where "LOGS = lit ''/logs/''"

text \<open>\<open>"/logs/" in v\<close>.\<close>

definition mentions_logs :: "plist \<Rightarrow> exc + bool" where
  "mentions_logs v =
     (case v of
        PL_str s \<Rightarrow> Inr (contains LOGS s)
      | PL_arr l \<Rightarrow> Inr (PL_str LOGS \<in> set l)
      | PL_dict kvs \<Rightarrow> Inr (LOGS \<in> fst ` set kvs)
      | _ \<Rightarrow> Inl TypeError)"

definition get_or_empty :: "(pystr \<times> plist) list \<Rightarrow> string \<Rightarrow> plist" where
  "get_or_empty pl k = (case map_of pl (lit k) of None \<Rightarrow> PL_str [] | Some v \<Rightarrow> v)"

definition validate_plist :: "(pystr list \<Rightarrow> pystr) \<Rightarrow> pystr \<Rightarrow> (pystr \<times> plist) list \<Rightarrow> exc + plist_finding list" where
  "validate_plist repr path pl =
     (let secrets = scan_plist (PL_dict pl) []; out = get_or_empty pl ''StandardOutPath''; err = get_or_empty pl ''StandardErrorPath'' in
      case (case mentions_logs out of Inl e \<Rightarrow> Inl e | Inr b \<Rightarrow> if b then mentions_logs err else Inr False) of
        Inl e \<Rightarrow> Inl e
      | Inr logs \<Rightarrow>
          Inr (map (\<lambda>r. \<lparr>pf_check = ''has_'' @ r, pf_ok = (lit r \<in> fst ` set pl), pf_detail = PL_str path\<rparr>) REQUIRED @
            [\<lparr>pf_check = ''keepalive_true'', pf_ok = keepalive_ok (map_of pl (lit ''KeepAlive'')), pf_detail = PL_str (lit ''crash restart'')\<rparr>,
             \<lparr>pf_check = ''runatload_true'', pf_ok = (map_of pl (lit ''RunAtLoad'') = Some (PL_bool True)), pf_detail = PL_str (lit ''start at load'')\<rparr>,
             \<lparr>pf_check = ''no_inline_secret'', pf_ok = (secrets = []), pf_detail = PL_str (repr secrets)\<rparr>,
             \<lparr>pf_check = ''logs_under_logs_dir'', pf_ok = logs, pf_detail = out\<rparr>]))"

text \<open>The strings of a property list, each with the key it stands under.\<close>

inductive leaf :: "plist \<Rightarrow> pystr \<Rightarrow> pystr \<Rightarrow> pystr \<Rightarrow> bool" where
  leaf_str: "leaf (PL_str s) key key s"
| leaf_arr: "v \<in> set l \<Longrightarrow> leaf v key k s \<Longrightarrow> leaf (PL_arr l) key k s"
| leaf_dict: "(j, v) \<in> set kvs \<Longrightarrow> leaf v j k s \<Longrightarrow> leaf (PL_dict kvs) key k s"

inductive_cases leafE: "leaf (PL_str s) key k t" "leaf (PL_arr l) key k t" "leaf (PL_dict kvs) key k t"
  "leaf (PL_bool b) key k t" "leaf PL_other key k t"

lemma scan_iff: "k \<in> set (scan_plist v key) \<longleftrightarrow> (\<exists>s. leaf v key k s \<and> looks_secret k s)"
proof (induction v key arbitrary: k rule: scan_plist.induct)
  case (1 kvs key)
  show ?case
  proof
    assume "k \<in> set (scan_plist (PL_dict kvs) key)"
    then obtain j v where jv: "(j, v) \<in> set kvs" "k \<in> set (scan_plist v j)" by auto
    with 1 [OF jv(1) refl] obtain s where "leaf v j k s" "looks_secret k s" by blast
    with leaf_dict [OF jv(1)] show "\<exists>s. leaf (PL_dict kvs) key k s \<and> looks_secret k s" by blast
  next
    assume "\<exists>s. leaf (PL_dict kvs) key k s \<and> looks_secret k s"
    then obtain s where s: "leaf (PL_dict kvs) key k s" "looks_secret k s" by blast
    from s(1) obtain j v where jv: "(j, v) \<in> set kvs" "leaf v j k s" by (rule leafE)
    with 1 [OF jv(1) refl] s(2) have "k \<in> set (scan_plist v j)" by blast
    with jv(1) show "k \<in> set (scan_plist (PL_dict kvs) key)" by force
  qed
next
  case (2 l key)
  show ?case
  proof
    assume "k \<in> set (scan_plist (PL_arr l) key)"
    then obtain v where v: "v \<in> set l" "k \<in> set (scan_plist v key)" by auto
    with 2 obtain s where "leaf v key k s" "looks_secret k s" by blast
    with leaf_arr [OF v(1)] show "\<exists>s. leaf (PL_arr l) key k s \<and> looks_secret k s" by blast
  next
    assume "\<exists>s. leaf (PL_arr l) key k s \<and> looks_secret k s"
    then obtain s where s: "leaf (PL_arr l) key k s" "looks_secret k s" by blast
    from s(1) obtain v where v: "v \<in> set l" "leaf v key k s" by (rule leafE)
    with 2 s(2) have "k \<in> set (scan_plist v key)" by blast
    with v(1) show "k \<in> set (scan_plist (PL_arr l) key)" by auto
  qed
qed (auto intro: leaf_str elim: leafE)

lemma plist_ok_iff:
  assumes "validate_plist repr path pl = Inr fs"
  shows "list_all pf_ok fs \<longleftrightarrow>
     lit ` set REQUIRED \<subseteq> fst ` set pl \<and> keepalive_ok (map_of pl (lit ''KeepAlive'')) \<and>
     map_of pl (lit ''RunAtLoad'') = Some (PL_bool True) \<and>
     (\<forall>k s. leaf (PL_dict pl) [] k s \<longrightarrow> \<not> looks_secret k s) \<and>
     mentions_logs (get_or_empty pl ''StandardOutPath'') = Inr True \<and> mentions_logs (get_or_empty pl ''StandardErrorPath'') = Inr True"
proof -
  obtain logs where logs: "(case mentions_logs (get_or_empty pl ''StandardOutPath'') of Inl e \<Rightarrow> Inl e
      | Inr b \<Rightarrow> if b then mentions_logs (get_or_empty pl ''StandardErrorPath'') else Inr False) = Inr logs"
    using assms by (auto simp: validate_plist_def Let_def split: sum.splits)
  have l: "logs \<longleftrightarrow> mentions_logs (get_or_empty pl ''StandardOutPath'') = Inr True \<and> mentions_logs (get_or_empty pl ''StandardErrorPath'') = Inr True"
    using logs by (auto split: sum.splits if_splits)
  have s: "scan_plist (PL_dict pl) [] = [] \<longleftrightarrow> (\<forall>k s. leaf (PL_dict pl) [] k s \<longrightarrow> \<not> looks_secret k s)"
  proof -
    have "scan_plist (PL_dict pl) [] = [] \<longleftrightarrow> (\<forall>k. k \<notin> set (scan_plist (PL_dict pl) []))" by (metis list.set_sel(1) list.set(1) empty_iff)
    then show ?thesis unfolding scan_iff by blast
  qed
  define hs where "hs = map (\<lambda>r. \<lparr>pf_check = ''has_'' @ r, pf_ok = (lit r \<in> fst ` set pl), pf_detail = PL_str path\<rparr>) REQUIRED"
  have r: "list_all pf_ok hs \<longleftrightarrow> lit ` set REQUIRED \<subseteq> fst ` set pl" by (auto simp: list_all_iff hs_def)
  have fs: "list_all pf_ok fs \<longleftrightarrow> list_all pf_ok hs \<and> keepalive_ok (map_of pl (lit ''KeepAlive'')) \<and>
     map_of pl (lit ''RunAtLoad'') = Some (PL_bool True) \<and> scan_plist (PL_dict pl) [] = [] \<and> logs"
    using assms unfolding validate_plist_def Let_def logs sum.case hs_def [symmetric] by (auto simp del: scan_plist.simps)
  show ?thesis unfolding fs r s l by blast
qed

section \<open>The SQLite build\<close>

datatype cell = No_row | C_int int | C_text pystr

type_synonym 's sql = "string \<Rightarrow> 's \<Rightarrow> (exc + cell) \<times> 's"

text \<open>\<open>fetchone()[0] == 1\<close>: without a row the index raises.\<close>

definition probe_pragma :: "'s sql \<Rightarrow> string \<Rightarrow> 's \<Rightarrow> (exc + bool) \<times> 's" where
  "probe_pragma q name s =
     (case q (''PRAGMA '' @ name @ '' = ON'') s of
        (Inl e, s1) \<Rightarrow> (Inl e, s1)
      | (Inr _, s1) \<Rightarrow>
          (case q (''PRAGMA '' @ name) s1 of
             (Inl e, s2) \<Rightarrow> (Inl e, s2)
           | (Inr No_row, s2) \<Rightarrow> (Inl TypeError, s2)
           | (Inr c, s2) \<Rightarrow> (Inr (c = C_int 1), s2)))"

primrec probe_ddl :: "'s sql \<Rightarrow> string list \<Rightarrow> 's \<Rightarrow> (exc + bool) \<times> 's" where
  "probe_ddl q [] s = (Inr True, s)"
| "probe_ddl q (x # xs) s = (case q x s of (Inl e, s') \<Rightarrow> (Inl e, s') | (Inr _, s') \<Rightarrow> probe_ddl q xs s')"

definition FTS5_SQL :: "string list" where
  "FTS5_SQL = [''CREATE VIRTUAL TABLE _cap_fts USING fts5(x)'', ''DROP TABLE _cap_fts'']"

definition TRIGRAM_SQL :: "string list" where
  "TRIGRAM_SQL = [''CREATE VIRTUAL TABLE _cap_tri USING fts5(x, tokenize='' @ [CHR 0x27] @ ''trigram'' @ [CHR 0x27] @ '')'', ''DROP TABLE _cap_tri'']"

definition SECURE_DELETE_SQL :: "string list" where
  "SECURE_DELETE_SQL = [''CREATE VIRTUAL TABLE _cap_sd USING fts5(x)'',
     ''INSERT INTO _cap_sd(_cap_sd, rank) VALUES('' @ [CHR 0x27] @ ''secure-delete'' @ [CHR 0x27] @ '', 1)'', ''DROP TABLE _cap_sd'']"

record sqlite_caps =
  cap_cipher_version :: cell
  cap_cipher_provider :: cell
  cap_fts5 :: bool
  cap_trigram :: bool
  cap_fts_secure_delete :: bool
  cap_core_secure_delete :: bool
  cap_foreign_keys :: bool
  cap_sqlite_version :: cell

definition falsy_cell :: "cell \<Rightarrow> bool" where
  "falsy_cell c \<longleftrightarrow> c = No_row \<or> c = C_int 0 \<or> c = C_text []"

text \<open>The five probes, the pragmas before the statements that open a transaction.\<close>

definition probes :: "'s sql \<Rightarrow> 's \<Rightarrow> (exc + bool \<times> bool \<times> bool \<times> bool \<times> bool) \<times> 's" where
  "probes q s =
     (case probe_pragma q ''foreign_keys'' s of (Inl e, s) \<Rightarrow> (Inl e, s) | (Inr fk, s) \<Rightarrow>
     (case probe_pragma q ''secure_delete'' s of (Inl e, s) \<Rightarrow> (Inl e, s) | (Inr sd, s) \<Rightarrow>
     (case probe_ddl q FTS5_SQL s of (Inl e, s) \<Rightarrow> (Inl e, s) | (Inr f, s) \<Rightarrow>
     (case probe_ddl q TRIGRAM_SQL s of (Inl e, s) \<Rightarrow> (Inl e, s) | (Inr t, s) \<Rightarrow>
     (case probe_ddl q SECURE_DELETE_SQL s of (Inl e, s) \<Rightarrow> (Inl e, s) | (Inr x, s) \<Rightarrow> (Inr (fk, sd, f, t, x), s))))))"

definition grant_caps :: "cell \<Rightarrow> cell \<Rightarrow> cell \<Rightarrow> bool \<times> bool \<times> bool \<times> bool \<times> bool \<Rightarrow> exc + sqlite_caps" where
  "grant_caps version cv cp found =
     (case found of (fk, sd, f, t, x) \<Rightarrow>
        if f \<and> t \<and> x \<and> sd \<and> fk then
          Inr \<lparr>cap_cipher_version = cv, cap_cipher_provider = (if cp = No_row then C_text [] else cp), cap_fts5 = f, cap_trigram = t,
               cap_fts_secure_delete = x, cap_core_secure_delete = sd, cap_foreign_keys = fk, cap_sqlite_version = version\<rparr>
        else Inl CapabilityError)"

definition assert_sqlite_capabilities :: "'s sql \<Rightarrow> 's \<Rightarrow> (exc + sqlite_caps) \<times> 's" where
  "assert_sqlite_capabilities q s =
     (case q ''SELECT sqlite_version()'' s of
        (Inl e, s1) \<Rightarrow> (Inl e, s1)
      | (Inr version, s1) \<Rightarrow>
     (if version = No_row then (Inl TypeError, s1)
      else (case q ''PRAGMA cipher_version'' s1 of
        (Inl e, s2) \<Rightarrow> (Inl e, s2)
      | (Inr cv, s2) \<Rightarrow>
     (if falsy_cell cv then (Inl CapabilityError, s2)
      else (case q ''PRAGMA cipher_provider'' s2 of
        (Inl e, s3) \<Rightarrow> (Inl e, s3)
      | (Inr cp, s3) \<Rightarrow>
     (case probes q s3 of
        (Inl e, s4) \<Rightarrow> (Inl CapabilityError, s4)
      | (Inr found, s4) \<Rightarrow> (grant_caps version cv cp found, s4)))))))"

lemma capabilities_granted:
  assumes "assert_sqlite_capabilities q s = (Inr c, s')"
  shows "\<not> falsy_cell (cap_cipher_version c) \<and> cap_fts5 c \<and> cap_trigram c \<and> cap_fts_secure_delete c \<and>
     cap_core_secure_delete c \<and> cap_foreign_keys c"
proof -
  obtain version cv cp found where "\<not> falsy_cell cv" "grant_caps version cv cp found = Inr c"
    using assms unfolding assert_sqlite_capabilities_def by (auto split: prod.splits sum.splits if_splits)
  then show ?thesis by (auto simp: grant_caps_def split: prod.splits if_splits)
qed

end
