(* ===== verification/Spec2Isabelle.thy ===== *)
theory Spec2Isabelle
  imports Example_Run Example_House Example_Vault Example_Web Example_Import Findings Entry_Points Zip_Guard Launchd
begin

text \<open>
  WhatsVault keeps a person's WhatsApp messages in an encrypted local vault, lets an assistant read them
  through MCP, and sends a message only when a phone that the owner enrolled has signed exactly that
  message. The program is the Python package \<open>src/whatsvault\<close> with its entry points in \<open>apps/\<close>; this library
  models both. Paths below are relative to \<open>src/whatsvault\<close>.

  State. Two SQLite files are the state of the program: \<open>vault.db\<close> (\<open>Vault_Db\<close>: messages, conversations,
  the event ledger, the index, import provenance, dead letters, the breaker) and \<open>control.db\<close> (\<open>Control_Db\<close>:
  drafts, devices, approvals, nonces, attempts, grants, windows, OAuth, jobs, the audit log). Tables are
  lists of records in insertion order; an insertion checks what the schema declares (uniqueness, foreign
  keys, CHECK) and raises \<open>IntegrityError\<close>. \<open>Store\<close> pairs what a connection sees with what is on disk:
  \<open>commit\<close>, \<open>rollback\<close> and \<open>crash\<close> move between them, so that durability is a statement about \<open>disk\<close>. Exceptions
  are the left side of a sum (\<open>Prelude\<close>: \<open>exc\<close>); text is a list of code points, bytes are 8-bit words.

  Parts, in the order of the code, with the theories that model them.
    Sending: \<open>Canonical\<close> (\<open>approval/canonical.py\<close>, the signed encodings), \<open>Policy\<close> (\<open>approval/policy.py\<close>,
    \<open>approval/display_guard.py\<close>), \<open>Drafts\<close>, \<open>Devices\<close>, \<open>Relay\<close>, \<open>Capabilities\<close>, \<open>Templates\<close>, \<open>Scheduler\<close>,
    \<open>Providers\<close>, \<open>Sender\<close> (\<open>approval/sender.py\<close>: gates, the durable attempt, the one call of the provider),
    \<open>Reconcile\<close>. \<open>Approval_System\<close> composes their operations into one step relation with crashes;
    \<open>Send_Safety\<close> holds its invariant, and the contract of a provider as a locale.
    Ingest: \<open>Sealing\<close> (\<open>crypto/\<close>), \<open>Webhook\<close> (\<open>ingest/normalise.py\<close>, \<open>ingest/dedupe.py\<close>, \<open>ingest/status.py\<close>), \<open>Queue\<close> (the
    pull queue as a locale, interpreted on the code's fake), \<open>Dlq\<close>, \<open>Windows\<close>, \<open>Consumer\<close> (\<open>apps/ingest/consumer.py\<close>, the drain loop),
    \<open>Consumer_Safety\<close> (its invariant, redelivery).
    Reading: \<open>Search_Text\<close>, \<open>Search_Index\<close>, \<open>Query\<close>, \<open>Reads\<close> (\<open>mcp/reads.py\<close>, the fence), \<open>Mcp_Server\<close>
    (\<open>apps/mcp/server.py\<close>), \<open>Audit_Log\<close>, \<open>Json\<close>.
    The public surface: \<open>OAuth\<close> (\<open>mcp/oauth.py\<close>), \<open>OAuth_Safety\<close> (invariant of the four tables), \<open>OAuth_Runs\<close>
    (accounting over runs), \<open>Http\<close> (\<open>mcp/oauth_http.py\<close>, \<open>mcp/http_auth.py\<close>), \<open>Http_Safety\<close> (a request makes at
    most one operation, and never an approval or a revocation).
    Imports: \<open>Transcript\<close> (\<open>importers/grammar.py\<close>, \<open>importers/parse.py\<close>, time zones), \<open>Import\<close>
    (\<open>importers/whatsapp_export.py\<close>, fingerprints, artifacts), \<open>Import_Safety\<close>, \<open>Zip_Guard\<close>.
    Operations: \<open>Keystore\<close> (a locale with both stores), \<open>Migrations\<close>, \<open>Bootstrap\<close>, \<open>Doctor\<close>, \<open>Operations\<close>
    (\<open>ops/\<close> processes, topology, logging), \<open>Cli\<close> (every verb), \<open>Entry_Points\<close> (the four daemons' \<open>main\<close>, the permission report), \<open>Launchd\<close>,
    \<open>Ids\<close>.
    The whole: \<open>Window_Safety\<close> (who moves a window, who stores evidence), \<open>Vault_Calls\<close> (the commands on the vault),
    \<open>Whole_System\<close> (all processes over both databases as one step relation with its invariant), \<open>Public_Surface\<close>
    (requests, OAuth operations and tool calls write their own tables only, so they are steps of the whole that keep
    the sender's invariant; what they do to those tables is in \<open>OAuth_Runs\<close> and \<open>Http_Safety\<close>). \<open>Findings\<close> proves the surprises.
    \<open>Example_Run\<close>, \<open>Example_House\<close>, \<open>Example_Vault\<close>, \<open>Example_Web\<close> and \<open>Example_Import\<close> evaluate whole runs on concrete inputs.

  Interfaces. \<open>provider\<close> (a transmission appends at most the message asked for), \<open>pull_queue\<close> (lease, ack and
  nack conserve the bodies), \<open>key_store\<close> (a loadable key is never replaced), \<open>gate\<close> (a key is inserted once) and \<open>bystander\<close> (an operation on the
  control connection leaves the sender's tables) are locales; each is interpreted on the model of the code that
  provides it.

  What the properties show. Sending, and the whole: C1 to C13. Ingest: C14 to C21. The public surface, reading and
  the index: C22 to C31. Imports: C32 to C37. Provisioning, the command line, identifiers: C38 to C40.

  Parameters. The hash, the signature check, X25519, HKDF and AES-GCM, the Unicode tables, the JSON reader,
  the time zones, the URL codec, FTS5 matching and the macOS keychain are arguments. What is relied on
  of them is stated where it is used: decryption inverts encryption (\<open>gcm_opens\<close>), the two sides of an
  exchange agree (\<open>x_agrees\<close>, \<open>p_agrees\<close>), a stored password reads back (\<open>keyring_ok\<close>). Collisions of the hash are
  never excluded: where one would matter the statement is about preimages or exhibits the collision. Fresh
  identifiers and random bytes are arguments of the operations that draw them.

  Bounds. There is no fuel: every loop of the code is a structural recursion or a function with a
  termination proof; the one loop over an outside stream, the decompression, is over its sequence of
  reads, and C37 bounds how many it takes. Integers bound to SQLite are checked for 64 bits, length
  prefixes for 32. Two comparisons of floats (the breaker's age monitor, the compression ratio) are
  the exact comparisons they stand for; the theories say where this is the same.

  Not modelled. \<open>providers/base.py\<close> declares abstract methods, and the \<open>__init__\<close>
  modules re-export. What is handed over to uvicorn, FastMCP, argparse and launchd is glue around the
  modelled functions; the SQL scripts of the migrations are a parameter of the runner, their constraints are
  in the insertions. The edge worker and the phone application are not in the repository; what they send and
  show is what the sealed formats and encodings here say.
\<close>

section \<open>Sending\<close>

text \<open>
  C1. In every reachable state, whatever the order of calls and crashes, each call of the provider was
  authorised: it is for a draft of the database that an APPROVE envelope names, the envelope's signature
  verifies under the signing key of a device that was active at that moment over the canonical bytes of
  exactly this draft, the text is the one whose SHA-256 the signed bytes carry, a recipient is bound, the
  draft has not expired, and for a text the 24-hour window is open.
\<close>

theorem posts_are_authorised:
  assumes "steps C send_text (start p) s" "po \<in> set (posts s)"
  shows "authorised C (disk (ctl (wld s))) po"
  using sys_inv_reachable [OF assms(1)] assms(2) by (auto simp: sys_inv_def intro: post_ok_authorised)

theorem posts_are_authorised_witness:
  "length (posts demo_done) = 1 \<and> list_all (authorised demo_crypto (disk (ctl (wld demo_done)))) (posts demo_done)"
  using posts_are_authorised [OF demo_reachable] demo_done_posts by (simp add: list_all_iff)

text \<open>
  C2. No envelope nonce is ever spent on two calls of the provider, across crashes and restarts; and whenever
  the provider has been called, the spent nonce and the attempt row are durable, so that a crash loses
  neither.
\<close>

theorem one_post_per_nonce:
  assumes "steps C send_text (start p) s"
  shows "distinct (map (\<lambda>po. env_nonce (po_env po)) (posts s)) \<and>
    (\<forall>po\<in>set (posts s). env_nonce (po_env po) \<in> set (consumed (disk (ctl (wld s)))) \<and>
       po_attempt po \<in> atm_id ` set (send_attempts (disk (ctl (wld s)))))"
  using sys_inv_reachable [OF assms] by (auto simp: sys_inv_def post_ok_def)

theorem one_post_per_nonce_witness:
  "length (posts demo_done) = 1 \<and>
   list_all (\<lambda>po. env_nonce (po_env po) \<in> set (consumed (disk (ctl (wld demo_done))))) (posts demo_done)"
  using one_post_per_nonce [OF demo_reachable] demo_done_posts by (simp add: list_all_iff)

text \<open>
  C3. A provider that transmits at most what it is asked to has, in every reachable state, transmitted only
  messages of the log of authorised posts, in their order and none twice for one post.
\<close>

theorem provider_sees_only_posts:
  assumes "provider send_text sends" "sends p = []" "steps C send_text (start p) s"
  shows "subseq (sends (prov (wld s))) (map post_msg (posts s)) \<and> (\<forall>po\<in>set (posts s). authorised C (disk (ctl (wld s))) po)"
  using provider.reachable_logged [OF assms(1,3,2)] sys_inv_reachable [OF assms(3)]
  by (auto simp: sys_inv_def intro: post_ok_authorised)

theorem provider_sees_only_posts_witness:
  "fm_sends (prov (wld demo_done)) = [(Some (lit ''r''), lit ''hi'')] \<and>
   subseq (fm_sends (prov (wld demo_done))) (map post_msg (posts demo_done))"
proof -
  have "fm_sends (fm_init (lit ''ok'')) = []" by (simp add: fm_init_def)
  from provider_sees_only_posts [OF fake.provider_axioms this demo_reachable] demo_done_sends show ?thesis by simp
qed

text \<open>
  C4. Once an enrolled device is revoked, no later call of the provider is for an envelope of that device,
  whatever is called, replayed, enrolled or crashed in between.
\<close>

theorem revoked_device_never_posts:
  assumes "steps C send_text (start p) s" "has_device (work (ctl (wld s))) i"
    "steps C send_text (s\<lparr>wld := (wld s)\<lparr>ctl := revoke i (ctl (wld s))\<rparr>\<rparr>) s'"
  shows "\<exists>l. posts s' = posts s @ l \<and> (\<forall>po\<in>set l. env_device_id (po_env po) \<noteq> i)"
proof -
  let ?s = "s\<lparr>wld := (wld s)\<lparr>ctl := revoke i (ctl (wld s))\<rparr>\<rparr>"
  have "step C send_text s ?s" using step.call [of C send_text s "REVOKE i"] by (simp add: called_def)
  then have "sys_inv C ?s" using sys_inv_step sys_inv_reachable [OF assms(1)] by blast
  moreover have "cut_off (disk (ctl (wld ?s))) i"
    using revoked_cut_off [OF assms(2)] by (simp add: revoke_def)
  ultimately show ?thesis using cut_off_steps [OF assms(3)] by simp
qed

theorem revoked_device_never_posts_witness:
  "\<exists>s'. steps demo_crypto fm_send_text
       (demo_done\<lparr>wld := (wld demo_done)\<lparr>ctl := revoke (lit ''dev_1'') (ctl (wld demo_done))\<rparr>\<rparr>) s' \<and>
     (\<exists>l. posts s' = posts demo_done @ l \<and> list_all (\<lambda>po. env_device_id (po_env po) \<noteq> lit ''dev_1'') l)"
  using revoked_device_never_posts [OF demo_reachable demo_done_db(3) rtranclp.rtrancl_refl] unfolding list_all_iff by blast

text \<open>
  C5. Replay under a fresh envelope nonce: the nonce that the replay gate consumes is the one in the envelope,
  which the signature does not cover. After a successful send, the same signed approval with any other unused
  32-byte nonce in the envelope is accepted again, at the same instant, and the provider transmits the message
  a second time.
\<close>

theorem replay_under_fresh_nonce:
  assumes "execute_write C fm_send_text n u env w = (Inr (R_SUBMITTED wamid aid), w')"
    "length nn = 32" "nn \<notin> set (consumed (work (ctl w')))"
    "mk_id ''atm'' u' \<notin> atm_id ` set (send_attempts (work (ctl w')))"
    "\<forall>idb. utf8 (env_draft_id env) = Inr idb \<longrightarrow>
       hex_of (sha256 C (idb @ nn)) \<notin> atm_idempotency_key ` set (send_attempts (work (ctl w')))"
  shows "\<exists>wamid' aid' w'' msg.
    execute_write C fm_send_text n u' (env\<lparr>env_nonce := nn\<rparr>) w' = (Inr (R_SUBMITTED wamid' aid'), w'') \<and>
    fm_sends (prov w') = fm_sends (prov w) @ [msg] \<and> fm_sends (prov w'') = fm_sends (prov w') @ [msg]"
proof -
  obtain dr c1 b err where p: "posting C n u env w = Some (dr, aid, c1, b)" and clk: "clk w' = Some n"
    and ctl: "ctl w' = snd (finish aid n SUBMITTED [(''wamid'', wamid)] c1)"
    and sent: "fm_send_text (prov w) (drf_phone_number_id dr) (drf_recipient_wa_id dr) b =
       (Providers.Reply (lit ''SUBMITTED'') wamid err, prov w')"
    by (rule submitted_posted [OF assms(1)])
  note ps = posting_Some [OF p]
  obtain idb where idb: "utf8 (env_draft_id env) = Inr idb" and hd: "has_draft (work (ctl w)) (env_draft_id env)"
    and c1: "work c1 = (work (ctl w))\<lparr>approval_nonces := approval_nonces (work (ctl w)) @ [nonce_entry n env],
       send_attempts := send_attempts (work (ctl w)) @ [opened_attempt C n aid env idb]\<rparr>"
    using ps(3) by (rule permission_granted)
  have same: "drafts (work (ctl w')) = drafts (work (ctl w))"
    "approval_devices (work (ctl w')) = approval_devices (work (ctl w))"
    "conversation_windows (work (ctl w')) = conversation_windows (work (ctl w))"
    by (simp_all add: ctl finish_def c1)
  let ?env = "env\<lparr>env_nonce := nn\<rparr>"
  have "\<exists>c'. permission C n u' ?env (ctl w') = (Inr (Inr (mk_id ''atm'' u')), c')"
    by (rule permission_grants [where idb = idb]) (use assms(2-5) idb hd same(1) in \<open>simp_all add: has_draft_def\<close>)
  then obtain c' where c': "permission C n u' ?env (ctl w') = (Inr (Inr (mk_id ''atm'' u')), c')" by blast
  have "approved C n ?env (work (ctl w')) dr"
    using ps(2) approved_cong [OF same] by (simp add: approved_any_nonce)
  then have p': "posting C n u' ?env w' = Some (dr, mk_id ''atm'' u', c', b)"
    by (intro postingI) (use c' ps(4) clk in \<open>simp_all add: trusted_now_def\<close>)
  have m: "fm_mode (prov w) = lit ''ok''" "prov w' = (prov w)\<lparr>fm_sends := fm_sends (prov w) @ [(drf_recipient_wa_id dr, b)]\<rparr>"
    using sent by (auto simp: fm_send_text_def Let_def split: if_splits)
  then have again: "fm_send_text (prov w') (drf_phone_number_id dr) (drf_recipient_wa_id dr) b =
      (Providers.Reply (lit ''SUBMITTED'') (Some (lit ''wamid.NEW'')) None,
       (prov w')\<lparr>fm_sends := fm_sends (prov w') @ [(drf_recipient_wa_id dr, b)]\<rparr>)"
    by (simp add: fm_send_text_def)
  show ?thesis using execute_posting [where send_text = fm_send_text, OF p' again] m(2) by simp
qed

theorem replay_under_fresh_nonce_witness:
  "\<exists>wamid' aid' w'' msg.
    execute_write demo_crypto fm_send_text 20 (lit ''4'') (demo_envelope\<lparr>env_nonce := replicate 32 2\<rparr>) (wld demo_done) =
      (Inr (R_SUBMITTED wamid' aid'), w'') \<and>
    fm_sends (prov (wld demo_done)) = fm_sends (prov demo_ready) @ [msg] \<and>
    fm_sends (prov w'') = fm_sends (prov (wld demo_done)) @ [msg]"
proof (rule replay_under_fresh_nonce)
  show "execute_write demo_crypto fm_send_text 20 (lit ''3'') demo_envelope demo_ready =
      (Inr (R_SUBMITTED (Some (lit ''wamid.NEW'')) (lit ''atm_3'')), wld demo_done)"
    by (rule demo_submitted)
  show "replicate 32 2 \<notin> set (consumed (work (ctl (wld demo_done))))"
    unfolding demo_done_db(1) by code_simp
  have ids: "atm_id ` set (send_attempts (work (ctl (wld demo_done)))) = {lit ''atm_3''}"
    "atm_idempotency_key ` set (send_attempts (work (ctl (wld demo_done)))) =
       {hex_of (sha256 demo_crypto ([100, 114, 102, 95, 50] @ replicate 32 1))}"
    using arg_cong [OF demo_done_db(2), of "\<lambda>l. fst ` set l"] arg_cong [OF demo_done_db(2), of "\<lambda>l. snd ` set l"]
    by (simp_all add: image_image)
  show "mk_id ''atm'' (lit ''4'') \<notin> atm_id ` set (send_attempts (work (ctl (wld demo_done))))"
    unfolding ids by code_simp
  have u: "utf8 (env_draft_id demo_envelope) = Inr [100, 114, 102, 95, 50]" by code_simp
  have "hex_of (sha256 demo_crypto ([100, 114, 102, 95, 50] @ replicate 32 2)) \<noteq>
      hex_of (sha256 demo_crypto ([100, 114, 102, 95, 50] @ replicate 32 1))" by code_simp
  then show "\<forall>idb. utf8 (env_draft_id demo_envelope) = Inr idb \<longrightarrow> hex_of (sha256 demo_crypto (idb @ replicate 32 2)) \<notin>
      atm_idempotency_key ` set (send_attempts (work (ctl (wld demo_done))))"
    unfolding ids u by simp
qed simp




text \<open>
  C8. The display guard is its specification: a text passes exactly when it holds no bidirectional control and
  no invisible character, every zero-width non-joiner stands next to an Arabic letter, and Latin and Cyrillic
  are not mixed.
\<close>

theorem display_guard_reference: "fst (Policy.scan s) = hidden_free s"
  by (rule scan_safe_iff)



text \<open>
  C11. A read receipt goes out only for an inbound message of the named conversation and account, and it
  spends one action of a signed, live, unexhausted grant, durably; every other outcome sends nothing. The
  quotas and the invariant of the control database are kept on every branch.
\<close>

theorem receipts_are_granted:
  assumes "control_inv (work c)" "quota_ok (work c)"
  shows "case mark_read C send_mark cid w a now d c p of (r, c', p') \<Rightarrow>
     control_inv (work c') \<and> quota_ok (work c') \<and>
     (if r = Inr MR_OK then
        p' = send_mark p w \<and> clean c' \<and>
        (\<exists>m g. m \<in> set (messages d) \<and> msg_wamid m = Some w \<and> msg_account_id m = a \<and> msg_conversation_id m = cid \<and> msg_direction m = In \<and>
           authorises C (lit ''MARK_READ'') cid now (work c) g \<and> work c' = bump (cap_id g) (cap_used_count g) (work c))
      else p' = p)"
proof -
  obtain r c' p' where e: "mark_read C send_mark cid w a now d c p = (r, c', p')" by (rule prod_cases3)
  have "control_inv (work c') \<and> quota_ok (work c')"
    using e consume_quota [OF assms] assms
    by (auto simp: mark_read_def split: option.splits if_splits sum.splits prod.splits bool.splits)
  moreover have "p' = p" if "r \<noteq> Inr MR_OK"
    using e that by (auto simp: mark_read_def split: option.splits if_splits sum.splits prod.splits bool.splits)
  moreover have "p' = send_mark p w \<and> clean c' \<and>
        (\<exists>m g. m \<in> set (messages d) \<and> msg_wamid m = Some w \<and> msg_account_id m = a \<and> msg_conversation_id m = cid \<and> msg_direction m = In \<and>
           authorises C (lit ''MARK_READ'') cid now (work c) g \<and> work c' = bump (cap_id g) (cap_used_count g) (work c))" if "r = Inr MR_OK"
    by (rule mark_read_ok [OF assms(1) e [unfolded that]]) blast
  ultimately show ?thesis using e by simp
qed

theorem receipts_are_granted_witness:
  "\<exists>c' p'. mark_read demo_crypto (\<lambda>p w. w # p) (lit ''c'') (lit ''w'') (lit ''a'') 20 demo_vault (connect granted_db) [] = (Inr MR_OK, c', p') \<and>
     p' = [lit ''w''] \<and> quota_ok (work c')"
proof -
  have ok: "control_inv (work (connect granted_db))" "quota_ok (work (connect granted_db))"
    using granted_ok by (simp_all add: connect_def)
  obtain c' p' where e: "mark_read demo_crypto (\<lambda>p w. w # p) (lit ''c'') (lit ''w'') (lit ''a'') 20 demo_vault (connect granted_db) [] =
      (Inr MR_OK, c', p')"
    using granted_mark by (metis prod.exhaust_sel)
  from receipts_are_granted [OF ok, where C = demo_crypto and send_mark = "\<lambda>p w. w # p" and cid = "lit ''c''" and w = "lit ''w''"
      and a = "lit ''a''" and now = 20 and d = demo_vault and p = "[]"] e
  have "p' = [lit ''w''] \<and> quota_ok (work c')" by simp
  with e show ?thesis by blast
qed

text \<open>
  C12. A draft that \<open>prepare_template\<close> creates names no recipient, and no approval of it is ever
  executed: the send policy refuses a draft without a recipient whatever is signed.
\<close>

theorem template_drafts_never_sent:
  "case prepare_template C u nonce cv ac pn ti ps now c of (r, c') \<Rightarrow>
     c' = c \<or> (\<exists>dr. drafts (work c') = drafts (work c) @ [dr] \<and> drf_recipient_wa_id dr = None \<and>
       (\<forall>at env. check_approval C at env (work c') \<noteq> Inr (Inr dr)))"
proof -
  obtain r c' where p: "prepare_template C u nonce cv ac pn ti ps now c = (r, c')" by (rule prod.exhaust)
  from prepare_template_cases [OF p] consider "c' = c"
    | digest where "ins_draft (template_draft (mk_id ''drf'' u) nonce cv ac pn ti digest now) (work c) = Inr (work c')" by blast
  then show ?thesis
  proof cases
    case (2 digest)
    let ?d = "template_draft (mk_id ''drf'' u) nonce cv ac pn ti digest now"
    have "drf_recipient_wa_id ?d = None" by (simp add: template_draft_def)
    moreover have "drafts (work c') = drafts (work c) @ [?d]" using ins_draft_Inr [OF 2] by auto
    ultimately show ?thesis using p by (auto simp: check_approval_iff dest: unbound_never_approved)
  qed (use p in simp)
qed

text \<open>
  C13. The send window is never open without evidence. In the whole system (the operations on the control
  database, the sender, the consumer of the queue, the doctor, the commands on the vault with imports and
  their undo, requests to the public server, the operator's OAuth commands and the calls of the tools, in any
  order, and the deaths of the sender and of the consumer between their two databases) every text message that
  was posted was authorised, and the vault durably holds an inbound, window-eligible message of its
  conversation with a time after 24 hours before that moment, and not from an import.
\<close>

theorem text_posts_have_evidence:
  assumes "house_steps C send_text lease ack nack E S (house_start p) s" "po \<in> set (posts (appr s))"
    and kind: "drf_kind (po_draft po) = lit ''text''"
  shows "authorised C (disk (cdb s)) po \<and>
    (\<exists>m\<in>set (messages (disk (vdb s))). msg_conversation_id m = drf_conversation_id (po_draft po) \<and>
       msg_direction m = In \<and> msg_window_eligible m \<and> msg_import_fingerprint m = None \<and>
       po_now po < msg_ts_lower_ms m + WINDOW_MS)"
proof -
  have inv: "house_inv C s" by (rule house_inv_reachable [OF assms(1)])
  then have "grounded (disk (vdb s)) po" using assms(2) by (simp add: house_inv_def clean_disk)
  moreover have "post_ok C (disk (cdb s)) po" using inv assms(2) by (simp add: house_inv_def sys_inv_def)
  moreover have "\<forall>m\<in>set (messages (disk (vdb s))). msg_window_eligible m \<longrightarrow> msg_import_fingerprint m = None"
    using inv by (auto simp: house_inv_def vault_ok_def imports_plain_def clean_disk)
  ultimately show ?thesis using kind post_ok_authorised unfolding grounded_def by blast
qed

theorem text_posts_have_evidence_witness:
  "authorised demo_crypto (disk (cdb house_done)) house_post \<and>
   (\<exists>m\<in>set (messages (disk (vdb house_done))). msg_conversation_id m = house_chat \<and>
      msg_direction m = In \<and> msg_window_eligible m \<and> msg_import_fingerprint m = None \<and>
      po_now house_post < msg_ts_lower_ms m + WINDOW_MS)"
proof -
  have "house_post \<in> set (posts (appr house_done))" by (simp add: house_done_def)
  moreover have "drf_conversation_id (po_draft house_post) = house_chat" by code_simp
  ultimately show ?thesis using text_posts_have_evidence [OF house_reached _ house_text] by simp
qed

section \<open>Ingest\<close>

text \<open>
  C14. A pulled envelope is acknowledged only once it is durable: after a drain every body that became
  acknowledged is quarantined, or was opened and every event of it is in the ledger, on disk. No body is lost
  or invented by the queue, and the store only grows, whichever message raises.
\<close>

theorem acknowledged_is_durable:
  assumes "fq_ok q" "ing_ok s"
  shows "case drain_once fq_lease fq_ack fq_nack E now fault m h q s of (r, D) \<Rightarrow>
     set (fq_acked (dq D)) \<subseteq> set (fq_acked q) \<union> {b. settled E (disk (vlt (st D))) b \<and> r = Inr (cnt D)} \<and>
     fq.bodies (dq D) = fq.bodies q \<and> fq_ok (dq D) \<and> ing_ok (st D) \<and> grown (work (vlt s)) (work (vlt (st D)))"
proof -
  obtain r D where d: "drain_once fq_lease fq_ack fq_nack E now fault m h q s = (r, D)" by (rule prod.exhaust)
  note o = fq.drain_once_ok [OF assms d]
  have "disk (vlt (st D)) = work (vlt (st D))" using o(2) by (simp add: ing_ok_def clean_disk)
  with o d show ?thesis by auto
qed

theorem acknowledged_is_durable_witness:
  "\<exists>d. fq_acked (dq (snd demo_drain)) = [demo_body] \<and> d = disk (vlt (st (snd demo_drain))) \<and> settled demo_ingest d demo_body"
  using acknowledged_is_durable [OF fq_init_ok [of "[demo_body]"] demo_state_ok, of demo_ingest 100 None 10 "[]"] demo_drained
  by (auto simp: demo_drain_def fq_init_def split: prod.splits)

text \<open>
  C15. At-least-once delivery is absorbed: a payload that was processed once changes nothing when it is
  processed again, in any later state of the store, but the supply of identifiers.
\<close>

theorem redelivery_absorbed:
  assumes "ing_ok s" "process_payload E pt now fault s = (Inr (), s1)" "clean (vlt s2)" "grown (work (vlt s1)) (work (vlt s2))" "int64 now'"
  shows "\<exists>us. process_payload E pt now' fault' s2 = (Inr (), s2\<lparr>fresh := us\<rparr>)"
  by (rule redelivery [OF assms])

theorem redelivery_absorbed_witness:
  "\<exists>s1 us. process_payload demo_ingest [42] 100 None demo_state = (Inr (), s1) \<and>
     process_payload demo_ingest [42] 200 None s1 = (Inr (), s1\<lparr>fresh := us\<rparr>)"
proof -
  obtain s1 where p: "process_payload demo_ingest [42] 100 None demo_state = (Inr (), s1)"
    using demo_processed by (metis prod.exhaust_sel)
  have "clean (vlt s1)" using process_payload_ok(1) [OF demo_state_ok p] by (simp add: ing_ok_def)
  from redelivery_absorbed [OF demo_state_ok p this] p show ?thesis by (auto simp: int64_def)
qed

text \<open>
  C16. What a crash between the two databases loses. If the consumer dies after the commit of an inbound
  message and before its projection, the redelivered message is absorbed as a duplicate: the message is
  stored, but its search document stays missing and its window stays where it was, although the plan has
  duplicate delivery make up for it. The doctor's rebuild of the window does.
\<close>

theorem lost_projection_not_retried:
  assumes "ing_ok i" "committed E now a i = Some v" "classify a = MESSAGE_INBOUND"
    "process_atom E now' fault a \<lparr>vlt = crash v, ctl_conn = crash (ctl_conn i), fresh = us\<rparr> = (r, j)"
  shows "vlt j = v \<and> ctl_conn j = crash (ctl_conn i) \<and> search_documents (work v) = search_documents (work (vlt i)) \<and>
    (\<exists>m. messages (work v) = messages (work (vlt i)) @ [m] \<and> msg_direction m = In \<and> msg_window_eligible m) \<and>
    (\<forall>cid x c. rebuild_window_from_evidence (work (vlt j)) cid (ctl_conn j) = (Inr x, c) \<longrightarrow>
       last_inbound (work c) cid = evidence_ms (work v) cid)"
proof -
  from assms(1,2) obtain fam key rws ev us1 us' ap d1 d2 where
    s: "semantic_key (ie_crypto E) (ie_pint E) a = Inr (fam, key)" "to_rows (ie_pint E) a = Inr rws"
    and e: "event_key ev = (''meta'', key)" "ins_event ev (work (vlt i)) = Inr d1" "apply_rows rws us1 d1 = (Inr ap, us', d2)"
    and v: "v = commit ((vlt i)\<lparr>work := d2\<rparr>)" by (rule committed_stored)
  have cv: "crash v = v" by (simp add: v crash_def commit_def)
  have "in_ledger E (work v) a" using applied_grown(2) [OF e(2,3)] e(1) s(1) by (auto simp: in_ledger_def v)
  then have seen: "vlt j = v \<and> ctl_conn j = crash (ctl_conn i)"
    using process_atom_seen [OF _ _ assms(4)] by (simp add: cv) (simp add: v)
  have d1: "d1 = (work (vlt i))\<lparr>ingest_events := ingest_events (work (vlt i)) @ [ev]\<rparr>" using ins_vault_Inr(6) [OF e(2)] by simp
  from to_rows_inbound [OF s(2) assms(3)] obtain m where m: "rws = MessageRows MESSAGE_INBOUND m" "\<not> mr_echo m" "mr_window_eligible m"
    by (cases rws) auto
  have "\<exists>row. messages d2 = messages (work (vlt i)) @ [row] \<and> msg_direction row = In \<and> msg_window_eligible row"
    using e(3) [unfolded m(1)]
  proof (cases rule: apply_message_cases)
    case (stored aid cid vid d3 us3 row)
    have "msg_direction row = In" "msg_window_eligible row" using stored(4) m(2,3)
      by (auto simp: message_row_def split: sum.splits prod.splits if_splits option.splits)
    moreover have "messages d2 = messages d1 @ [row]" using stored(1) ins_vault_Inr(4) [OF stored(5)] by (simp add: directory_frame_def)
    ultimately show ?thesis by (simp add: d1)
  qed simp
  moreover have "search_documents d2 = search_documents (work (vlt i))" using apply_rows_search [OF e(3)] by (simp add: d1)
  ultimately show ?thesis using seen rebuild_window_exact(1) by (auto simp: v)
qed

theorem lost_projection_not_retried_witness:
  "\<exists>v r j. committed demo_ingest 100 torn_atom house_ingest = Some v \<and>
     process_atom demo_ingest 200 None torn_atom \<lparr>vlt = crash v, ctl_conn = crash enrolled, fresh = demo_ids\<rparr> = (r, j) \<and>
     vlt j = v \<and> ctl_conn j = crash enrolled \<and> search_documents (work v) = [] \<and>
     (\<exists>m. messages (work v) = [m] \<and> msg_direction m = In \<and> msg_window_eligible m)"
proof -
  obtain v where v: "committed demo_ingest 100 torn_atom house_ingest = Some v" using torn_example(2) by blast
  obtain r j where j: "process_atom demo_ingest 200 None torn_atom \<lparr>vlt = crash v, ctl_conn = crash enrolled, fresh = demo_ids\<rparr> = (r, j)"
    by force
  have h: "ctl_conn house_ingest = enrolled" "messages (work (vlt house_ingest)) = []" "search_documents (work (vlt house_ingest)) = []"
    by (simp_all add: house_ingest_def) (simp_all add: empty_vault_def)
  from lost_projection_not_retried [OF torn_example(1) v torn_example(3), of 200 None demo_ids r j] j v show ?thesis
    by (auto simp: h)
qed

text \<open>
  C17. The deduplication key of an event is the hash of a preimage of its identity, and two preimages coincide
  exactly when the identities do (a missing recipient is not told apart from one reserved text).
\<close>

theorem event_keys_determine:
  "case (semantic_ident to_i a, semantic_ident to_i b) of
     (Inr i, Inr j) \<Rightarrow>
       (case (ident_preimage i, ident_preimage j) of
          (Inr x, Inr y) \<Rightarrow>
            semantic_key C to_i a = Inr (classify a, hex_of (sha256 C x)) \<and> semantic_key C to_i b = Inr (classify b, hex_of (sha256 C y)) \<and>
            (x = y) = (norm_ident i = norm_ident j)
        | _ \<Rightarrow> True)
   | _ \<Rightarrow> True"
proof -
  have norm: "ident_preimage (norm_ident i) = ident_preimage i" for i
    by (cases i rule: norm_ident.cases) (simp_all add: status_parts_def split: option.splits)
  have "x = y \<longleftrightarrow> norm_ident i = norm_ident j" if "ident_preimage i = Inr x" "ident_preimage j = Inr y" for i j x y
    using that norm [of i] norm [of j] ident_preimage_inject [of i x j] by auto
  then show ?thesis by (simp add: semantic_key_def split: sum.split)
qed

text \<open>
  C18. The live path never opens a conversation window beyond the evidence: if no window is later than the
  last eligible inbound message of its conversation, that is still so after any payload, raising or not, and
  no window moves back.
\<close>

theorem windows_within_evidence:
  assumes "ing_ok s" "windows_ok (work (ctl_conn s))" "window_sound (work (vlt s)) (work (ctl_conn s))"
  shows "case process_payload E pt now fault s of (r, s') \<Rightarrow>
     window_sound (work (vlt s')) (work (ctl_conn s')) \<and> windows_ok (work (ctl_conn s')) \<and> ing_ok s' \<and>
     (\<forall>j. last_inbound (work (ctl_conn s)) j \<le> last_inbound (work (ctl_conn s')) j)"
proof -
  obtain r s' where p: "process_payload E pt now fault s = (r, s')" by (rule prod.exhaust)
  show ?thesis using process_payload_sound [OF assms(1) p assms(3,2)] process_payload_ok [OF assms(1) p] assms(2) p
    by (simp add: forward_def)
qed

theorem windows_within_evidence_witness:
  "\<exists>s'. process_payload demo_ingest [42] 100 None demo_state = (Inr (), s') \<and> window_sound (work (vlt s')) (work (ctl_conn s'))"
proof -
  have w: "windows_ok (work (ctl_conn demo_state))" "window_sound (work (vlt demo_state)) (work (ctl_conn demo_state))"
    by (simp_all add: windows_ok_def window_sound_def last_inbound_def demo_state_def connect_def empty_control_def)
  obtain s' where p: "process_payload demo_ingest [42] 100 None demo_state = (Inr (), s')"
    using demo_processed by (metis prod.exhaust_sel)
  from windows_within_evidence [OF demo_state_ok w, of demo_ingest "[42]" 100 None] p show ?thesis by simp
qed

text \<open>
  C19. The doctor's rebuild sets a window to its evidence exactly, leaves every other window alone, reports
  the drift it found, finds none when it runs again, and refuses only evidence that is no time.
\<close>

theorem window_rebuild_exact:
  "case rebuild_window_from_evidence d cid c of (r, c') \<Rightarrow>
     (case r of Inl e \<Rightarrow> evidence_ms d cid < 0 \<and> c' = c
      | Inr (ev, was, changed) \<Rightarrow> ev = evidence_ms d cid \<and> was = last_inbound (work c) cid \<and> changed = (was \<noteq> ev) \<and>
          last_inbound (work c') = (last_inbound (work c))(cid := ev) \<and>
          rebuild_window_from_evidence d cid c' = (Inr (ev, ev, False), c'))"
proof (cases "last_inbound (work c) cid = evidence_ms d cid")
  case True
  then have "rebuild_window_from_evidence d cid c = (Inr (evidence_ms d cid, evidence_ms d cid, False), c)"
    by (simp add: rebuild_window_from_evidence_def repair_window_def Let_def)
  with True show ?thesis by (auto simp: fun_eq_iff)
next
  case False
  show ?thesis
  proof (cases "upsert_window cid (evidence_ms d cid) (work c)")
    case (Inl e)
    have "evidence_ms d cid < 0" using upsert_window_total [of "evidence_ms d cid" cid "work c"] Inl by force
    with Inl False show ?thesis by (simp add: rebuild_window_from_evidence_def repair_window_def Let_def)
  next
    case (Inr w)
    from upsert_window_lookup [OF this] have "last_inbound w = (last_inbound (work c))(cid := evidence_ms d cid)"
      by (simp add: fun_eq_iff)
    with Inr False show ?thesis by (simp add: rebuild_window_from_evidence_def repair_window_def Let_def)
  qed
qed

text \<open>
  C20. The delivery status of a message is a function of the set of its status events: neither their order nor
  their repetition matters, and the rank stays within the lattice.
\<close>

theorem status_reduction_reference:
  "reduce_status es = status_reference (set es) \<and> sv_delivery_rank (reduce_status es) \<le> 3"
  using reduce_status_reference reduce_status_rank by blast

text \<open>
  C21. What the edge seals for a device key the consumer opens under the private key of that id: the
  plaintext, and the header fields it was sealed with. (A size that the format cannot hold is refused by the
  sealer.)
\<close>

theorem edge_envelope_roundtrip:
  assumes "gcm_opens S" "x_agrees S" "length nonce = 12"
    "key_lookup (sa_key_id a) = Some priv"
  shows "case seal_edge S eph nonce (x_pub S priv) pt a of Inl e \<Rightarrow> True
    | Inr env \<Rightarrow> (\<exists>hdr. open_edge C S key_lookup env = Inr (pt, hdr) \<and> eh_recipient_key_id hdr = sa_key_id a \<and>
    eh_event_id_hash hdr = sa_event_id_hash a \<and> eh_envelope_version hdr = sa_envelope_version a \<and>
    eh_algorithm_id hdr = sa_algorithm_id a \<and> eh_crypto_version hdr = sa_crypto_version a)"
proof (cases "seal_edge S eph nonce (x_pub S priv) pt a")
  case (Inr env)
  from open_seal_edge [where key_lookup = key_lookup and a = a and C = C, OF assms(1-3) Inr assms(4)] Inr show ?thesis by simp
qed simp

theorem edge_envelope_roundtrip_witness:
  "\<exists>hdr. seal_edge demo_sealing [8] (replicate 12 0) (x_pub demo_sealing [9]) [42] demo_seal_args = Inr demo_body \<and>
     open_edge demo_crypto demo_sealing (ie_lookup demo_ingest) demo_body = Inr ([42], hdr) \<and> eh_recipient_key_id hdr = 1"
  using edge_envelope_roundtrip [OF demo_sealing_laws(1,2), where nonce = "replicate 12 0" and key_lookup = "ie_lookup demo_ingest"
      and a = demo_seal_args and priv = "[9]" and eph = "[8]" and pt = "[42]" and C = demo_crypto] demo_sealed
  by (auto simp: demo_ingest_def demo_seal_args_def)

section \<open>The public surface\<close>



text \<open>
  C23. In every state such a run reaches, at most 25 authorizations wait unapproved, each grant has at most
  one live access and one live refresh token, and every token is read-only and belongs to a grant, in the
  working and in the durable state.
\<close>

theorem oauth_state_bounded:
  assumes "(web_step E G A)\<^sup>*\<^sup>* oauth_start s"
  shows "oauth_inv (work (ocon s)) \<and> oauth_inv (disk (ocon s)) \<and> unapproved (work (ocon s)) \<le> 25 \<and>
    (\<forall>g k. live_count (work (ocon s)) g k \<le> 1) \<and>
    list_all (\<lambda>r. tok_scope r = READ_ONLY_SCOPE \<and> tok_grant_id r \<noteq> None) (oauth_tokens (work (ocon s)))"
  using run_inv_reachable [OF web_reachable [OF assms]]
  by (auto simp: run_inv_def oauth_inv_def pending_ok_def tokens_ok_def MAX_PENDING_def list_all_iff)

theorem oauth_state_bounded_witness:
  "length (oauth_tokens (work (ocon web_done))) = 2 \<and>
   list_all (\<lambda>r. tok_scope r = READ_ONLY_SCOPE \<and> tok_grant_id r \<noteq> None) (oauth_tokens (work (ocon web_done)))"
proof -
  have "length (oauth_tokens (work c_granted)) = 2" by code_simp
  then show ?thesis using oauth_state_bounded [OF web_run] by (simp add: web_done_def)
qed


text \<open>
  C25. After \<open>revoke_all\<close> no token is live; when it reports success this is durable and no bearer
  is let through by the gate.
\<close>

theorem revoke_all_kills:
  "case revoke_all C u key now c of (r, c') \<Rightarrow>
     filter live (oauth_tokens (work c')) = [] \<and>
     (case r of Inl e \<Rightarrow> disk c' = disk c \<or> clean c'
      | Inr n \<Rightarrow> clean c' \<and> (\<nexists>tok at. live_access C (disk c') tok at))"
proof -
  obtain r c' where e: "revoke_all C u key now c = (r, c')" by (rule prod.exhaust)
  note d = revoke_all_dead [OF e] and w = revoke_all_work [OF e]
  have 1: "filter live (oauth_tokens (work c')) = []" using d by (simp add: filter_empty_conv)
  show ?thesis
  proof (cases r)
    case (Inl x)
    with 1 w(2) e show ?thesis by (auto simp: clean_def)
  next
    case (Inr n)
    have cl: "clean c'" by (rule w(3)) (use Inr in simp)
    then have "\<not> live_access C (disk c') tok at" for tok at
      using d by (auto simp: live_access_def live_def clean_disk)
    with 1 cl Inr e show ?thesis by simp
  qed
qed

text \<open>
  C26. A request that the gate lets through to the tools has presented, on a path that the OAuth routes do not
  own, the static token or, on a public deployment, a live access token; it changed nothing on the way.
\<close>

theorem forwarded_authenticated:
  "case serve E G A W now q msgs c of
     (Forward, c') \<Rightarrow> sc_type q = ''lifespan'' \<or>
       (c' = c \<and> (\<exists>path tok. target q = Inr path \<and> \<not> owns path \<and> \<not> owns (sc_path q) \<and> bearer_of E q = Some tok \<and>
          (tok = gt_token G \<and> tok \<noteq> [] \<or> gt_public G \<and> live_access (hp_crypto E) (work c) tok now)))
   | _ \<Rightarrow> True"
proof -
  obtain r c' where s: "serve E G A W now q msgs c = (r, c')" by (rule prod.exhaust)
  show ?thesis
  proof (cases "r = Forward \<and> sc_type q \<noteq> ''lifespan''")
    case True
    then have s': "serve E G A W now q msgs c = (Forward, c')" using s by simp
    from forwarded_request [OF s'] True s' show ?thesis by simp
  next
    case False
    then show ?thesis using s by (auto split: Http.outcome.splits)
  qed
qed







text \<open>
  C31. Rebuilding the search index leaves, durably, exactly one current document for every message with text,
  the full-text tables in step with them, and no orphan, missing or stale row; no message changes.
\<close>

theorem rebuild_heals_index:
  assumes "distinct (map msg_id (messages (work c)))"
  shows "case rebuild_all U c of (n, c') \<Rightarrow>
     clean c' \<and> index_ok (work c') \<and> n = length (search_documents (work c')) \<and> messages (work c') = messages (work c) \<and>
     orphans (work c') = 0 \<and> missing (work c') = 0 \<and> stale (work c') = 0 \<and>
     list_all2 (\<lambda>m r. indexed U (msg_id m) (msg_text_original m) r) (with_text (work c)) (search_documents (work c'))"
proof -
  obtain n c' where r: "rebuild_all U c = (n, c')" by (rule prod.exhaust)
  with rebuild_all_exact [OF assms r] rebuild_clears [OF assms r] show ?thesis by simp
qed

theorem rebuild_heals_index_witness:
  "missing demo_vault = 2 \<and> (case rebuild_all demo_unicode (connect demo_vault) of (n, c') \<Rightarrow>
     index_ok (work c') \<and> missing (work c') = 0 \<and> messages (work c') = messages demo_vault)"
proof -
  have "distinct (map msg_id (messages (work (connect demo_vault))))" by code_simp
  from rebuild_heals_index [OF this, of demo_unicode] have "case rebuild_all demo_unicode (connect demo_vault) of (n, c') \<Rightarrow>
     index_ok (work c') \<and> missing (work c') = 0 \<and> messages (work c') = messages demo_vault"
    by (auto simp: connect_def split: prod.splits)
  moreover have "missing demo_vault = 2" by code_simp
  ultimately show ?thesis by blast
qed

section \<open>Imports\<close>

text \<open>
  C32. Parsing a transcript succeeds exactly when every line that opens a record can be read to the end. The
  records are then the transcript cut into groups of lines: a preamble that opens nothing, then per record one
  group that shows it, at its offsets; lines that look like a header of another date family are reported in
  order.
\<close>

theorem transcript_is_grouped:
  "case parse_transcript T zones s family tz of
     Inl e \<Rightarrow> \<not> list_all (\<lambda>raw. if opens T family raw then usable T zones tz raw else True) (splitlines_keep s)
   | Inr rs \<Rightarrow> list_all (\<lambda>raw. if opens T family raw then usable T zones tz raw else True) (splitlines_keep s) \<and>
       (\<exists>noise gs. splitlines_keep s = noise @ concat gs \<and> filter (opens T family) noise = [] \<and>
          list_all2 (shows_entry T family) gs (entries (map snd rs)) \<and>
          located_all (length (concat noise)) gs (entries (map snd rs)) \<and>
          map fst (boundaries (map snd rs)) = map bare (filter (doubtful T family) (splitlines_keep s)) \<and>
          map fst rs = [0..<length rs])"
proof (cases "parse_transcript T zones s family tz")
  case (Inl e)
  with parse_transcript_iff [of T zones s family tz] show ?thesis by (auto simp: list_all_iff)
next
  case (Inr rs)
  obtain noise gs where "splitlines_keep s = noise @ concat gs" "\<forall>l\<in>set noise. \<not> opens T family l"
     "list_all2 (shows_entry T family) gs (entries (map snd rs))" "located_all (length (concat noise)) gs (entries (map snd rs))"
     "map fst (boundaries (map snd rs)) = map bare (filter (doubtful T family) (splitlines_keep s))" "map fst rs = [0..<length rs]"
    using parse_transcript_groups [OF Inr] by blast
  moreover from this(2) have "filter (opens T family) noise = []" by (simp add: filter_empty_conv)
  moreover have "list_all (\<lambda>raw. if opens T family raw then usable T zones tz raw else True) (splitlines_keep s)"
    using parse_transcript_iff [of T zones s family tz] Inr by (auto simp: list_all_iff)
  ultimately show ?thesis unfolding Inr sum.case by blast
qed

text \<open>
  C33. An import that fails leaves the vault as it was; one that succeeds has committed new messages, one
  observation per record, the batch, its participants and one source that cannot write, and nothing else.
\<close>

theorem import_all_or_nothing:
  "case import_batch E A us c of
     (Inl e, c') \<Rightarrow> c' = c \<or> c' = rollback c
   | (Inr res, c') \<Rightarrow> clean c' \<and> (\<exists>new os. import_effect A res (work c) (work c') new os)"
  using import_batch_atomic [where E = E and A = A and us = us and c = c] by (auto simp: clean_def split: prod.splits sum.splits)

text \<open>
  C34. Importing the same transcript again adds no message and observes as many records as the first time.
\<close>

theorem reimport_is_idempotent:
  assumes "import_batch E A us c = (Inr res, c1)" "provenance (work c)" "fresh_ids us2 (work c1)"
  shows "case import_batch E A us2 c1 of (r, c2) \<Rightarrow>
    (\<exists>res2. r = Inr res2 \<and> ir_added res2 = 0 \<and> ir_observations res2 = ir_observations res) \<and> messages (work c2) = messages (work c1)"
  using reimport_adds_nothing [OF assms] by auto

theorem reimport_is_idempotent_witness:
  "\<exists>res c1. import_batch demo_import_env demo_import_args demo_ids (connect demo_import_db) = (Inr res, c1) \<and> ir_added res = 1 \<and>
     (case import_batch demo_import_env demo_import_args other_ids c1 of (r, c2) \<Rightarrow>
        (\<exists>res2. r = Inr res2 \<and> ir_added res2 = 0) \<and> messages (work c2) = messages (work c1))"
proof -
  obtain res c1 where i: "import_batch demo_import_env demo_import_args demo_ids (connect demo_import_db) = (Inr res, c1)"
    "ir_added res = 1" "fresh_ids other_ids (work c1)" using demo_imported by blast
  have "provenance (work (connect demo_import_db))" using demo_import_ok(1) by (simp add: connect_def)
  from reimport_is_idempotent [OF i(1) this i(3)] i(1,2) show ?thesis by (auto split: prod.splits)
qed

text \<open>
  C35. Undoing an import right after it restores the messages, observations, participants and sources that
  were there before it, durably, and counts what the import counted.
\<close>

theorem undo_restores_vault:
  assumes "import_batch E A us c = (Inr res, c1)" "provenance (work c)" "vault_inv (work c)"
  shows "case undo_batch (ir_batch_id res) now c1 of (r, c2) \<Rightarrow>
    (\<exists>ur. r = Inr ur \<and> ur_messages_deleted ur = ir_added res \<and> ur_observations_deleted ur = ir_observations res) \<and> clean c2 \<and>
    messages (work c2) = messages (work c) \<and> message_import_observations (work c2) = message_import_observations (work c) \<and>
    import_participants (work c2) = import_participants (work c) \<and> conversation_sources (work c2) = conversation_sources (work c)"
  using undo_restores [OF assms, of now] by auto

theorem undo_restores_vault_witness:
  "\<exists>res c1. import_batch demo_import_env demo_import_args demo_ids (connect demo_import_db) = (Inr res, c1) \<and> ir_added res = 1 \<and>
     (case undo_batch (ir_batch_id res) 50 c1 of (r, c2) \<Rightarrow> messages (work c2) = messages demo_import_db)"
proof -
  obtain res c1 where i: "import_batch demo_import_env demo_import_args demo_ids (connect demo_import_db) = (Inr res, c1)"
    "ir_added res = 1" using demo_imported by blast
  have ok: "provenance (work (connect demo_import_db))" "vault_inv (work (connect demo_import_db))"
    using demo_import_ok by (simp_all add: connect_def)
  from undo_restores_vault [OF i(1) ok, of 50] i show ?thesis by (auto simp: connect_def split: prod.splits)
qed

text \<open>
  C36. Whatever an archive claims or expands to, the extraction writes at most the cap in bytes, opens no file
  outside the destination, and returns at most the cap in files.
\<close>

theorem extraction_bounded:
  "case safe_extract Z L dest_dir archive of (r, es) \<Rightarrow>
     written es \<le> zl_max_total_bytes L \<and>
     list_all (\<lambda>e. case file_of e of None \<Rightarrow> True | Some p \<Rightarrow> inside (ze_realpath Z dest_dir) p) es \<and>
     (case r of Inl e \<Rightarrow> True | Inr ps \<Rightarrow> length ps \<le> zl_max_files L)"
proof -
  obtain r es where s: "safe_extract Z L dest_dir archive = (r, es)" by (rule prod.exhaust)
  from safe_extract_bound [OF s] s show ?thesis by (auto simp: list_all_iff split: option.split sum.split)
qed

text \<open>
  C37. Decompression stops: of a stream that never ends no more reads are taken than there are bytes left
  under the cap, and one more.
\<close>

theorem decompression_stops:
  "copy_reads L dest rs sofar = copy_reads L dest (take (Suc (zl_max_total_bytes L - sofar)) rs) sofar"
  by (rule copy_reads_prefix) simp

section \<open>Provisioning and the command line\<close>

text \<open>
  C38. With any key store that keeps its contract, first-run initialisation replaces no key that can be
  loaded, drops no database file and never puts one under another key; when it reports success the four keys
  are there.
\<close>

theorem init_keeps_vaults:
  assumes "key_store provision require"
  shows "case init_vault provision require d0 run_script p reveal h of (r, h') \<Rightarrow>
     {(n, k, b). require n k (keys_of h) = Inr b} \<subseteq> {(n, k, b). require n k (keys_of h') = Inr b} \<and>
     keeps_files (files h) (files h') \<and>
     (case r of Inr (Ready rep tok) \<Rightarrow>
        list_all (has_key require (keys_of h'))
          [''whatsvault.vault.key.v1'', ''whatsvault.control.key.v1'', TOKEN_KEY_NAME, AUDIT_KEY_NAME]
      | _ \<Rightarrow> True)"
proof -
  obtain r h' where i: "init_vault provision require d0 run_script p reveal h = (r, h')" by (rule prod.exhaust)
  have k: "key_store.keeps require h h'" by (rule key_store.init_keeps [OF assms i])
  then have "keeps_files (files h) (files h')" "{(n, k, b). require n k (keys_of h) = Inr b} \<subseteq> {(n, k, b). require n k (keys_of h') = Inr b}"
    by (auto simp: key_store.keeps_def [OF assms] key_store.keeps_keys_def [OF assms])
  moreover have "list_all (has_key require (keys_of h'))
          [''whatsvault.vault.key.v1'', ''whatsvault.control.key.v1'', TOKEN_KEY_NAME, AUDIT_KEY_NAME]" if "r = Inr (Ready rep tok)" for rep tok
    using key_store.init_ready_keys [OF assms i [unfolded that]] by simp
  ultimately show ?thesis using i by (auto split: sum.split init_result.split)
qed

theorem init_keeps_vaults_witness:
  "\<exists>rep h'. init_vault (mem_provision (\<lambda>_. 7)) mem_require () (\<lambda>_ d. Inr d) \<lparr>home = ''v''\<rparr> False
       \<lparr>keys_of = (\<lambda>_. None), files = (\<lambda>_. None)\<rparr> = (Inr (Ready rep None), h') \<and>
     has_key mem_require (keys_of h') AUDIT_KEY_NAME"
proof -
  have "(case fst (init_vault (mem_provision (\<lambda>_. 7)) mem_require () (\<lambda>_ d. Inr d) \<lparr>home = ''v''\<rparr> False
       \<lparr>keys_of = (\<lambda>_. None), files = (\<lambda>_. None)\<rparr>) of Inr (Ready rep None) \<Rightarrow> True | _ \<Rightarrow> False)"
    by code_simp
  then obtain rep h' where i: "init_vault (mem_provision (\<lambda>_. 7)) mem_require () (\<lambda>_ d. Inr d) \<lparr>home = ''v''\<rparr> False
       \<lparr>keys_of = (\<lambda>_. None), files = (\<lambda>_. None)\<rparr> = (Inr (Ready rep None), h')"
    by (cases "init_vault (mem_provision (\<lambda>_. 7)) mem_require () (\<lambda>_ d. Inr d) \<lparr>home = ''v''\<rparr> False
       \<lparr>keys_of = (\<lambda>_. None), files = (\<lambda>_. None)\<rparr>") (auto split: sum.splits init_result.splits option.splits)
  from init_keeps_vaults [OF mem.key_store_axioms [of "\<lambda>_. 7"], where ?d0.0 = "()" and run_script = "\<lambda>_ d. Inr d"
      and p = "\<lparr>home = ''v''\<rparr>" and reveal = False and h = "\<lparr>keys_of = (\<lambda>_. None), files = (\<lambda>_. None)\<rparr>"] i
  show ?thesis by simp
qed

text \<open>
  C39. No command but \<open>init\<close> creates authority to send: drafts, approvals, nonces, attempts,
  grants and windows of the control database stay as they are, no device is enrolled and none becomes active
  again.
\<close>

theorem commands_create_no_authority:
  "case cli_main E run_script p verb a h of (r, h') \<Rightarrow>
     (case control_of p h of None \<Rightarrow> True
      | Some k \<Rightarrow> verb = ''init'' \<or> (\<exists>k'. control_of p h' = Some k' \<and> no_authority k k'))"
  using cli_main_quiet [of E run_script p verb a h] by (auto split: option.split prod.split)

text \<open>
  C40. An identifier carries its type: validation accepts exactly what was built with that prefix from a ULID,
  the prefix and the ULID can be read back, and no other pair builds the same text.
\<close>

theorem ids_are_typed:
  "(validate p v = Inr w) = (w = v \<and> (\<exists>u. is_ulid u \<and> new_id p u = Inr v)) \<and>
   (case new_id p u of Inl e \<Rightarrow> True
    | Inr i \<Rightarrow> {(q, x). new_id q x = Inr i} = {(p, u)} \<and> (if is_ulid u then parse_id i = Inr p else validate p i \<noteq> Inr i))"
proof -
  have "{(q, x). new_id q x = Inr i} = {(p, u)} \<and> (if is_ulid u then parse_id i = Inr p else validate p i \<noteq> Inr i)"
    if i: "new_id p u = Inr i" for i
  proof (intro conjI)
    show "{(q, x). new_id q x = Inr i} = {(p, u)}"
    proof (intro set_eqI iffI)
      fix z assume "z \<in> {(q, x). new_id q x = Inr i}"
      then obtain q x where "z = (q, x)" "new_id q x = Inr i" by auto
      with new_id_inject [OF this(2) i] show "z \<in> {(p, u)}" by simp
    qed (use i in simp)
    have "is_ulid u" if "validate p i = Inr i"
    proof -
      from that obtain x where x: "is_ulid x" "new_id p x = Inr i" unfolding validate_iff by blast
      with new_id_inject [OF x(2) i] show ?thesis by simp
    qed
    then show "if is_ulid u then parse_id i = Inr p else validate p i \<noteq> Inr i" using parse_new_id [OF i] by (simp split: if_split) blast
  qed
  then show ?thesis using validate_iff [of p v w] by (auto split: sum.split)
qed

end
